(* ===== verification/Go_Prelude.thy ===== *)
theory Go_Prelude
  imports Main "HOL-Library.Word"
begin

text \<open>
  Shared prelude of the credproxy development.

  Go strings and byte slices are byte sequences; they are modelled by \<^typ>\<open>string\<close>, a list of
  8-bit characters. This theory holds the functions of Go's packages strings, bytes and strconv
  that the sources under src/ use (TrimSpace, HasPrefix, Split, Join, EqualFold, ...), Go error
  values with their Unwrap chain, durations at their 64-bit width, and the generic lemmas on
  lists and association lists that the component theories share. The collections
  \<open>go_string\<close>, \<open>http_simps\<close> and \<open>step_inv\<close> gather the facts that drive the component proofs.
\<close>

named_theorems go_string
named_theorems http_simps
named_theorems step_inv

type_synonym bytes = string

text \<open>Byte ranges, as the character tests of the sources write them.\<close>

definition in_range :: "char \<Rightarrow> char \<Rightarrow> char \<Rightarrow> bool" where
  "in_range lo hi c \<longleftrightarrow> of_char lo \<le> (of_char c :: nat) \<and> (of_char c :: nat) \<le> of_char hi"

abbreviation is_lower :: "char \<Rightarrow> bool" where
  "is_lower \<equiv> in_range (CHR ''a'') (CHR ''z'')"

abbreviation is_upper :: "char \<Rightarrow> bool" where
  "is_upper \<equiv> in_range (CHR ''A'') (CHR ''Z'')"

abbreviation is_digit :: "char \<Rightarrow> bool" where
  "is_digit \<equiv> in_range (CHR ''0'') (CHR ''9'')"

definition byte_lower :: "char \<Rightarrow> char" where
  "byte_lower c = (if is_upper c then char_of ((of_char c :: nat) + 32) else c)"

definition byte_upper :: "char \<Rightarrow> char" where
  "byte_upper c = (if is_lower c then char_of ((of_char c :: nat) - 32) else c)"

text \<open>Prefixes and suffixes: strings.HasPrefix, TrimPrefix, HasSuffix, TrimSuffix.\<close>

definition HasPrefix :: "string \<Rightarrow> string \<Rightarrow> bool" where
  "HasPrefix s p \<longleftrightarrow> take (length p) s = p"

definition TrimPrefix :: "string \<Rightarrow> string \<Rightarrow> string" where
  "TrimPrefix s p = (if HasPrefix s p then drop (length p) s else s)"

definition HasSuffix :: "string \<Rightarrow> string \<Rightarrow> bool" where
  "HasSuffix s p \<longleftrightarrow> HasPrefix (rev s) (rev p)"

definition TrimSuffix :: "string \<Rightarrow> string \<Rightarrow> string" where
  "TrimSuffix s p = (if HasSuffix s p then take (length s - length p) s else s)"

text \<open>strings.Split on a one-byte separator, strings.Join and strings.IndexByte.\<close>

fun Split :: "string \<Rightarrow> char \<Rightarrow> string list" where
  "Split [] c = [[]]"
| "Split (x # xs) c =
     (if x = c then [] # Split xs c
      else (case Split xs c of [] \<Rightarrow> [[x]] | y # ys \<Rightarrow> (x # y) # ys))"

fun Join :: "string list \<Rightarrow> string \<Rightarrow> string" where
  "Join [] sep = []"
| "Join [s] sep = s"
| "Join (s # t # ss) sep = s @ sep @ Join (t # ss) sep"

fun IndexByte :: "string \<Rightarrow> char \<Rightarrow> nat option" where
  "IndexByte [] c = None"
| "IndexByte (x # xs) c = (if x = c then Some 0 else map_option Suc (IndexByte xs c))"

definition ContainsAny :: "string \<Rightarrow> string \<Rightarrow> bool" where
  "ContainsAny s chars = list_ex (\<lambda>c. c \<in> set chars) s"

text \<open>
  strings.TrimSpace removes white space as unicode.IsSpace defines it. The list holds the UTF-8
  encoding of every such code point: the six ASCII ones, U+0085, U+00A0, U+1680, U+2000 to
  U+200A, U+2028, U+2029, U+202F, U+205F and U+3000. No encoding is a proper suffix or prefix of
  another, so removing leading and trailing encodings is what the rune-by-rune loop does.
\<close>

definition space_runes :: "string list" where
  "space_runes =
     [[CHR 0x20], [CHR 0x09], [CHR 0x0A], [CHR 0x0B], [CHR 0x0C], [CHR 0x0D],
      [CHR 0xC2, CHR 0x85], [CHR 0xC2, CHR 0xA0], [CHR 0xE1, CHR 0x9A, CHR 0x80],
      [CHR 0xE2, CHR 0x80, CHR 0x80], [CHR 0xE2, CHR 0x80, CHR 0x81],
      [CHR 0xE2, CHR 0x80, CHR 0x82], [CHR 0xE2, CHR 0x80, CHR 0x83],
      [CHR 0xE2, CHR 0x80, CHR 0x84], [CHR 0xE2, CHR 0x80, CHR 0x85],
      [CHR 0xE2, CHR 0x80, CHR 0x86], [CHR 0xE2, CHR 0x80, CHR 0x87],
      [CHR 0xE2, CHR 0x80, CHR 0x88], [CHR 0xE2, CHR 0x80, CHR 0x89],
      [CHR 0xE2, CHR 0x80, CHR 0x8A], [CHR 0xE2, CHR 0x80, CHR 0xA8],
      [CHR 0xE2, CHR 0x80, CHR 0xA9], [CHR 0xE2, CHR 0x80, CHR 0xAF],
      [CHR 0xE2, CHR 0x81, CHR 0x9F], [CHR 0xE3, CHR 0x80, CHR 0x80]]"

fun strip_first :: "string list \<Rightarrow> string \<Rightarrow> string option" where
  "strip_first [] s = None"
| "strip_first (p # ps) s =
     (if p \<noteq> [] \<and> HasPrefix s p then Some (drop (length p) s) else strip_first ps s)"

lemma strip_first_shorter: "strip_first ps s = Some t \<Longrightarrow> length t < length s"
proof (induction ps s rule: strip_first.induct)
  case (2 p ps s)
  show ?case
  proof (cases "p \<noteq> [] \<and> HasPrefix s p")
    case True
    then have "length p \<le> length s" and "0 < length p"
      by (auto simp: HasPrefix_def) (metis length_take min.cobounded1)
    moreover from True "2.prems" have "t = drop (length p) s" by auto
    ultimately show ?thesis by (metis diff_less length_drop order_less_le_trans)
  next
    case False
    with "2.prems" have "strip_first ps s = Some t" by auto
    with False "2.IH" show ?thesis by blast
  qed
qed simp

function strip_all :: "string list \<Rightarrow> string \<Rightarrow> string" where
  "strip_all ps s = (case strip_first ps s of None \<Rightarrow> s | Some t \<Rightarrow> strip_all ps t)"
  by pat_completeness auto
termination
  by (relation "measure (\<lambda>(ps, s). length s)") (auto dest: strip_first_shorter)

declare strip_all.simps [simp del]

definition TrimSpace :: "string \<Rightarrow> string" where
  "TrimSpace s = rev (strip_all (map rev space_runes) (rev (strip_all space_runes s)))"

text \<open>
  strings.EqualFold. Simple case folding identifies the ASCII letters of both cases, the long s
  (U+017F) with s and the Kelvin sign (U+212A) with k; no other code point folds to an ASCII
  one. The comparison below is therefore exact whenever one of the two strings is ASCII, which
  the scheme name and every Windows SID are.
\<close>

fun fold_bytes :: "string \<Rightarrow> string" where
  "fold_bytes [] = []"
| "fold_bytes (c # s) =
     (case s of
        d # s' \<Rightarrow>
          if c = CHR 0xC5 \<and> d = CHR 0xBF then CHR ''s'' # fold_bytes s'
          else (case s' of
              e # s'' \<Rightarrow>
                if c = CHR 0xE2 \<and> d = CHR 0x84 \<and> e = CHR 0xAA then CHR ''k'' # fold_bytes s''
                else byte_lower c # fold_bytes s
            | [] \<Rightarrow> byte_lower c # fold_bytes s)
      | [] \<Rightarrow> [byte_lower c])"

definition EqualFold :: "string \<Rightarrow> string \<Rightarrow> bool" where
  "EqualFold s t \<longleftrightarrow> fold_bytes s = fold_bytes t"

text \<open>strconv.FormatUint and FormatInt in base 10.\<close>

fun decimal :: "nat \<Rightarrow> string" where
  "decimal n = (if n < 10 then [char_of (48 + n)] else decimal (n div 10) @ [char_of (48 + n mod 10)])"

declare decimal.simps [simp del]

definition FormatInt :: "int \<Rightarrow> string" where
  "FormatInt i = (if i < 0 then CHR ''-'' # decimal (nat (- i)) else decimal (nat i))"

text \<open>
  Go error values: an errors.New or fmt.Errorf without a wrapped error, a message that wraps
  another error at its end with the %w verb, a message that holds the wrapped error's text
  somewhere else, and the \<open>ReasonError\<close> of credproxy/errors.go whose \<open>Err\<close> may be nil.
\<close>

datatype go_error =
    PlainError string
  | WrapError string go_error
  | FormatError string go_error
  | ReasonError (Reason: string) (Err: "go_error option")

text \<open>
  Durations are int64 nanoseconds and wrap; instants are nanoseconds since the Unix epoch.
  \<open>zeroTime\<close> is time.Time{}, the first instant of year 1, which IsZero recognises.
\<close>

type_synonym duration = "64 word"
type_synonym instant = int

definition second :: duration where
  "second = 1000000000"

definition zeroTime :: instant where
  "zeroTime = -62135596800000000000"

definition time_Add :: "instant \<Rightarrow> duration \<Rightarrow> instant" where
  "time_Add t d = t + sint d"

definition seconds_of :: "64 word \<Rightarrow> duration" where
  "seconds_of n = n * second"


section \<open>Lemmas on strings\<close>

lemma HasPrefix_append [simp, go_string]: "HasPrefix (p @ s) p"
  by (simp add: HasPrefix_def)

lemma HasPrefix_iff: "HasPrefix s p \<longleftrightarrow> (\<exists>t. s = p @ t)"
  by (metis HasPrefix_append HasPrefix_def append_take_drop_id)

lemma HasPrefix_Nil [simp]: "HasPrefix s []"
  by (simp add: HasPrefix_def)

lemma HasPrefix_Nil_left [simp]: "HasPrefix [] p \<longleftrightarrow> p = []"
  by (auto simp: HasPrefix_def)

lemma HasPrefix_Cons [simp]: "HasPrefix (x # s) (y # p) \<longleftrightarrow> x = y \<and> HasPrefix s p"
  by (auto simp: HasPrefix_def)

lemma HasSuffix_iff: "HasSuffix s p \<longleftrightarrow> (\<exists>t. s = t @ p)"
  unfolding HasSuffix_def HasPrefix_iff
  by (metis rev_append rev_rev_ident)

lemma TrimPrefix_append [simp, go_string]: "TrimPrefix (p @ s) p = s"
  by (simp add: TrimPrefix_def)

lemma TrimSuffix_append [simp, go_string]: "TrimSuffix (s @ p) p = s"
  by (auto simp: TrimSuffix_def HasSuffix_iff)

lemma TrimPrefix_id: "\<not> HasPrefix s p \<Longrightarrow> TrimPrefix s p = s"
  by (simp add: TrimPrefix_def)

lemma TrimSuffix_id: "\<not> HasSuffix s p \<Longrightarrow> TrimSuffix s p = s"
  by (simp add: TrimSuffix_def)

lemma ContainsAny_iff [go_string]: "ContainsAny s chars \<longleftrightarrow> set s \<inter> set chars \<noteq> {}"
  by (auto simp: ContainsAny_def list_ex_iff)

lemma Split_nonempty [simp]: "Split s c \<noteq> []"
  by (induction s) (auto split: list.splits)

lemma Split_no_sep: "t \<in> set (Split s c) \<Longrightarrow> c \<notin> set t"
  by (induction s arbitrary: t) (auto split: if_splits list.splits)

lemma Split_chars: "t \<in> set (Split s c) \<Longrightarrow> set t \<subseteq> set s"
  by (induction s arbitrary: t) (force split: if_splits list.splits)+

lemma Split_trivial: "c \<notin> set s \<Longrightarrow> Split s c = [s]"
  by (induction s) auto

lemma Split_append_sep: "c \<notin> set s \<Longrightarrow> Split (s @ c # t) c = s # Split t c"
  by (induction s) auto

lemma Join_Split: "Join (Split s c) [c] = s"
proof (induction s)
  case (Cons x s)
  obtain y ys where s: "Split s c = y # ys"
    by (cases "Split s c") auto
  with Cons show ?case by (cases ys) auto
qed simp

lemma Split_Join:
  "\<lbrakk>ts \<noteq> []; \<forall>t \<in> set ts. c \<notin> set t\<rbrakk> \<Longrightarrow> Split (Join ts [c]) c = ts"
proof (induction ts "[c]" rule: Join.induct)
  case (3 s t ss)
  then show ?case by (simp add: Split_append_sep)
qed (auto simp: Split_trivial)

lemma Split_append: "Split (s @ c # t) c = Split s c @ Split t c"
  by (induction s c rule: Split.induct) (auto simp: neq_Nil_conv split: list.splits)

lemma Join_append:
  "\<lbrakk>xs \<noteq> []; ys \<noteq> []\<rbrakk> \<Longrightarrow> Join (xs @ ys) sep = Join xs sep @ sep @ Join ys sep"
  by (induction xs sep rule: Join.induct) (auto simp: neq_Nil_conv)

lemma Split_eq_iff: "Split s c = Split t c \<longleftrightarrow> s = t"
  by (metis Join_Split)

lemma IndexByte_None: "IndexByte s c = None \<longleftrightarrow> c \<notin> set s"
  by (induction s) auto

lemma IndexByte_Some:
  "IndexByte s c = Some i \<longleftrightarrow> i < length s \<and> s ! i = c \<and> c \<notin> set (take i s)"
proof (induction s arbitrary: i)
  case (Cons x s)
  then show ?case by (cases i) auto
qed simp

lemma IndexByte_split: "IndexByte s c = Some i \<Longrightarrow> s = take i s @ c # drop (Suc i) s"
  by (metis IndexByte_Some id_take_nth_drop)

lemma IndexByte_append: "c \<notin> set s \<Longrightarrow> IndexByte (s @ c # t) c = Some (length s)"
  by (induction s) auto

subsection \<open>Trimming white space\<close>

lemma strip_first_suffix: "strip_first ps s = Some t \<Longrightarrow> \<exists>p \<in> set ps. p \<noteq> [] \<and> s = p @ t"
  by (induction ps s rule: strip_first.induct) (auto simp: HasPrefix_iff split: if_splits)

lemma strip_first_None: "strip_first ps s = None \<longleftrightarrow> (\<forall>p \<in> set ps. p \<noteq> [] \<longrightarrow> \<not> HasPrefix s p)"
  by (induction ps s rule: strip_first.induct) auto

lemma strip_all_stop: "strip_first ps s = None \<Longrightarrow> strip_all ps s = s"
  by (simp add: strip_all.simps)

lemma strip_all_None: "strip_first ps (strip_all ps s) = None"
proof (induction ps s rule: strip_all.induct)
  case (1 ps s)
  then show ?case by (cases "strip_first ps s") (simp_all add: strip_all.simps [of ps s])
qed

lemma strip_all_suffix: "\<exists>p. s = p @ strip_all ps s"
proof (induction ps s rule: strip_all.induct)
  case (1 ps s)
  show ?case
  proof (cases "strip_first ps s")
    case None
    then show ?thesis by (simp add: strip_all_stop)
  next
    case (Some t)
    then obtain p q where "s = p @ t" and "t = q @ strip_all ps t"
      using "1" strip_first_suffix by blast
    then have "s = (p @ q) @ strip_all ps t" by simp
    moreover from Some have "strip_all ps s = strip_all ps t" by (subst strip_all.simps) simp
    ultimately show ?thesis by metis
  qed
qed

lemma strip_first_prefix_None:
  "strip_first ps (s @ t) = None \<Longrightarrow> strip_first ps s = None"
  by (fastforce simp: strip_first_None HasPrefix_iff)

text \<open>A string is trimmed when it neither starts nor ends with a white-space encoding.\<close>

definition trimmed :: "string \<Rightarrow> bool" where
  "trimmed s \<longleftrightarrow> strip_first space_runes s = None \<and> strip_first (map rev space_runes) (rev s) = None"

lemma TrimSpace_trimmed [simp, go_string]: "trimmed (TrimSpace s)"
proof -
  let ?l = "strip_all space_runes s"
  let ?r = "strip_all (map rev space_runes) (rev ?l)"
  obtain p where "rev ?l = p @ ?r" using strip_all_suffix by blast
  then have "?l = rev ?r @ rev p" by (metis rev_append rev_rev_ident)
  then have "strip_first space_runes (rev ?r) = None"
    using strip_all_None [of space_runes s] by (metis strip_first_prefix_None)
  then show ?thesis
    by (simp add: trimmed_def TrimSpace_def strip_all_None)
qed

lemma TrimSpace_id [go_string]: "trimmed s \<Longrightarrow> TrimSpace s = s"
  by (simp add: trimmed_def TrimSpace_def strip_all_stop)

lemma TrimSpace_idem [simp]: "TrimSpace (TrimSpace s) = TrimSpace s"
  by (simp add: TrimSpace_id)

lemma TrimSpace_eq_iff: "TrimSpace s = s \<longleftrightarrow> trimmed s"
  by (metis TrimSpace_id TrimSpace_trimmed)

lemma TrimSpace_infix: "\<exists>p q. s = p @ TrimSpace s @ q"
proof -
  let ?l = "strip_all space_runes s"
  obtain p where p: "s = p @ ?l" using strip_all_suffix by blast
  obtain q where "rev ?l = q @ strip_all (map rev space_runes) (rev ?l)"
    using strip_all_suffix by blast
  then have "?l = TrimSpace s @ rev q"
    by (metis TrimSpace_def rev_append rev_rev_ident)
  with p show ?thesis by metis
qed

lemma set_TrimSpace: "set (TrimSpace s) \<subseteq> set s"
proof -
  obtain p q where "s = p @ TrimSpace s @ q" using TrimSpace_infix by blast
  then show ?thesis by (metis Un_iff set_append subsetI)
qed

lemma length_TrimSpace: "length (TrimSpace s) \<le> length s"
proof -
  obtain p q where "s = p @ TrimSpace s @ q" using TrimSpace_infix by blast
  then have "length s = length p + length (TrimSpace s) + length q"
    by (metis add.assoc length_append)
  then show ?thesis by simp
qed

definition space_byte :: "char \<Rightarrow> bool" where
  "space_byte c \<longleftrightarrow>
     List.member [CHR 0x20, CHR 0x09, CHR 0x0A, CHR 0x0B, CHR 0x0C, CHR 0x0D] c
     \<or> 128 \<le> (of_char c :: nat)"

lemma space_runes_all: "list_all (\<lambda>p. p \<noteq> [] \<and> list_all space_byte p) space_runes"
  by code_simp

lemma space_runes_bytes: "p \<in> set space_runes \<Longrightarrow> \<exists>c q. p = c # q \<and> space_byte c"
  using space_runes_all by (cases p) (auto simp: list_all_iff)

lemma space_runes_last: "p \<in> set space_runes \<Longrightarrow> \<exists>q c. p = q @ [c] \<and> space_byte c"
  using space_runes_all by (cases p rule: rev_cases) (auto simp: list_all_iff)

lemma trimmedI:
  assumes "s = [] \<or> (\<not> space_byte (hd s) \<and> \<not> space_byte (last s))"
  shows "trimmed s"
proof -
  have l: "\<not> HasPrefix s p" if "p \<in> set space_runes" for p
  proof -
    from space_runes_bytes [OF that] obtain c q where "p = c # q" "space_byte c" by blast
    with assms show ?thesis by (cases s) auto
  qed
  have r: "\<not> HasPrefix (rev s) (rev p)" if "p \<in> set space_runes" for p
  proof -
    from space_runes_last [OF that] obtain c q where "p = q @ [c]" "space_byte c" by blast
    with assms show ?thesis by (cases s rule: rev_cases) auto
  qed
  show ?thesis using l r by (auto simp: trimmed_def strip_first_None)
qed

lemma trimmed_no_space: "\<forall>c \<in> set s. \<not> space_byte c \<Longrightarrow> trimmed s"
  by (rule trimmedI) (metis hd_in_set last_in_set)

lemma TrimSpace_Nil [simp]: "TrimSpace [] = []"
  by (simp add: TrimSpace_id trimmedI)

text \<open>Decimal numerals are unambiguous.\<close>

definition numeral_value :: "string \<Rightarrow> nat" where
  "numeral_value ds = foldl (\<lambda>n d. 10 * n + (of_char d - 48)) 0 ds"

lemma numeral_value_decimal [simp]: "numeral_value (decimal n) = n"
proof (induction n rule: decimal.induct)
  case (1 n)
  have digit: "of_char (char_of (48 + d) :: char) - 48 = (d::nat)" if "d < 10" for d
    using that by simp
  show ?case
  proof (cases "n < 10")
    case True
    then show ?thesis using digit [of n] by (simp add: decimal.simps [of n] numeral_value_def)
  next
    case False
    with 1 have "foldl (\<lambda>n d. 10 * n + (of_char d - 48)) 0 (decimal (n div 10)) = n div 10"
      by (simp add: numeral_value_def)
    with False digit [of "n mod 10"] show ?thesis by (simp add: decimal.simps [of n] numeral_value_def)
  qed
qed

lemma decimal_inj: "decimal m = decimal n \<longleftrightarrow> m = n"
  by (metis numeral_value_decimal)

lemma find_SomeD: "find P xs = Some x \<Longrightarrow> x \<in> set xs \<and> P x"
  by (auto simp: find_Some_iff)

section \<open>Go maps as association lists\<close>

fun map_put :: "('k \<times> 'v) list \<Rightarrow> 'k \<Rightarrow> 'v \<Rightarrow> ('k \<times> 'v) list" where
  "map_put [] k v = [(k, v)]"
| "map_put ((k', v') # m) k v = (if k' = k then (k, v) # m else (k', v') # map_put m k v)"

definition map_copy :: "('k \<times> 'v) list \<Rightarrow> ('k \<times> 'v) list" where
  "map_copy m = foldl (\<lambda>acc (k, v). map_put acc k v) [] m"

lemma map_of_map_put [simp]: "map_of (map_put m k v) = (map_of m)(k \<mapsto> v)"
  by (induction m k v rule: map_put.induct) auto

lemma keys_map_put: "fst ` set (map_put m k v) = insert k (fst ` set m)"
  by (induction m k v rule: map_put.induct) auto

lemma distinct_map_put [step_inv]: "distinct (map fst m) \<Longrightarrow> distinct (map fst (map_put m k v))"
  by (induction m k v rule: map_put.induct) (auto simp: keys_map_put)

lemma map_put_fresh: "k \<notin> fst ` set m \<Longrightarrow> map_put m k v = m @ [(k, v)]"
  by (induction m k v rule: map_put.induct) auto

lemma foldl_map_put_fresh:
  "\<lbrakk>distinct (map fst m); fst ` set m \<inter> fst ` set acc = {}\<rbrakk>
     \<Longrightarrow> foldl (\<lambda>acc (k, v). map_put acc k v) acc m = acc @ m"
  by (induction m arbitrary: acc) (auto simp: map_put_fresh)

lemma map_copy_id [simp]: "distinct (map fst m) \<Longrightarrow> map_copy m = m"
  by (simp add: map_copy_def foldl_map_put_fresh)

lemma distinct_map_copy [step_inv]: "distinct (map fst (map_copy m))"
proof -
  have "distinct (map fst acc) \<Longrightarrow> distinct (map fst (foldl (\<lambda>acc (k, v). map_put acc k v) acc m))" for acc
    by (induction m arbitrary: acc) (auto simp: distinct_map_put)
  then show ?thesis by (simp add: map_copy_def)
qed

lemma map_of_permute:
  "\<lbrakk>distinct (map fst xs); distinct (map fst ys); set xs = set ys\<rbrakk> \<Longrightarrow> map_of xs = map_of ys"
  by (simp add: map_of_inject_set)

end
