(* ===== verification/Go_Url.thy ===== *)
theory Go_Url
  imports Go_Prelude "HOL-Library.Char_ord" "HOL-Library.List_Lexorder"
begin

text \<open>
  The part of Go's net/url and of net/http's path handling that credproxy relies on: percent
  encoding in its query and path modes, query values with ParseQuery, Set and Encode,
  EscapedPath, and the URL joining that httputil.ProxyRequest.SetURL performs. The component
  theories use these functions; nothing here maps to a file under src/.
\<close>

record url =
  Scheme :: string
  UrlHost :: string
  Path :: string
  RawPath :: string
  RawQuery :: string

section \<open>Percent encoding\<close>

definition hex_char :: "nat \<Rightarrow> char" where
  "hex_char n = (if n < 10 then char_of (48 + n) else char_of (55 + n))"

definition unhex :: "char \<Rightarrow> nat option" where
  "unhex c =
     (if is_digit c then Some (of_char c - 48)
      else if in_range (CHR ''a'') (CHR ''f'') c then Some (of_char c - 87)
      else if in_range (CHR ''A'') (CHR ''F'') c then Some (of_char c - 55)
      else None)"

definition unreserved :: "char \<Rightarrow> bool" where
  "unreserved c \<longleftrightarrow> is_lower c \<or> is_upper c \<or> is_digit c \<or> List.member ''-_.~'' c"

definition pct :: "char \<Rightarrow> string" where
  "pct c = [CHR ''%'', hex_char (of_char c div 16), hex_char (of_char c mod 16)]"

definition query_escape_char :: "char \<Rightarrow> string" where
  "query_escape_char c = (if unreserved c then [c] else if c = CHR '' '' then ''+'' else pct c)"

definition QueryEscape :: "string \<Rightarrow> string" where
  "QueryEscape s = concat (map query_escape_char s)"

definition path_escape_char :: "char \<Rightarrow> string" where
  "path_escape_char c = (if unreserved c \<or> List.member ''$&+,/:;=@'' c then [c] else pct c)"

fun unescape :: "bool \<Rightarrow> string \<Rightarrow> string option" where
  "unescape query [] = Some []"
| "unescape query (c # s) =
     (if c = CHR ''%'' then
        (case s of
           a # b # r \<Rightarrow>
             (case (unhex a, unhex b) of
                (Some x, Some y) \<Rightarrow> map_option ((#) (char_of (16 * x + y))) (unescape query r)
              | _ \<Rightarrow> None)
         | _ \<Rightarrow> None)
      else map_option ((#) (if query \<and> c = CHR ''+'' then CHR '' '' else c)) (unescape query s))"

definition QueryUnescape :: "string \<Rightarrow> string option" where
  "QueryUnescape = unescape True"

definition PathUnescape :: "string \<Rightarrow> string option" where
  "PathUnescape = unescape False"

text \<open>URL.EscapedPath: a RawPath that is a valid encoding of Path wins.\<close>

definition validEncodedPath :: "string \<Rightarrow> bool" where
  "validEncodedPath s =
     list_all (\<lambda>c. List.member ''!$&()*+,;=:@[]%'' c \<or> c = CHR 0x27
                    \<or> path_escape_char c = [c]) s"

definition EscapedPath :: "url \<Rightarrow> string" where
  "EscapedPath u =
     (if RawPath u \<noteq> [] \<and> validEncodedPath (RawPath u) \<and> PathUnescape (RawPath u) = Some (Path u)
      then RawPath u
      else if Path u = ''*'' then ''*''
      else concat (map path_escape_char (Path u)))"

section \<open>Query values\<close>

type_synonym query_values = "(string \<times> string list) list"

fun values_add :: "query_values \<Rightarrow> string \<Rightarrow> string \<Rightarrow> query_values" where
  "values_add [] k v = [(k, [v])]"
| "values_add ((k', vs) # m) k v =
     (if k' = k then (k', vs @ [v]) # m else (k', vs) # values_add m k v)"

fun values_set :: "query_values \<Rightarrow> string \<Rightarrow> string \<Rightarrow> query_values" where
  "values_set [] k v = [(k, [v])]"
| "values_set ((k', vs) # m) k v =
     (if k' = k then (k', [v]) # m else (k', vs) # values_set m k v)"

definition values_lookup :: "query_values \<Rightarrow> string \<Rightarrow> string list" where
  "values_lookup m k = (case map_of m k of None \<Rightarrow> [] | Some vs \<Rightarrow> vs)"

text \<open>strings.Cut at the first separator byte.\<close>

definition Cut :: "string \<Rightarrow> char \<Rightarrow> string \<times> string" where
  "Cut s c = (case IndexByte s c of None \<Rightarrow> (s, []) | Some i \<Rightarrow> (take i s, drop (Suc i) s))"

definition parse_piece :: "query_values \<Rightarrow> string \<Rightarrow> query_values" where
  "parse_piece m piece =
     (if CHR '';'' \<in> set piece \<or> piece = [] then m
      else let (k, v) = Cut piece (CHR ''='') in
        case (QueryUnescape k, QueryUnescape v) of
          (Some k', Some v') \<Rightarrow> values_add m k' v'
        | _ \<Rightarrow> m)"

definition ParseQuery :: "string \<Rightarrow> query_values" where
  "ParseQuery q = foldl parse_piece [] (Split q (CHR ''&''))"

definition value_pairs :: "query_values \<Rightarrow> (string \<times> string) list" where
  "value_pairs m = concat (map (\<lambda>(k, vs). map (Pair k) vs) m)"

definition encode_pair :: "string \<times> string \<Rightarrow> string" where
  "encode_pair p = QueryEscape (fst p) @ ''='' @ QueryEscape (snd p)"

definition Encode :: "query_values \<Rightarrow> string" where
  "Encode m = Join (map encode_pair (value_pairs (sort_key fst m))) ''&''"

section \<open>Joining a request URL to an upstream\<close>

definition singleJoiningSlash :: "string \<Rightarrow> string \<Rightarrow> string" where
  "singleJoiningSlash a b =
     (if HasSuffix a ''/'' \<and> HasPrefix b ''/'' then a @ drop 1 b
      else if \<not> HasSuffix a ''/'' \<and> \<not> HasPrefix b ''/'' then a @ ''/'' @ b
      else a @ b)"

definition joinURLPath :: "url \<Rightarrow> url \<Rightarrow> string \<times> string" where
  "joinURLPath a b =
     (if RawPath a = [] \<and> RawPath b = [] then (singleJoiningSlash (Path a) (Path b), [])
      else let apath = EscapedPath a; bpath = EscapedPath b;
               aslash = HasSuffix apath ''/''; bslash = HasPrefix bpath ''/''
        in if aslash \<and> bslash then (Path a @ drop 1 (Path b), apath @ drop 1 bpath)
           else if \<not> aslash \<and> \<not> bslash then (Path a @ ''/'' @ Path b, apath @ ''/'' @ bpath)
           else (Path a @ Path b, apath @ bpath))"

text \<open>ProxyRequest.SetURL, applied to the outgoing URL.\<close>

definition rewriteURL :: "url \<Rightarrow> url \<Rightarrow> url" where
  "rewriteURL target u =
     (let (p, rp) = joinURLPath target u in
      u\<lparr>Scheme := Scheme target, UrlHost := UrlHost target, Path := p, RawPath := rp,
        RawQuery := (if RawQuery target = [] \<or> RawQuery u = []
                     then RawQuery target @ RawQuery u
                     else RawQuery target @ ''&'' @ RawQuery u)\<rparr>)"

text \<open>httputil's cleanQueryParams: re-encode a query that has a semicolon or a bad escape.\<close>

fun clean_escapes :: "string \<Rightarrow> bool" where
  "clean_escapes [] = True"
| "clean_escapes (c # s) =
     (if c = CHR '';'' then False
      else if c = CHR ''%'' then
        (case s of a # b # r \<Rightarrow> unhex a \<noteq> None \<and> unhex b \<noteq> None \<and> clean_escapes r | _ \<Rightarrow> False)
      else clean_escapes s)"

definition cleanQueryParams :: "string \<Rightarrow> string" where
  "cleanQueryParams s = (if clean_escapes s then s else Encode (ParseQuery s))"

section \<open>Lemmas\<close>

lemma less_16_cases: "n < (16::nat) \<Longrightarrow> n \<in> set [0..<16]"
  by simp

lemma hex_table:
  "list_all (\<lambda>n. unhex (hex_char n) = Some n \<and> unreserved (hex_char n)) [0..<16]"
  by (simp add: upt_rec hex_char_def unhex_def in_range_def unreserved_def)

lemma unhex_hex_char [simp]: "n < 16 \<Longrightarrow> unhex (hex_char n) = Some n"
  using hex_table less_16_cases unfolding list_all_iff by blast

lemma unreserved_hex_char: "n < 16 \<Longrightarrow> unreserved (hex_char n)"
  using hex_table less_16_cases unfolding list_all_iff by blast

lemma nibbles: "of_char c div 16 < (16::nat)" "of_char c mod 16 < (16::nat)"
  using nat_of_char_less_256 [of c] by (simp_all add: less_mult_imp_div_less)

lemma pct_unescape: "unescape q (pct c @ s) = map_option ((#) c) (unescape q s)"
proof -
  have "char_of (16 * (of_char c div 16) + of_char c mod (16::nat)) = c"
    by simp
  then show ?thesis by (simp add: pct_def nibbles)
qed

lemma unreserved_special: "unreserved c \<Longrightarrow> c \<noteq> CHR ''%'' \<and> c \<noteq> CHR ''+'' \<and> c \<noteq> CHR ''&''
    \<and> c \<noteq> CHR ''='' \<and> c \<noteq> CHR '';''"
  by (auto simp: unreserved_def in_range_def)

lemma QueryUnescape_QueryEscape [go_string]: "QueryUnescape (QueryEscape s) = Some s"
proof (induction s)
  case (Cons c s)
  then have IH: "unescape True (concat (map query_escape_char s)) = Some s"
    by (simp add: QueryUnescape_def QueryEscape_def)
  show ?case
    using unreserved_special [of c]
    by (simp add: QueryUnescape_def QueryEscape_def query_escape_char_def pct_unescape IH)
qed (simp add: QueryUnescape_def QueryEscape_def)

lemma pct_chars: "x \<in> set (pct c) \<Longrightarrow> x = CHR ''%'' \<or> unreserved x"
  by (auto simp: pct_def intro!: unreserved_hex_char nibbles)

lemma QueryEscape_chars:
  "x \<in> set (QueryEscape s) \<Longrightarrow> x \<noteq> CHR ''&'' \<and> x \<noteq> CHR ''='' \<and> x \<noteq> CHR '';''"
  by (auto simp: QueryEscape_def query_escape_char_def split: if_splits
      dest: unreserved_special pct_chars)

lemma encode_pair_chars:
  "x \<in> set (encode_pair p) \<Longrightarrow> x \<noteq> CHR ''&'' \<and> x \<noteq> CHR '';''"
  by (auto simp: encode_pair_def dest: QueryEscape_chars)

lemma parse_piece_encode_pair: "parse_piece m (encode_pair (k, v)) = values_add m k v"
proof -
  have "IndexByte (encode_pair (k, v)) (CHR ''='') = Some (length (QueryEscape k))"
    using QueryEscape_chars by (auto simp: encode_pair_def intro!: IndexByte_append)
  then have "Cut (encode_pair (k, v)) (CHR ''='') = (QueryEscape k, QueryEscape v)"
    by (simp add: Cut_def encode_pair_def)
  moreover have "CHR '';'' \<notin> set (encode_pair (k, v))" using encode_pair_chars by blast
  moreover have "encode_pair (k, v) \<noteq> []" by (simp add: encode_pair_def)
  ultimately show ?thesis by (simp add: parse_piece_def QueryUnescape_QueryEscape)
qed

lemma ParseQuery_Join:
  "ParseQuery (Join (map encode_pair ps) ''&'') = foldl (\<lambda>m (k, v). values_add m k v) [] ps"
proof (cases "ps = []")
  case False
  have "Split (Join (map encode_pair ps) ''&'') (CHR ''&'') = map encode_pair ps"
    using False by (intro Split_Join) (auto dest: encode_pair_chars)
  then show ?thesis
    by (simp add: ParseQuery_def foldl_map) (intro foldl_cong, auto simp: parse_piece_encode_pair)
qed (simp add: ParseQuery_def parse_piece_def)

lemma values_add_lookup [simp]:
  "values_lookup (values_add m k v) k' = values_lookup m k' @ (if k' = k then [v] else [])"
  by (induction m k v rule: values_add.induct) (auto simp: values_lookup_def)

lemma values_set_lookup [simp]:
  "values_lookup (values_set m k v) k' = (if k' = k then [v] else values_lookup m k')"
  by (induction m k v rule: values_set.induct) (auto simp: values_lookup_def)

lemma values_add_keys: "set (map fst (values_add m k v)) = insert k (set (map fst m))"
  by (induction m k v rule: values_add.induct) auto

lemma values_set_keys: "set (map fst (values_set m k v)) = insert k (set (map fst m))"
  by (induction m k v rule: values_set.induct) auto

lemma values_add_distinct: "distinct (map fst m) \<Longrightarrow> distinct (map fst (values_add m k v))"
  by (induction m k v rule: values_add.induct) (use values_add_keys in force)+

lemma values_set_distinct: "distinct (map fst m) \<Longrightarrow> distinct (map fst (values_set m k v))"
  by (induction m k v rule: values_set.induct) (use values_set_keys in force)+

lemma ParseQuery_distinct: "distinct (map fst (ParseQuery q))"
proof -
  have "distinct (map fst m) \<Longrightarrow> distinct (map fst (foldl parse_piece m ps))" for m ps
    by (induction ps arbitrary: m)
      (auto simp: parse_piece_def values_add_distinct split: option.splits prod.splits)
  then show ?thesis by (simp add: ParseQuery_def)
qed

lemma foldl_values_add_lookup:
  "values_lookup (foldl (\<lambda>m (k, v). values_add m k v) m ps) k =
     values_lookup m k @ map snd (filter (\<lambda>p. fst p = k) ps)"
  by (induction ps arbitrary: m) auto

lemma value_pairs_lookup:
  "distinct (map fst m) \<Longrightarrow>
     map snd (filter (\<lambda>p. fst p = k) (value_pairs m)) = values_lookup m k"
proof (induction m)
  case (Cons e m)
  obtain k' vs where e: "e = (k', vs)" by force
  have none: "filter (\<lambda>p. fst p = k) (value_pairs m) = []" if "k \<notin> set (map fst m)"
    using that by (force simp: value_pairs_def filter_empty_conv)
  from Cons.prems e have "map_of m k' = None" by (simp add: map_of_eq_None_iff)
  with Cons e none show ?case
    by (auto simp: value_pairs_def values_lookup_def filter_map comp_def)
qed (simp add: value_pairs_def values_lookup_def)

lemma values_lookup_sort: "distinct (map fst m) \<Longrightarrow> values_lookup (sort_key fst m) k = values_lookup m k"
proof -
  assume d: "distinct (map fst m)"
  then have "distinct (map fst (sort_key fst m))"
    by (metis distinct_map distinct_sort set_sort)
  with d have "map_of (sort_key fst m) = map_of m" by (intro map_of_permute) auto
  then show ?thesis by (simp add: values_lookup_def)
qed

text \<open>Encoding query values and parsing the result gives every key its values back.\<close>

lemma ParseQuery_Encode:
  assumes "distinct (map fst m)"
  shows "values_lookup (ParseQuery (Encode m)) k = values_lookup m k"
proof -
  have d: "distinct (map fst (sort_key fst m))"
    using assms by (metis distinct_map distinct_sort set_sort)
  have "values_lookup (ParseQuery (Encode m)) k = values_lookup (sort_key fst m) k"
    by (simp add: Encode_def ParseQuery_Join foldl_values_add_lookup value_pairs_lookup [OF d])
      (simp add: values_lookup_def)
  also have "\<dots> = values_lookup m k" using assms by (rule values_lookup_sort)
  finally show ?thesis .
qed

end
