(* ===== verification/Go_Http.thy ===== *)
theory Go_Http
  imports Go_Url
begin

text \<open>
  The part of Go's net/http, net/textproto and httputil that the proxy uses: headers with
  canonical keys, requests and responses, http.Error and http.NotFound, StripPrefix, limited
  body reads, the literal patterns of ServeMux, and what ReverseProxy does to an outgoing
  request (hop-by-hop headers, forwarding headers, query cleaning). Protocol upgrades
  (101 responses), trailers and 1xx responses are left out.
\<close>

section \<open>Headers\<close>

type_synonym header = "string \<rightharpoonup> string list"

definition token_byte :: "char \<Rightarrow> bool" where
  "token_byte c \<longleftrightarrow>
     is_lower c \<or> is_upper c \<or> is_digit c \<or> c = CHR 0x27 \<or> c = CHR 0x60
     \<or> List.member ''!#$%&*+-.^_|~'' c"

fun canon_bytes :: "bool \<Rightarrow> string \<Rightarrow> string" where
  "canon_bytes upper [] = []"
| "canon_bytes upper (c # s) =
     (if upper then byte_upper c else byte_lower c) # canon_bytes (c = CHR ''-'') s"

definition CanonicalHeaderKey :: "string \<Rightarrow> string" where
  "CanonicalHeaderKey s = (if list_all token_byte s then canon_bytes True s else s)"

definition Header_Set :: "header \<Rightarrow> string \<Rightarrow> string \<Rightarrow> header" where
  "Header_Set h k v = h(CanonicalHeaderKey k \<mapsto> [v])"

definition Header_Del :: "header \<Rightarrow> string \<Rightarrow> header" where
  "Header_Del h k = h(CanonicalHeaderKey k := None)"

definition Header_Values :: "header \<Rightarrow> string \<Rightarrow> string list" where
  "Header_Values h k = (case h (CanonicalHeaderKey k) of None \<Rightarrow> [] | Some vs \<Rightarrow> vs)"

definition Header_Get :: "header \<Rightarrow> string \<Rightarrow> string" where
  "Header_Get h k = (case Header_Values h k of [] \<Rightarrow> [] | v # _ \<Rightarrow> v)"

section \<open>Requests and responses\<close>

text \<open>
  A request body is a stream: the bytes it delivers and whether the reader fails after them.
  A content length of -1 means unknown.
\<close>

record body_stream =
  stream_data :: bytes
  stream_fails :: bool

record http_request =
  ReqMethod :: string
  URL :: url
  ReqHost :: string
  ReqHeader :: header
  Body :: body_stream
  ContentLength :: int

record http_response =
  StatusCode :: int
  RespHeader :: header
  RespBody :: bytes

definition http_Error :: "string \<Rightarrow> int \<Rightarrow> http_response" where
  "http_Error msg code =
     \<lparr>StatusCode = code,
      RespHeader = Header_Set (Header_Set Map.empty ''Content-Type'' ''text/plain; charset=utf-8'')
                     ''X-Content-Type-Options'' ''nosniff'',
      RespBody = msg @ [CHR 0x0A]\<rparr>"

definition http_NotFound :: http_response where
  "http_NotFound = http_Error ''404 page not found'' 404"

text \<open>A response written with w.Header().Set and w.Write only.\<close>

definition ok_response :: "string \<Rightarrow> bytes \<Rightarrow> http_response" where
  "ok_response ctype b =
     \<lparr>StatusCode = 200, RespHeader = Header_Set Map.empty ''Content-Type'' ctype, RespBody = b\<rparr>"

text \<open>io.ReadAll of an io.LimitReader with limit n: a reader that fails after n bytes is not
  asked for more.\<close>

definition read_limited :: "body_stream \<Rightarrow> nat \<Rightarrow> bytes option" where
  "read_limited b n =
     (if n \<le> length (stream_data b) then Some (take n (stream_data b))
      else if stream_fails b then None
      else Some (stream_data b))"

definition no_body :: body_stream where
  "no_body = \<lparr>stream_data = [], stream_fails = False\<rparr>"

text \<open>http.StripPrefix: the inner request, or None where it answers 404.\<close>

definition StripPrefix :: "string \<Rightarrow> http_request \<Rightarrow> http_request option" where
  "StripPrefix prefix r =
     (if prefix = [] then Some r
      else let u = URL r; p = TrimPrefix (Path u) prefix; rp = TrimPrefix (RawPath u) prefix
        in if length p < length (Path u) \<and> (RawPath u = [] \<or> length rp < length (RawPath u))
           then Some (r\<lparr>URL := u\<lparr>Path := p, RawPath := rp\<rparr>\<rparr>)
           else None)"

section \<open>ServeMux with literal patterns\<close>

text \<open>
  A pattern is a path without wildcards, method or host. One that ends in a slash matches the
  subtree below it, any other matches only itself. The request path is split into segments,
  each of which is unescaped before it is compared; the longest matching pattern wins.
\<close>

definition path_segs :: "string \<Rightarrow> string list option" where
  "path_segs p =
     (case Split p (CHR ''/'') of
        [] \<Rightarrow> None
      | s # ss \<Rightarrow> if s = [] \<and> ss \<noteq> [] then those (map PathUnescape ss) else None)"

definition literal_pattern :: "string \<Rightarrow> bool" where
  "literal_pattern p \<longleftrightarrow> HasPrefix p ''/'' \<and> \<not> ContainsAny p ''{}% ''"

definition pattern_matches :: "string \<Rightarrow> string list \<Rightarrow> bool" where
  "pattern_matches pat segs =
     (let ps = tl (Split pat (CHR ''/'')) in
      if ps \<noteq> [] \<and> last ps = [] then take (length ps - 1) segs = butlast ps \<and> length ps \<le> length segs
      else segs = ps)"

fun mux_lookup :: "(string \<times> 'h) list \<Rightarrow> string list \<Rightarrow> (string \<times> 'h) option" where
  "mux_lookup [] segs = None"
| "mux_lookup ((pat, h) # m) segs =
     (let rest = mux_lookup m segs in
      if pattern_matches pat segs
      then (case rest of
              Some (pat', h') \<Rightarrow> if length pat < length pat' then rest else Some (pat, h)
            | None \<Rightarrow> Some (pat, h))
      else rest)"

text \<open>path.Clean on a rooted path and the mux's cleanPath, which keeps a trailing slash.\<close>

fun clean_segs :: "string list \<Rightarrow> string list \<Rightarrow> string list" where
  "clean_segs acc [] = rev acc"
| "clean_segs acc (s # ss) =
     (if s = [] \<or> s = ''.'' then clean_segs acc ss
      else if s = ''..'' then clean_segs (tl acc) ss
      else clean_segs (s # acc) ss)"

definition path_Clean :: "string \<Rightarrow> string" where
  "path_Clean p = CHR ''/'' # Join (clean_segs [] (Split p (CHR ''/''))) ''/''"

definition cleanPath :: "string \<Rightarrow> string" where
  "cleanPath p =
     (if p = [] then ''/''
      else let p' = (if HasPrefix p ''/'' then p else CHR ''/'' # p); np = path_Clean p'
        in if HasSuffix p' ''/'' \<and> np \<noteq> ''/'' then np @ ''/'' else np)"

text \<open>
  ServeMux.ServeHTTP: the registered handler, a redirect (path and query of its target), or 404.
  The path is cleaned unless the method is CONNECT; a path without a handler of its own for
  which the subtree pattern is registered is redirected to it.
\<close>

datatype 'h mux_result = MuxRedirect string string | MuxNotFound | MuxHandler string 'h

definition mux_match_path :: "(string \<times> 'h) list \<Rightarrow> string \<Rightarrow> (string \<times> 'h) option" where
  "mux_match_path m p = (case path_segs p of None \<Rightarrow> None | Some segs \<Rightarrow> mux_lookup m segs)"

definition exactMatch :: "(string \<times> 'h) option \<Rightarrow> string \<Rightarrow> bool" where
  "exactMatch n p =
     (case n of None \<Rightarrow> False | Some (pat, h) \<Rightarrow> path_segs p = Some (tl (Split pat (CHR ''/''))))"

definition mux_dispatch :: "(string \<times> 'h) list \<Rightarrow> http_request \<Rightarrow> 'h mux_result" where
  "mux_dispatch m r =
     (let esc = EscapedPath (URL r);
          path = (if ReqMethod r = ''CONNECT'' then esc else cleanPath esc);
          n = mux_match_path m path
      in if \<not> exactMatch n path \<and> \<not> HasSuffix path ''/'' \<and> exactMatch (mux_match_path m (path @ ''/'')) (path @ ''/'')
         then MuxRedirect (cleanPath (Path (URL r)) @ ''/'') (RawQuery (URL r))
         else if path \<noteq> esc then MuxRedirect path (RawQuery (URL r))
         else (case n of None \<Rightarrow> MuxNotFound | Some (pat, h) \<Rightarrow> MuxHandler pat h))"

section \<open>ReverseProxy's treatment of the outgoing request\<close>

definition ascii_trim :: "string \<Rightarrow> string" where
  "ascii_trim s =
     (let ws = (\<lambda>c. List.member [CHR 0x20, CHR 0x09, CHR 0x0A, CHR 0x0D] c)
      in rev (dropWhile ws (rev (dropWhile ws s))))"

definition connection_tokens :: "header \<Rightarrow> string list" where
  "connection_tokens h =
     filter (\<lambda>t. t \<noteq> [])
       (map ascii_trim
         (concat (map (\<lambda>f. Split f (CHR '','')) (case h ''Connection'' of None \<Rightarrow> [] | Some vs \<Rightarrow> vs))))"

definition hopHeaders :: "string list" where
  "hopHeaders =
     [''Connection'', ''Proxy-Connection'', ''Keep-Alive'', ''Proxy-Authenticate'',
      ''Proxy-Authorization'', ''Te'', ''Trailer'', ''Transfer-Encoding'', ''Upgrade'']"

definition removeHopByHopHeaders :: "header \<Rightarrow> header" where
  "removeHopByHopHeaders h = foldl Header_Del h (connection_tokens h @ hopHeaders)"

definition forwardedHeaders :: "string list" where
  "forwardedHeaders = [''Forwarded'', ''X-Forwarded-For'', ''X-Forwarded-Host'', ''X-Forwarded-Proto'']"

definition suppress_agent :: "header \<Rightarrow> header" where
  "suppress_agent h = (if h ''User-Agent'' = None then Header_Set h ''User-Agent'' [] else h)"

text \<open>The outgoing request of a ReverseProxy with a Rewrite hook.\<close>

definition proxy_outreq :: "(http_request \<Rightarrow> http_request) \<Rightarrow> http_request \<Rightarrow> http_request" where
  "proxy_outreq rewrite r =
     (let r1 = (if ContentLength r = 0 then r\<lparr>Body := no_body\<rparr> else r);
          r2 = r1\<lparr>ReqHeader := foldl Header_Del (removeHopByHopHeaders (ReqHeader r1)) forwardedHeaders,
                  URL := (URL r1)\<lparr>RawQuery := cleanQueryParams (RawQuery (URL r1))\<rparr>\<rparr>;
          r3 = rewrite r2
      in r3\<lparr>ReqHeader := suppress_agent (ReqHeader r3)\<rparr>)"

section \<open>Lemmas\<close>

lemma Header_Set_same [simp, http_simps]:
  "CanonicalHeaderKey k = CanonicalHeaderKey k' \<Longrightarrow> Header_Values (Header_Set h k v) k' = [v]"
  by (simp add: Header_Values_def Header_Set_def)

lemma Header_Set_other [simp, http_simps]:
  "CanonicalHeaderKey k \<noteq> CanonicalHeaderKey k' \<Longrightarrow> Header_Values (Header_Set h k v) k' = Header_Values h k'"
  by (simp add: Header_Values_def Header_Set_def)

lemma Header_Del_Values [simp, http_simps]:
  "Header_Values (Header_Del h k) k' =
     (if CanonicalHeaderKey k = CanonicalHeaderKey k' then [] else Header_Values h k')"
  by (simp add: Header_Values_def Header_Del_def)

lemma Header_Get_Set [simp, http_simps]:
  "Header_Get (Header_Set h k v) k' =
     (if CanonicalHeaderKey k = CanonicalHeaderKey k' then v else Header_Get h k')"
  by (simp add: Header_Get_def)

lemma Header_Get_Values: "Header_Values h k = Header_Values h' k \<Longrightarrow> Header_Get h k = Header_Get h' k"
  by (simp add: Header_Get_def)

lemma foldl_Header_Del_Values [http_simps]:
  "Header_Values (foldl Header_Del h ks) k =
     (if CanonicalHeaderKey k \<in> CanonicalHeaderKey ` set ks then [] else Header_Values h k)"
  by (induction ks arbitrary: h) auto

lemma removeHopByHop_Values [http_simps]:
  "Header_Values (removeHopByHopHeaders h) k =
     (if CanonicalHeaderKey k \<in> CanonicalHeaderKey ` set (connection_tokens h @ hopHeaders)
      then [] else Header_Values h k)"
  by (simp only: removeHopByHopHeaders_def foldl_Header_Del_Values)

lemma StripPrefix_fields:
  "StripPrefix p r = Some r' \<Longrightarrow>
     ReqMethod r' = ReqMethod r \<and> ReqHeader r' = ReqHeader r \<and> Body r' = Body r \<and>
     ReqHost r' = ReqHost r \<and> ContentLength r' = ContentLength r \<and> RawQuery (URL r') = RawQuery (URL r)"
  by (auto simp: StripPrefix_def Let_def split: if_splits)

lemma mux_lookup_match: "mux_lookup m segs = Some (pat, h) \<Longrightarrow> (pat, h) \<in> set m \<and> pattern_matches pat segs"
proof (induction m segs rule: mux_lookup.induct)
  case (2 pat' h' m segs)
  then show ?case by (auto simp: Let_def split: if_splits option.splits prod.splits)
qed simp

lemma mux_lookup_longest:
  "\<lbrakk>mux_lookup m segs = Some (pat, h); (pat', h') \<in> set m; pattern_matches pat' segs\<rbrakk>
     \<Longrightarrow> length pat' \<le> length pat"
proof (induction m arbitrary: pat h)
  case (Cons e m)
  obtain p hh where e: "e = (p, hh)" by force
  have none: "mux_lookup m segs = None \<Longrightarrow> (q, g) \<in> set m \<Longrightarrow> \<not> pattern_matches q segs" for q g
    by (induction m) (auto simp: Let_def split: if_splits option.splits prod.splits)
  show ?case
  proof (cases "mux_lookup m segs")
    case None
    with Cons.prems e none show ?thesis by (auto simp: Let_def split: if_splits)
  next
    case (Some x)
    obtain q g where x: "x = (q, g)" by force
    from Cons.IH [of q g] Some x have "(pat', h') \<in> set m \<Longrightarrow> length pat' \<le> length q"
      using Cons.prems(3) by simp
    with Cons.prems e Some x show ?thesis by (auto simp: Let_def split: if_splits)
  qed
qed simp

lemma mux_lookup_None: "mux_lookup m segs = None \<longleftrightarrow> (\<forall>(p, h) \<in> set m. \<not> pattern_matches p segs)"
  by (induction m segs rule: mux_lookup.induct)
    (auto simp: Let_def split: if_splits option.splits prod.splits)

text \<open>
  Plain paths: rooted, and made of bytes that need no escaping. On them a literal pattern
  matches exactly itself, or every path it is a prefix of when it ends in a slash.
\<close>

definition plain_path :: "string \<Rightarrow> bool" where
  "plain_path p \<longleftrightarrow> HasPrefix p ''/'' \<and> list_all (\<lambda>c. path_escape_char c = [c]) p"

lemma escape_plain: "list_all (\<lambda>c. path_escape_char c = [c]) p \<Longrightarrow> concat (map path_escape_char p) = p"
  by (induction p) auto

lemma unescape_plain: "CHR ''%'' \<notin> set s \<Longrightarrow> unescape False s = Some s"
  by (induction s) auto

lemma plain_no_pct: "list_all (\<lambda>c. path_escape_char c = [c]) p \<Longrightarrow> CHR ''%'' \<notin> set p"
proof -
  have "path_escape_char (CHR ''%'') \<noteq> ''%''" by code_simp
  then show "list_all (\<lambda>c. path_escape_char c = [c]) p \<Longrightarrow> ?thesis" by (auto simp: list_all_iff)
qed

lemma those_map_Some: "(\<And>x. x \<in> set xs \<Longrightarrow> f x = Some (g x)) \<Longrightarrow> those (map f xs) = Some (map g xs)"
  by (induction xs) auto

lemma EscapedPath_plain: "\<lbrakk>plain_path (Path u); RawPath u = []\<rbrakk> \<Longrightarrow> EscapedPath u = Path u"
  by (auto simp: EscapedPath_def plain_path_def escape_plain)

lemma path_segs_plain: "plain_path p \<Longrightarrow> path_segs p = Some (tl (Split p (CHR ''/'')))"
proof -
  assume p: "plain_path p"
  then obtain q where q: "p = CHR ''/'' # q" by (auto simp: plain_path_def HasPrefix_iff)
  have "CHR ''%'' \<notin> set q" using p q plain_no_pct [of p] by (auto simp: plain_path_def)
  then have "those (map PathUnescape (Split q (CHR ''/''))) = Some (map id (Split q (CHR ''/'')))"
    using Split_chars by (intro those_map_Some) (fastforce simp: PathUnescape_def intro!: unescape_plain)
  then show ?thesis by (simp add: q path_segs_def)
qed

lemma Split_subtree:
  "(\<exists>y. q = x @ c # y) \<longleftrightarrow>
     take (length (Split x c)) (Split q c) = Split x c \<and> length (Split x c) < length (Split q c)"
proof (intro iffI conjI; (elim conjE)?)
  assume t: "take (length (Split x c)) (Split q c) = Split x c"
    and l: "length (Split x c) < length (Split q c)"
  define rest where "rest = drop (length (Split x c)) (Split q c)"
  have rest: "rest \<noteq> []" "Split q c = Split x c @ rest"
    using l append_take_drop_id [of "length (Split x c)" "Split q c"] by (simp_all add: rest_def t)
  then have "q = Join (Split x c @ rest) [c]" by (metis Join_Split)
  also have "\<dots> = x @ c # Join rest [c]" using rest by (simp add: Join_append Join_Split)
  finally show "\<exists>y. q = x @ c # y" by blast
qed (auto simp: Split_append)

lemma last_Split: "last (Split s c) = [] \<longleftrightarrow> s = [] \<or> (\<exists>t. s = t @ [c])"
proof (cases s rule: rev_cases)
  case (snoc t x)
  show ?thesis
  proof (cases "x = c")
    case False
    have "last (Split (t @ [x]) c) \<noteq> []"
      using False by (induction t c rule: Split.induct) (auto split: list.splits)
    with False snoc show ?thesis by simp
  qed (use snoc Split_append [of t c "[]"] in simp)
qed simp

lemma pattern_matches_plain:
  assumes "HasPrefix pat ''/''" and "HasPrefix p ''/''"
  shows "pattern_matches pat (tl (Split p (CHR ''/''))) \<longleftrightarrow> p = pat \<or> HasSuffix pat ''/'' \<and> HasPrefix p pat"
proof -
  let ?c = "CHR ''/''"
  obtain x q where x: "pat = ?c # x" and q: "p = ?c # q"
    using assms by (auto simp: HasPrefix_iff)
  have suf: "HasSuffix pat ''/'' \<longleftrightarrow> last (Split x ?c) = []"
    by (auto simp: x last_Split HasSuffix_iff Cons_eq_append_conv)
  show ?thesis
  proof (cases "last (Split x ?c) = []")
    case False
    then show ?thesis by (auto simp: pattern_matches_def x q suf [unfolded x] Split_eq_iff)
  next
    case True
    then consider "x = []" | t where "x = t @ [?c]" by (auto simp: last_Split)
    then show ?thesis
    proof cases
      case 1
      then show ?thesis
        by (auto simp: pattern_matches_def x q HasSuffix_iff Suc_le_eq)
    next
      case 2
      have "HasPrefix q x \<longleftrightarrow> (\<exists>y. q = t @ ?c # y)" by (simp add: HasPrefix_iff 2)
      then show ?thesis using True
        by (auto simp: pattern_matches_def x q Split_subtree 2 Split_append suf [unfolded x 2] butlast_append
            Suc_le_eq)
    qed
  qed
qed

text \<open>A pattern that matches a path is a prefix of the unescaped path; so of two of the same length there is one.\<close>

lemma pattern_matches_prefix:
  assumes "HasPrefix pat ''/''" and "pattern_matches pat segs"
  shows "HasPrefix (CHR ''/'' # Join segs ''/'') pat"
proof -
  let ?c = "CHR ''/''"
  obtain x where x: "pat = ?c # x" using assms(1) by (auto simp: HasPrefix_iff)
  show ?thesis
  proof (cases "last (Split x ?c) = []")
    case False
    then have "segs = Split x ?c" using assms(2) by (simp add: pattern_matches_def x)
    then show ?thesis by (simp add: x Join_Split HasPrefix_iff)
  next
    case True
    let ?ps = "Split x ?c"
    have m: "take (length ?ps - 1) segs = butlast ?ps" "length ?ps \<le> length segs"
      using assms(2) True by (simp_all add: pattern_matches_def x Let_def)
    have ps: "?ps = butlast ?ps @ [[]]" using True append_butlast_last_id [of ?ps] by simp
    define rest where "rest = drop (length ?ps - 1) segs"
    have segs: "segs = butlast ?ps @ rest" using m(1) append_take_drop_id [of "length ?ps - 1" segs] by (simp add: rest_def)
    have "0 < length ?ps" by simp
    then have ne: "rest \<noteq> []" using m(2) unfolding rest_def by (simp add: Suc_le_eq [symmetric] del: Split_nonempty)
    show ?thesis
    proof (cases "butlast ?ps = []")
      case True
      then have "x = []" using ps Join_Split [of x ?c] by simp
      then show ?thesis by (simp add: x HasPrefix_iff)
    next
      case False
      have "x = Join (butlast ?ps @ [[]]) [?c]" using ps Join_Split [of x ?c] by simp
      also have "\<dots> = Join (butlast ?ps) [?c] @ [?c]" using False by (simp add: Join_append)
      finally have "x = Join (butlast ?ps) [?c] @ [?c]" .
      moreover have "Join segs [?c] = Join (butlast ?ps) [?c] @ [?c] @ Join rest [?c]"
        unfolding segs using False ne by (rule Join_append)
      ultimately have "Join segs [?c] = x @ Join rest [?c]" by (metis append.assoc)
      then show ?thesis by (simp add: x HasPrefix_iff)
    qed
  qed
qed

text \<open>The handler of a clean plain path is registered under the longest pattern that covers it.\<close>

definition covers :: "string \<Rightarrow> string \<Rightarrow> bool" where
  "covers pat p \<longleftrightarrow> p = pat \<or> HasSuffix pat ''/'' \<and> HasPrefix p pat"

lemma covers_length: "covers pat p \<Longrightarrow> length pat \<le> length p"
  by (auto simp: covers_def HasPrefix_iff)

lemma covers_same_length: "\<lbrakk>covers pat p; length pat = length p\<rbrakk> \<Longrightarrow> pat = p"
  by (auto simp: covers_def HasPrefix_iff)

lemma mux_match_path_plain:
  assumes "\<forall>(pat, h) \<in> set m. HasPrefix pat ''/''" and "plain_path p" and "mux_match_path m p = Some (pat, h)"
  shows "(pat, h) \<in> set m \<and> covers pat p \<and> (\<forall>(pat', h') \<in> set m. covers pat' p \<longrightarrow> length pat' \<le> length pat)"
proof -
  have l: "mux_lookup m (tl (Split p (CHR ''/''))) = Some (pat, h)"
    using assms(2,3) by (simp add: mux_match_path_def path_segs_plain)
  have "HasPrefix p ''/''" using assms(2) by (simp add: plain_path_def)
  with assms(1) have "(pat', h') \<in> set m \<Longrightarrow> pattern_matches pat' (tl (Split p (CHR ''/''))) \<longleftrightarrow> covers pat' p" for pat' h'
    unfolding covers_def by (intro pattern_matches_plain) auto
  with mux_lookup_match [OF l] mux_lookup_longest [OF l] show ?thesis by blast
qed

lemma mux_match_path_exact:
  assumes "\<forall>(pat, h) \<in> set m. HasPrefix pat ''/''" and "plain_path p" and "(p, h) \<in> set m"
    and "distinct (map fst m)"
  shows "mux_match_path m p = Some (p, h)"
proof -
  let ?segs = "tl (Split p (CHR ''/''))"
  have rooted: "HasPrefix p ''/''" using assms(2) by (simp add: plain_path_def)
  then have "pattern_matches p ?segs" by (simp add: pattern_matches_plain)
  with assms(3) have "mux_lookup m ?segs \<noteq> None" by (auto simp: mux_lookup_None)
  then obtain pat g where m: "mux_match_path m p = Some (pat, g)"
    using assms(2) by (auto simp: mux_match_path_def path_segs_plain)
  from mux_match_path_plain [OF assms(1,2) this] have mem: "(pat, g) \<in> set m" and c: "covers pat p"
    and "length p \<le> length pat" using assms(3) by (auto simp: covers_def)
  then have "pat = p" using covers_length [OF c] covers_same_length [OF c] by simp
  with mem assms(3,4) m show ?thesis by (auto dest: eq_key_imp_eq_value)
qed

lemma mux_dispatch_exact:
  assumes "\<forall>(pat, h) \<in> set m. HasPrefix pat ''/''" and "plain_path p" and "(p, h) \<in> set m"
    and "distinct (map fst m)" and "Path (URL r) = p" and "RawPath (URL r) = []" and "cleanPath p = p"
  shows "mux_dispatch m r = MuxHandler p h"
proof -
  have e: "EscapedPath (URL r) = p" using assms(2,5,6) by (simp add: EscapedPath_plain)
  have "exactMatch (Some (p, h)) p" by (simp add: exactMatch_def path_segs_plain [OF assms(2)])
  then show ?thesis
    by (simp add: mux_dispatch_def e assms(7) mux_match_path_exact [OF assms(1-4)])
qed

lemma mux_dispatch_registered:
  "mux_dispatch m r = MuxHandler pat h \<Longrightarrow> (pat, h) \<in> set m"
  by (auto simp: mux_dispatch_def mux_match_path_def Let_def dest: mux_lookup_match
      split: if_splits option.splits prod.splits)

lemma mux_dispatch_lookup:
  "mux_dispatch m r = MuxHandler pat h \<Longrightarrow> \<exists>segs. path_segs (EscapedPath (URL r)) = Some segs \<and> mux_lookup m segs = Some (pat, h)"
  by (auto simp: mux_dispatch_def mux_match_path_def Let_def split: if_splits option.splits prod.splits)

lemma mux_dispatch_longest:
  assumes "mux_dispatch m r = MuxHandler pat h" and "\<forall>(pat, h) \<in> set m. HasPrefix pat ''/''"
    and "plain_path (Path (URL r))" and "RawPath (URL r) = []"
  shows "covers pat (Path (URL r)) \<and>
     (\<forall>(pat', h') \<in> set m. covers pat' (Path (URL r)) \<longrightarrow> length pat' \<le> length pat)"
proof -
  have e: "EscapedPath (URL r) = Path (URL r)" using assms(3,4) by (rule EscapedPath_plain)
  have "mux_match_path m (Path (URL r)) = Some (pat, h)"
    using assms(1) by (auto simp: mux_dispatch_def e Let_def split: if_splits option.splits prod.splits)
  from mux_match_path_plain [OF assms(2,3) this] show ?thesis by blast
qed

end
