(* ===== verification/Proxy_Types.thy ===== *)
theory Proxy_Types
  imports Go_Http
begin

text \<open>
  The data types of package credproxy (credproxy/types.go, credproxy/errors.go, and the server
  side types of server.go, route.go and peercred.go). A Go map is an association list: its order
  is the order in which one run of a range loop visits it. Provider calls act on a world of type
  \<open>'w\<close>, which stands for everything behind the Provider interface.
\<close>

type_synonym string_map = "(string \<times> string) list"

record Request =
  Method :: string
  RequestPath :: string
  Host :: string
  Metadata :: string_map

record Injection =
  Headers :: string_map
  AppendHeaders :: string_map
  Query :: string_map
  BodyReplace :: bytes
  ExpiresAt :: instant

definition empty_injection :: Injection where
  "empty_injection =
     \<lparr>Headers = [], AppendHeaders = [], Query = [], BodyReplace = [], ExpiresAt = zeroTime\<rparr>"

text \<open>The Provider interface: Get and Refresh return an injection or an error.\<close>

record 'w Provider =
  ProviderGet :: "Request \<Rightarrow> 'w \<Rightarrow> (go_error + Injection) \<times> 'w"
  ProviderRefresh :: "Request \<Rightarrow> 'w \<Rightarrow> (go_error + Injection) \<times> 'w"

record 'w Route =
  RoutePath :: string
  Upstream :: string
  RouteProvider :: "'w Provider"
  RefreshOnStatus :: "int list"
  StripInboundAuth :: bool
  AllowedClientIDs :: "string list"

record TokenAuth =
  Token :: string
  ID :: string

record tokenEntry =
  entry_token :: bytes
  entry_id :: string

record 'w ServerConfig =
  ListenTCP :: string
  ListenUnix :: string
  ListenPipe :: string
  UnixMode :: "32 word"
  AuthTokens :: "TokenAuth list"
  AllowUnauthenticated :: bool
  RequireSamePeerUID :: bool
  RequirePeerSID :: string
  Routes :: "'w Route list"
  ShutdownTimeout :: duration

text \<open>Identities captured when a connection is accepted (peercred.go).\<close>

record peerCred =
  UID :: "32 word"
  PID :: "32 word"
  cred_available :: bool

record peerSID =
  SID :: string
  sid_available :: bool

text \<open>The values the proxy stores in a request context, by key.\<close>

record req_context =
  tokenIDKey :: "string option"
  peerCredKey :: "peerCred option"
  peerSIDKey :: "peerSID option"

definition background :: req_context where
  "background = \<lparr>tokenIDKey = None, peerCredKey = None, peerSIDKey = None\<rparr>"

section \<open>errors.go\<close>

text \<open>ReasonError.Error and the Error methods of the other error values.\<close>

fun error_string :: "go_error \<Rightarrow> string" where
  "error_string (PlainError m) = m"
| "error_string (WrapError m e) = m @ '': '' @ error_string e"
| "error_string (FormatError m e) = m"
| "error_string (ReasonError r None) = r"
| "error_string (ReasonError r (Some e)) = r @ '': '' @ error_string e"

text \<open>errors.As with a *ReasonError target: the first one on the Unwrap chain.\<close>

fun as_ReasonError :: "go_error \<Rightarrow> string option" where
  "as_ReasonError (PlainError m) = None"
| "as_ReasonError (WrapError m e) = as_ReasonError e"
| "as_ReasonError (FormatError m e) = as_ReasonError e"
| "as_ReasonError (ReasonError r e) = Some r"

end
