(* ===== verification/Proxy_Auth.thy ===== *)
theory Proxy_Auth
  imports Proxy_Types
begin

text \<open>
  Bearer authentication and peer identity: credproxy/auth.go, credproxy/peercred.go and the
  platform files peercred_linux.go, peercred_darwin.go, peercred_windows.go, peercred_other.go.
  The token table is the list of \<^typ>\<open>tokenEntry\<close> that Server keeps under its lock.
\<close>

section \<open>Definitions\<close>

text \<open>subtle.ConstantTimeCompare: the accumulated exclusive or of all byte pairs.\<close>

unbundle bit_operations_syntax

fun xor_acc :: "8 word \<Rightarrow> bytes \<Rightarrow> bytes \<Rightarrow> 8 word" where
  "xor_acc v (x # xs) (y # ys) = xor_acc (v OR (of_char x XOR of_char y)) xs ys"
| "xor_acc v _ _ = v"

definition ConstantTimeCompare :: "bytes \<Rightarrow> bytes \<Rightarrow> nat" where
  "ConstantTimeCompare x y =
     (if length x \<noteq> length y then 0 else if xor_acc 0 x y = 0 then 1 else 0)"

definition extractBearer :: "string list \<Rightarrow> string option" where
  "extractBearer values =
     (case values of
        [v] \<Rightarrow>
          if length v < 7 \<or> \<not> EqualFold (take 7 v) ''bearer '' then None
          else let token = TrimSpace (drop 7 v) in if token = [] then None else Some token
      | _ \<Rightarrow> None)"

definition clientAllowed :: "string list \<Rightarrow> string \<Rightarrow> bool" where
  "clientAllowed allowed i = (if i = [] then False else list_ex (\<lambda>a. a = i) allowed)"

fun matchTokenEntries :: "tokenEntry list \<Rightarrow> bytes \<Rightarrow> string option" where
  "matchTokenEntries [] presented = None"
| "matchTokenEntries (e # es) presented =
     (if ConstantTimeCompare (entry_token e) presented = 1 then Some (entry_id e)
      else matchTokenEntries es presented)"

text \<open>peercred.go: the two pure admission decisions.\<close>

definition authorizeSID :: "peerSID \<Rightarrow> bool \<Rightarrow> string \<Rightarrow> bool" where
  "authorizeSID peer require expected =
     (if \<not> require then True
      else sid_available peer \<and> expected \<noteq> [] \<and> EqualFold (SID peer) expected)"

definition authorizePeer :: "peerCred \<Rightarrow> bool \<Rightarrow> 32 word \<Rightarrow> bool" where
  "authorizePeer pc require selfUID =
     (if \<not> require then True else if \<not> cred_available pc then False else UID pc = selfUID)"

text \<open>The build targets, with the constants and peerUIDIsCurrent of their peercred file.\<close>

datatype platform = Linux | Darwin | Windows | OtherOS

definition peerCredSupported :: "platform \<Rightarrow> bool" where
  "peerCredSupported p \<longleftrightarrow> p = Linux \<or> p = Darwin"

definition peerSIDSupported :: "platform \<Rightarrow> bool" where
  "peerSIDSupported p \<longleftrightarrow> p = Windows"

definition peerUIDIsCurrent :: "platform \<Rightarrow> 32 word \<Rightarrow> peerCred \<Rightarrow> bool" where
  "peerUIDIsCurrent p getuid pc =
     (case p of Linux \<Rightarrow> authorizePeer pc True getuid
      | Darwin \<Rightarrow> authorizePeer pc True getuid
      | Windows \<Rightarrow> False
      | OtherOS \<Rightarrow> False)"

text \<open>
  connContext. An accepted connection reports a SID when it is a pipe connection, and is a Unix
  connection or not; peerCredOf reads the socket's credentials: the kernel's (uid, pid) answer on
  Linux, the uid alone on Darwin, an error elsewhere.
\<close>

record conn =
  conn_sid :: "string option"
  conn_unix :: bool
  conn_ucred :: "(32 word \<times> 32 word) option"

definition peerCredOf :: "platform \<Rightarrow> conn \<Rightarrow> peerCred option" where
  "peerCredOf p c =
     (case p of
        Linux \<Rightarrow> map_option (\<lambda>(u, i). \<lparr>UID = u, PID = i, cred_available = True\<rparr>) (conn_ucred c)
      | Darwin \<Rightarrow> map_option (\<lambda>(u, i). \<lparr>UID = u, PID = 0, cred_available = True\<rparr>) (conn_ucred c)
      | Windows \<Rightarrow> None
      | OtherOS \<Rightarrow> None)"

definition connContext :: "platform \<Rightarrow> req_context \<Rightarrow> conn \<Rightarrow> req_context" where
  "connContext p ctx c =
     (let ctx1 = (case conn_sid c of
                    Some sid \<Rightarrow>
                      if sid \<noteq> [] then ctx\<lparr>peerSIDKey := Some \<lparr>SID = sid, sid_available = True\<rparr>\<rparr> else ctx
                  | None \<Rightarrow> ctx)
      in if conn_unix c
         then (case peerCredOf p c of Some pc \<Rightarrow> ctx1\<lparr>peerCredKey := Some pc\<rparr> | None \<Rightarrow> ctx1)
         else ctx1)"

text \<open>The zero values a failed type assertion on a context value yields.\<close>

definition ctx_peerCred :: "req_context \<Rightarrow> peerCred" where
  "ctx_peerCred ctx =
     (case peerCredKey ctx of Some pc \<Rightarrow> pc | None \<Rightarrow> \<lparr>UID = 0, PID = 0, cred_available = False\<rparr>)"

definition ctx_peerSID :: "req_context \<Rightarrow> peerSID" where
  "ctx_peerSID ctx =
     (case peerSIDKey ctx of Some s \<Rightarrow> s | None \<Rightarrow> \<lparr>SID = [], sid_available = False\<rparr>)"

definition ctx_tokenID :: "req_context \<Rightarrow> string" where
  "ctx_tokenID ctx = (case tokenIDKey ctx of Some i \<Rightarrow> i | None \<Rightarrow> [])"

text \<open>authMiddleware: a refusal written to the client, or the context the next handler gets.\<close>

definition authMiddleware ::
  "platform \<Rightarrow> 32 word \<Rightarrow> 'w ServerConfig \<Rightarrow> tokenEntry list \<Rightarrow> req_context \<Rightarrow> header
     \<Rightarrow> http_response + req_context" where
  "authMiddleware p getuid cfg tokens ctx hdr =
     (if RequireSamePeerUID cfg \<and> \<not> peerUIDIsCurrent p getuid (ctx_peerCred ctx)
      then Inl (http_Error ''forbidden'' 403)
      else if RequirePeerSID cfg \<noteq> [] \<and> \<not> authorizeSID (ctx_peerSID ctx) True (RequirePeerSID cfg)
      then Inl (http_Error ''forbidden'' 403)
      else if AllowUnauthenticated cfg \<or> length tokens = 0 then Inr ctx
      else (case extractBearer (Header_Values hdr ''Authorization'') of
              None \<Rightarrow> Inl (http_Error ''unauthorized'' 401)
            | Some token \<Rightarrow>
                (case matchTokenEntries tokens token of
                   None \<Rightarrow> Inl (http_Error ''unauthorized'' 401)
                 | Some i \<Rightarrow> Inr (ctx\<lparr>tokenIDKey := Some i\<rparr>))))"

text \<open>Server.AddAuthToken on the token table.\<close>

fun AddAuthToken :: "tokenEntry list \<Rightarrow> string \<Rightarrow> string \<Rightarrow> tokenEntry list" where
  "AddAuthToken [] token i = [\<lparr>entry_token = token, entry_id = i\<rparr>]"
| "AddAuthToken (e # es) token i =
     (if entry_id e = i then \<lparr>entry_token = token, entry_id = i\<rparr> # es
      else e # AddAuthToken es token i)"

section \<open>Constant-time comparison\<close>

lemma unat_of_char: "unat (of_char c :: 8 word) = of_char c"
proof -
  have "(of_char c :: 8 word) = of_nat (of_char c)" by (simp only: of_nat_of_char)
  then have "unat (of_char c :: 8 word) = of_char c mod 2 ^ 8" by (simp only: unat_of_nat) simp
  also have "\<dots> = of_char c" using nat_of_char_less_256 [of c] by simp
  finally show ?thesis .
qed

lemma of_char_word_eq: "(of_char x :: 8 word) = of_char y \<longleftrightarrow> x = y"
  by (metis of_char_eq_iff unat_of_char)

lemma xor_word_eq_0: "x XOR y = (0 :: 8 word) \<longleftrightarrow> x = y"
  by (metis bit.xor_left_self xor.right_neutral xor_self_eq)

lemma xor_acc_eq_0:
  "length xs = length ys \<Longrightarrow> xor_acc v xs ys = 0 \<longleftrightarrow> v = 0 \<and> xs = ys"
  by (induction v xs ys rule: xor_acc.induct)
    (auto simp: or_eq_0_iff xor_word_eq_0 of_char_word_eq)

lemma ConstantTimeCompare_eq: "ConstantTimeCompare x y = (if x = y then 1 else 0)"
  by (auto simp: ConstantTimeCompare_def xor_acc_eq_0)

section \<open>The token table\<close>

lemma matchTokenEntries_eq_find:
  "matchTokenEntries es presented = map_option entry_id (find (\<lambda>e. entry_token e = presented) es)"
  by (induction es) (auto simp: ConstantTimeCompare_eq)

lemma matchTokenEntries_Some:
  "matchTokenEntries es t = Some i \<Longrightarrow> \<exists>e \<in> set es. entry_token e = t \<and> entry_id e = i"
  by (auto simp: matchTokenEntries_eq_find find_Some_iff)

lemma matchTokenEntries_None:
  "matchTokenEntries es t = None \<longleftrightarrow> (\<forall>e \<in> set es. entry_token e \<noteq> t)"
  by (auto simp: matchTokenEntries_eq_find find_None_iff)

abbreviation ids :: "tokenEntry list \<Rightarrow> string list" where
  "ids es \<equiv> map entry_id es"

lemma AddAuthToken_ids:
  "ids (AddAuthToken es t i) = (if i \<in> set (ids es) then ids es else ids es @ [i])"
  by (induction es t i rule: AddAuthToken.induct) auto

lemma AddAuthToken_set:
  "distinct (ids es) \<Longrightarrow>
     set (AddAuthToken es t i) =
       insert \<lparr>entry_token = t, entry_id = i\<rparr> {e \<in> set es. entry_id e \<noteq> i}"
  by (induction es t i rule: AddAuthToken.induct) (auto, metis image_eqI)

lemma AddAuthToken_distinct [step_inv]: "distinct (ids es) \<Longrightarrow> distinct (ids (AddAuthToken es t i))"
  by (simp add: AddAuthToken_ids)

lemma AddAuthToken_nonempty: "AddAuthToken es t i \<noteq> []"
  by (cases es) auto

text \<open>
  A token table as an interface: adding a token for an id keeps every other id's tokens, gives
  the new token that id unless an earlier entry holds the same token, and retires the old one.
\<close>

locale token_table =
  fixes add :: "'t \<Rightarrow> string \<Rightarrow> string \<Rightarrow> 't"
    and auth :: "'t \<Rightarrow> bytes \<Rightarrow> string option"
    and holds :: "'t \<Rightarrow> string \<Rightarrow> string \<Rightarrow> bool"
    and inv :: "'t \<Rightarrow> bool"
  assumes add_inv: "inv t \<Longrightarrow> inv (add t tok i)"
    and add_holds: "inv t \<Longrightarrow> holds (add t tok i) tok' j \<longleftrightarrow> (if j = i then tok' = tok else holds t tok' j)"
    and auth_sound: "inv t \<Longrightarrow> auth t tok = Some i \<Longrightarrow> holds t tok i"
    and auth_complete: "inv t \<Longrightarrow> holds t tok i \<Longrightarrow> auth t tok \<noteq> None"
begin

lemma rotation_retires:
  assumes "inv t" and "old \<noteq> new"
  shows "auth (add t new i) old \<noteq> Some i"
  using assms add_holds auth_sound add_inv by metis

lemma rotation_admits:
  assumes "inv t" and "\<And>j. j \<noteq> i \<Longrightarrow> \<not> holds t new j"
  shows "auth (add t new i) new = Some i"
proof -
  have "auth (add t new i) new \<noteq> None"
    using assms(1) add_inv add_holds auth_complete by metis
  then obtain j where j: "auth (add t new i) new = Some j" by blast
  then have "holds (add t new i) new j" using assms(1) add_inv auth_sound by blast
  then have "j = i" using assms add_holds by metis
  with j show ?thesis by simp
qed

lemma rotation_frame:
  assumes "inv t" and "auth (add t new i) tok = Some j" and "j \<noteq> i"
  shows "holds t tok j"
  using assms add_inv add_holds auth_sound by metis

end

interpretation table: token_table AddAuthToken matchTokenEntries
  "\<lambda>es tok i. \<exists>e \<in> set es. entry_token e = tok \<and> entry_id e = i" "\<lambda>es. distinct (ids es)"
proof unfold_locales
  fix es :: "tokenEntry list" and tok tok' i j
  assume "distinct (ids es)"
  then show "(\<exists>e \<in> set (AddAuthToken es tok i). entry_token e = tok' \<and> entry_id e = j) =
      (if j = i then tok' = tok else \<exists>e \<in> set es. entry_token e = tok' \<and> entry_id e = j)"
    by (auto simp: AddAuthToken_set)
qed (auto simp: AddAuthToken_distinct matchTokenEntries_None dest: matchTokenEntries_Some)

section \<open>extractBearer\<close>

lemma extractBearer_Some:
  "extractBearer vs = Some t \<Longrightarrow>
     \<exists>v. vs = [v] \<and> EqualFold (take 7 v) ''bearer '' \<and> t = TrimSpace (drop 7 v) \<and> t \<noteq> []"
  by (auto simp: extractBearer_def Let_def split: list.splits if_splits)

lemma extractBearer_trimmed: "extractBearer vs = Some t \<Longrightarrow> trimmed t"
  using TrimSpace_trimmed by (auto dest: extractBearer_Some)

lemma EqualFold_Bearer: "EqualFold ''Bearer '' ''bearer ''"
  by code_simp

lemma extractBearer_header:
  "\<lbrakk>trimmed t; t \<noteq> []\<rbrakk> \<Longrightarrow> extractBearer [''Bearer '' @ t] = Some t"
  by (simp add: extractBearer_def EqualFold_Bearer TrimSpace_id)

section \<open>A small configuration for the witnesses\<close>

definition demo_config :: "unit ServerConfig" where
  "demo_config =
     \<lparr>ListenTCP = [], ListenUnix = ''/run/credproxyd.sock'', ListenPipe = [], UnixMode = 0,
      AuthTokens = [\<lparr>Token = ''s3cret'', ID = ''ci''\<rparr>], AllowUnauthenticated = False,
      RequireSamePeerUID = True, RequirePeerSID = [], Routes = [], ShutdownTimeout = 0\<rparr>"

definition demo_tokens :: "tokenEntry list" where
  "demo_tokens = [\<lparr>entry_token = ''s3cret'', entry_id = ''ci''\<rparr>]"

definition demo_conn :: conn where
  "demo_conn = \<lparr>conn_sid = None, conn_unix = True, conn_ucred = Some (1000, 42)\<rparr>"

definition demo_header :: header where
  "demo_header = [''Authorization'' \<mapsto> [''Bearer s3cret'']]"

section \<open>Properties\<close>

text \<open>
  C4 (safety). The authentication gate admits a request exactly when the peer checks that are
  switched on pass and, unless the server runs unauthenticated or has no token, the single
  Authorization value is a Bearer value whose trimmed token equals the token of some entry; the
  context then carries the id of the first entry with that token.
\<close>

theorem authMiddleware_admits_iff:
  "authMiddleware p getuid cfg tokens ctx hdr = Inr ctx' \<longleftrightarrow>
     (RequireSamePeerUID cfg \<longrightarrow> peerUIDIsCurrent p getuid (ctx_peerCred ctx)) \<and>
     (RequirePeerSID cfg \<noteq> [] \<longrightarrow>
        sid_available (ctx_peerSID ctx) \<and> EqualFold (SID (ctx_peerSID ctx)) (RequirePeerSID cfg)) \<and>
     (if AllowUnauthenticated cfg \<or> tokens = [] then ctx' = ctx
      else \<exists>v e. Header_Values hdr ''Authorization'' = [v] \<and> EqualFold (take 7 v) ''bearer '' \<and>
             7 \<le> length v \<and> TrimSpace (drop 7 v) \<noteq> [] \<and>
             find (\<lambda>e. entry_token e = TrimSpace (drop 7 v)) tokens = Some e \<and>
             ctx' = ctx\<lparr>tokenIDKey := Some (entry_id e)\<rparr>)"
  (is "?L = ?R")
proof
  assume ?L
  then show ?R
    by (auto simp: authMiddleware_def authorizeSID_def extractBearer_def Let_def
        matchTokenEntries_eq_find split: if_splits option.splits list.splits)
next
  assume ?R
  then show ?L
    by (auto simp: authMiddleware_def authorizeSID_def extractBearer_def Let_def
        matchTokenEntries_eq_find split: if_splits option.splits list.splits)
qed

theorem authMiddleware_admits_iff_witness:
  "authMiddleware Linux 1000 demo_config demo_tokens (connContext Linux background demo_conn) demo_header =
     Inr ((connContext Linux background demo_conn)\<lparr>tokenIDKey := Some ''ci''\<rparr>)"
proof -
  let ?ctx = "connContext Linux background demo_conn"
  have "peerUIDIsCurrent Linux 1000 (ctx_peerCred ?ctx)"
    by (simp add: peerUIDIsCurrent_def authorizePeer_def ctx_peerCred_def connContext_def Let_def
        background_def demo_conn_def peerCredOf_def)
  moreover have "Header_Values demo_header ''Authorization'' = [''Bearer s3cret'']" by code_simp
  moreover have "EqualFold (take 7 ''Bearer s3cret'') ''bearer ''" by code_simp
  moreover have "TrimSpace (drop 7 ''Bearer s3cret'') = ''s3cret''" by code_simp
  ultimately show ?thesis
    by (subst authMiddleware_admits_iff) (simp add: demo_config_def demo_tokens_def)
qed

text \<open>
  Same-UID admission fails closed: when RequireSamePeerUID is set, a request that
  came over a connection c is admitted only on a platform that reads peer credentials, only over
  a Unix connection, and only when the kernel reported the server's own uid for it.
\<close>

theorem same_uid_fails_closed:
  assumes "RequireSamePeerUID cfg"
    and "authMiddleware p getuid cfg tokens (connContext p background c) hdr = Inr ctx'"
  shows "peerCredSupported p \<and> conn_unix c \<and> (\<exists>pid. conn_ucred c = Some (getuid, pid))"
proof -
  have "peerUIDIsCurrent p getuid (ctx_peerCred (connContext p background c))"
    using assms by (auto simp: authMiddleware_def split: if_splits)
  then show ?thesis
    by (auto simp: peerUIDIsCurrent_def authorizePeer_def ctx_peerCred_def connContext_def Let_def
        background_def peerCredOf_def peerCredSupported_def
        split: platform.splits option.splits if_splits)
qed

theorem same_uid_fails_closed_witness:
  "peerCredSupported Linux \<and> conn_unix demo_conn \<and> (\<exists>pid. conn_ucred demo_conn = Some (1000, pid))"
proof (rule same_uid_fails_closed)
  show "RequireSamePeerUID demo_config" by (simp add: demo_config_def)
  show "authMiddleware Linux 1000 demo_config [] (connContext Linux background demo_conn) demo_header =
      Inr (connContext Linux background demo_conn)"
    by (simp add: authMiddleware_def demo_config_def peerUIDIsCurrent_def authorizePeer_def
        ctx_peerCred_def connContext_def Let_def background_def demo_conn_def peerCredOf_def)
qed

text \<open>
  Rotating a token: on a table whose ids are distinct, AddAuthToken keeps the ids
  distinct and the table non-empty, the id's previous token no longer authenticates as that id,
  the new token does unless another id already holds it, and a request admitted under another
  id used a token that id already held.
\<close>

theorem AddAuthToken_rotates:
  assumes "distinct (map entry_id es)"
  shows "distinct (map entry_id (AddAuthToken es new i)) \<and> AddAuthToken es new i \<noteq> [] \<and>
     (old \<noteq> new \<longrightarrow> matchTokenEntries (AddAuthToken es new i) old \<noteq> Some i) \<and>
     ((\<forall>e \<in> set es. entry_token e = new \<longrightarrow> entry_id e = i) \<longrightarrow>
        matchTokenEntries (AddAuthToken es new i) new = Some i) \<and>
     (\<forall>tok j. matchTokenEntries (AddAuthToken es new i) tok = Some j \<longrightarrow> j \<noteq> i \<longrightarrow>
        (\<exists>e \<in> set es. entry_token e = tok \<and> entry_id e = j))"
  using assms table.rotation_retires [of es old new i] table.rotation_admits [of es i new]
    table.rotation_frame [of es new i] AddAuthToken_distinct AddAuthToken_nonempty
  by blast

theorem AddAuthToken_rotates_witness:
  "matchTokenEntries (AddAuthToken demo_tokens ''rotated'' ''ci'') ''s3cret'' \<noteq> Some ''ci'' \<and>
   matchTokenEntries (AddAuthToken demo_tokens ''rotated'' ''ci'') ''rotated'' = Some ''ci''"
proof -
  have "distinct (map entry_id demo_tokens)" by (simp add: demo_tokens_def)
  from AddAuthToken_rotates [OF this, of "''rotated''" "''ci''" "''s3cret''"]
  show ?thesis by (simp add: demo_tokens_def)
qed

end
