(* ===== verification/Proxy_Inject.thy ===== *)
theory Proxy_Inject
  imports Proxy_Types
begin

text \<open>
  What the proxy does with a resolved injection: credproxy/inject.go, and applyPlan of
  credproxy/route.go, which turns the plan into the outgoing request.
\<close>

section \<open>Definitions\<close>

datatype action = actForward | actReturnBody | actNoUpstream

definition decideAction :: "'w Route \<Rightarrow> Injection \<Rightarrow> action" where
  "decideAction cfg injection =
     (if 0 < length (BodyReplace injection) then actReturnBody
      else if Upstream cfg = [] then actNoUpstream
      else actForward)"

record requestPlan =
  setHeaders :: string_map
  mergeHeaders :: string_map
  deleteHeaders :: "string list"
  setQuery :: string_map

definition planRequest :: "'w Route \<Rightarrow> Injection \<Rightarrow> requestPlan" where
  "planRequest cfg injection =
     \<lparr>setHeaders = map_copy (Headers injection),
      mergeHeaders = map_copy (AppendHeaders injection),
      deleteHeaders = (if StripInboundAuth cfg then [''Authorization''] else []),
      setQuery = map_copy (Query injection)\<rparr>"

text \<open>mergeCSV: the tokens emitted so far and the set of tokens seen.\<close>

definition appendToken :: "string list \<times> string list \<Rightarrow> string \<Rightarrow> string list \<times> string list" where
  "appendToken st tok =
     (case st of (out, seen) \<Rightarrow>
        let t = TrimSpace tok in
        if t = [] then (out, seen)
        else if List.member seen t then (out, seen)
        else (out @ [t], t # seen))"

definition mergeCSV :: "string \<Rightarrow> string \<Rightarrow> string" where
  "mergeCSV existing add =
     Join (fst (foldl appendToken (foldl appendToken ([], []) (Split existing (CHR '','')))
                 (Split add (CHR '','')))) '', ''"

definition needsRefresh :: "int list \<Rightarrow> int \<Rightarrow> bool" where
  "needsRefresh refreshOn status = list_ex (\<lambda>s. s = status) refreshOn"

definition apply_set :: "header \<Rightarrow> string_map \<Rightarrow> header" where
  "apply_set h m = foldl (\<lambda>h (k, v). Header_Set h k v) h m"

definition apply_merge :: "header \<Rightarrow> string_map \<Rightarrow> header" where
  "apply_merge h m = foldl (\<lambda>h (k, v). Header_Set h k (mergeCSV (Header_Get h k) v)) h m"

definition apply_query :: "string \<Rightarrow> string_map \<Rightarrow> string" where
  "apply_query raw m =
     (if 0 < length m then Encode (foldl (\<lambda>q (k, v). values_set q k v) (ParseQuery raw) m) else raw)"

text \<open>applyPlan: \<open>body = None\<close> is the nil slice.\<close>

definition applyPlan :: "http_request \<Rightarrow> bytes option \<Rightarrow> requestPlan \<Rightarrow> http_request" where
  "applyPlan r body p =
     (let r1 = (case body of
                  None \<Rightarrow> r
                | Some b \<Rightarrow> r\<lparr>Body := \<lparr>stream_data = b, stream_fails = False\<rparr>,
                             ContentLength := int (length b)\<rparr>);
          h1 = foldl Header_Del (ReqHeader r1) (deleteHeaders p);
          h2 = apply_set h1 (setHeaders p);
          h3 = apply_merge h2 (mergeHeaders p)
      in r1\<lparr>ReqHeader := h3,
            URL := (URL r1)\<lparr>RawQuery := apply_query (RawQuery (URL r1)) (setQuery p)\<rparr>\<rparr>)"

section \<open>Comma-separated values\<close>

definition csv_tokens :: "string \<Rightarrow> string list" where
  "csv_tokens s = filter (\<lambda>t. t \<noteq> []) (map TrimSpace (Split s (CHR '','')))"

text \<open>Duplicates removed, first occurrences kept.\<close>

definition dedup :: "'a list \<Rightarrow> 'a list" where
  "dedup xs = rev (remdups (rev xs))"

lemma dedup_snoc: "dedup (xs @ [x]) = (if x \<in> set xs then dedup xs else dedup xs @ [x])"
  by (simp add: dedup_def)

lemma set_dedup [simp]: "set (dedup xs) = set xs"
  by (simp add: dedup_def)

lemma distinct_dedup [simp]: "distinct (dedup xs)"
  by (simp add: dedup_def)

lemma dedup_id: "distinct xs \<Longrightarrow> dedup xs = xs"
  by (simp add: dedup_def distinct_remdups_id)

lemma dedup_append_subset: "set ys \<subseteq> set xs \<Longrightarrow> dedup (xs @ ys) = dedup xs"
  by (induction ys rule: rev_induct) (simp_all flip: append_assoc add: dedup_snoc)

lemma foldl_appendToken:
  assumes "set seen = set out" and "out = dedup xs"
  shows "fst (foldl appendToken (out, seen) ts) =
           dedup (xs @ filter (\<lambda>t. t \<noteq> []) (map TrimSpace ts)) \<and>
         set (snd (foldl appendToken (out, seen) ts)) = set (fst (foldl appendToken (out, seen) ts))"
  using assms
proof (induction ts arbitrary: out seen xs)
  case (Cons t ts)
  show ?case
  proof (cases "TrimSpace t = []")
    case True
    with Cons show ?thesis by (simp add: appendToken_def)
  next
    case False
    let ?t = "TrimSpace t"
    let ?st = "appendToken (out, seen) t"
    have st: "set (snd ?st) = set (fst ?st)" "fst ?st = dedup (xs @ [?t])"
      using Cons.prems False by (auto simp: appendToken_def dedup_snoc Let_def)
    from Cons.IH [OF st] False show ?thesis by (cases ?st) simp
  qed
qed simp

lemma mergeCSV_eq: "mergeCSV e a = Join (dedup (csv_tokens e @ csv_tokens a)) '', ''"
proof -
  let ?s1 = "foldl appendToken ([], []) (Split e (CHR '',''))"
  have s1: "fst ?s1 = dedup (csv_tokens e)" "set (snd ?s1) = set (fst ?s1)"
    using foldl_appendToken [of "[]" "[]" "[]" "Split e (CHR '','')"]
    by (simp_all add: csv_tokens_def dedup_def)
  obtain o1 n1 where st: "?s1 = (o1, n1)" by force
  have "fst (foldl appendToken (o1, n1) (Split a (CHR '',''))) = dedup (csv_tokens e @ csv_tokens a)"
    using foldl_appendToken [of n1 o1 "csv_tokens e"] s1 st by (simp add: csv_tokens_def)
  with st show ?thesis by (simp add: mergeCSV_def)
qed

lemma csv_token_props: "t \<in> set (csv_tokens s) \<Longrightarrow> trimmed t \<and> t \<noteq> [] \<and> CHR '','' \<notin> set t"
  using Split_no_sep set_TrimSpace TrimSpace_trimmed by (fastforce simp: csv_tokens_def)

lemma TrimSpace_space: "\<lbrakk>trimmed t; t \<noteq> []\<rbrakk> \<Longrightarrow> TrimSpace (CHR '' '' # t) = t"
proof -
  assume t: "trimmed t" "t \<noteq> []"
  have "strip_first space_runes (CHR '' '' # t) = Some t"
    by (simp add: space_runes_def)
  then have "strip_all space_runes (CHR '' '' # t) = strip_all space_runes t"
    by (subst strip_all.simps) simp
  then show ?thesis using TrimSpace_id [OF t(1)] by (simp add: TrimSpace_def)
qed

lemma Join_Cons_Cons: "Join ((c # s) # ts) sep = c # Join (s # ts) sep"
  by (cases ts) auto

lemma Join_comma_space: "Join (t # ts) '', '' = Join (t # map ((#) (CHR '' '')) ts) '',''"
  by (induction ts arbitrary: t) (auto simp: Join_Cons_Cons)

lemma csv_tokens_Join:
  assumes "\<forall>t \<in> set ts. trimmed t \<and> t \<noteq> [] \<and> CHR '','' \<notin> set t"
  shows "csv_tokens (Join ts '', '') = ts"
proof (cases ts)
  case (Cons t us)
  have "Split (Join (t # map ((#) (CHR '' '')) us) '','') (CHR '','') = t # map ((#) (CHR '' '')) us"
    using assms Cons by (intro Split_Join) auto
  moreover have "map (\<lambda>u. TrimSpace (CHR '' '' # u)) us = us"
    using assms Cons by (intro map_idI) (auto simp: TrimSpace_space)
  ultimately show ?thesis
    using assms Cons by (auto simp: csv_tokens_def Join_comma_space comp_def TrimSpace_id filter_id_conv)
qed (simp add: csv_tokens_def)

lemma csv_tokens_mergeCSV: "csv_tokens (mergeCSV e a) = dedup (csv_tokens e @ csv_tokens a)"
  unfolding mergeCSV_eq by (rule csv_tokens_Join) (auto dest: csv_token_props)

section \<open>Headers and query of the outgoing request\<close>

abbreviation canon_keys :: "string_map \<Rightarrow> string list" where
  "canon_keys m \<equiv> map (\<lambda>p. CanonicalHeaderKey (fst p)) m"

definition same_header :: "string \<Rightarrow> string \<times> string \<Rightarrow> bool" where
  "same_header k p \<longleftrightarrow> CanonicalHeaderKey (fst p) = CanonicalHeaderKey k"

lemma find_same_header_fresh:
  "CanonicalHeaderKey k \<notin> set (canon_keys m) \<Longrightarrow> find (same_header k) m = None"
  by (induction m) (auto simp: same_header_def)

lemma apply_set_Cons: "apply_set h (p # m) = apply_set (Header_Set h (fst p) (snd p)) m"
  by (cases p) (simp add: apply_set_def)

lemma apply_merge_Cons:
  "apply_merge h (p # m) = apply_merge (Header_Set h (fst p) (mergeCSV (Header_Get h (fst p)) (snd p))) m"
  by (cases p) (simp add: apply_merge_def)

lemma apply_set_Values:
  "distinct (canon_keys m) \<Longrightarrow>
     Header_Values (apply_set h m) k =
       (case find (same_header k) m of Some p \<Rightarrow> [snd p] | None \<Rightarrow> Header_Values h k)"
proof (induction m arbitrary: h)
  case (Cons p m)
  show ?case
  proof (cases "same_header k p")
    case True
    with Cons.prems have "find (same_header k) m = None"
      by (intro find_same_header_fresh) (auto simp: same_header_def)
    with Cons True show ?thesis by (simp add: apply_set_Cons same_header_def [of k p])
  next
    case False
    with Cons show ?thesis by (simp add: apply_set_Cons same_header_def [of k p] split: option.split)
  qed
qed (simp add: apply_set_def)

lemma apply_merge_Values:
  "distinct (canon_keys m) \<Longrightarrow>
     Header_Values (apply_merge h m) k =
       (case find (same_header k) m of
          Some p \<Rightarrow> [mergeCSV (Header_Get h k) (snd p)] | None \<Rightarrow> Header_Values h k)"
proof (induction m arbitrary: h)
  case (Cons p m)
  show ?case
  proof (cases "same_header k p")
    case True
    with Cons.prems have "find (same_header k) m = None"
      by (intro find_same_header_fresh) (auto simp: same_header_def)
    moreover have "Header_Get h (fst p) = Header_Get h k"
      using True by (simp add: same_header_def Header_Get_def Header_Values_def)
    ultimately show ?thesis using Cons True by (simp add: apply_merge_Cons same_header_def [of k p])
  next
    case False
    with Cons show ?thesis by (simp add: apply_merge_Cons same_header_def [of k p] split: option.split)
  qed
qed (simp add: apply_merge_def)

lemma foldl_values_set_lookup:
  "distinct (map fst m) \<Longrightarrow>
     values_lookup (foldl (\<lambda>q (k, v). values_set q k v) q m) k =
       (case map_of m k of Some v \<Rightarrow> [v] | None \<Rightarrow> values_lookup q k)"
proof (induction m arbitrary: q)
  case (Cons p m)
  then have "map_of m (fst p) = None" by (cases p) (simp add: map_of_eq_None_iff)
  with Cons show ?case by (cases p) (auto split: option.splits)
qed simp

lemma foldl_values_set_distinct:
  "distinct (map fst q) \<Longrightarrow> distinct (map fst (foldl (\<lambda>q (k, v). values_set q k v) q m))"
  by (induction m arbitrary: q) (auto simp: values_set_distinct)

lemma apply_query_lookup:
  "distinct (map fst m) \<Longrightarrow>
     values_lookup (ParseQuery (apply_query raw m)) k =
       (case map_of m k of Some v \<Rightarrow> [v] | None \<Rightarrow> values_lookup (ParseQuery raw) k)"
  by (cases m) (auto simp: apply_query_def ParseQuery_Encode foldl_values_set_distinct
      foldl_values_set_lookup ParseQuery_distinct simp del: foldl_Cons)

lemma planRequest_sel [simp]:
  assumes "distinct (map fst (Headers injection))" "distinct (map fst (AppendHeaders injection))"
  shows "setHeaders (planRequest cfg injection) = Headers injection"
    "mergeHeaders (planRequest cfg injection) = AppendHeaders injection"
  using assms by (simp_all add: planRequest_def)

lemma canon_keys_distinct_fst: "distinct (canon_keys m) \<Longrightarrow> distinct (map fst m)"
  by (induction m) force+

lemma applyPlan_frame [simp]:
  "ReqMethod (applyPlan r b p) = ReqMethod r" "ReqHost (applyPlan r b p) = ReqHost r"
  "Path (URL (applyPlan r b p)) = Path (URL r)" "RawPath (URL (applyPlan r b p)) = RawPath (URL r)"
  by (auto simp: applyPlan_def Let_def split: option.splits)

lemma applyPlan_body:
  "Body (applyPlan r b p) = (case b of None \<Rightarrow> Body r | Some d \<Rightarrow> \<lparr>stream_data = d, stream_fails = False\<rparr>)"
  "ContentLength (applyPlan r b p) = (case b of None \<Rightarrow> ContentLength r | Some d \<Rightarrow> int (length d))"
  by (auto simp: applyPlan_def Let_def split: option.splits)

lemma applyPlan_header:
  "ReqHeader (applyPlan r b p) =
     apply_merge (apply_set (foldl Header_Del (ReqHeader r) (deleteHeaders p)) (setHeaders p)) (mergeHeaders p)"
  by (auto simp: applyPlan_def Let_def split: option.splits)

text \<open>The values a planned request carries under a header, from those of the inbound one.\<close>

definition planned_values :: "'w Route \<Rightarrow> Injection \<Rightarrow> header \<Rightarrow> string \<Rightarrow> string list" where
  "planned_values cfg injection hdr k =
     (let stripped = (if StripInboundAuth cfg \<and> CanonicalHeaderKey k = ''Authorization'' then []
                      else Header_Values hdr k);
          after_set = (case find (same_header k) (Headers injection) of Some p \<Rightarrow> [snd p] | None \<Rightarrow> stripped)
      in case find (same_header k) (AppendHeaders injection) of
           Some p \<Rightarrow> [mergeCSV (case after_set of [] \<Rightarrow> [] | v # _ \<Rightarrow> v) (snd p)]
         | None \<Rightarrow> after_set)"

lemma canon_Authorization: "CanonicalHeaderKey ''Authorization'' = ''Authorization''"
  by code_simp

lemma planned_header_Values:
  assumes "distinct (canon_keys (Headers injection))" and "distinct (canon_keys (AppendHeaders injection))"
  shows "Header_Values (ReqHeader (applyPlan r b (planRequest cfg injection))) k =
     planned_values cfg injection (ReqHeader r) k"
proof -
  have plan: "setHeaders (planRequest cfg injection) = Headers injection"
    "mergeHeaders (planRequest cfg injection) = AppendHeaders injection"
    using assms canon_keys_distinct_fst by simp_all
  show ?thesis
    unfolding applyPlan_header plan apply_merge_Values [OF assms(2)] Header_Get_def
      apply_set_Values [OF assms(1)] foldl_Header_Del_Values Let_def planned_values_def
    by (auto simp: planRequest_def canon_Authorization split: option.splits)
qed

text \<open>
  The values as types.go documents them: a set header carries the injected value alone, an appended
  one the tokens of all its existing lines and then the added ones, none twice, in one line.
\<close>

definition documented_values :: "'w Route \<Rightarrow> Injection \<Rightarrow> header \<Rightarrow> string \<Rightarrow> string list" where
  "documented_values cfg injection hdr k =
     (let existing = (case find (same_header k) (Headers injection) of
                        Some p \<Rightarrow> [snd p]
                      | None \<Rightarrow> (if StripInboundAuth cfg \<and> CanonicalHeaderKey k = ''Authorization'' then [] else Header_Values hdr k))
      in case find (same_header k) (AppendHeaders injection) of
           Some p \<Rightarrow> [Join (dedup (concat (map csv_tokens existing) @ csv_tokens (snd p))) '', '']
         | None \<Rightarrow> existing)"

lemma planned_documented:
  assumes "find (same_header k) (AppendHeaders injection) \<noteq> None \<Longrightarrow> length (Header_Values hdr k) \<le> 1"
  shows "planned_values cfg injection hdr k = documented_values cfg injection hdr k"
proof (cases "find (same_header k) (AppendHeaders injection)")
  case None
  then show ?thesis by (auto simp: planned_values_def documented_values_def Let_def split: option.splits)
next
  case (Some p)
  with assms have "Header_Values hdr k = [] \<or> (\<exists>v. Header_Values hdr k = [v])"
    by (cases "Header_Values hdr k") auto
  moreover have "csv_tokens [] = []" by code_simp
  ultimately show ?thesis
    using Some by (auto simp: planned_values_def documented_values_def Let_def mergeCSV_eq split: option.splits)
qed

section \<open>A small route and injection for the witnesses\<close>

definition demo_injection :: Injection where
  "demo_injection = empty_injection\<lparr>Headers := [(''authorization'', ''Bearer up'')],
     AppendHeaders := [(''anthropic-beta'', ''oauth'')]\<rparr>"

definition demo_url :: url where
  "demo_url = \<lparr>Scheme = [], UrlHost = [], Path = ''/models'', RawPath = [], RawQuery = []\<rparr>"

definition demo_request :: http_request where
  "demo_request =
     \<lparr>ReqMethod = ''POST'', URL = demo_url, ReqHost = ''localhost'',
      ReqHeader = [''Anthropic-Beta'' \<mapsto> [''tools'']],
      Body = \<lparr>stream_data = ''hi'', stream_fails = False\<rparr>, ContentLength = 2\<rparr>"

definition demo_provider :: "unit Provider" where
  "demo_provider = \<lparr>ProviderGet = (\<lambda>_ w. (Inr demo_injection, w)),
     ProviderRefresh = (\<lambda>_ w. (Inr demo_injection, w))\<rparr>"

definition demo_route :: "unit Route" where
  "demo_route =
     \<lparr>RoutePath = ''/anthropic'', Upstream = ''https://api/v1'', RouteProvider = demo_provider,
      RefreshOnStatus = [401], StripInboundAuth = True, AllowedClientIDs = [''ci'']\<rparr>"

section \<open>Properties\<close>

text \<open>
  mergeCSV yields exactly the non-empty trimmed tokens of both lists, in order
  of first occurrence and without duplicates; merging the same addition again changes nothing.
\<close>

theorem mergeCSV_tokens:
  "csv_tokens (mergeCSV e a) = dedup (csv_tokens e @ csv_tokens a) \<and>
   distinct (csv_tokens (mergeCSV e a)) \<and>
   mergeCSV (mergeCSV e a) a = mergeCSV e a"
proof -
  have "mergeCSV (mergeCSV e a) a = Join (dedup (dedup (csv_tokens e @ csv_tokens a) @ csv_tokens a)) '', ''"
    by (simp add: mergeCSV_eq [of "mergeCSV e a"] csv_tokens_mergeCSV)
  also have "\<dots> = mergeCSV e a"
    by (simp add: mergeCSV_eq dedup_append_subset dedup_id)
  finally show ?thesis by (simp add: csv_tokens_mergeCSV)
qed

text \<open>
  The headers of the request that applyPlan builds from a route and an
  injection, for every iteration order of the injection's maps: a header the injection appends
  to carries the merge of its first value with the addition, a header it sets carries exactly
  the injected value, the inbound Authorization header disappears when the route strips it, and
  every other header is unchanged.
\<close>

theorem applyPlan_headers:
  assumes "distinct (canon_keys (Headers injection))" and "distinct (canon_keys (AppendHeaders injection))"
  shows "Header_Values (ReqHeader (applyPlan r b (planRequest cfg injection))) k =
     (let stripped = (if StripInboundAuth cfg \<and> CanonicalHeaderKey k = ''Authorization'' then []
                      else Header_Values (ReqHeader r) k);
          after_set = (case find (same_header k) (Headers injection) of Some p \<Rightarrow> [snd p] | None \<Rightarrow> stripped)
      in case find (same_header k) (AppendHeaders injection) of
           Some p \<Rightarrow> [mergeCSV (case after_set of [] \<Rightarrow> [] | v # _ \<Rightarrow> v) (snd p)]
         | None \<Rightarrow> after_set)"
  by (simp only: planned_header_Values [OF assms] planned_values_def)

theorem applyPlan_headers_witness:
  "Header_Values (ReqHeader (applyPlan demo_request None (planRequest demo_route demo_injection))) ''Anthropic-Beta''
     = [''tools, oauth'']"
proof -
  have d: "distinct (canon_keys (Headers demo_injection))" "distinct (canon_keys (AppendHeaders demo_injection))"
    by (simp_all add: demo_injection_def empty_injection_def)
  have "find (same_header ''Anthropic-Beta'') (Headers demo_injection) = None"
    "find (same_header ''Anthropic-Beta'') (AppendHeaders demo_injection) = Some (''anthropic-beta'', ''oauth'')"
    "Header_Values (ReqHeader demo_request) ''Anthropic-Beta'' = [''tools'']"
    "CanonicalHeaderKey ''Anthropic-Beta'' \<noteq> ''Authorization''"
    by code_simp+
  moreover have "mergeCSV ''tools'' ''oauth'' = ''tools, oauth''" by code_simp
  ultimately show ?thesis by (simp only: applyPlan_headers [OF d] Let_def) simp
qed

text \<open>
  On a header with several lines the merge keeps the first only: the tokens that stand on the other
  lines and nowhere else are not in the request that applyPlan builds, whereas the documentation of
  AppendHeaders merges the addition into the existing values.
\<close>

theorem appended_lines_lost:
  assumes "distinct (canon_keys (Headers injection))" and "distinct (canon_keys (AppendHeaders injection))"
    and "find (same_header k) (Headers injection) = None" and "find (same_header k) (AppendHeaders injection) = Some (k', a)"
    and "CanonicalHeaderKey k \<noteq> ''Authorization''" and "Header_Values (ReqHeader r) k = v # vs"
  shows "Header_Values (ReqHeader (applyPlan r b (planRequest cfg injection))) k = [mergeCSV v a] \<and>
     set (csv_tokens (mergeCSV v a)) = set (csv_tokens v) \<union> set (csv_tokens a)"
  using assms(3-6) by (simp add: planned_header_Values [OF assms(1,2)] planned_values_def csv_tokens_mergeCSV)

text \<open>
  C14 (roundtrip). The query string applyPlan writes parses back to the inbound query with every
  injected parameter replaced by its single injected value and no other key changed.
\<close>

theorem applyPlan_query:
  "values_lookup (ParseQuery (RawQuery (URL (applyPlan r b (planRequest cfg injection))))) k =
     (case map_of (map_copy (Query injection)) k of
        Some v \<Rightarrow> [v] | None \<Rightarrow> values_lookup (ParseQuery (RawQuery (URL r))) k)"
proof -
  have "RawQuery (URL (applyPlan r b (planRequest cfg injection))) =
      apply_query (RawQuery (URL r)) (map_copy (Query injection))"
    by (auto simp: applyPlan_def planRequest_def Let_def split: option.splits)
  then show ?thesis using apply_query_lookup [OF distinct_map_copy] by simp
qed

end
