(* ===== verification/Go_Json.thy ===== *)
theory Go_Json
  imports Go_Prelude "HOL-Library.Char_ord" "HOL-Library.List_Lexorder"
begin

text \<open>
  Go's encoding/json as the sources use it: json.Marshal and Encoder.Encode of strings, string
  lists and string maps, and the decoding of documents into struct fields. Strings are escaped
  as Go escapes them (HTML characters, control bytes, U+2028 and U+2029, invalid UTF-8 replaced
  by U+FFFD); the keys of a map are emitted in increasing byte order. The parser takes fuel,
  which its callers set to the length of the text: every recursive call has consumed a byte.
  Go's limit of 10000 nested values is not modelled, and decode errors carry no position.
\<close>

datatype json =
    JNull
  | JBool bool
  | JNum string
  | JStr string
  | JArr "json list"
  | JObj "(string \<times> json) list"

section \<open>UTF-8\<close>

abbreviation byte_in :: "nat \<Rightarrow> nat \<Rightarrow> char \<Rightarrow> bool" where
  "byte_in lo hi c \<equiv> lo \<le> (of_char c :: nat) \<and> (of_char c :: nat) \<le> hi"

text \<open>The size of the encoded rune a string starts with, 0 where it is not valid UTF-8.\<close>

fun utf8_size :: "string \<Rightarrow> nat" where
  "utf8_size [] = 0"
| "utf8_size (a # s) =
     (if byte_in 0 127 a then 1
      else if byte_in 194 223 a then
        (case s of b # _ \<Rightarrow> if byte_in 128 191 b then 2 else 0 | _ \<Rightarrow> 0)
      else if byte_in 224 239 a then
        (case s of
           b # c # _ \<Rightarrow>
             if byte_in (if of_char a = (224::nat) then 160 else 128)
                        (if of_char a = (237::nat) then 159 else 191) b \<and> byte_in 128 191 c
             then 3 else 0
         | _ \<Rightarrow> 0)
      else if byte_in 240 244 a then
        (case s of
           b # c # d # _ \<Rightarrow>
             if byte_in (if of_char a = (240::nat) then 144 else 128)
                        (if of_char a = (244::nat) then 143 else 191) b
                \<and> byte_in 128 191 c \<and> byte_in 128 191 d
             then 4 else 0
         | _ \<Rightarrow> 0)
      else 0)"

section \<open>Encoding\<close>

definition hex_lower :: "nat \<Rightarrow> char" where
  "hex_lower n = (if n < 10 then char_of (48 + n) else char_of (87 + n))"

definition u_escape :: "nat \<Rightarrow> string" where
  "u_escape n = [CHR 0x5C, CHR ''u'', hex_lower (n div 4096 mod 16), hex_lower (n div 256 mod 16),
                 hex_lower (n div 16 mod 16), hex_lower (n mod 16)]"

definition json_ascii :: "char \<Rightarrow> string" where
  "json_ascii c =
     (if c = CHR 0x22 \<or> c = CHR 0x5C then [CHR 0x5C, c]
      else if c = CHR 0x08 then [CHR 0x5C, CHR ''b'']
      else if c = CHR 0x0C then [CHR 0x5C, CHR ''f'']
      else if c = CHR 0x0A then [CHR 0x5C, CHR ''n'']
      else if c = CHR 0x0D then [CHR 0x5C, CHR ''r'']
      else if c = CHR 0x09 then [CHR 0x5C, CHR ''t'']
      else if byte_in 0 31 c \<or> c = CHR ''<'' \<or> c = CHR ''>'' \<or> c = CHR ''&'' then u_escape (of_char c)
      else [c])"

function json_chars :: "string \<Rightarrow> string" where
  "json_chars [] = []"
| "json_chars (c # s) =
     (if byte_in 0 127 c then json_ascii c @ json_chars s
      else let n = utf8_size (c # s) in
        if n = 0 then u_escape 65533 @ json_chars s
        else if take n (c # s) = [CHR 0xE2, CHR 0x80, CHR 0xA8] then u_escape 8232 @ json_chars (drop (n - 1) s)
        else if take n (c # s) = [CHR 0xE2, CHR 0x80, CHR 0xA9] then u_escape 8233 @ json_chars (drop (n - 1) s)
        else take n (c # s) @ json_chars (drop (n - 1) s))"
  by pat_completeness auto
termination
  by (relation "measure length") auto

definition json_string :: "string \<Rightarrow> string" where
  "json_string s = [CHR 0x22] @ json_chars s @ [CHR 0x22]"

fun json_encode :: "json \<Rightarrow> string" where
  "json_encode JNull = ''null''"
| "json_encode (JBool b) = (if b then ''true'' else ''false'')"
| "json_encode (JNum n) = n"
| "json_encode (JStr s) = json_string s"
| "json_encode (JArr vs) = ''['' @ Join (map json_encode vs) '','' @ '']''"
| "json_encode (JObj kvs) =
     ''{'' @ Join (map (\<lambda>(k, v). json_string k @ '':'' @ json_encode v) kvs) '','' @ ''}''"

text \<open>A Go map[string]string: keys in increasing order.\<close>

definition json_string_map :: "(string \<times> string) list \<Rightarrow> json" where
  "json_string_map m = JObj (map (\<lambda>(k, v). (k, JStr v)) (sort_key fst m))"

text \<open>Encoder.Encode appends a newline.\<close>

definition json_line :: "json \<Rightarrow> string" where
  "json_line v = json_encode v @ [CHR 0x0A]"

section \<open>Decoding\<close>

definition json_space :: "char \<Rightarrow> bool" where
  "json_space c \<longleftrightarrow> List.member [CHR 0x20, CHR 0x09, CHR 0x0A, CHR 0x0D] c"

definition skip_ws :: "string \<Rightarrow> string" where
  "skip_ws = dropWhile json_space"

text \<open>utf8.EncodeRune.\<close>

definition encode_rune :: "nat \<Rightarrow> string" where
  "encode_rune r =
     (if r < 128 then [char_of r]
      else if r < 2048 then [char_of (192 + r div 64), char_of (128 + r mod 64)]
      else if r < 65536 then [char_of (224 + r div 4096), char_of (128 + r div 64 mod 64), char_of (128 + r mod 64)]
      else [char_of (240 + r div 262144), char_of (128 + r div 4096 mod 64), char_of (128 + r div 64 mod 64),
            char_of (128 + r mod 64)])"

definition hex_digit :: "char \<Rightarrow> nat option" where
  "hex_digit c =
     (if is_digit c then Some (of_char c - 48)
      else if in_range (CHR ''a'') (CHR ''f'') c then Some (of_char c - 87)
      else if in_range (CHR ''A'') (CHR ''F'') c then Some (of_char c - 55)
      else None)"

fun hex4 :: "string \<Rightarrow> nat option" where
  "hex4 (a # b # c # d # s) =
     (case (hex_digit a, hex_digit b, hex_digit c, hex_digit d) of
        (Some w, Some x, Some y, Some z) \<Rightarrow> Some (4096 * w + 256 * x + 16 * y + z)
      | _ \<Rightarrow> None)"
| "hex4 _ = None"

text \<open>An escape after its backslash: the decoded bytes and the rest. Surrogate halves pair up.\<close>

definition json_escape :: "string \<Rightarrow> (string \<times> string) option" where
  "json_escape s =
     (case s of
        [] \<Rightarrow> None
      | c # r \<Rightarrow>
          if c = CHR 0x22 \<or> c = CHR 0x5C \<or> c = CHR ''/'' then Some ([c], r)
          else if c = CHR ''b'' then Some ([CHR 0x08], r)
          else if c = CHR ''f'' then Some ([CHR 0x0C], r)
          else if c = CHR ''n'' then Some ([CHR 0x0A], r)
          else if c = CHR ''r'' then Some ([CHR 0x0D], r)
          else if c = CHR ''t'' then Some ([CHR 0x09], r)
          else if c = CHR ''u'' then
            (case hex4 r of
               None \<Rightarrow> None
             | Some u \<Rightarrow>
                 let r' = drop 4 r in
                 if u < 55296 \<or> 57343 < u then Some (encode_rune u, r')
                 else (case (if take 2 r' = [CHR 0x5C, CHR ''u''] then hex4 (drop 2 r') else None) of
                         Some v \<Rightarrow>
                           if u < 56320 \<and> 56320 \<le> v \<and> v \<le> 57343
                           then Some (encode_rune (65536 + (u - 55296) * 1024 + (v - 56320)), drop 6 r')
                           else Some (encode_rune 65533, r')
                       | None \<Rightarrow> Some (encode_rune 65533, r')))
          else None)"

lemma json_escape_shorter: "json_escape s = Some (b, r) \<Longrightarrow> length r < length s"
  by (auto simp: json_escape_def Let_def split: list.splits if_splits option.splits)

function json_unquote :: "string \<Rightarrow> (string \<times> string) option" where
  "json_unquote [] = None"
| "json_unquote (c # s) =
     (if c = CHR 0x22 then Some ([], s)
      else if c = CHR 0x5C then
        (case json_escape s of
           None \<Rightarrow> None
         | Some (b, r) \<Rightarrow> map_option (apfst ((@) b)) (json_unquote r))
      else if byte_in 0 31 c then None
      else if byte_in 0 127 c then map_option (apfst ((#) c)) (json_unquote s)
      else let n = utf8_size (c # s) in
        if n = 0 then map_option (apfst ((@) (encode_rune 65533))) (json_unquote s)
        else map_option (apfst ((@) (take n (c # s)))) (json_unquote (drop (n - 1) s)))"
  by pat_completeness auto
termination
  by (relation "measure length") (auto dest: json_escape_shorter)

text \<open>Number literals, as the scanner accepts them.\<close>

definition json_number :: "string \<Rightarrow> (string \<times> string) option" where
  "json_number s =
     (let (sign, s1) = (case s of c # r \<Rightarrow> if c = CHR ''-'' then (''-'', r) else ([], s) | [] \<Rightarrow> ([], s));
          ip = (case s1 of c # _ \<Rightarrow> if c = CHR ''0'' then ''0'' else takeWhile (\<lambda>c. is_digit c) s1 | [] \<Rightarrow> []);
          s2 = drop (length ip) s1;
          fp = (case s2 of c # r \<Rightarrow> if c = CHR ''.'' then c # takeWhile (\<lambda>c. is_digit c) r else [] | [] \<Rightarrow> []);
          s3 = drop (length fp) s2;
          ep = (case s3 of
                  c # r \<Rightarrow>
                    if c = CHR ''e'' \<or> c = CHR ''E'' then
                      (case r of
                         d # r' \<Rightarrow> if d = CHR ''+'' \<or> d = CHR ''-'' then c # d # takeWhile (\<lambda>c. is_digit c) r'
                                   else c # takeWhile (\<lambda>c. is_digit c) r
                       | [] \<Rightarrow> [c])
                    else []
                | [] \<Rightarrow> [])
      in if ip = [] \<or> fp = ''.'' \<or> (ep \<noteq> [] \<and> \<not> is_digit (last ep)) then None
         else Some (sign @ ip @ fp @ ep, drop (length ep) s3))"

text \<open>Values, the members of an object (with the raw text of each value) and array elements.\<close>

fun json_value :: "nat \<Rightarrow> string \<Rightarrow> (json \<times> string) option"
  and json_members :: "nat \<Rightarrow> string \<Rightarrow> ((string \<times> string \<times> json) list \<times> string) option"
  and json_elems :: "nat \<Rightarrow> string \<Rightarrow> (json list \<times> string) option" where
  "json_value 0 s = None"
| "json_value (Suc n) s =
     (case skip_ws s of
        [] \<Rightarrow> None
      | c # r \<Rightarrow>
          if c = CHR 0x22 then map_option (apfst JStr) (json_unquote r)
          else if c = CHR ''{'' then
            (case skip_ws r of
               [] \<Rightarrow> None
             | d # r' \<Rightarrow> if d = CHR ''}'' then Some (JObj [], r')
                         else map_option (apfst (\<lambda>ms. JObj (map (\<lambda>(k, raw, v). (k, v)) ms))) (json_members n (d # r')))
          else if c = CHR ''['' then
            (case skip_ws r of
               [] \<Rightarrow> None
             | d # r' \<Rightarrow> if d = CHR '']'' then Some (JArr [], r') else map_option (apfst JArr) (json_elems n (d # r')))
          else if HasPrefix (c # r) ''null'' then Some (JNull, drop 4 (c # r))
          else if HasPrefix (c # r) ''true'' then Some (JBool True, drop 4 (c # r))
          else if HasPrefix (c # r) ''false'' then Some (JBool False, drop 5 (c # r))
          else map_option (apfst JNum) (json_number (c # r)))"
| "json_members 0 s = None"
| "json_members (Suc n) s =
     (case skip_ws s of
        [] \<Rightarrow> None
      | q # r \<Rightarrow>
          if q \<noteq> CHR 0x22 then None
          else (case json_unquote r of
                  None \<Rightarrow> None
                | Some (k, r1) \<Rightarrow>
                    (case skip_ws r1 of
                       [] \<Rightarrow> None
                     | col # r2 \<Rightarrow>
                         if col \<noteq> CHR '':'' then None
                         else let s1 = skip_ws r2 in
                           (case json_value n s1 of
                              None \<Rightarrow> None
                            | Some (v, s2) \<Rightarrow>
                                let m = (k, take (length s1 - length s2) s1, v) in
                                (case skip_ws s2 of
                                   [] \<Rightarrow> None
                                 | e # s3 \<Rightarrow>
                                     if e = CHR ''}'' then Some ([m], s3)
                                     else if e = CHR '','' then map_option (apfst ((#) m)) (json_members n s3)
                                     else None)))))"
| "json_elems 0 s = None"
| "json_elems (Suc n) s =
     (case json_value n s of
        None \<Rightarrow> None
      | Some (v, s2) \<Rightarrow>
          (case skip_ws s2 of
             [] \<Rightarrow> None
           | e # s3 \<Rightarrow>
               if e = CHR '']'' then Some ([v], s3)
               else if e = CHR '','' then map_option (apfst ((#) v)) (json_elems n s3)
               else None))"

text \<open>
  The first value of a stream (Decoder.Decode) and a whole document (json.Unmarshal), as the
  members of an object: Inr None is the value null, which leaves a struct untouched.
\<close>

definition json_error :: go_error where
  "json_error = PlainError ''json: invalid document''"

definition decode_stream :: "string \<Rightarrow> go_error + ((string \<times> string \<times> json) list option \<times> string)" where
  "decode_stream s =
     (let n = Suc (length s) in
      case skip_ws s of
        [] \<Rightarrow> Inl json_error
      | c # r \<Rightarrow>
          if c = CHR ''{'' then
            (case skip_ws r of
               [] \<Rightarrow> Inl json_error
             | d # r' \<Rightarrow>
                 if d = CHR ''}'' then Inr (Some [], r')
                 else (case json_members n (d # r') of
                         None \<Rightarrow> Inl json_error
                       | Some (ms, rest) \<Rightarrow> Inr (Some ms, rest)))
          else (case json_value n s of
                  Some (JNull, rest) \<Rightarrow> Inr (None, rest)
                | _ \<Rightarrow> Inl json_error))"

definition decode_document :: "string \<Rightarrow> go_error + (string \<times> string \<times> json) list option" where
  "decode_document s =
     (case decode_stream s of
        Inl e \<Rightarrow> Inl e
      | Inr (ms, rest) \<Rightarrow> if skip_ws rest = [] then Inr ms else Inl json_error)"

text \<open>
  Decoding one JSON value into a Go field that holds a value already; None is a type error. A
  null leaves a string or an integer as it is and clears a map or a slice.
\<close>

definition into_string :: "json \<Rightarrow> string \<Rightarrow> string option" where
  "into_string v old = (case v of JStr s \<Rightarrow> Some s | JNull \<Rightarrow> Some old | _ \<Rightarrow> None)"

definition into_int :: "json \<Rightarrow> 64 word \<Rightarrow> 64 word option" where
  "into_int v old =
     (case v of
        JNum lit \<Rightarrow>
          (let (neg, ds) = (if HasPrefix lit ''-'' then (True, tl lit) else (False, lit));
               n = (if neg then - int (numeral_value ds) else int (numeral_value ds))
           in if ds \<noteq> [] \<and> list_all (\<lambda>c. is_digit c) ds \<and> - (2 ^ 63) \<le> n \<and> n < 2 ^ 63
              then Some (word_of_int n) else None)
      | JNull \<Rightarrow> Some old
      | _ \<Rightarrow> None)"

fun into_map_entries :: "(string \<times> json) list \<Rightarrow> (string \<times> string) list \<Rightarrow> (string \<times> string) list option" where
  "into_map_entries [] m = Some m"
| "into_map_entries ((k, v) # kvs) m =
     (case into_string v [] of
        None \<Rightarrow> None
      | Some s \<Rightarrow> into_map_entries kvs (map_put m k s))"

definition into_string_map :: "json \<Rightarrow> (string \<times> string) list \<Rightarrow> (string \<times> string) list option" where
  "into_string_map v old =
     (case v of JObj kvs \<Rightarrow> into_map_entries kvs old | JNull \<Rightarrow> Some [] | _ \<Rightarrow> None)"

text \<open>A slice keeps its old elements as the starting values; the sources decode into nil slices.\<close>

definition into_strings :: "json \<Rightarrow> string list option" where
  "into_strings v =
     (case v of JArr vs \<Rightarrow> those (map (\<lambda>v. into_string v []) vs) | JNull \<Rightarrow> Some [] | _ \<Rightarrow> None)"

text \<open>The struct field a key selects: an exact name first, else the first that folds to it.\<close>

definition field_for :: "string list \<Rightarrow> string \<Rightarrow> string option" where
  "field_for names k = (if k \<in> set names then Some k else find (\<lambda>n. EqualFold k n) names)"

section \<open>Encoding and decoding agree\<close>

text \<open>Documents made of ASCII strings, arrays and objects.\<close>

abbreviation ascii :: "string \<Rightarrow> bool" where
  "ascii s \<equiv> list_all (\<lambda>c. byte_in 0 127 c) s"

fun json_plain :: "json \<Rightarrow> bool" where
  "json_plain JNull = True"
| "json_plain (JBool b) = True"
| "json_plain (JNum n) = False"
| "json_plain (JStr s) = ascii s"
| "json_plain (JArr vs) = list_all json_plain vs"
| "json_plain (JObj kvs) = list_all (\<lambda>(k, v). ascii k \<and> json_plain v) kvs"

lemma hex_lower_digit: "n < 16 \<Longrightarrow> hex_digit (hex_lower n) = Some n"
proof -
  have "list_all (\<lambda>n. hex_digit (hex_lower n) = Some n) [0..<16]"
    by (simp add: upt_rec hex_lower_def hex_digit_def in_range_def)
  moreover have "n < 16 \<Longrightarrow> n \<in> set [0..<16]" by simp
  ultimately show "n < 16 \<Longrightarrow> ?thesis" unfolding list_all_iff by blast
qed

lemma json_escape_u: "n < 128 \<Longrightarrow> json_escape (tl (u_escape n) @ s) = Some ([char_of n], s)"
  by (simp add: u_escape_def json_escape_def hex_lower_digit encode_rune_def Let_def)

lemma json_unquote_escape:
  "json_escape (e @ s) = Some (b, s) \<Longrightarrow> json_unquote (CHR 0x5C # e @ s) = map_option (apfst ((@) b)) (json_unquote s)"
  by simp

lemma json_unquote_ascii_char:
  assumes "byte_in 0 127 c"
  shows "json_unquote (json_ascii c @ s) = map_option (apfst ((#) c)) (json_unquote s)"
proof -
  have u: "u_escape (of_char c) = CHR 0x5C # tl (u_escape (of_char c))" by (simp add: u_escape_def)
  have cons: "map_option (apfst ((@) [c])) m = map_option (apfst ((#) c)) m" for m :: "(string \<times> string) option"
    by (cases m) auto
  let ?A = "c = CHR 0x22 \<or> c = CHR 0x5C"
  let ?B = "c \<in> {CHR 0x08, CHR 0x0C, CHR 0x0A, CHR 0x0D, CHR 0x09}"
  let ?esc = "byte_in 0 31 c \<or> c \<in> {CHR ''<'', CHR ''>'', CHR ''&''}"
  have asc: "\<not> ?A \<Longrightarrow> \<not> ?B \<Longrightarrow> json_ascii c = (if ?esc then u_escape (of_char c) else [c])"
    by (simp add: json_ascii_def)
  consider ?A | ?B | (esc) "\<not> ?A" "\<not> ?B" ?esc | (self) "\<not> ?A" "\<not> ?B" "\<not> ?esc"
    by argo
  then show ?thesis
  proof cases
    case 1
    then show ?thesis using json_unquote_escape [of "[c]" s "[c]"] cons
      by (auto simp: json_ascii_def json_escape_def)
  next
    case 2
    then obtain l where "json_ascii c = [CHR 0x5C, l]" "json_escape ([l] @ s) = Some ([c], s)"
      by (auto simp: json_ascii_def json_escape_def)
    then show ?thesis using json_unquote_escape [of "[l]" s "[c]"] cons by (metis append_Cons append_Nil)
  next
    case esc
    have "json_escape (tl (u_escape (of_char c)) @ s) = Some ([c], s)"
      using json_escape_u [of "of_char c" s] assms by simp
    then show ?thesis using asc [OF esc(1,2)] esc(3) u json_unquote_escape [of "tl (u_escape (of_char c))" s "[c]"] cons
      by (metis append_Cons)
  next
    case self
    then show ?thesis using assms asc by simp
  qed
qed

lemma json_unquote_chars: "ascii s \<Longrightarrow> json_unquote (json_chars s @ CHR 0x22 # r) = Some (s, r)"
  by (induction s) (simp_all add: json_unquote_ascii_char del: json_unquote.simps(2), simp)

lemma json_encode_start: "json_plain v \<Longrightarrow> \<exists>c s. json_encode v = c # s \<and> \<not> json_space c"
  by (cases v) (auto simp: json_string_def json_space_def)

lemma skip_ws_encode: "json_plain v \<Longrightarrow> skip_ws (json_encode v @ r) = json_encode v @ r"
  using json_encode_start [of v] by (auto simp: skip_ws_def)

lemma skip_ws_Cons: "\<not> json_space c \<Longrightarrow> skip_ws (c # s) = c # s"
  by (simp add: skip_ws_def)

abbreviation elems_text :: "json list \<Rightarrow> string" where
  "elems_text vs \<equiv> Join (map json_encode vs) '',''"

abbreviation members_text :: "(string \<times> json) list \<Rightarrow> string" where
  "members_text kvs \<equiv> Join (map (\<lambda>(k, v). json_string k @ '':'' @ json_encode v) kvs) '',''"

lemma json_elems_encode:
  assumes "vs \<noteq> []" and "length (elems_text vs) < n" and "list_all json_plain vs"
    and "\<And>v n r. v \<in> set vs \<Longrightarrow> length (json_encode v) \<le> n \<Longrightarrow> json_value n (json_encode v @ r) = Some (v, r)"
  shows "json_elems n (elems_text vs @ '']'' @ r) = Some (vs, r)"
  using assms
proof (induction vs arbitrary: n)
  case (Cons v vs)
  then obtain m where n: "n = Suc m" by (cases n) auto
  have sp: "\<not> json_space (CHR '','')" "\<not> json_space (CHR '']'')" by code_simp+
  show ?case
  proof (cases vs)
    case Nil
    with Cons.prems n show ?thesis by (simp add: skip_ws_Cons sp)
  next
    case (Cons v' vs')
    then have l: "length (json_encode v) + Suc (length (elems_text vs)) < n" using Cons.prems(2) by simp
    have "json_value m (json_encode v @ '','' @ elems_text vs @ '']'' @ r) = Some (v, '','' @ elems_text vs @ '']'' @ r)"
      using Cons.prems(4) [of v m] l n by simp
    moreover have "json_elems m (elems_text vs @ '']'' @ r) = Some (vs, r)"
      using Cons.IH [of m] Cons.prems l n Cons by simp
    ultimately show ?thesis by (simp add: n Cons skip_ws_Cons sp)
  qed
qed simp

lemma json_members_encode:
  assumes "kvs \<noteq> []" and "length (members_text kvs) < n" and "list_all (\<lambda>(k, v). ascii k \<and> json_plain v) kvs"
    and "\<And>k v n r. (k, v) \<in> set kvs \<Longrightarrow> length (json_encode v) \<le> n \<Longrightarrow> json_value n (json_encode v @ r) = Some (v, r)"
  shows "json_members n (members_text kvs @ ''}'' @ r) = Some (map (\<lambda>(k, v). (k, json_encode v, v)) kvs, r)"
  using assms
proof (induction kvs arbitrary: n)
  case (Cons kv kvs)
  obtain k v where kv: "kv = (k, v)" by force
  obtain m where n: "n = Suc m" using Cons.prems(2) by (cases n) auto
  have sp: "\<not> json_space (CHR '','')" "\<not> json_space (CHR ''}'')" "\<not> json_space (CHR '':'')" "\<not> json_space (CHR 0x22)"
    by code_simp+
  have pl: "ascii k" "json_plain v" using Cons.prems(3) kv by simp_all
  have uq: "json_unquote (json_chars k @ CHR 0x22 # t) = Some (k, t)" for t using json_unquote_chars [OF pl(1)] .
  show ?case
  proof (cases kvs)
    case Nil
    have "json_value m (json_encode v @ ''}'' @ r) = Some (v, ''}'' @ r)"
      using Cons.prems(2,4) kv n Nil by (simp add: json_string_def)
    with Nil kv show ?thesis by (simp add: n json_string_def uq skip_ws_Cons sp skip_ws_encode [OF pl(2)])
  next
    case (Cons kv' kvs')
    define t where "t = members_text kvs @ ''}'' @ r"
    have l: "length (json_encode v) + Suc (length (members_text kvs)) < n"
      using Cons.prems(2) kv Cons by (simp add: json_string_def)
    have "json_value m (json_encode v @ '','' @ t) = Some (v, '','' @ t)"
      using Cons.prems(4) [of k v m] l n kv by simp
    moreover have "json_members m t = Some (map (\<lambda>(k, v). (k, json_encode v, v)) kvs, r)"
      unfolding t_def
    proof (rule Cons.IH)
      show "json_value j (json_encode y @ q) = Some (y, q)"
        if "(x, y) \<in> set kvs" "length (json_encode y) \<le> j" for x y j q
        using Cons.prems(4) [of x y j q] that by simp
    qed (use Cons.prems(3) l n Cons in simp_all)
    moreover have "members_text (kv # kvs) @ ''}'' @ r = CHR 0x22 # json_chars k @ CHR 0x22 # CHR '':'' # json_encode v @ '','' @ t"
      by (simp add: kv Cons json_string_def t_def)
    ultimately show ?thesis
      by (simp add: n kv uq skip_ws_Cons sp skip_ws_encode [OF pl(2)] del: Join.simps)
  qed
qed simp

lemma json_value_encode:
  "\<lbrakk>json_plain v; length (json_encode v) \<le> n\<rbrakk> \<Longrightarrow> json_value n (json_encode v @ r) = Some (v, r)"
proof (induction v arbitrary: n r)
  case (JStr s)
  then obtain m where "n = Suc m" by (cases n) (auto simp: json_string_def)
  moreover have "\<not> json_space (CHR 0x22)" by code_simp
  ultimately show ?case using JStr by (simp add: json_string_def json_unquote_chars skip_ws_Cons)
next
  case (JArr vs)
  then obtain m where n: "n = Suc m" "length (elems_text vs) < m" by (cases n) auto
  have sp: "\<not> json_space (CHR ''['')" "\<not> json_space (CHR '']'')" by code_simp+
  show ?case
  proof (cases "vs = []")
    case False
    then obtain v vs' where vs: "vs = v # vs'" by (cases vs) auto
    obtain c t where c: "json_encode v = c # t" "\<not> json_space c"
      using json_encode_start [of v] JArr.prems vs by auto
    have "c \<noteq> CHR '']''" using c(1) JArr.prems vs by (cases v) (auto simp: json_string_def split: if_splits)
    moreover obtain t' where "elems_text vs = c # t'" using c(1) vs by (cases vs') auto
    moreover have "json_elems m (elems_text vs @ '']'' @ r) = Some (vs, r)"
      using JArr n False by (intro json_elems_encode) (auto simp: list_all_iff)
    ultimately show ?thesis using c(2) n(1) sp by (simp add: skip_ws_Cons)
  qed (use n sp in \<open>simp add: skip_ws_Cons\<close>)
next
  case (JObj kvs)
  then obtain m where n: "n = Suc m" "length (members_text kvs) < m" by (cases n) auto
  have sp: "\<not> json_space (CHR ''{'')" "\<not> json_space (CHR ''}'')" "\<not> json_space (CHR 0x22)" by code_simp+
  show ?case
  proof (cases "kvs = []")
    case False
    then obtain t where c: "members_text kvs = CHR 0x22 # t"
      by (cases kvs; cases "tl kvs") (auto simp: json_string_def)
    have "json_members m (members_text kvs @ ''}'' @ r) = Some (map (\<lambda>(k, v). (k, json_encode v, v)) kvs, r)"
      using JObj n False by (intro json_members_encode) (auto simp: list_all_iff)
    moreover have "map (\<lambda>(k, raw, v). (k, v)) (map (\<lambda>(k, v). (k, json_encode v, v)) kvs) = kvs"
      by (induction kvs) auto
    ultimately show ?thesis using c n(1) sp by (simp add: skip_ws_Cons)
  qed (use n sp in \<open>simp add: skip_ws_Cons\<close>)
next
  case JNull
  then show ?case by (cases n) (auto simp: skip_ws_def json_space_def)
next
  case (JBool b)
  then show ?case by (cases n; cases b) (auto simp: skip_ws_def json_space_def)
qed simp

text \<open>A whole encoded object decodes to its members, with their encodings as raw text.\<close>

lemma decode_document_encode:
  assumes "json_plain (JObj kvs)" and "skip_ws ws = []"
  shows "decode_document (json_encode (JObj kvs) @ ws) = Inr (Some (map (\<lambda>(k, v). (k, json_encode v, v)) kvs))"
proof -
  have sp: "\<not> json_space (CHR ''{'')" "\<not> json_space (CHR ''}'')" "\<not> json_space (CHR 0x22)"
    by code_simp+
  show ?thesis
  proof (cases "kvs = []")
    case True
    then show ?thesis using sp assms(2) by (simp add: decode_document_def decode_stream_def skip_ws_Cons)
  next
    case False
    then obtain t where c: "members_text kvs = CHR 0x22 # t"
      by (cases kvs; cases "tl kvs") (auto simp: json_string_def)
    have "json_members (Suc (length (json_encode (JObj kvs) @ ws))) (members_text kvs @ ''}'' @ ws) =
        Some (map (\<lambda>(k, v). (k, json_encode v, v)) kvs, ws)"
      using assms(1) False by (intro json_members_encode) (auto simp: list_all_iff intro: json_value_encode)
    then show ?thesis using c sp assms(2)
      by (simp add: decode_document_def decode_stream_def skip_ws_Cons del: json_members.simps)
  qed
qed

lemma decode_document_line:
  "json_plain (JObj kvs) \<Longrightarrow>
     decode_document (json_line (JObj kvs)) = Inr (Some (map (\<lambda>(k, v). (k, json_encode v, v)) kvs))"
proof -
  have "skip_ws [CHR 0x0A] = []" by code_simp
  then show "json_plain (JObj kvs) \<Longrightarrow> ?thesis" unfolding json_line_def by (rule decode_document_encode [rotated])
qed

lemma decode_document_marshal:
  "json_plain (JObj kvs) \<Longrightarrow>
     decode_document (json_encode (JObj kvs)) = Inr (Some (map (\<lambda>(k, v). (k, json_encode v, v)) kvs))"
  using decode_document_encode [of kvs "[]"] by (simp add: skip_ws_def)

end
