(* ===== verification/Route_Handler.thy ===== *)
theory Route_Handler
  imports Proxy_Auth Proxy_Inject Go_Json
begin

text \<open>
  The per-route handler of credproxy/route.go: body buffering, client authorization, the call to
  the provider, the forwarding through httputil.ReverseProxy and the refresh-and-retry path that
  runs inside its error handler. The handler runs against a world \<open>'w\<close> behind the provider and
  the upstream transport; it returns the client's response (None when the handler panics), the
  calls it made in order, and the new world. Logging is left out.
\<close>

section \<open>Definitions\<close>

datatype event = EvGet Request | EvRefresh Request | EvRoundTrip http_request

type_synonym 'w transport = "http_request \<Rightarrow> 'w \<Rightarrow> (go_error + http_response) \<times> 'w"
type_synonym 'w outcome = "http_response option \<times> event list \<times> 'w"

definition maxBodyBuffer :: nat where
  "maxBodyBuffer = 1048576"

record retryState =
  state_body :: "bytes option"
  proxyReq :: Request
  retried :: bool

datatype proxy_error = errNeedsRefresh | TransportError go_error

record 'w routeHandler =
  handlerCfg :: "'w Route"
  routeLog :: string
  proxyTarget :: "url option"

definition newRouteHandler :: "(string \<Rightarrow> go_error + url) \<Rightarrow> 'w Route \<Rightarrow> go_error + 'w routeHandler" where
  "newRouteHandler parse cfg =
     (let h = \<lparr>handlerCfg = cfg, routeLog = TrimPrefix (RoutePath cfg) ''/'', proxyTarget = None\<rparr>
      in if Upstream cfg \<noteq> []
         then (case parse (Upstream cfg) of
                 Inl err \<Rightarrow> Inl err
               | Inr upstream \<Rightarrow> Inr (h\<lparr>proxyTarget := Some upstream\<rparr>))
         else Inr h)"

text \<open>The Rewrite hook newRouteHandler installs.\<close>

definition rewrite_hook :: "url \<Rightarrow> http_request \<Rightarrow> http_request" where
  "rewrite_hook upstream r =
     (let exactPath = (Path (URL r) = []);
          u1 = rewriteURL upstream (URL r);
          u2 = (if exactPath then u1\<lparr>Path := Path upstream, RawPath := RawPath upstream\<rparr> else u1)
      in r\<lparr>URL := u2, ReqHost := UrlHost upstream\<rparr>)"

definition modifyResponse :: "'w Route \<Rightarrow> retryState option \<Rightarrow> http_response \<Rightarrow> bool" where
  "modifyResponse cfg st resp =
     (case st of
        None \<Rightarrow> False
      | Some s \<Rightarrow> state_body s \<noteq> None \<and> needsRefresh (RefreshOnStatus cfg) (StatusCode resp))"

definition writeCredentialError :: "string \<Rightarrow> go_error \<Rightarrow> string \<Rightarrow> http_response" where
  "writeCredentialError rlog err fallback =
     (case as_ReasonError err of
        None \<Rightarrow> http_Error fallback 502
      | Some reason \<Rightarrow>
          \<lparr>StatusCode = 502,
           RespHeader = Header_Set Map.empty ''Content-Type'' ''application/json'',
           RespBody = json_line (json_string_map
             [(''error'', ''credential_unavailable''), (''route'', rlog), (''reason'', reason)])\<rparr>)"

text \<open>What ReverseProxy copies to the client when ModifyResponse accepts the response.\<close>

definition copied_response :: "http_response \<Rightarrow> http_response" where
  "copied_response resp = resp\<lparr>RespHeader := removeHopByHopHeaders (RespHeader resp)\<rparr>"

definition log_event :: "event \<Rightarrow> 'w outcome \<Rightarrow> 'w outcome" where
  "log_event e out = (case out of (resp, evs, w) \<Rightarrow> (resp, e # evs, w))"

definition retry_left :: "retryState option \<Rightarrow> nat" where
  "retry_left st = (case st of Some s \<Rightarrow> if retried s then 0 else 1 | None \<Rightarrow> 0)"

text \<open>
  ReverseProxy.ServeHTTP and errorHandler call each other; the error handler gets the outgoing
  request, as ReverseProxy passes it. The retried flag of the shared state bounds the recursion.
\<close>

function (sequential) proxy_ServeHTTP ::
    "'w transport \<Rightarrow> 'w routeHandler \<Rightarrow> url \<Rightarrow> retryState option \<Rightarrow> http_request \<Rightarrow> 'w \<Rightarrow> 'w outcome"
  and errorHandler ::
    "'w transport \<Rightarrow> 'w routeHandler \<Rightarrow> url \<Rightarrow> retryState option \<Rightarrow> http_request \<Rightarrow> proxy_error \<Rightarrow> 'w
       \<Rightarrow> 'w outcome" where
  "proxy_ServeHTTP tr h up st r w =
     (let out = proxy_outreq (rewrite_hook up) r in
      log_event (EvRoundTrip out)
        (case tr out w of
           (Inl err, w') \<Rightarrow> errorHandler tr h up st out (TransportError err) w'
         | (Inr resp, w') \<Rightarrow>
             if modifyResponse (handlerCfg h) st resp
             then errorHandler tr h up st out errNeedsRefresh w'
             else (Some (copied_response resp), [], w')))"
| "errorHandler tr h up st r (TransportError err) w =
     (Some (http_Error ''upstream error'' 502), [], w)"
| "errorHandler tr h up None r errNeedsRefresh w =
     (Some (http_Error ''upstream auth failure after refresh'' 502), [], w)"
| "errorHandler tr h up (Some s) r errNeedsRefresh w =
     (if retried s then (Some (http_Error ''upstream auth failure after refresh'' 502), [], w)
      else log_event (EvRefresh (proxyReq s))
        (case ProviderRefresh (RouteProvider (handlerCfg h)) (proxyReq s) w of
           (Inl err, w') \<Rightarrow> (Some (writeCredentialError (routeLog h) err ''credential refresh error''), [], w')
         | (Inr refreshInj, w') \<Rightarrow>
             (case decideAction (handlerCfg h) refreshInj of
                actReturnBody \<Rightarrow> (Some (ok_response ''application/json'' (BodyReplace refreshInj)), [], w')
              | actNoUpstream \<Rightarrow> (Some (http_Error ''no upstream configured for route'' 502), [], w')
              | actForward \<Rightarrow>
                  proxy_ServeHTTP tr h up (Some (s\<lparr>retried := True\<rparr>))
                    (applyPlan r (state_body s) (planRequest (handlerCfg h) refreshInj)) w')))"
  by pat_completeness auto

termination
proof (relation "measure (\<lambda>x. case x of
      Inl (tr, h, up, st, r, w) \<Rightarrow> Suc (2 * retry_left st)
    | Inr (tr, h, up, st, r, e, w) \<Rightarrow> 2 * retry_left st)")
qed (auto simp: retry_left_def)

declare proxy_ServeHTTP.simps [simp del] errorHandler.simps [simp del]

text \<open>The provider request that ServeHTTP builds, with the caller's identities as metadata.\<close>

definition provider_request :: "req_context \<Rightarrow> http_request \<Rightarrow> Request" where
  "provider_request ctx r =
     (let clientID = ctx_tokenID ctx;
          m1 = (if clientID \<noteq> [] then [(''token_id'', clientID)] else []);
          m2 = (case peerCredKey ctx of
                  Some pc \<Rightarrow>
                    if cred_available pc
                    then map_put (map_put m1 ''peer_uid'' (decimal (unat (UID pc))))
                           ''peer_pid'' (FormatInt (sint (PID pc)))
                    else m1
                | None \<Rightarrow> m1)
      in \<lparr>Method = ReqMethod r, RequestPath = Path (URL r), Host = ReqHost r, Metadata = m2\<rparr>)"

text \<open>The buffering step: None is a read error; a body over the limit is not kept.\<close>

definition buffer_body :: "'w Route \<Rightarrow> http_request \<Rightarrow> bytes option option" where
  "buffer_body cfg r =
     (if 0 < length (RefreshOnStatus cfg)
      then (case read_limited (Body r) (maxBodyBuffer + 1) of
              None \<Rightarrow> None
            | Some b \<Rightarrow> Some (if maxBodyBuffer < length b then None else Some b))
      else Some None)"

definition serveHTTP ::
  "'w transport \<Rightarrow> 'w routeHandler \<Rightarrow> req_context \<Rightarrow> http_request \<Rightarrow> 'w \<Rightarrow> 'w outcome" where
  "serveHTTP tr h ctx r w =
     (case buffer_body (handlerCfg h) r of
        None \<Rightarrow> (Some (http_Error ''request read error'' 400), [], w)
      | Some body \<Rightarrow>
          if AllowedClientIDs (handlerCfg h) \<noteq> []
             \<and> \<not> clientAllowed (AllowedClientIDs (handlerCfg h)) (ctx_tokenID ctx)
          then (Some (http_Error ''forbidden'' 403), [], w)
          else let preq = provider_request ctx r in
            log_event (EvGet preq)
              (case ProviderGet (RouteProvider (handlerCfg h)) preq w of
                 (Inl err, w') \<Rightarrow> (Some (writeCredentialError (routeLog h) err ''credential error''), [], w')
               | (Inr injection, w') \<Rightarrow>
                   (case decideAction (handlerCfg h) injection of
                      actReturnBody \<Rightarrow> (Some (ok_response ''application/json'' (BodyReplace injection)), [], w')
                    | actNoUpstream \<Rightarrow> (Some (http_Error ''no upstream configured for route'' 502), [], w')
                    | actForward \<Rightarrow>
                        (case proxyTarget h of
                           None \<Rightarrow> (None, [], w')
                         | Some up \<Rightarrow>
                             proxy_ServeHTTP tr h up
                               (Some \<lparr>state_body = body, proxyReq = preq, retried = False\<rparr>)
                               (applyPlan r body (planRequest (handlerCfg h) injection)) w'))))"

section \<open>The outgoing request\<close>

lemma rewrite_hook_frame [simp]:
  "ReqMethod (rewrite_hook up r) = ReqMethod r" "ReqHeader (rewrite_hook up r) = ReqHeader r"
  "Body (rewrite_hook up r) = Body r" "ContentLength (rewrite_hook up r) = ContentLength r"
  "ReqHost (rewrite_hook up r) = UrlHost up"
  by (simp_all add: rewrite_hook_def Let_def)

lemma proxy_outreq_frame [simp]:
  "ReqMethod (proxy_outreq (rewrite_hook up) r) = ReqMethod r"
  "ContentLength (proxy_outreq (rewrite_hook up) r) = ContentLength r"
  "ReqHost (proxy_outreq (rewrite_hook up) r) = UrlHost up"
  "Body (proxy_outreq (rewrite_hook up) r) = (if ContentLength r = 0 then no_body else Body r)"
  by (simp_all add: proxy_outreq_def Let_def)

lemma proxy_outreq_header:
  "ReqHeader (proxy_outreq (rewrite_hook up) r) =
     suppress_agent (foldl Header_Del (removeHopByHopHeaders (ReqHeader r)) forwardedHeaders)"
  by (simp add: proxy_outreq_def Let_def)

lemma suppress_agent_Values:
  "CanonicalHeaderKey k \<noteq> ''User-Agent'' \<Longrightarrow> Header_Values (suppress_agent h) k = Header_Values h k"
proof -
  have "CanonicalHeaderKey ''User-Agent'' = ''User-Agent''" by code_simp
  then show "CanonicalHeaderKey k \<noteq> ''User-Agent'' \<Longrightarrow> ?thesis" by (simp add: suppress_agent_def)
qed

lemma proxy_outreq_Values:
  assumes "CanonicalHeaderKey k \<noteq> ''User-Agent''"
    and "CanonicalHeaderKey k \<notin> CanonicalHeaderKey ` set (forwardedHeaders @ hopHeaders)"
    and "CanonicalHeaderKey k \<notin> CanonicalHeaderKey ` set (connection_tokens (ReqHeader r))"
  shows "Header_Values (ReqHeader (proxy_outreq (rewrite_hook up) r)) k = Header_Values (ReqHeader r) k"
  using assms
  by (auto simp: proxy_outreq_header suppress_agent_Values foldl_Header_Del_Values removeHopByHop_Values)

lemma proxy_outreq_URL:
  "URL (proxy_outreq (rewrite_hook up) r) =
     (let u0 = (URL r)\<lparr>RawQuery := cleanQueryParams (RawQuery (URL r))\<rparr>; u1 = rewriteURL up u0
      in if Path (URL r) = [] then u1\<lparr>Path := Path up, RawPath := RawPath up\<rparr> else u1)"
  by (auto simp: proxy_outreq_def rewrite_hook_def Let_def)

lemma joinURLPath_cong:
  assumes "Path u = Path v" and "RawPath u = RawPath v"
  shows "joinURLPath t u = joinURLPath t v"
proof -
  have "EscapedPath u = EscapedPath v" by (simp only: EscapedPath_def assms)
  then show ?thesis by (simp only: joinURLPath_def assms)
qed

lemma rewriteURL_sel:
  "Path (rewriteURL t u) = fst (joinURLPath t u)" "RawPath (rewriteURL t u) = snd (joinURLPath t u)"
  by (simp_all add: rewriteURL_def split: prod.split)

lemma proxy_outreq_paths:
  "Path (URL (proxy_outreq (rewrite_hook up) r)) =
     (if Path (URL r) = [] then Path up else fst (joinURLPath up (URL r)))"
  "RawPath (URL (proxy_outreq (rewrite_hook up) r)) =
     (if Path (URL r) = [] then RawPath up else snd (joinURLPath up (URL r)))"
proof -
  let ?u = "(URL r)\<lparr>RawQuery := cleanQueryParams (RawQuery (URL r))\<rparr>"
  have "joinURLPath up ?u = joinURLPath up (URL r)" by (rule joinURLPath_cong) simp_all
  then show "Path (URL (proxy_outreq (rewrite_hook up) r)) =
     (if Path (URL r) = [] then Path up else fst (joinURLPath up (URL r)))"
    "RawPath (URL (proxy_outreq (rewrite_hook up) r)) =
     (if Path (URL r) = [] then RawPath up else snd (joinURLPath up (URL r)))"
    by (simp_all add: proxy_outreq_URL Let_def rewriteURL_sel)
qed

lemma proxy_outreq_Path:
  assumes "RawPath up = []" and "RawPath (URL r) = []"
  shows "Path (URL (proxy_outreq (rewrite_hook up) r)) =
           (if Path (URL r) = [] then Path up else singleJoiningSlash (Path up) (Path (URL r)))"
    and "RawPath (URL (proxy_outreq (rewrite_hook up) r)) = []"
  using assms by (simp_all add: proxy_outreq_paths joinURLPath_def)

section \<open>Runs of the proxy\<close>

lemma log_event_eq [simp]: "log_event e (resp, evs, w) = (resp, e # evs, w)"
  by (simp add: log_event_def)

text \<open>A run after the retry flag is set is one round trip.\<close>

lemma errorHandler_retried:
  "retried s \<Longrightarrow> \<exists>resp. StatusCode resp = 502 \<and> errorHandler tr h up (Some s) r e w = (Some resp, [], w)"
  by (cases e) (auto simp: errorHandler.simps http_Error_def)

lemma proxy_retried:
  assumes "retried s"
  shows "\<exists>resp w'. proxy_ServeHTTP tr h up (Some s) r w =
     (Some resp, [EvRoundTrip (proxy_outreq (rewrite_hook up) r)], w')"
proof -
  let ?out = "proxy_outreq (rewrite_hook up) r"
  obtain x w1 where tr: "tr ?out w = (x, w1)" by force
  note unf = proxy_ServeHTTP.simps [of tr h up "Some s" r w] Let_def tr
  show ?thesis
  proof (cases x)
    case (Inl err)
    then show ?thesis by (simp add: unf errorHandler.simps)
  next
    case (Inr resp)
    obtain resp' where "errorHandler tr h up (Some s) ?out errNeedsRefresh w1 = (Some resp', [], w1)"
      using errorHandler_retried [OF assms, of tr h up ?out errNeedsRefresh w1] by blast
    with Inr show ?thesis by (simp add: unf)
  qed
qed

text \<open>A retry sends the plan of the refreshed injection, applied to the first outgoing request.\<close>

definition retry_request :: "'w routeHandler \<Rightarrow> url \<Rightarrow> retryState \<Rightarrow> http_request \<Rightarrow> Injection \<Rightarrow> http_request" where
  "retry_request h up s out injection =
     proxy_outreq (rewrite_hook up)
       (applyPlan out (state_body s) (planRequest (handlerCfg h) injection))"

lemma proxy_fresh:
  assumes fresh: "\<not> retried s" and run: "proxy_ServeHTTP tr h up (Some s) r w = (resp, evs, w')"
  defines "out \<equiv> proxy_outreq (rewrite_hook up) r"
  shows "resp \<noteq> None \<and>
     (evs = [EvRoundTrip out] \<or>
      (state_body s \<noteq> None \<and>
       (\<exists>resp0 w0. tr out w = (Inr resp0, w0) \<and> needsRefresh (RefreshOnStatus (handlerCfg h)) (StatusCode resp0)) \<and>
       (evs = [EvRoundTrip out, EvRefresh (proxyReq s)] \<or>
        (\<exists>injection. evs = [EvRoundTrip out, EvRefresh (proxyReq s),
                            EvRoundTrip (retry_request h up s out injection)]))))"
proof -
  obtain x w1 where tr: "tr out w = (x, w1)" by force
  note unf = proxy_ServeHTTP.simps [of tr h up "Some s" r w] Let_def out_def [symmetric] tr
  show ?thesis
  proof (cases x)
    case (Inl err)
    with run show ?thesis by (auto simp: unf errorHandler.simps)
  next
    case (Inr resp0)
    show ?thesis
    proof (cases "modifyResponse (handlerCfg h) (Some s) resp0")
      case False
      with run Inr show ?thesis by (auto simp: unf)
    next
      case True
      obtain y w2 where ref: "ProviderRefresh (RouteProvider (handlerCfg h)) (proxyReq s) w1 = (y, w2)" by force
      have again: "\<exists>r' v. proxy_ServeHTTP tr h up (Some (s\<lparr>retried := True\<rparr>)) q w2 =
          (Some r', [EvRoundTrip (proxy_outreq (rewrite_hook up) q)], v)" for q
        by (rule proxy_retried) simp
      from True have "state_body s \<noteq> None" "needsRefresh (RefreshOnStatus (handlerCfg h)) (StatusCode resp0)"
        by (auto simp: modifyResponse_def)
      moreover have "resp \<noteq> None \<and> (evs = [EvRoundTrip out, EvRefresh (proxyReq s)] \<or>
          (\<exists>injection. evs = [EvRoundTrip out, EvRefresh (proxyReq s),
                              EvRoundTrip (retry_request h up s out injection)]))"
      proof (cases y)
        case (Inl err)
        with run Inr True ref fresh show ?thesis by (auto simp: unf errorHandler.simps)
      next
        case (Inr injection)
        obtain r' v where a: "proxy_ServeHTTP tr h up (Some (s\<lparr>retried := True\<rparr>))
              (applyPlan out (state_body s) (planRequest (handlerCfg h) injection)) w2 =
            (Some r', [EvRoundTrip (retry_request h up s out injection)], v)"
          using again unfolding retry_request_def by blast
        with run Inr \<open>x = Inr resp0\<close> True ref fresh show ?thesis
          by (cases "decideAction (handlerCfg h) injection") (auto simp: unf errorHandler.simps)
      qed
      ultimately show ?thesis using Inr tr by auto
    qed
  qed
qed

lemma proxy_refresh_failed:
  assumes fresh: "\<not> retried s"
    and run: "proxy_ServeHTTP tr h up (Some s) r w = (resp, EvRoundTrip q # EvRefresh p # rest, w')"
    and tr: "tr q w = (Inr resp0, w1)"
    and ref: "ProviderRefresh (RouteProvider (handlerCfg h)) p w1 = (Inl err, w2)"
  shows "resp = Some (writeCredentialError (routeLog h) err ''credential refresh error'') \<and> rest = [] \<and> w' = w2"
proof -
  have q: "q = proxy_outreq (rewrite_hook up) r" and p: "p = proxyReq s"
    using proxy_fresh [OF fresh run] by auto
  note unf = proxy_ServeHTTP.simps [of tr h up "Some s" r w] Let_def q [symmetric] tr
  have "modifyResponse (handlerCfg h) (Some s) resp0" using run by (auto simp: unf split: if_splits)
  with run ref fresh show ?thesis by (auto simp: unf errorHandler.simps p)
qed

text \<open>The client's view of a failed provider call, as a function of the reason alone.\<close>

definition credential_failure :: "string \<Rightarrow> string \<Rightarrow> string option \<Rightarrow> http_response" where
  "credential_failure route fallback reason =
     (case reason of
        None \<Rightarrow> http_Error fallback 502
      | Some t \<Rightarrow>
          \<lparr>StatusCode = 502, RespHeader = [''Content-Type'' \<mapsto> [''application/json'']],
           RespBody = json_encode (JObj [(''error'', JStr ''credential_unavailable''),
               (''reason'', JStr t), (''route'', JStr route)]) @ [CHR 0x0A]\<rparr>)"

lemma writeCredentialError_failure: "writeCredentialError rlog err fallback = credential_failure rlog fallback (as_ReasonError err)"
proof -
  have "CanonicalHeaderKey ''Content-Type'' = ''Content-Type''" by code_simp
  then show ?thesis
    by (auto simp: writeCredentialError_def credential_failure_def json_line_def json_string_map_def Header_Set_def split: option.splits)
qed

section \<open>Runs of the handler\<close>

lemma newRouteHandler_ok:
  "newRouteHandler parse cfg = Inr h \<Longrightarrow>
     handlerCfg h = cfg \<and> routeLog h = TrimPrefix (RoutePath cfg) ''/'' \<and>
     (Upstream cfg \<noteq> [] \<longleftrightarrow> proxyTarget h \<noteq> None)"
  by (auto simp: newRouteHandler_def Let_def split: if_splits sum.splits)

lemma serveHTTP_forward:
  assumes run: "serveHTTP tr h ctx r w = (resp, evs, w')"
    and ev: "EvRoundTrip q \<in> set evs \<or> EvRefresh p \<in> set evs"
  obtains body injection up evs' w1 where
    "buffer_body (handlerCfg h) r = Some body"
    "ProviderGet (RouteProvider (handlerCfg h)) (provider_request ctx r) w = (Inr injection, w1)"
    "decideAction (handlerCfg h) injection = actForward" "proxyTarget h = Some up"
    "evs = EvGet (provider_request ctx r) # evs'"
    "proxy_ServeHTTP tr h up
       (Some \<lparr>state_body = body, proxyReq = provider_request ctx r, retried = False\<rparr>)
       (applyPlan r body (planRequest (handlerCfg h) injection)) w1 = (resp, evs', w')"
proof -
  obtain body where b: "buffer_body (handlerCfg h) r = Some body"
    using run ev by (cases "buffer_body (handlerCfg h) r") (auto simp: serveHTTP_def)
  obtain x w1 where g: "ProviderGet (RouteProvider (handlerCfg h)) (provider_request ctx r) w = (x, w1)" by force
  obtain injection where i: "x = Inr injection" "decideAction (handlerCfg h) injection = actForward"
    using run ev b g
    by (cases x) (auto simp: serveHTTP_def Let_def split: if_splits action.splits)
  obtain up where up: "proxyTarget h = Some up"
    using run ev b g i by (cases "proxyTarget h") (auto simp: serveHTTP_def Let_def split: if_splits)
  obtain resp1 evs1 w2 where p: "proxy_ServeHTTP tr h up
       (Some \<lparr>state_body = body, proxyReq = provider_request ctx r, retried = False\<rparr>)
       (applyPlan r body (planRequest (handlerCfg h) injection)) w1 = (resp1, evs1, w2)"
    by (metis prod_cases3)
  show ?thesis
    using run ev b g i up p that [OF b _ i(2) up]
    by (auto simp: serveHTTP_def Let_def split: if_splits)
qed

lemma serveHTTP_first:
  assumes "serveHTTP tr h ctx r w = (resp, evs, w')"
  shows "evs = [] \<or> hd evs = EvGet (provider_request ctx r)"
  using assms
  by (auto simp: serveHTTP_def Let_def log_event_def split: option.splits if_splits prod.splits)

lemma serveHTTP_events:
  assumes run: "serveHTTP tr h ctx r w = (resp, evs, w')"
  defines "p \<equiv> provider_request ctx r"
  shows "evs = [] \<or> evs = [EvGet p] \<or>
    (\<exists>up body injection. proxyTarget h = Some up \<and> buffer_body (handlerCfg h) r = Some body \<and>
      fst (ProviderGet (RouteProvider (handlerCfg h)) p w) = Inr injection \<and>
      decideAction (handlerCfg h) injection = actForward \<and>
      (let out = proxy_outreq (rewrite_hook up) (applyPlan r body (planRequest (handlerCfg h) injection));
           s = \<lparr>state_body = body, proxyReq = p, retried = False\<rparr>
       in evs = [EvGet p, EvRoundTrip out] \<or>
          (body \<noteq> None \<and>
           (evs = [EvGet p, EvRoundTrip out, EvRefresh p] \<or>
            (\<exists>ref. evs = [EvGet p, EvRoundTrip out, EvRefresh p,
                         EvRoundTrip (retry_request h up s out ref)])))))"
proof (cases "\<exists>q p. EvRoundTrip q \<in> set evs \<or> EvRefresh p \<in> set evs")
  case True
  then obtain q p' where "EvRoundTrip q \<in> set evs \<or> EvRefresh p' \<in> set evs" by blast
  from serveHTTP_forward [OF run this] obtain body injection up evs' w1 where f:
    "buffer_body (handlerCfg h) r = Some body"
    "ProviderGet (RouteProvider (handlerCfg h)) p w = (Inr injection, w1)"
    "decideAction (handlerCfg h) injection = actForward" "proxyTarget h = Some up"
    "evs = EvGet p # evs'"
    "proxy_ServeHTTP tr h up (Some \<lparr>state_body = body, proxyReq = p, retried = False\<rparr>)
       (applyPlan r body (planRequest (handlerCfg h) injection)) w1 = (resp, evs', w')"
    unfolding p_def by metis
  then show ?thesis using proxy_fresh [OF _ f(6)] by (fastforce simp: Let_def)
next
  case False
  have "evs = EvGet p # tl evs \<and> tl evs = []" if "evs \<noteq> []"
  proof -
    from that serveHTTP_first [OF run] have hd: "hd evs = EvGet p" by (simp add: p_def)
    have "tl evs = []"
      using run that False
      by (auto simp: serveHTTP_def Let_def log_event_def proxy_ServeHTTP.simps
          split: option.splits if_splits prod.splits sum.splits action.splits)
    with hd that show ?thesis by (metis list.collapse)
  qed
  then show ?thesis by (cases evs) auto
qed

lemma serveHTTP_no_panic:
  assumes "newRouteHandler parse cfg = Inr h" and "serveHTTP tr h ctx r w = (resp, evs, w')"
  shows "resp \<noteq> None"
proof -
  have run: "resp1 \<noteq> None"
    if "proxy_ServeHTTP tr h up (Some \<lparr>state_body = b, proxyReq = p, retried = False\<rparr>) q v = (resp1, e1, v1)"
    for up b p q v resp1 e1 v1
    using proxy_fresh [OF _ that] by simp
  have "proxyTarget h \<noteq> None" if "decideAction (handlerCfg h) injection = actForward" for injection
    using that newRouteHandler_ok [OF assms(1)] by (auto simp: decideAction_def split: if_splits)
  with assms(2) run show ?thesis
    by (auto simp: serveHTTP_def Let_def log_event_def
        split: option.splits if_splits prod.splits sum.splits action.splits)
qed

lemma serveHTTP_denied:
  assumes "AllowedClientIDs (handlerCfg h) \<noteq> []"
    and "\<not> clientAllowed (AllowedClientIDs (handlerCfg h)) (ctx_tokenID ctx)"
  shows "serveHTTP tr h ctx r w =
    (Some (if buffer_body (handlerCfg h) r = None then http_Error ''request read error'' 400
           else http_Error ''forbidden'' 403), [], w)"
  using assms by (auto simp: serveHTTP_def split: option.splits)

lemma buffer_body_Some_Some:
  "buffer_body cfg r = Some (Some b) \<Longrightarrow>
     RefreshOnStatus cfg \<noteq> [] \<and> b = stream_data (Body r) \<and> length b \<le> maxBodyBuffer \<and> \<not> stream_fails (Body r)"
  by (auto simp: buffer_body_def read_limited_def split: if_splits option.splits)

lemma buffer_body_small:
  "\<lbrakk>RefreshOnStatus cfg \<noteq> []; length (stream_data (Body r)) \<le> maxBodyBuffer; \<not> stream_fails (Body r)\<rbrakk>
     \<Longrightarrow> buffer_body cfg r = Some (Some (stream_data (Body r)))"
  by (simp add: buffer_body_def read_limited_def)

lemma retry_request_body:
  "state_body s = Some b \<Longrightarrow>
     stream_data (Body (retry_request h up s out injection)) = b \<and>
     ContentLength (retry_request h up s out injection) = int (length b)"
  by (auto simp: retry_request_def applyPlan_body no_body_def)

lemma retry_request_URL:
  "Path (URL (retry_request h up s out injection)) = Path (URL (proxy_outreq (rewrite_hook up) out))"
proof -
  let ?r = "applyPlan out (state_body s) (planRequest (handlerCfg h) injection)"
  have "joinURLPath up (URL ?r) = joinURLPath up (URL out)" by (rule joinURLPath_cong) simp_all
  then show ?thesis by (simp add: retry_request_def proxy_outreq_paths)
qed

text \<open>The path an attempt for the inbound path p is sent to.\<close>

definition target_path :: "url \<Rightarrow> string \<Rightarrow> string" where
  "target_path up p = (if p = [] then Path up else singleJoiningSlash (Path up) p)"

lemma HasPrefix_slash_Cons: "HasPrefix p ''/'' \<longleftrightarrow> (\<exists>q. p = CHR ''/'' # q)"
  by (auto simp: HasPrefix_iff)

lemma HasSuffix_slash_single: "HasSuffix [c] ''/'' \<longleftrightarrow> c = CHR ''/''"
  by (auto simp: HasSuffix_def)

lemma singleJoiningSlash_longer:
  assumes "u \<noteq> []" and "u \<noteq> ''/''"
  shows "length p < length (singleJoiningSlash u p)"
proof (cases "HasSuffix u ''/'' \<and> HasPrefix p ''/''")
  case True
  with assms have "2 \<le> length u"
    by (cases u; cases "tl u") (auto simp: HasSuffix_slash_single)
  with True show ?thesis by (auto simp: singleJoiningSlash_def HasPrefix_slash_Cons)
next
  case False
  then show ?thesis using assms(1) by (auto simp: singleJoiningSlash_def)
qed

lemma singleJoiningSlash_root:
  "HasPrefix p ''/'' \<Longrightarrow> singleJoiningSlash [] p = p \<and> singleJoiningSlash ''/'' p = p"
  by (auto simp: singleJoiningSlash_def HasPrefix_slash_Cons HasSuffix_def)

lemma target_path_fixpoint:
  assumes "p = [] \<or> HasPrefix p ''/''"
  shows "target_path up (target_path up p) = target_path up p \<longleftrightarrow> Path up = [] \<or> Path up = ''/''"
proof
  assume "Path up = [] \<or> Path up = ''/''"
  with assms show "target_path up (target_path up p) = target_path up p"
    by (auto simp: target_path_def singleJoiningSlash_root)
next
  assume eq: "target_path up (target_path up p) = target_path up p"
  show "Path up = [] \<or> Path up = ''/''"
  proof (rule ccontr)
    assume "\<not> (Path up = [] \<or> Path up = ''/'')"
    then have up: "Path up \<noteq> []" "Path up \<noteq> ''/''" by auto
    let ?q = "target_path up p"
    have "?q \<noteq> []" using up singleJoiningSlash_longer [OF up, of p] by (auto simp: target_path_def)
    then have "length ?q < length (target_path up ?q)"
      using singleJoiningSlash_longer [OF up] by (simp add: target_path_def)
    with eq show False by simp
  qed
qed

lemma connection_tokens_Values:
  "Header_Values h ''Connection'' = Header_Values h' ''Connection'' \<Longrightarrow> connection_tokens h = connection_tokens h'"
proof -
  have "CanonicalHeaderKey ''Connection'' = ''Connection''" by code_simp
  then show "Header_Values h ''Connection'' = Header_Values h' ''Connection'' \<Longrightarrow> ?thesis"
    by (auto simp: connection_tokens_def Header_Values_def split: option.splits)
qed

text \<open>Headers ReverseProxy passes on whatever the request says.\<close>

definition end_to_end :: "string \<Rightarrow> bool" where
  "end_to_end k \<longleftrightarrow>
     \<not> List.member (''User-Agent'' # map CanonicalHeaderKey (forwardedHeaders @ hopHeaders)) (CanonicalHeaderKey k)"

section \<open>A run for the witnesses\<close>

text \<open>An upstream with a path that answers 401 to every request, and a caller known as ci.\<close>

definition demo_upstream :: url where
  "demo_upstream = \<lparr>Scheme = ''https'', UrlHost = ''api'', Path = ''/v1'', RawPath = [], RawQuery = []\<rparr>"

definition demo_handler :: "unit routeHandler" where
  "demo_handler = \<lparr>handlerCfg = demo_route, routeLog = ''anthropic'', proxyTarget = Some demo_upstream\<rparr>"

definition demo_transport :: "unit transport" where
  "demo_transport = (\<lambda>_ w. (Inr (http_Error ''denied'' 401), w))"

definition demo_ctx :: req_context where
  "demo_ctx = background\<lparr>tokenIDKey := Some ''ci''\<rparr>"

definition demo_out :: http_request where
  "demo_out = proxy_outreq (rewrite_hook demo_upstream)
     (applyPlan demo_request (Some ''hi'') (planRequest demo_route demo_injection))"

definition demo_retry :: http_request where
  "demo_retry = proxy_outreq (rewrite_hook demo_upstream)
     (applyPlan demo_out (Some ''hi'') (planRequest demo_route demo_injection))"

lemma demo_handler_new: "newRouteHandler (\<lambda>_. Inr demo_upstream) demo_route = Inr demo_handler"
  by (simp add: newRouteHandler_def demo_route_def demo_handler_def TrimPrefix_def HasPrefix_def)

lemma demo_allowed: "clientAllowed [''ci''] (ctx_tokenID demo_ctx)"
  by code_simp

lemma demo_run:
  "serveHTTP demo_transport demo_handler demo_ctx demo_request () =
     (Some (http_Error ''upstream auth failure after refresh'' 502),
      [EvGet (provider_request demo_ctx demo_request), EvRoundTrip demo_out,
       EvRefresh (provider_request demo_ctx demo_request), EvRoundTrip demo_retry], ())"
proof -
  have cfg: "handlerCfg demo_handler = demo_route" "proxyTarget demo_handler = Some demo_upstream"
    by (simp_all add: demo_handler_def)
  have body: "buffer_body demo_route demo_request = Some (Some ''hi'')"
    by (simp add: buffer_body_def demo_route_def demo_request_def read_limited_def maxBodyBuffer_def)
  have plan: "decideAction demo_route demo_injection = actForward"
    by (simp add: decideAction_def demo_injection_def empty_injection_def demo_route_def)
  have prov: "RouteProvider demo_route = demo_provider" "AllowedClientIDs demo_route = [''ci'']"
    "ProviderGet demo_provider q () = (Inr demo_injection, ())"
    "ProviderRefresh demo_provider q () = (Inr demo_injection, ())" for q
    by (simp_all add: demo_route_def demo_provider_def)
  have refused: "demo_transport q () = (Inr (http_Error ''denied'' 401), ())"
    "modifyResponse demo_route (Some s) (http_Error ''denied'' 401) \<longleftrightarrow> state_body s \<noteq> None" for q s
    by (simp_all add: demo_transport_def modifyResponse_def needsRefresh_def demo_route_def http_Error_def)
  show ?thesis
    by (simp add: serveHTTP_def Let_def cfg body plan prov refused demo_allowed
        proxy_ServeHTTP.simps errorHandler.simps demo_out_def demo_retry_def)
qed

section \<open>Properties\<close>

text \<open>
  C6 (safety). A handler built by newRouteHandler always answers (it never panics), and the calls
  it makes are one of five sequences: nothing; Provider.Get; Get and one upstream request; those
  and one Provider.Refresh; or those and exactly one retried upstream request. A refresh happens
  only on a route with refresh statuses and for a body that was read completely within the
  1 MiB buffer.
\<close>

theorem serveHTTP_call_sequence:
  assumes "newRouteHandler parse cfg = Inr h" and "serveHTTP tr h ctx r w = (resp, evs, w')"
  defines "p \<equiv> provider_request ctx r"
  shows "resp \<noteq> None \<and>
    (\<exists>a b. evs \<in> {[], [EvGet p], [EvGet p, EvRoundTrip a], [EvGet p, EvRoundTrip a, EvRefresh p],
                   [EvGet p, EvRoundTrip a, EvRefresh p, EvRoundTrip b]}) \<and>
    (EvRefresh p \<in> set evs \<longrightarrow>
       RefreshOnStatus cfg \<noteq> [] \<and> length (stream_data (Body r)) \<le> maxBodyBuffer \<and> \<not> stream_fails (Body r))"
proof -
  have "handlerCfg h = cfg" using newRouteHandler_ok [OF assms(1)] by simp
  with serveHTTP_events [OF assms(2), folded p_def] serveHTTP_no_panic [OF assms(1,2)]
  show ?thesis by (auto simp: Let_def dest!: buffer_body_Some_Some)
qed

theorem serveHTTP_call_sequence_witness:
  "\<exists>rs evs. serveHTTP demo_transport demo_handler demo_ctx demo_request () = (Some rs, evs, ()) \<and>
     length evs = 4 \<and> RefreshOnStatus demo_route \<noteq> [] \<and>
     length (stream_data (Body demo_request)) \<le> maxBodyBuffer"
  using serveHTTP_call_sequence [OF demo_handler_new demo_run] demo_run by simp

text \<open>
  On a route restricted by AllowedClientIDs, any provider or upstream call implies
  that the authenticated token id is non-empty and on the list; for every other caller the
  handler makes no call at all, leaves the world unchanged and answers 403 (or 400 when the
  body cannot be read).
\<close>

theorem route_restriction_enforced:
  assumes "AllowedClientIDs (handlerCfg h) \<noteq> []" and "serveHTTP tr h ctx r w = (resp, evs, w')"
  shows "(evs \<noteq> [] \<longrightarrow> ctx_tokenID ctx \<noteq> [] \<and> ctx_tokenID ctx \<in> set (AllowedClientIDs (handlerCfg h))) \<and>
    (\<not> (ctx_tokenID ctx \<noteq> [] \<and> ctx_tokenID ctx \<in> set (AllowedClientIDs (handlerCfg h))) \<longrightarrow>
       evs = [] \<and> w' = w \<and> (\<exists>rs. resp = Some rs \<and> StatusCode rs \<in> {400, 403}))"
proof -
  have allowed: "clientAllowed (AllowedClientIDs (handlerCfg h)) (ctx_tokenID ctx) \<longleftrightarrow>
      ctx_tokenID ctx \<noteq> [] \<and> ctx_tokenID ctx \<in> set (AllowedClientIDs (handlerCfg h))"
    by (auto simp: clientAllowed_def list_ex_iff)
  show ?thesis
    using serveHTTP_denied [OF assms(1), of ctx tr r w] assms(2) allowed
    by (auto simp: http_Error_def split: if_splits)
qed

theorem route_restriction_enforced_witness:
  "serveHTTP demo_transport demo_handler background demo_request () =
     (fst (serveHTTP demo_transport demo_handler background demo_request ()), [], ())"
proof -
  have "AllowedClientIDs (handlerCfg demo_handler) \<noteq> []"
    by (simp add: demo_handler_def demo_route_def)
  from route_restriction_enforced [OF this, of demo_transport background demo_request "()"]
  show ?thesis
    by (cases "serveHTTP demo_transport demo_handler background demo_request ()")
      (auto simp: ctx_tokenID_def background_def)
qed

text \<open>
  C15 (error). When the provider fails, in Get or in Refresh, the client's response is a function
  of the route, of the call that failed and of the first reason token on the error chain only: two
  errors that agree on that token, whatever their messages and wrapped errors, give the same 502
  response. Without a reason it is a fixed text, with one its body is the JSON object of the fixed
  error code, the reason and the route. Nothing is sent upstream after the failure.
\<close>

theorem provider_error_response:
  assumes "serveHTTP tr h ctx r w = (resp, evs, w')"
    and "buffer_body (handlerCfg h) r \<noteq> None"
    and "AllowedClientIDs (handlerCfg h) = [] \<or> clientAllowed (AllowedClientIDs (handlerCfg h)) (ctx_tokenID ctx)"
    and "ProviderGet (RouteProvider (handlerCfg h)) (provider_request ctx r) w = (got, w1)"
  shows "case got of
      Inl err \<Rightarrow> resp = Some (credential_failure (routeLog h) ''credential error'' (as_ReasonError err)) \<and>
        evs = [EvGet (provider_request ctx r)] \<and> w' = w1
    | Inr injection \<Rightarrow>
        (\<forall>q p rest resp0 w2 err w3.
           evs = EvGet (provider_request ctx r) # EvRoundTrip q # EvRefresh p # rest \<and> tr q w1 = (Inr resp0, w2) \<and>
           ProviderRefresh (RouteProvider (handlerCfg h)) p w2 = (Inl err, w3) \<longrightarrow>
           resp = Some (credential_failure (routeLog h) ''credential refresh error'' (as_ReasonError err)) \<and> rest = [] \<and> w' = w3)"
proof (cases got)
  case (Inl err)
  with assms show ?thesis
    by (auto simp: serveHTTP_def Let_def log_event_def writeCredentialError_failure)
next
  case (Inr injection)
  have "resp = Some (credential_failure (routeLog h) ''credential refresh error'' (as_ReasonError err)) \<and> rest = [] \<and> w' = w3"
    if e: "evs = EvGet (provider_request ctx r) # EvRoundTrip q # EvRefresh p # rest" "tr q w1 = (Inr resp0, w2)"
      "ProviderRefresh (RouteProvider (handlerCfg h)) p w2 = (Inl err, w3)" for q p rest resp0 w2 err w3
  proof -
    have "EvRoundTrip q \<in> set evs \<or> EvRefresh p \<in> set evs" by (simp add: e(1))
    from serveHTTP_forward [OF assms(1) this] obtain body up where
      p: "proxy_ServeHTTP tr h up (Some \<lparr>state_body = body, proxyReq = provider_request ctx r, retried = False\<rparr>)
        (applyPlan r body (planRequest (handlerCfg h) injection)) w1 = (resp, EvRoundTrip q # EvRefresh p # rest, w')"
      using assms(4) Inr e(1) by (metis Inr_inject Pair_inject list.inject)
    show ?thesis using proxy_refresh_failed [OF _ p e(2,3)] by (simp add: writeCredentialError_failure)
  qed
  with Inr show ?thesis by auto
qed

definition demo_failing_handler :: "unit routeHandler" where
  "demo_failing_handler = demo_handler\<lparr>handlerCfg := demo_route\<lparr>RouteProvider :=
     demo_provider\<lparr>ProviderRefresh := (\<lambda>_ w. (Inl (WrapError ''hook'' (ReasonError ''sso_login_required'' None)), w))\<rparr>\<rparr>\<rparr>"

lemma demo_failing_run:
  "\<exists>resp. serveHTTP demo_transport demo_failing_handler demo_ctx demo_request () =
     (resp, [EvGet (provider_request demo_ctx demo_request), EvRoundTrip demo_out,
       EvRefresh (provider_request demo_ctx demo_request)], ())"
proof -
  let ?c = "handlerCfg demo_failing_handler"
  have cfg: "proxyTarget demo_failing_handler = Some demo_upstream" "AllowedClientIDs ?c = [''ci'']" "RefreshOnStatus ?c = [401]"
    "Upstream ?c = ''https://api/v1''" "planRequest ?c demo_injection = planRequest demo_route demo_injection"
    "ProviderGet (RouteProvider ?c) q () = (Inr demo_injection, ())"
    "\<exists>e. ProviderRefresh (RouteProvider ?c) q () = (Inl e, ())" for q
    by (simp_all add: demo_failing_handler_def demo_handler_def demo_route_def demo_provider_def planRequest_def)
  have body: "buffer_body ?c demo_request = Some (Some ''hi'')"
    by (simp add: buffer_body_def cfg demo_request_def read_limited_def maxBodyBuffer_def)
  have plan: "decideAction ?c demo_injection = actForward"
    by (simp add: decideAction_def demo_injection_def empty_injection_def cfg)
  have refused: "demo_transport q () = (Inr (http_Error ''denied'' 401), ())"
    "modifyResponse ?c (Some s) (http_Error ''denied'' 401) \<longleftrightarrow> state_body s \<noteq> None" for q s
    by (simp_all add: demo_transport_def modifyResponse_def needsRefresh_def cfg http_Error_def)
  obtain e where e: "ProviderRefresh (RouteProvider ?c) (provider_request demo_ctx demo_request) () = (Inl e, ())" using cfg(7) by blast
  show ?thesis
    by (simp add: serveHTTP_def Let_def cfg(1-6) e body plan refused demo_allowed proxy_ServeHTTP.simps errorHandler.simps demo_out_def)
qed

theorem provider_error_response_witness:
  "\<exists>evs. serveHTTP demo_transport demo_failing_handler demo_ctx demo_request () =
   (Some \<lparr>StatusCode = 502, RespHeader = [''Content-Type'' \<mapsto> [''application/json'']],
          RespBody = json_encode (JObj [(''error'', JStr ''credential_unavailable''),
            (''reason'', JStr ''sso_login_required''), (''route'', JStr ''anthropic'')]) @ [CHR 0x0A]\<rparr>, evs, ())"
proof -
  obtain resp evs where run: "serveHTTP demo_transport demo_failing_handler demo_ctx demo_request () = (resp, evs, ())"
    "evs = [EvGet (provider_request demo_ctx demo_request), EvRoundTrip demo_out, EvRefresh (provider_request demo_ctx demo_request)]"
    using demo_failing_run by blast
  have b: "buffer_body (handlerCfg demo_failing_handler) demo_request \<noteq> None"
    by (simp add: buffer_body_def demo_request_def read_limited_def maxBodyBuffer_def)
  have a: "AllowedClientIDs (handlerCfg demo_failing_handler) = [] \<or>
      clientAllowed (AllowedClientIDs (handlerCfg demo_failing_handler)) (ctx_tokenID demo_ctx)"
    "ProviderGet (RouteProvider (handlerCfg demo_failing_handler)) (provider_request demo_ctx demo_request) () = (Inr demo_injection, ())"
    using demo_allowed by (simp_all add: demo_failing_handler_def demo_handler_def demo_route_def demo_provider_def)
  have "resp = Some (credential_failure ''anthropic'' ''credential refresh error'' (Some ''sso_login_required''))"
    using provider_error_response [OF run(1) b a] run(2)
    by (simp add: demo_failing_handler_def demo_handler_def demo_route_def demo_provider_def demo_transport_def)
  with run(1) show ?thesis by (simp add: credential_failure_def)
qed

text \<open>
  C13 (functional). Every upstream request of a run whose body was buffered carries exactly the
  inbound body bytes and their length, the retry included; a body over the buffer limit is
  forwarded unchanged, once, and never retried.
\<close>

theorem upstream_body_preserved:
  assumes "serveHTTP tr h ctx r w = (resp, evs, w')" and "EvRoundTrip q \<in> set evs"
    and "RefreshOnStatus (handlerCfg h) \<noteq> []"
  shows "(length (stream_data (Body r)) \<le> maxBodyBuffer \<longrightarrow>
            stream_data (Body q) = stream_data (Body r) \<and> ContentLength q = int (length (stream_data (Body r)))) \<and>
         (maxBodyBuffer < length (stream_data (Body r)) \<longrightarrow>
            evs = [EvGet (provider_request ctx r), EvRoundTrip q] \<and> ContentLength q = ContentLength r \<and>
            (ContentLength r \<noteq> 0 \<longrightarrow> Body q = Body r))"
proof -
  from serveHTTP_forward [OF assms(1)] assms(2) obtain body where b: "buffer_body (handlerCfg h) r = Some body"
    by metis
  show ?thesis
  proof (cases "length (stream_data (Body r)) \<le> maxBodyBuffer")
    case True
    with b assms(3) have body: "body = Some (stream_data (Body r))"
      by (auto simp: buffer_body_def read_limited_def split: if_splits option.splits)
    with serveHTTP_events [OF assms(1)] b assms(2) True show ?thesis
      by (auto simp: Let_def applyPlan_body no_body_def retry_request_body)
  next
    case False
    with b assms(3) have body: "body = None"
      by (auto simp: buffer_body_def read_limited_def split: if_splits option.splits)
    with serveHTTP_events [OF assms(1)] b assms(2) False show ?thesis
      by (auto simp: Let_def applyPlan_body)
  qed
qed

theorem upstream_body_preserved_witness:
  "stream_data (Body demo_retry) = ''hi'' \<and> ContentLength demo_retry = 2"
proof -
  have "EvRoundTrip demo_retry \<in> set [EvGet (provider_request demo_ctx demo_request), EvRoundTrip demo_out,
       EvRefresh (provider_request demo_ctx demo_request), EvRoundTrip demo_retry]" by simp
  from upstream_body_preserved [OF demo_run this] show ?thesis
    by (simp add: demo_handler_def demo_route_def demo_request_def maxBodyBuffer_def)
qed

text \<open>
  C12 (functional). The headers of the first upstream request: for an end-to-end header that the
  request's Connection header does not name, and an injection that leaves Connection alone, the
  upstream receives exactly the documented values: the injected value if the injection sets the
  header; if it appends to it, one line with the tokens of the existing value and then the added
  ones, none of them twice; nothing if it is the stripped inbound Authorization; the client's own
  values otherwise. A header that is appended to comes on at most one line from the client.
\<close>

theorem upstream_headers:
  assumes "serveHTTP tr h ctx r w = (resp, EvGet p # EvRoundTrip q # evs, w')"
    and "fst (ProviderGet (RouteProvider (handlerCfg h)) (provider_request ctx r) w) = Inr injection"
    and "distinct (canon_keys (Headers injection))" and "distinct (canon_keys (AppendHeaders injection))"
    and "\<forall>e \<in> set (Headers injection @ AppendHeaders injection). \<not> same_header ''Connection'' e"
    and "end_to_end k"
    and "CanonicalHeaderKey k \<notin> CanonicalHeaderKey ` set (connection_tokens (ReqHeader r))"
    and "find (same_header k) (AppendHeaders injection) \<noteq> None \<Longrightarrow> length (Header_Values (ReqHeader r) k) \<le> 1"
  shows "Header_Values (ReqHeader q) k = documented_values (handlerCfg h) injection (ReqHeader r) k"
proof -
  from serveHTTP_events [OF assms(1)] assms(2) obtain up body where
    q: "q = proxy_outreq (rewrite_hook up) (applyPlan r body (planRequest (handlerCfg h) injection))"
    by (auto simp: Let_def)
  let ?r = "applyPlan r body (planRequest (handlerCfg h) injection)"
  have canon: "CanonicalHeaderKey ''Connection'' \<noteq> ''Authorization''" by code_simp
  have "find (same_header ''Connection'') (Headers injection) = None"
    "find (same_header ''Connection'') (AppendHeaders injection) = None"
    using assms(5) by (auto simp: find_None_iff)
  then have "Header_Values (ReqHeader ?r) ''Connection'' = Header_Values (ReqHeader r) ''Connection''"
    using canon by (simp add: planned_header_Values [OF assms(3,4)] planned_values_def)
  then have "connection_tokens (ReqHeader ?r) = connection_tokens (ReqHeader r)"
    by (rule connection_tokens_Values)
  with assms(6,7) have "Header_Values (ReqHeader q) k = planned_values (handlerCfg h) injection (ReqHeader r) k"
    unfolding q using planned_header_Values [OF assms(3,4)]
    by (subst proxy_outreq_Values) (auto simp: end_to_end_def image_iff)
  then show ?thesis using planned_documented [OF assms(8)] by simp
qed

theorem upstream_headers_witness:
  "Header_Values (ReqHeader demo_out) ''Authorization'' = [''Bearer up''] \<and>
   Header_Values (ReqHeader demo_out) ''Anthropic-Beta'' = [''tools, oauth'']"
proof -
  have get: "fst (ProviderGet (RouteProvider (handlerCfg demo_handler)) (provider_request demo_ctx demo_request) ())
      = Inr demo_injection"
    by (simp add: demo_handler_def demo_route_def demo_provider_def)
  have d: "distinct (canon_keys (Headers demo_injection))" "distinct (canon_keys (AppendHeaders demo_injection))"
    by (simp_all add: demo_injection_def empty_injection_def)
  have c: "\<forall>e \<in> set (Headers demo_injection @ AppendHeaders demo_injection). \<not> same_header ''Connection'' e"
    "end_to_end ''Authorization''" "end_to_end ''Anthropic-Beta''"
    by code_simp+
  have t: "connection_tokens (ReqHeader demo_request) = []"
    by (simp add: connection_tokens_def demo_request_def)
  have v: "length (Header_Values (ReqHeader demo_request) ''Authorization'') \<le> 1" "length (Header_Values (ReqHeader demo_request) ''Anthropic-Beta'') \<le> 1"
    "documented_values (handlerCfg demo_handler) demo_injection (ReqHeader demo_request) ''Authorization'' = [''Bearer up'']"
    "documented_values (handlerCfg demo_handler) demo_injection (ReqHeader demo_request) ''Anthropic-Beta'' = [''tools, oauth'']"
    by code_simp+
  show ?thesis
    using upstream_headers [OF demo_run get d c(1,2)] upstream_headers [OF demo_run get d c(1,3)] t v by simp
qed

text \<open>
  The paths of a run that retries, for a request path that is empty or rooted and
  no escaped forms: the first attempt goes to the request path joined to the upstream's path, but
  the retry joins the upstream's path a second time, because the error handler is given the
  already rewritten request. Both attempts address the same path exactly when the upstream URL
  has an empty or root path.
\<close>

theorem retry_path:
  assumes "serveHTTP tr h ctx r w = (resp, [EvGet p, EvRoundTrip a, EvRefresh p, EvRoundTrip b], w')"
    and "proxyTarget h = Some up" and "RawPath up = []" and "RawPath (URL r) = []"
    and "Path (URL r) = [] \<or> HasPrefix (Path (URL r)) ''/''"
  shows "Path (URL a) = target_path up (Path (URL r)) \<and>
         Path (URL b) = target_path up (target_path up (Path (URL r))) \<and>
         (Path (URL b) = Path (URL a) \<longleftrightarrow> Path up = [] \<or> Path up = ''/'')"
proof -
  from serveHTTP_events [OF assms(1)] assms(2) obtain body injection s ref where
    a: "a = proxy_outreq (rewrite_hook up) (applyPlan r body (planRequest (handlerCfg h) injection))" and
    b: "b = retry_request h up s a ref"
    by (auto simp: Let_def)
  have pa: "Path (URL a) = target_path up (Path (URL r))" "RawPath (URL a) = []"
    using assms(3,4) by (simp_all add: a proxy_outreq_Path target_path_def)
  then have pb: "Path (URL b) = target_path up (Path (URL a))"
    using assms(3) by (simp add: b retry_request_URL proxy_outreq_Path target_path_def)
  show ?thesis using pa pb target_path_fixpoint [OF assms(5), of up] by simp
qed

theorem retry_path_witness:
  "Path (URL demo_out) = ''/v1/models'' \<and> Path (URL demo_retry) = ''/v1/v1/models''"
proof -
  have "proxyTarget demo_handler = Some demo_upstream" by (simp add: demo_handler_def)
  moreover have "RawPath demo_upstream = []" "RawPath (URL demo_request) = []"
    "Path (URL demo_request) = [] \<or> HasPrefix (Path (URL demo_request)) ''/''"
    by code_simp+
  moreover have "target_path demo_upstream (Path (URL demo_request)) = ''/v1/models''"
    "target_path demo_upstream ''/v1/models'' = ''/v1/v1/models''"
    by code_simp+
  ultimately show ?thesis using retry_path [OF demo_run] by simp
qed

end
