(* ===== verification/Proxy_Server.thy ===== *)
theory Proxy_Server
  imports Route_Handler
begin

text \<open>
  The HTTP server of credproxy/server.go: construction with its validation (New,
  validatePeerListenerPolicy, registerRoutes), the listeners it opens, the dispatch of a request
  through the mux, the authentication gate and the route handler, the route listing, and the
  periodic scheduler. The operating system (sockets and files) and the named-pipe listener are
  parameters acting on a state \<open>'o\<close>; logging is left out.
\<close>

section \<open>Definitions\<close>

definition defaultShutdownTimeout :: duration where
  "defaultShutdownTimeout = 15 * second"

definition defaultUnixMode :: "32 word" where
  "defaultUnixMode = 6 * 8 * 8"

definition reservedPaths :: "string list" where
  "reservedPaths = [''/healthz'', ''/_routes'']"

record 'w PeriodicJob =
  JobName :: string
  Every :: duration
  JobRun :: "'w \<Rightarrow> go_error option \<times> 'w"

datatype 'w mux_handler = Healthz | RouteList | RouteEntry string "'w routeHandler"

datatype listener = TCPListener string | UnixListener string | PipeListener string

record 'w Server =
  srv_cfg :: "'w ServerConfig"
  srv_tokens :: "tokenEntry list"
  srv_mux :: "(string \<times> 'w mux_handler) list"
  srv_listeners :: "listener list"
  srv_tcpAddr :: string
  srv_periodicJobs :: "'w PeriodicJob list"

text \<open>The calls New makes to the operating system, with the answers they give.\<close>

record 'o os_net =
  os_listenTCP :: "string \<Rightarrow> 'o \<Rightarrow> (go_error + string) \<times> 'o"
  os_statSocket :: "string \<Rightarrow> 'o \<Rightarrow> bool option"
  os_remove :: "string \<Rightarrow> 'o \<Rightarrow> 'o"
  os_listenUnix :: "string \<Rightarrow> 'o \<Rightarrow> go_error option \<times> 'o"
  os_chmod :: "string \<Rightarrow> 32 word \<Rightarrow> 'o \<Rightarrow> go_error option \<times> 'o"
  os_closeUnix :: "string \<Rightarrow> 'o \<Rightarrow> 'o"
  os_listenPipe :: "string \<Rightarrow> string \<Rightarrow> 'o \<Rightarrow> go_error option \<times> 'o"

definition validatePeerListenerPolicy :: "platform \<Rightarrow> 'w ServerConfig \<Rightarrow> go_error option" where
  "validatePeerListenerPolicy p cfg =
     (if RequireSamePeerUID cfg \<and> \<not> peerCredSupported p
      then Some (PlainError ''credproxy: peer credentials unsupported on this platform'')
      else if RequireSamePeerUID cfg \<and> ListenTCP cfg \<noteq> []
      then Some (PlainError ''credproxy: RequireSamePeerUID cannot be enforced on a TCP listener'')
      else if RequirePeerSID cfg = [] then None
      else if \<not> peerSIDSupported p
      then Some (PlainError ''credproxy: RequirePeerSID is unsupported on this platform'')
      else if ListenPipe cfg = [] \<or> ListenTCP cfg \<noteq> [] \<or> ListenUnix cfg \<noteq> []
      then Some (PlainError ''credproxy: RequirePeerSID requires a named-pipe-only listener'')
      else None)"

text \<open>
  mux.Handle. None is a panic: an empty pattern, or one already registered. Patterns outside the
  literal fragment (wildcards, methods, hosts, escapes) are refused the same way.
\<close>

definition mux_Handle :: "(string \<times> 'h) list \<Rightarrow> string \<Rightarrow> 'h \<Rightarrow> (string \<times> 'h) list option" where
  "mux_Handle m pat h =
     (if literal_pattern pat \<and> pat \<notin> set (map fst m) then Some (m @ [(pat, h)]) else None)"

text \<open>registerRoutes, one route and the whole table: an error, or the mux (None: a panic).\<close>

definition registerRoute ::
  "(string \<Rightarrow> go_error + url) \<Rightarrow> 'w Route \<Rightarrow> (string \<times> 'w mux_handler) list
     \<Rightarrow> go_error + (string \<times> 'w mux_handler) list option" where
  "registerRoute parse r m =
     (if TrimSuffix (RoutePath r) ''/'' \<in> set reservedPaths
      then Inl (PlainError (''credproxy: route '' @ RoutePath r @ '': path is reserved by the server''))
      else case newRouteHandler parse r of
             Inl err \<Rightarrow> Inl (WrapError (''credproxy: route '' @ RoutePath r) err)
           | Inr h \<Rightarrow>
               let wrapped = RouteEntry (RoutePath r) h in
               Inr (case mux_Handle m (RoutePath r) wrapped of
                      None \<Rightarrow> None
                    | Some m' \<Rightarrow>
                        if HasSuffix (RoutePath r) ''/'' then Some m'
                        else mux_Handle m' (RoutePath r @ ''/'') wrapped))"

fun register_all ::
  "(string \<Rightarrow> go_error + url) \<Rightarrow> 'w Route list \<Rightarrow> (string \<times> 'w mux_handler) list
     \<Rightarrow> go_error + (string \<times> 'w mux_handler) list option" where
  "register_all parse [] m = Inr (Some m)"
| "register_all parse (r # rs) m =
     (case registerRoute parse r m of
        Inl err \<Rightarrow> Inl err
      | Inr None \<Rightarrow> Inr None
      | Inr (Some m') \<Rightarrow> register_all parse rs m')"

definition registerRoutes ::
  "(string \<Rightarrow> go_error + url) \<Rightarrow> 'w ServerConfig \<Rightarrow> go_error + (string \<times> 'w mux_handler) list option" where
  "registerRoutes parse cfg =
     register_all parse (Routes cfg) [(''/healthz'', Healthz), (''/_routes'', RouteList)]"

text \<open>The listeners.\<close>

definition openUnixListener ::
  "'o os_net \<Rightarrow> 32 word \<Rightarrow> string \<Rightarrow> 'o \<Rightarrow> (go_error + listener) \<times> 'o" where
  "openUnixListener os cfgMode path o0 =
     (if os_statSocket os path o0 = Some False
      then (Inl (PlainError (''credproxy: listen unix '' @ path @ '': path exists and is not a socket'')), o0)
      else let o1 = (if os_statSocket os path o0 = Some True then os_remove os path o0 else o0) in
        (case os_listenUnix os path o1 of
           (Some err, o2) \<Rightarrow> (Inl (WrapError (''credproxy: listen unix '' @ path) err), o2)
         | (None, o2) \<Rightarrow>
             let mode = (if cfgMode = 0 then defaultUnixMode else cfgMode) in
             (case os_chmod os path mode o2 of
                (Some err, o3) \<Rightarrow>
                  (Inl (WrapError (''credproxy: chmod unix '' @ path) err), os_closeUnix os path o3)
              | (None, o3) \<Rightarrow> (Inr (UnixListener path), o3))))"

text \<open>The named pipe exists on Windows only (pipe_other.go elsewhere).\<close>

definition openPipeListener :: "platform \<Rightarrow> 'o os_net \<Rightarrow> string \<Rightarrow> string \<Rightarrow> 'o \<Rightarrow> go_error option \<times> 'o" where
  "openPipeListener p os path sid o0 =
     (if p = Windows then os_listenPipe os path sid o0
      else (Some (PlainError (''credproxy: named pipes are unsupported on this platform: '' @ path)), o0))"

definition openListeners ::
  "platform \<Rightarrow> 'o os_net \<Rightarrow> 'w ServerConfig \<Rightarrow> 'o \<Rightarrow> (go_error + string \<times> listener list) \<times> 'o" where
  "openListeners p os cfg o0 =
     (let tcp = (if ListenTCP cfg = [] then (Inr ([], []), o0)
                 else case os_listenTCP os (ListenTCP cfg) o0 of
                        (Inl err, o1) \<Rightarrow> (Inl (WrapError (''credproxy: listen tcp '' @ ListenTCP cfg) err), o1)
                      | (Inr addr, o1) \<Rightarrow> (Inr (addr, [TCPListener addr]), o1))
      in case tcp of
        (Inl err, o1) \<Rightarrow> (Inl err, o1)
      | (Inr (addr, ls), o1) \<Rightarrow>
          (let unix = (if ListenUnix cfg = [] then (Inr ls, o1)
                       else case openUnixListener os (UnixMode cfg) (ListenUnix cfg) o1 of
                              (Inl err, o2) \<Rightarrow> (Inl err, o2)
                            | (Inr l, o2) \<Rightarrow> (Inr (ls @ [l]), o2))
           in case unix of
             (Inl err, o2) \<Rightarrow> (Inl err, o2)
           | (Inr ls2, o2) \<Rightarrow>
               if ListenPipe cfg = [] then (Inr (addr, ls2), o2)
               else (case openPipeListener p os (ListenPipe cfg) (RequirePeerSID cfg) o2 of
                       (Some err, o3) \<Rightarrow> (Inl err, o3)
                     | (None, o3) \<Rightarrow> (Inr (addr, ls2 @ [PipeListener (ListenPipe cfg)]), o3))))"

definition token_entries :: "TokenAuth list \<Rightarrow> tokenEntry list" where
  "token_entries ts = map (\<lambda>t. \<lparr>entry_token = Token t, entry_id = ID t\<rparr>) ts"

definition route_conflict :: "'w ServerConfig \<Rightarrow> 'w Route option" where
  "route_conflict cfg = find (\<lambda>r. 0 < length (AllowedClientIDs r) \<and> AllowUnauthenticated cfg) (Routes cfg)"

text \<open>New: an error or the server; None in the second case is a panic in the mux.\<close>

definition New_server ::
  "platform \<Rightarrow> (string \<Rightarrow> go_error + url) \<Rightarrow> 'o os_net \<Rightarrow> 'w ServerConfig \<Rightarrow> 'o
     \<Rightarrow> (go_error + 'w Server option) \<times> 'o" where
  "New_server p parse os cfg o0 =
     (case validatePeerListenerPolicy p cfg of
        Some err \<Rightarrow> (Inl err, o0)
      | None \<Rightarrow>
        (case route_conflict cfg of
           Some r \<Rightarrow>
             (Inl (PlainError (''credproxy: route '' @ RoutePath r @
                '': AllowedClientIDs requires bearer authentication (AllowUnauthenticated is set)'')), o0)
         | None \<Rightarrow>
           (case registerRoutes parse cfg of
              Inl err \<Rightarrow> (Inl err, o0)
            | Inr None \<Rightarrow> (Inr None, o0)
            | Inr (Some m) \<Rightarrow>
              (case openListeners p os cfg o0 of
                 (Inl err, o1) \<Rightarrow> (Inl err, o1)
               | (Inr (addr, ls), o1) \<Rightarrow>
                   if ls = [] then (Inl (PlainError ''credproxy: no listeners configured''), o1)
                   else (Inr (Some \<lparr>srv_cfg = cfg, srv_tokens = token_entries (AuthTokens cfg),
                                srv_mux = m, srv_listeners = ls, srv_tcpAddr = addr,
                                srv_periodicJobs = []\<rparr>), o1)))))"

definition Server_AddAuthToken :: "'w Server \<Rightarrow> string \<Rightarrow> string \<Rightarrow> 'w Server" where
  "Server_AddAuthToken s token i = s\<lparr>srv_tokens := AddAuthToken (srv_tokens s) token i\<rparr>"

definition RegisterPeriodic :: "'w Server \<Rightarrow> 'w PeriodicJob \<Rightarrow> 'w Server" where
  "RegisterPeriodic s j = s\<lparr>srv_periodicJobs := srv_periodicJobs s @ [j]\<rparr>"

text \<open>The route listing.\<close>

definition listed :: "string \<Rightarrow> 'w Route \<Rightarrow> bool" where
  "listed clientID rt \<longleftrightarrow>
     Upstream rt = [] \<and> \<not> (0 < length (AllowedClientIDs rt) \<and> \<not> clientAllowed (AllowedClientIDs rt) clientID)"

definition route_name :: "'w Route \<Rightarrow> string" where
  "route_name rt = TrimPrefix (TrimSuffix (RoutePath rt) ''/'') ''/''"

definition listed_names :: "'w Route list \<Rightarrow> string \<Rightarrow> string list" where
  "listed_names rs clientID = map route_name (filter (listed clientID) rs)"

definition handleRouteList :: "'w ServerConfig \<Rightarrow> req_context \<Rightarrow> http_response" where
  "handleRouteList cfg ctx =
     ok_response ''application/json''
       (json_line (JObj [(''routes'', JArr (map JStr (listed_names (Routes cfg) (ctx_tokenID ctx))))]))"

text \<open>The middleware chain and the server's answer to one request on a connection.\<close>

definition with_auth ::
  "('c \<Rightarrow> 'r \<Rightarrow> http_response + 'c) \<Rightarrow> ('c \<Rightarrow> 'r \<Rightarrow> 'w \<Rightarrow> 'w outcome) \<Rightarrow> 'c \<Rightarrow> 'r \<Rightarrow> 'w \<Rightarrow> 'w outcome" where
  "with_auth gate endpoint ctx r w =
     (case gate ctx r of Inl resp \<Rightarrow> (Some resp, [], w) | Inr ctx' \<Rightarrow> endpoint ctx' r w)"

definition stripped_route ::
  "'w transport \<Rightarrow> string \<Rightarrow> 'w routeHandler \<Rightarrow> req_context \<Rightarrow> http_request \<Rightarrow> 'w \<Rightarrow> 'w outcome" where
  "stripped_route tr path h ctx r w =
     (case StripPrefix path r of
        None \<Rightarrow> (Some http_NotFound, [], w)
      | Some r' \<Rightarrow> serveHTTP tr h ctx r' w)"

datatype reply = Redirected string string | Replied "http_response option"

definition mux_ServeHTTP ::
  "platform \<Rightarrow> 32 word \<Rightarrow> 'w transport \<Rightarrow> 'w Server \<Rightarrow> req_context \<Rightarrow> http_request \<Rightarrow> 'w
     \<Rightarrow> reply \<times> event list \<times> 'w" where
  "mux_ServeHTTP p getuid tr s ctx r w =
     (let gate = (\<lambda>ctx r. authMiddleware p getuid (srv_cfg s) (srv_tokens s) ctx (ReqHeader r));
          replied = (\<lambda>out. case out of (resp, evs, w') \<Rightarrow> (Replied resp, evs, w'))
      in case mux_dispatch (srv_mux s) r of
           MuxRedirect path query \<Rightarrow> (Redirected path query, [], w)
         | MuxNotFound \<Rightarrow> (Replied (Some http_NotFound), [], w)
         | MuxHandler pat Healthz \<Rightarrow> (Replied (Some (ok_response ''text/plain; charset=utf-8'' ''ok'')), [], w)
         | MuxHandler pat RouteList \<Rightarrow>
             replied (with_auth gate (\<lambda>ctx' r w. (Some (handleRouteList (srv_cfg s) ctx'), [], w)) ctx r w)
         | MuxHandler pat (RouteEntry path h) \<Rightarrow>
             replied (with_auth gate (stripped_route tr path h) ctx r w))"

definition server_request ::
  "platform \<Rightarrow> 32 word \<Rightarrow> 'w transport \<Rightarrow> 'w Server \<Rightarrow> conn \<Rightarrow> http_request \<Rightarrow> 'w
     \<Rightarrow> reply \<times> event list \<times> 'w" where
  "server_request p getuid tr s c r w = mux_ServeHTTP p getuid tr s (connContext p background c) r w"

text \<open>
  runScheduler. One pass at time now runs the due jobs in order; clock i is the time read after
  the run of the job at position i. The world is threaded through the runs.
\<close>

record 'w sched_entry =
  entry_job :: "'w PeriodicJob"
  nextFire :: instant

definition sched_start :: "instant \<Rightarrow> 'w PeriodicJob list \<Rightarrow> 'w sched_entry list" where
  "sched_start now jobs = map (\<lambda>j. \<lparr>entry_job = j, nextFire = time_Add now (Every j)\<rparr>) jobs"

fun next_fire :: "instant \<Rightarrow> 'w sched_entry list \<Rightarrow> instant" where
  "next_fire next [] = next"
| "next_fire next (e # es) = next_fire (if nextFire e < next then nextFire e else next) es"

definition sched_delay :: "instant \<Rightarrow> 'w sched_entry list \<Rightarrow> int" where
  "sched_delay now es = (case es of [] \<Rightarrow> 0 | e # es' \<Rightarrow> max 0 (next_fire (nextFire e) es' - now))"

fun sched_pass ::
  "(nat \<Rightarrow> instant) \<Rightarrow> instant \<Rightarrow> nat \<Rightarrow> 'w sched_entry list \<Rightarrow> 'w \<Rightarrow> nat list \<times> 'w sched_entry list \<times> 'w" where
  "sched_pass clock now i [] w = ([], [], w)"
| "sched_pass clock now i (e # es) w =
     (if nextFire e \<le> now
      then (case JobRun (entry_job e) w of
              (err, w1) \<Rightarrow>
                (case sched_pass clock now (Suc i) es w1 of
                   (fired, es', w2) \<Rightarrow>
                     (i # fired, e\<lparr>nextFire := time_Add (clock i) (Every (entry_job e))\<rparr> # es', w2)))
      else (case sched_pass clock now (Suc i) es w of (fired, es', w2) \<Rightarrow> (fired, e # es', w2)))"

section \<open>Construction\<close>

lemma newRouteHandler_keeps: "newRouteHandler parse r = Inr h \<Longrightarrow> handlerCfg h = r"
  by (auto simp: newRouteHandler_def Let_def split: if_splits sum.splits)

text \<open>What the mux of a server holds: the two endpoints of its own, and route entries.\<close>

definition entry_ok :: "(string \<Rightarrow> go_error + url) \<Rightarrow> 'w Route set \<Rightarrow> string \<Rightarrow> string \<Rightarrow> 'w routeHandler \<Rightarrow> bool" where
  "entry_ok parse rs pat path h \<longleftrightarrow>
     handlerCfg h \<in> rs \<and> path = RoutePath (handlerCfg h) \<and> (pat = path \<or> \<not> HasSuffix path ''/'' \<and> pat = path @ ''/'') \<and>
     newRouteHandler parse (handlerCfg h) = Inr h \<and>
     pat \<notin> {''/healthz'', ''/_routes'', ''/healthz/'', ''/_routes/''}"

definition mux_sound :: "(string \<Rightarrow> go_error + url) \<Rightarrow> 'w Route set \<Rightarrow> (string \<times> 'w mux_handler) list \<Rightarrow> bool" where
  "mux_sound parse rs m \<longleftrightarrow>
     distinct (map fst m) \<and> (''/healthz'', Healthz) \<in> set m \<and> (''/_routes'', RouteList) \<in> set m \<and>
     (\<forall>(pat, h) \<in> set m. HasPrefix pat ''/'') \<and>
     (\<forall>pat. (pat, Healthz) \<in> set m \<longrightarrow> pat = ''/healthz'') \<and> (\<forall>pat. (pat, RouteList) \<in> set m \<longrightarrow> pat = ''/_routes'') \<and>
     (\<forall>pat path h. (pat, RouteEntry path h) \<in> set m \<longrightarrow> entry_ok parse rs pat path h)"

definition mux_complete :: "(string \<Rightarrow> go_error + url) \<Rightarrow> 'w Route \<Rightarrow> (string \<times> 'w mux_handler) list \<Rightarrow> bool" where
  "mux_complete parse r m \<longleftrightarrow>
     (\<exists>h. newRouteHandler parse r = Inr h \<and> (RoutePath r, RouteEntry (RoutePath r) h) \<in> set m \<and>
        (\<not> HasSuffix (RoutePath r) ''/'' \<longrightarrow> (RoutePath r @ ''/'', RouteEntry (RoutePath r) h) \<in> set m))"

definition mux_ok :: "(string \<Rightarrow> go_error + url) \<Rightarrow> 'w Route set \<Rightarrow> (string \<times> 'w mux_handler) list \<Rightarrow> bool" where
  "mux_ok parse rs m \<longleftrightarrow> mux_sound parse rs m \<and> (\<forall>r \<in> rs. mux_complete parse r m)"

lemma mux_sound_snoc:
  assumes "mux_sound parse rs m" and "rs \<subseteq> rs'" and "pat \<notin> set (map fst m)" and "HasPrefix pat ''/''"
    and "entry_ok parse rs' pat path h"
  shows "mux_sound parse rs' (m @ [(pat, RouteEntry path h)])"
proof -
  have "entry_ok parse rs q y g \<Longrightarrow> entry_ok parse rs' q y g" for q y g
    using assms(2) by (auto simp: entry_ok_def)
  then show ?thesis using assms by (auto simp: mux_sound_def)
qed

lemma mux_complete_append: "mux_complete parse r m \<Longrightarrow> mux_complete parse r (m @ m')"
  by (auto simp: mux_complete_def)

lemma mux_ok_start: "mux_ok parse {} [(''/healthz'', Healthz), (''/_routes'', RouteList)]"
  by (auto simp: mux_ok_def mux_sound_def)

lemma mux_Handle_Some:
  "mux_Handle m pat h = Some m' \<longleftrightarrow> literal_pattern pat \<and> pat \<notin> set (map fst m) \<and> m' = m @ [(pat, h)]"
  by (auto simp: mux_Handle_def)

lemma reserved_trim:
  "TrimSuffix p ''/'' \<notin> set reservedPaths \<Longrightarrow>
     p \<notin> {''/healthz'', ''/_routes'', ''/healthz/'', ''/_routes/''} \<and>
     (\<not> HasSuffix p ''/'' \<longrightarrow> p @ ''/'' \<notin> {''/healthz/'', ''/_routes/'', ''/healthz'', ''/_routes''})"
proof -
  assume a: "TrimSuffix p ''/'' \<notin> set reservedPaths"
  have "TrimSuffix ''/healthz'' ''/'' = ''/healthz''" "TrimSuffix ''/_routes'' ''/'' = ''/_routes''"
    "TrimSuffix ''/healthz/'' ''/'' = ''/healthz''" "TrimSuffix ''/_routes/'' ''/'' = ''/_routes''"
    by code_simp+
  then have p: "p \<notin> {''/healthz'', ''/_routes'', ''/healthz/'', ''/_routes/''}"
    using a by (auto simp: reservedPaths_def)
  then have "p @ ''/'' \<notin> {''/healthz/'', ''/_routes/'', ''/healthz'', ''/_routes''}"
    by (auto simp: append_eq_Cons_conv)
  with p show ?thesis by blast
qed

lemma registerRoute_ok [step_inv]:
  assumes "registerRoute parse r m = Inr (Some m')" and "mux_ok parse rs m"
  shows "mux_ok parse (insert r rs) m'"
proof -
  from assms(1) obtain h where res: "TrimSuffix (RoutePath r) ''/'' \<notin> set reservedPaths"
    and h: "newRouteHandler parse r = Inr h"
    and m': "(if HasSuffix (RoutePath r) ''/'' then Some (m @ [(RoutePath r, RouteEntry (RoutePath r) h)])
       else mux_Handle (m @ [(RoutePath r, RouteEntry (RoutePath r) h)]) (RoutePath r @ ''/'') (RouteEntry (RoutePath r) h))
       = Some m'"
    and lit: "literal_pattern (RoutePath r)" "RoutePath r \<notin> set (map fst m)"
    by (auto simp: registerRoute_def Let_def mux_Handle_Some split: if_splits sum.splits option.splits)
  note keeps = newRouteHandler_keeps [OF h]
  have rooted: "HasPrefix (RoutePath r) ''/''" using lit by (simp add: literal_pattern_def)
  let ?e = "RouteEntry (RoutePath r) h" and ?rs = "insert r rs"
  have e: "entry_ok parse ?rs (RoutePath r) (RoutePath r) h"
    "\<not> HasSuffix (RoutePath r) ''/'' \<Longrightarrow> entry_ok parse ?rs (RoutePath r @ ''/'') (RoutePath r) h"
    using reserved_trim [OF res] h keeps by (auto simp: entry_ok_def)
  have m1: "mux_sound parse ?rs (m @ [(RoutePath r, ?e)])"
    using assms(2) lit(2) rooted e(1) by (intro mux_sound_snoc [where rs = rs]) (auto simp: mux_ok_def)
  have old: "mux_complete parse q (m @ xs)" if "q \<in> rs" for q xs
    using assms(2) that by (auto simp: mux_ok_def intro: mux_complete_append)
  show ?thesis
  proof (cases "HasSuffix (RoutePath r) ''/''")
    case True
    then have eq: "m' = m @ [(RoutePath r, ?e)]" using m' by simp
    then have "mux_complete parse r m'" using True h by (simp add: mux_complete_def)
    with m1 old eq show ?thesis by (simp add: mux_ok_def)
  next
    case False
    then have two: "m' = (m @ [(RoutePath r, ?e)]) @ [(RoutePath r @ ''/'', ?e)]"
      "RoutePath r @ ''/'' \<notin> set (map fst (m @ [(RoutePath r, ?e)]))" "HasPrefix (RoutePath r @ ''/'') ''/''"
      using m' by (simp_all add: mux_Handle_Some literal_pattern_def)
    have "mux_sound parse ?rs m'"
      unfolding two(1) by (rule mux_sound_snoc [OF m1 _ two(2,3) e(2)]) (use False in simp_all)
    moreover have "mux_complete parse r m'" using two(1) h by (simp add: mux_complete_def)
    ultimately show ?thesis using two(1) old by (simp add: mux_ok_def)
  qed
qed

lemma register_all_ok:
  "\<lbrakk>register_all parse rs m = Inr (Some m'); mux_ok parse done m\<rbrakk> \<Longrightarrow> mux_ok parse (set rs \<union> done) m'"
proof (induction parse rs m arbitrary: "done" rule: register_all.induct)
  case (2 parse r rs m)
  then obtain m1 where "registerRoute parse r m = Inr (Some m1)" "register_all parse rs m1 = Inr (Some m')"
    by (auto split: sum.splits option.splits)
  with 2 registerRoute_ok have "mux_ok parse (set rs \<union> insert r done) m'" by metis
  then show ?case by simp
qed simp

lemma registerRoutes_ok: "registerRoutes parse cfg = Inr (Some m) \<Longrightarrow> mux_ok parse (set (Routes cfg)) m"
  using register_all_ok [OF _ mux_ok_start, of parse "Routes cfg" m] by (simp add: registerRoutes_def)

lemma New_server_Some:
  assumes "New_server p parse os cfg o0 = (Inr (Some s), o1)"
  shows "validatePeerListenerPolicy p cfg = None \<and> route_conflict cfg = None \<and>
     srv_cfg s = cfg \<and> srv_tokens s = token_entries (AuthTokens cfg) \<and>
     mux_ok parse (set (Routes cfg)) (srv_mux s) \<and>
     openListeners p os cfg o0 = (Inr (srv_tcpAddr s, srv_listeners s), o1) \<and> srv_listeners s \<noteq> []"
  using assms by (auto simp: New_server_def intro: registerRoutes_ok split: option.splits sum.splits prod.splits if_splits)

text \<open>
  The servers a program can hold: New's result after any number of token rotations and job
  registrations. No operation touches the mux or the configuration.
\<close>

inductive reachable_server ::
    "platform \<Rightarrow> (string \<Rightarrow> go_error + url) \<Rightarrow> 'o os_net \<Rightarrow> 'w ServerConfig \<Rightarrow> 'w Server \<Rightarrow> bool"
  for p parse os cfg where
  created: "New_server p parse os cfg o0 = (Inr (Some s), o1) \<Longrightarrow> reachable_server p parse os cfg s"
| rotated: "reachable_server p parse os cfg s \<Longrightarrow> reachable_server p parse os cfg (Server_AddAuthToken s token i)"
| scheduled: "reachable_server p parse os cfg s \<Longrightarrow> reachable_server p parse os cfg (RegisterPeriodic s j)"

definition server_ok :: "(string \<Rightarrow> go_error + url) \<Rightarrow> 'w ServerConfig \<Rightarrow> 'w Server \<Rightarrow> bool" where
  "server_ok parse cfg s \<longleftrightarrow>
     srv_cfg s = cfg \<and> mux_ok parse (set (Routes cfg)) (srv_mux s) \<and>
     (AuthTokens cfg \<noteq> [] \<longrightarrow> srv_tokens s \<noteq> []) \<and>
     (AllowUnauthenticated cfg \<longrightarrow> (\<forall>r \<in> set (Routes cfg). AllowedClientIDs r = []))"

lemma reachable_server_ok: "reachable_server p parse os cfg s \<Longrightarrow> server_ok parse cfg s"
proof (induction rule: reachable_server.induct)
  case (created o0 s o1)
  from New_server_Some [OF this] show ?case
    by (auto simp: server_ok_def token_entries_def route_conflict_def find_None_iff)
qed (simp_all add: server_ok_def Server_AddAuthToken_def RegisterPeriodic_def AddAuthToken_nonempty)

section \<open>The guarded endpoints\<close>

text \<open>
  A guarded endpoint: a gate that refuses with 401 or 403, or lets the endpoint run with an
  identity; the endpoint does nothing for an identity it does not permit.
\<close>

locale guarded_endpoint =
  fixes gate :: "'c \<Rightarrow> 'r \<Rightarrow> http_response + 'c"
    and endpoint :: "'c \<Rightarrow> 'r \<Rightarrow> 'w \<Rightarrow> 'w outcome"
    and permitted :: "'c \<Rightarrow> bool"
  assumes gate_refuses: "gate c r = Inl resp \<Longrightarrow> StatusCode resp = 401 \<or> StatusCode resp = 403"
    and endpoint_quiet: "\<lbrakk>endpoint c r w = (out, evs, w'); \<not> permitted c\<rbrakk> \<Longrightarrow> evs = [] \<and> w' = w"
begin

lemma refused:
  assumes "\<nexists>c'. gate c r = Inr c'"
  shows "\<exists>resp. with_auth gate endpoint c r w = (Some resp, [], w) \<and> (StatusCode resp = 401 \<or> StatusCode resp = 403)"
  using assms gate_refuses [of c r] by (cases "gate c r") (auto simp: with_auth_def)

lemma effect_permitted:
  assumes "with_auth gate endpoint c r w = (resp, evs, w')" and "evs \<noteq> [] \<or> w' \<noteq> w"
  shows "\<exists>c'. gate c r = Inr c' \<and> permitted c'"
proof (cases "gate c r")
  case (Inr c')
  with assms have "endpoint c' r w = (resp, evs, w')" by (simp add: with_auth_def)
  with assms(2) endpoint_quiet [of c' r w resp evs w'] Inr show ?thesis by auto
qed (use assms in \<open>simp add: with_auth_def\<close>)

end

lemma authMiddleware_refuses:
  "authMiddleware p getuid cfg tokens ctx hdr = Inl resp \<Longrightarrow> StatusCode resp = 401 \<or> StatusCode resp = 403"
  by (auto simp: authMiddleware_def http_Error_def split: if_splits option.splits)

abbreviation server_gate :: "platform \<Rightarrow> 32 word \<Rightarrow> 'w Server \<Rightarrow> req_context \<Rightarrow> http_request \<Rightarrow> http_response + req_context" where
  "server_gate p getuid s \<equiv> \<lambda>ctx r. authMiddleware p getuid (srv_cfg s) (srv_tokens s) ctx (ReqHeader r)"

definition route_permits :: "'w Route \<Rightarrow> req_context \<Rightarrow> bool" where
  "route_permits rt ctx \<longleftrightarrow> AllowedClientIDs rt = [] \<or> clientAllowed (AllowedClientIDs rt) (ctx_tokenID ctx)"

lemma stripped_route_quiet:
  assumes "stripped_route tr path h ctx r w = (resp, evs, w')" and "\<not> route_permits (handlerCfg h) ctx"
  shows "evs = [] \<and> w' = w"
  using assms serveHTTP_denied [of h ctx tr _ w]
  by (auto simp: stripped_route_def route_permits_def split: option.splits if_splits)

interpretation route_gate: guarded_endpoint "server_gate p getuid s" "stripped_route tr path h"
    "route_permits (handlerCfg h)" for p getuid s tr path h
  by unfold_locales (blast dest: authMiddleware_refuses stripped_route_quiet)+

interpretation listing_gate: guarded_endpoint "server_gate p getuid s"
    "\<lambda>ctx r w. (Some (handleRouteList (srv_cfg s) ctx), [], w)" "\<lambda>_. False" for p getuid s
  by unfold_locales (auto dest: authMiddleware_refuses)

section \<open>Requests\<close>

lemma server_ok_mux:
  assumes "server_ok parse cfg s"
  shows "distinct (map fst (srv_mux s))" "\<forall>(pat, h) \<in> set (srv_mux s). HasPrefix pat ''/''"
    "(''/healthz'', Healthz) \<in> set (srv_mux s)" "(''/_routes'', RouteList) \<in> set (srv_mux s)"
    "srv_cfg s = cfg" "(pat, Healthz) \<in> set (srv_mux s) \<Longrightarrow> pat = ''/healthz''" "(pat, RouteList) \<in> set (srv_mux s) \<Longrightarrow> pat = ''/_routes''"
  using assms by (auto simp: server_ok_def mux_ok_def mux_sound_def)

lemma server_ok_entry:
  "\<lbrakk>server_ok parse cfg s; (pat, RouteEntry path h) \<in> set (srv_mux s)\<rbrakk> \<Longrightarrow> entry_ok parse (set (Routes cfg)) pat path h"
  by (auto simp: server_ok_def mux_ok_def mux_sound_def)

lemma server_ok_route:
  "\<lbrakk>server_ok parse cfg s; rt \<in> set (Routes cfg)\<rbrakk> \<Longrightarrow>
     \<exists>h. newRouteHandler parse rt = Inr h \<and> (RoutePath rt, RouteEntry (RoutePath rt) h) \<in> set (srv_mux s)"
  by (auto simp: server_ok_def mux_ok_def mux_complete_def)

text \<open>
  The route that a request addresses: its path, as a pattern of the mux or as a subtree, matches the
  unescaped segments of the request's path, and no longer path of a route does.
\<close>

definition path_matches :: "string \<Rightarrow> string list \<Rightarrow> bool" where
  "path_matches path segs \<longleftrightarrow> pattern_matches path segs \<or> \<not> HasSuffix path ''/'' \<and> pattern_matches (path @ ''/'') segs"

definition addressed :: "string list \<Rightarrow> http_request \<Rightarrow> string \<Rightarrow> bool" where
  "addressed paths r path \<longleftrightarrow>
     path \<in> set paths \<and>
     (\<exists>segs. path_segs (EscapedPath (URL r)) = Some segs \<and> path_matches path segs \<and>
        (\<forall>path' \<in> set paths. path_matches path' segs \<longrightarrow> length path' \<le> length path))"

abbreviation route_addressed :: "'w ServerConfig \<Rightarrow> http_request \<Rightarrow> 'w Route \<Rightarrow> bool" where
  "route_addressed cfg r rt \<equiv> addressed (map RoutePath (Routes cfg)) r (RoutePath rt)"

lemma path_matches_prefix:
  "HasPrefix path ''/'' \<Longrightarrow> path_matches path segs \<Longrightarrow> HasPrefix (CHR ''/'' # Join segs ''/'') path"
  using pattern_matches_prefix [of path segs] pattern_matches_prefix [of "path @ ''/''" segs]
  by (auto simp: path_matches_def HasPrefix_iff)

lemma same_length_prefix: "HasPrefix p q \<Longrightarrow> HasPrefix p q' \<Longrightarrow> length q = length q' \<Longrightarrow> q = q'"
  by (auto simp: HasPrefix_iff append_eq_append_conv)

lemma server_ok_patterns:
  assumes "server_ok parse cfg s" "rt \<in> set (Routes cfg)"
  shows "HasPrefix (RoutePath rt) ''/''"
    and "path_matches (RoutePath rt) segs \<Longrightarrow>
      \<exists>q h. (q, RouteEntry (RoutePath rt) h) \<in> set (srv_mux s) \<and> newRouteHandler parse rt = Inr h \<and> pattern_matches q segs \<and>
        (q = RoutePath rt \<or> q = RoutePath rt @ ''/'')"
proof -
  obtain h where h: "newRouteHandler parse rt = Inr h" "(RoutePath rt, RouteEntry (RoutePath rt) h) \<in> set (srv_mux s)"
    "\<not> HasSuffix (RoutePath rt) ''/'' \<longrightarrow> (RoutePath rt @ ''/'', RouteEntry (RoutePath rt) h) \<in> set (srv_mux s)"
    using assms by (auto simp: server_ok_def mux_ok_def mux_complete_def)
  then show "HasPrefix (RoutePath rt) ''/''" using bspec [OF server_ok_mux(2) [OF assms(1)] h(2)] by simp
  show "path_matches (RoutePath rt) segs \<Longrightarrow> \<exists>q h. (q, RouteEntry (RoutePath rt) h) \<in> set (srv_mux s) \<and>
      newRouteHandler parse rt = Inr h \<and> pattern_matches q segs \<and> (q = RoutePath rt \<or> q = RoutePath rt @ ''/'')"
    using h by (auto simp: path_matches_def)
qed

lemma route_of_path:
  assumes "server_ok parse cfg s" "rt \<in> set (Routes cfg)" "rt' \<in> set (Routes cfg)" "RoutePath rt' = RoutePath rt"
  shows "rt' = rt"
proof -
  obtain h where h: "newRouteHandler parse rt = Inr h" "(RoutePath rt, RouteEntry (RoutePath rt) h) \<in> set (srv_mux s)"
    using server_ok_route [OF assms(1,2)] by blast
  obtain h' where h': "newRouteHandler parse rt' = Inr h'" "(RoutePath rt, RouteEntry (RoutePath rt) h') \<in> set (srv_mux s)"
    using server_ok_route [OF assms(1,3)] assms(4) by auto
  have "h' = h" using h(2) h'(2) server_ok_mux(1) [OF assms(1)] by (auto dest: eq_key_imp_eq_value)
  with newRouteHandler_keeps [OF h(1)] newRouteHandler_keeps [OF h'(1)] show ?thesis by simp
qed

text \<open>The mux hands a request to the handler of the route it addresses, and to no other.\<close>

lemma dispatch_addressed:
  assumes "server_ok parse cfg s" "mux_dispatch (srv_mux s) r = MuxHandler pat (RouteEntry path h)"
  shows "handlerCfg h \<in> set (Routes cfg)" "path = RoutePath (handlerCfg h)" "newRouteHandler parse (handlerCfg h) = Inr h"
    "route_addressed cfg r (handlerCfg h)"
    "rt \<in> set (Routes cfg) \<Longrightarrow> route_addressed cfg r rt \<Longrightarrow> rt = handlerCfg h"
proof -
  note ok = assms(1)
  note mem = mux_dispatch_registered [OF assms(2)]
  have e: "handlerCfg h \<in> set (Routes cfg)" "path = RoutePath (handlerCfg h)" "pat = path \<or> pat = path @ ''/''"
    "newRouteHandler parse (handlerCfg h) = Inr h"
    using server_ok_entry [OF ok mem] by (auto simp: entry_ok_def)
  obtain segs where segs: "path_segs (EscapedPath (URL r)) = Some segs" "mux_lookup (srv_mux s) segs = Some (pat, RouteEntry path h)"
    using mux_dispatch_lookup [OF assms(2)] by blast
  have pm: "pattern_matches pat segs" using mux_lookup_match [OF segs(2)] by blast
  have root: "HasPrefix pat ''/''" "HasPrefix path ''/''"
    using bspec [OF server_ok_mux(2) [OF ok] mem] server_ok_patterns(1) [OF ok e(1)] e(2) by simp_all
  have path: "path_matches path segs" using pm server_ok_entry [OF ok mem] by (auto simp: path_matches_def entry_ok_def)
  have longest: "length (RoutePath rt) \<le> length path" if rt: "rt \<in> set (Routes cfg)" "path_matches (RoutePath rt) segs" for rt
  proof -
    obtain q g where q: "(q, RouteEntry (RoutePath rt) g) \<in> set (srv_mux s)" "pattern_matches q segs"
      "q = RoutePath rt \<or> q = RoutePath rt @ ''/''" using server_ok_patterns(2) [OF ok rt] by blast
    have l: "length q \<le> length pat" by (rule mux_lookup_longest [OF segs(2) q(1,2)])
    show ?thesis
    proof (rule ccontr)
      assume n: "\<not> ?thesis"
      with l q(3) e(3) have eq: "q = RoutePath rt" "length q = length pat" by auto
      have "HasPrefix q ''/''" using bspec [OF server_ok_mux(2) [OF ok] q(1)] by simp
      then have "q = pat" using same_length_prefix [OF pattern_matches_prefix [OF _ q(2)] pattern_matches_prefix [OF root(1) pm] eq(2)] by blast
      then have "path = RoutePath rt" using q(1) mem server_ok_mux(1) [OF ok] by (auto dest: eq_key_imp_eq_value)
      with n show False by simp
    qed
  qed
  show "handlerCfg h \<in> set (Routes cfg)" "path = RoutePath (handlerCfg h)" "newRouteHandler parse (handlerCfg h) = Inr h"
    using e by blast+
  show "route_addressed cfg r (handlerCfg h)"
    using segs(1) path longest e(1,2) by (auto simp: addressed_def)
  show "rt = handlerCfg h" if rt: "rt \<in> set (Routes cfg)" "route_addressed cfg r rt"
  proof -
    have m: "path_matches (RoutePath rt) segs" "length path \<le> length (RoutePath rt)"
      using rt(2) segs(1) path e(1,2) by (auto simp: addressed_def)
    then have "length (RoutePath rt) = length path" using longest [OF rt(1)] by simp
    then have "RoutePath rt = path"
      using same_length_prefix [OF path_matches_prefix [OF server_ok_patterns(1) [OF ok rt(1)] m(1)] path_matches_prefix [OF root(2) path]] by blast
    then show ?thesis using route_of_path [OF ok e(1) rt(1)] e(2) by simp
  qed
qed

text \<open>
  A request that has an effect passed the gate, addresses a route that permits its client, and is
  the run of that route's handler on the request without the route's path.
\<close>

lemma mux_ServeHTTP_effect:
  assumes "server_ok parse cfg s" and "mux_ServeHTTP p getuid tr s ctx r w = (rep, evs, w')" and "evs \<noteq> [] \<or> w' \<noteq> w"
  shows "\<exists>ctx' rt h r' resp. server_gate p getuid s ctx r = Inr ctx' \<and>
    rt \<in> set (Routes cfg) \<and> route_addressed cfg r rt \<and> (\<forall>rt' \<in> set (Routes cfg). route_addressed cfg r rt' \<longrightarrow> rt' = rt) \<and>
    route_permits rt ctx' \<and> newRouteHandler parse rt = Inr h \<and> StripPrefix (RoutePath rt) r = Some r' \<and>
    serveHTTP tr h ctx' r' w = (resp, evs, w') \<and> rep = Replied resp"
proof -
  from assms(2,3) obtain pat path h resp where d: "mux_dispatch (srv_mux s) r = MuxHandler pat (RouteEntry path h)"
    and run: "with_auth (server_gate p getuid s) (stripped_route tr path h) ctx r w = (resp, evs, w')" "rep = Replied resp"
    by (auto simp: mux_ServeHTTP_def with_auth_def Let_def
        split: mux_result.splits mux_handler.splits sum.splits prod.splits)
  obtain ctx' where g: "server_gate p getuid s ctx r = Inr ctx'" "route_permits (handlerCfg h) ctx'"
    using route_gate.effect_permitted [OF run(1) assms(3)] by blast
  then have "stripped_route tr path h ctx' r w = (resp, evs, w')" using run(1) by (simp add: with_auth_def)
  then obtain r' where "StripPrefix path r = Some r'" "serveHTTP tr h ctx' r' w = (resp, evs, w')"
    using assms(3) by (auto simp: stripped_route_def split: option.splits)
  with dispatch_addressed [OF assms(1) d] g run(2) show ?thesis by metis
qed

lemma mux_ServeHTTP_exact:
  assumes "server_ok parse cfg s" and "(p, g) \<in> set (srv_mux s)" and "plain_path p" and "cleanPath p = p"
    and "Path (URL r) = p" and "RawPath (URL r) = []"
  shows "mux_dispatch (srv_mux s) r = MuxHandler p g"
  using mux_dispatch_exact [OF server_ok_mux(2) [OF assms(1)] assms(3,2) server_ok_mux(1) [OF assms(1)] assms(5,6,4)] .

lemma StripPrefix_self:
  "\<lbrakk>Path (URL r) = p; RawPath (URL r) = []; p \<noteq> []\<rbrakk> \<Longrightarrow> StripPrefix p r = Some (r\<lparr>URL := (URL r)\<lparr>Path := []\<rparr>\<rparr>)"
  using TrimPrefix_append [of p "[]"] HasPrefix_append [of p "[]"] by (cases r; cases "URL r") (auto simp: StripPrefix_def TrimPrefix_def Let_def)

text \<open>The server's own endpoints.\<close>

lemma own_endpoints:
  assumes "server_ok parse cfg s" and "RawPath (URL r) = []"
  shows "Path (URL r) = ''/healthz'' \<Longrightarrow>
      mux_ServeHTTP p getuid tr s ctx r w = (Replied (Some (ok_response ''text/plain; charset=utf-8'' ''ok'')), [], w)"
    and "Path (URL r) = ''/_routes'' \<Longrightarrow>
      mux_ServeHTTP p getuid tr s ctx r w =
        (Replied (Some (case authMiddleware p getuid cfg (srv_tokens s) ctx (ReqHeader r) of
                          Inl refusal \<Rightarrow> refusal | Inr ctx' \<Rightarrow> handleRouteList cfg ctx')), [], w)"
proof -
  have d: "mux_dispatch (srv_mux s) r = MuxHandler q g" if "Path (URL r) = q" "(q, g) \<in> set (srv_mux s)"
    "plain_path q" "cleanPath q = q" for q g
    using mux_ServeHTTP_exact [OF assms(1) that(2-4,1) assms(2)] .
  have pl: "plain_path ''/healthz''" "cleanPath ''/healthz'' = ''/healthz''"
    "plain_path ''/_routes''" "cleanPath ''/_routes'' = ''/_routes''"
    by code_simp+
  note m = server_ok_mux(3-5) [OF assms(1)]
  show "mux_ServeHTTP p getuid tr s ctx r w = (Replied (Some (ok_response ''text/plain; charset=utf-8'' ''ok'')), [], w)"
    if "Path (URL r) = ''/healthz''" using d [OF that m(1) pl(1,2)] by (simp add: mux_ServeHTTP_def)
  show "mux_ServeHTTP p getuid tr s ctx r w =
        (Replied (Some (case authMiddleware p getuid cfg (srv_tokens s) ctx (ReqHeader r) of
                          Inl refusal \<Rightarrow> refusal | Inr ctx' \<Rightarrow> handleRouteList cfg ctx')), [], w)"
    if "Path (URL r) = ''/_routes''"
    using d [OF that m(2) pl(3,4)] m(3) by (simp add: mux_ServeHTTP_def with_auth_def split: sum.splits)
qed

text \<open>A request for a route's path, or for the path with a slash, reaches the route's handler.\<close>

lemma route_request:
  assumes "server_ok parse cfg s" and "rt \<in> set (Routes cfg)" and "\<not> HasSuffix (RoutePath rt) ''/''"
    and "Path (URL r) = RoutePath rt @ ''/''" and "RawPath (URL r) = []"
    and "plain_path (RoutePath rt @ ''/'')" and "cleanPath (RoutePath rt @ ''/'') = RoutePath rt @ ''/''"
    and "authMiddleware p getuid cfg (srv_tokens s) ctx (ReqHeader r) = Inr ctx'"
  shows "\<exists>h. newRouteHandler parse rt = Inr h \<and>
    mux_ServeHTTP p getuid tr s ctx r w =
      (case serveHTTP tr h ctx' (r\<lparr>URL := (URL r)\<lparr>Path := ''/''\<rparr>\<rparr>) w of (resp, evs, w') \<Rightarrow> (Replied resp, evs, w'))"
proof -
  from assms(1,2,3) obtain h where h: "newRouteHandler parse rt = Inr h"
    "(RoutePath rt @ ''/'', RouteEntry (RoutePath rt) h) \<in> set (srv_mux s)"
    by (auto simp: server_ok_def mux_ok_def mux_complete_def)
  have "StripPrefix (RoutePath rt) r = Some (r\<lparr>URL := (URL r)\<lparr>Path := ''/''\<rparr>\<rparr>)"
    using assms(4,5) by (cases r; cases "URL r") (auto simp: StripPrefix_def Let_def TrimPrefix_def)
  moreover have "mux_dispatch (srv_mux s) r = MuxHandler (RoutePath rt @ ''/'') (RouteEntry (RoutePath rt) h)"
    using mux_ServeHTTP_exact [OF assms(1) h(2) assms(6,7,4,5)] .
  ultimately show ?thesis
    using h(1) assms(8) server_ok_mux(5) [OF assms(1)]
    by (auto simp: mux_ServeHTTP_def with_auth_def stripped_route_def)
qed

section \<open>The scheduler\<close>

lemma sched_pass_props:
  assumes "sched_pass clock now i es w = (fired, es', w')"
  shows "length es' = length es \<and> fired = map ((+) i) (filter (\<lambda>k. nextFire (es ! k) \<le> now) [0..<length es]) \<and>
    (\<forall>k < length es. es' ! k = (if nextFire (es ! k) \<le> now
        then (es ! k)\<lparr>nextFire := time_Add (clock (i + k)) (Every (entry_job (es ! k)))\<rparr> else es ! k))"
  using assms
proof (induction clock now i es w arbitrary: fired es' w' rule: sched_pass.induct)
  case (2 clock now i e es w)
  define due where "due = (nextFire e \<le> now)"
  obtain f1 es1 w1 where rec: "sched_pass clock now (Suc i) es (if due then snd (JobRun (entry_job e) w) else w) = (f1, es1, w1)"
    by (metis prod_cases3)
  have out: "fired = (if due then i # f1 else f1)"
    "es' = (if due then e\<lparr>nextFire := time_Add (clock i) (Every (entry_job e))\<rparr> else e) # es1"
    using "2.prems" rec by (auto simp: due_def split: prod.splits if_splits)
  have IH: "length es1 = length es \<and> f1 = map ((+) (Suc i)) (filter (\<lambda>k. nextFire (es ! k) \<le> now) [0..<length es]) \<and>
    (\<forall>k < length es. es1 ! k = (if nextFire (es ! k) \<le> now
        then (es ! k)\<lparr>nextFire := time_Add (clock (Suc i + k)) (Every (entry_job (es ! k)))\<rparr> else es ! k))"
  proof (cases due)
    case True
    with rec show ?thesis using "2.IH"(1) [of "fst (JobRun (entry_job e) w)" "snd (JobRun (entry_job e) w)" f1 es1 w1]
      by (simp add: due_def)
  next
    case False
    with rec show ?thesis using "2.IH"(2) [of f1 es1 w1] by (simp add: due_def)
  qed
  have upt: "[0..<length (e # es)] = 0 # map Suc [0..<length es]"
    by (simp only: map_Suc_upt length_Cons upt_conv_Cons zero_less_Suc)
  have "fired = map ((+) i) (filter (\<lambda>k. nextFire ((e # es) ! k) \<le> now) [0..<length (e # es)])"
    unfolding upt out(1) using IH by (auto simp: due_def filter_map comp_def)
  with out(2) IH show ?case
    by (auto simp: due_def nth_Cons split: nat.splits)
qed simp

lemma next_fire_least:
  "next_fire t es \<le> t \<and> (\<forall>e \<in> set es. next_fire t es \<le> nextFire e) \<and>
     (next_fire t es = t \<or> (\<exists>e \<in> set es. next_fire t es = nextFire e))"
proof (induction es arbitrary: t)
  case (Cons e es)
  show ?case using Cons.IH [of "if nextFire e < t then nextFire e else t"] by (auto split: if_splits)
qed simp

section \<open>Auxiliary facts for the properties\<close>

lemma authMiddleware_token:
  assumes "authMiddleware p getuid cfg tokens ctx hdr = Inr ctx'" and "\<not> AllowUnauthenticated cfg" and "tokens \<noteq> []"
  shows "\<exists>t e. extractBearer (Header_Values hdr ''Authorization'') = Some t \<and> e \<in> set tokens \<and>
           entry_token e = t \<and> ctx_tokenID ctx' = entry_id e"
proof -
  from assms obtain t i where t: "extractBearer (Header_Values hdr ''Authorization'') = Some t"
    and i: "matchTokenEntries tokens t = Some i" and "ctx' = ctx\<lparr>tokenIDKey := Some i\<rparr>"
    by (auto simp: authMiddleware_def split: if_splits option.splits)
  with matchTokenEntries_Some [OF i] show ?thesis by (auto simp: ctx_tokenID_def)
qed

definition route_covers :: "'w Route \<Rightarrow> string \<Rightarrow> bool" where
  "route_covers rt p \<longleftrightarrow> p = RoutePath rt \<or> HasPrefix p (TrimSuffix (RoutePath rt) ''/'' @ ''/'')"

lemma TrimSuffix_slash: "HasSuffix p ''/'' \<Longrightarrow> TrimSuffix p ''/'' @ ''/'' = p"
  by (auto simp: HasSuffix_iff)

lemma route_covers_pattern:
  assumes "server_ok parse cfg s" and "rt \<in> set (Routes cfg)" and "route_covers rt p"
  shows "\<exists>pat h. (pat, RouteEntry (RoutePath rt) h) \<in> set (srv_mux s) \<and> handlerCfg h = rt \<and> covers pat p \<and>
    (pat = RoutePath rt \<or> \<not> HasSuffix (RoutePath rt) ''/'' \<and> pat = RoutePath rt @ ''/'')"
proof -
  obtain h where h: "newRouteHandler parse rt = Inr h" "(RoutePath rt, RouteEntry (RoutePath rt) h) \<in> set (srv_mux s)"
    "\<not> HasSuffix (RoutePath rt) ''/'' \<longrightarrow> (RoutePath rt @ ''/'', RouteEntry (RoutePath rt) h) \<in> set (srv_mux s)"
    using assms(1,2) by (auto simp: server_ok_def mux_ok_def mux_complete_def)
  note c = newRouteHandler_keeps [OF h(1)]
  show ?thesis
  proof (cases "HasSuffix (RoutePath rt) ''/'' \<or> p = RoutePath rt")
    case True
    then have "covers (RoutePath rt) p" using assms(3) by (auto simp: route_covers_def covers_def TrimSuffix_slash)
    with h(2) c show ?thesis by blast
  next
    case False
    then have "covers (RoutePath rt @ ''/'') p"
      using assms(3) by (auto simp: route_covers_def covers_def TrimSuffix_id HasSuffix_iff)
    with h(3) c False show ?thesis by blast
  qed
qed

lemma pattern_route_covers:
  assumes "covers pat p" and "pat = path \<or> pat = path @ ''/''" and "path = RoutePath rt"
  shows "route_covers rt p"
proof (cases "HasSuffix path ''/''")
  case True
  then show ?thesis using assms TrimSuffix_slash [OF True]
    by (auto simp: route_covers_def covers_def HasPrefix_iff)
next
  case False
  then show ?thesis using assms TrimSuffix_id [OF False]
    by (auto simp: route_covers_def covers_def HasPrefix_iff)
qed

lemma path_matches_covers:
  assumes "plain_path p" "HasPrefix (RoutePath rt) ''/''"
  shows "path_matches (RoutePath rt) (tl (Split p (CHR ''/''))) \<longleftrightarrow> route_covers rt p"
proof -
  have p: "HasPrefix p ''/''" using assms(1) by (simp add: plain_path_def)
  have s: "HasPrefix (RoutePath rt @ ''/'') ''/''" "HasSuffix (RoutePath rt @ ''/'') ''/''"
    using assms(2) by (auto simp: HasPrefix_iff HasSuffix_iff)
  note m = pattern_matches_plain [OF assms(2) p] pattern_matches_plain [OF s(1) p]
  show ?thesis
  proof (cases "HasSuffix (RoutePath rt) ''/''")
    case True
    then show ?thesis using m TrimSuffix_slash [OF True] by (auto simp: path_matches_def route_covers_def)
  next
    case False
    then show ?thesis using m s TrimSuffix_id [OF False] by (auto simp: path_matches_def route_covers_def HasPrefix_iff)
  qed
qed

text \<open>A clean plain path that is covered by a route, has no endpoint of the server and no route below it with a slash is not redirected.\<close>

lemma plain_slash: "plain_path p \<Longrightarrow> plain_path (p @ ''/'')"
proof -
  have "path_escape_char (CHR ''/'') = ''/''" by code_simp
  then show "plain_path p \<Longrightarrow> plain_path (p @ ''/'')" by (auto simp: plain_path_def HasPrefix_iff)
qed

lemma exactMatch_plain:
  assumes "plain_path p" "HasPrefix pat ''/''"
  shows "exactMatch (Some (pat, h)) p \<longleftrightarrow> pat = p"
proof -
  obtain x q where "pat = CHR ''/'' # x" "p = CHR ''/'' # q" using assms by (auto simp: plain_path_def HasPrefix_iff)
  then show ?thesis using path_segs_plain [OF assms(1)] by (auto simp: exactMatch_def Split_eq_iff)
qed

lemma dispatch_covered:
  assumes ok: "server_ok parse cfg s" and "plain_path p" "cleanPath p = p" "p \<notin> {''/healthz'', ''/_routes''}"
    and "Path (URL r) = p" "RawPath (URL r) = []" "rt \<in> set (Routes cfg)" "route_covers rt p"
    and "\<forall>rt' \<in> set (Routes cfg). RoutePath rt' \<noteq> p @ ''/''"
  shows "\<exists>pat path h. mux_dispatch (srv_mux s) r = MuxHandler pat (RouteEntry path h)"
proof -
  let ?m = "srv_mux s"
  have e: "EscapedPath (URL r) = p" using EscapedPath_plain [of "URL r"] assms(2,5,6) by simp
  note rooted = server_ok_mux(2) [OF ok]
  obtain q g where q: "(q, RouteEntry (RoutePath rt) g) \<in> set ?m" "covers q p" using route_covers_pattern [OF ok assms(7,8)] by blast
  have "pattern_matches q (tl (Split p (CHR ''/'')))"
    using q bspec [OF rooted q(1)] assms(2) by (simp add: pattern_matches_plain plain_path_def covers_def)
  then have "mux_lookup ?m (tl (Split p (CHR ''/''))) \<noteq> None" using q(1) by (auto simp: mux_lookup_None)
  then obtain pat x where m: "mux_match_path ?m p = Some (pat, x)" using assms(2) by (auto simp: mux_match_path_def path_segs_plain)
  have mem: "(pat, x) \<in> set ?m" "covers pat p" using mux_match_path_plain [OF rooted assms(2) m] by blast+
  have no: "\<not> (\<not> exactMatch (Some (pat, x)) p \<and> exactMatch (mux_match_path ?m (p @ ''/'')) (p @ ''/''))"
  proof
    assume a: "\<not> exactMatch (Some (pat, x)) p \<and> exactMatch (mux_match_path ?m (p @ ''/'')) (p @ ''/'')"
    then obtain pat' y where y: "mux_match_path ?m (p @ ''/'') = Some (pat', y)" by (auto simp: exactMatch_def split: option.splits)
    have mem': "(pat', y) \<in> set ?m" using mux_match_path_plain [OF rooted plain_slash [OF assms(2)] y] by blast
    have "HasPrefix pat' ''/''" using bspec [OF rooted mem'] by simp
    then have pat': "pat' = p @ ''/''" using a y exactMatch_plain [OF plain_slash [OF assms(2)], of pat' y] by simp
    have "last pat' = CHR ''/''" using pat' by simp
    then have "pat' \<noteq> ''/healthz''" "pat' \<noteq> ''/_routes''" by auto
    then obtain path h where y': "y = RouteEntry path h" using mem' server_ok_mux(6,7) [OF ok, of pat'] by (cases y) simp_all
    have eok: "handlerCfg h \<in> set (Routes cfg)" "path = RoutePath (handlerCfg h)" "pat' = path \<or> pat' = path @ ''/''"
      using server_ok_entry [OF ok mem' [unfolded y']] by (auto simp: entry_ok_def)
    then have "path = p" using assms(9) pat' by auto
    then obtain h' where h': "(p, RouteEntry p h') \<in> set ?m" using server_ok_route [OF ok eok(1)] eok(2) by auto
    have "mux_match_path ?m p = Some (p, RouteEntry p h')"
      by (rule mux_match_path_exact [OF rooted assms(2) h' server_ok_mux(1) [OF ok]])
    then have "pat = p" using m by simp
    then show False using a exactMatch_plain [OF assms(2), of pat x] bspec [OF rooted mem(1)] by simp
  qed
  have d: "mux_dispatch ?m r = MuxHandler pat x" using no m by (auto simp: mux_dispatch_def e assms(3) Let_def)
  have pat: "pat = p \<or> last pat = CHR ''/''" using mem(2) by (auto simp: covers_def HasSuffix_iff)
  have "x \<noteq> Healthz" using mem(1) server_ok_mux(6) [OF ok, of pat] pat assms(4) by auto
  moreover have "x \<noteq> RouteList" using mem(1) server_ok_mux(7) [OF ok, of pat] pat assms(4) by auto
  ultimately show ?thesis using d by (cases x) auto
qed

text \<open>The names of the listing identify the routes.\<close>

lemma route_name_path:
  assumes "HasPrefix q ''/''" "q \<noteq> ''//''"
  shows "q = CHR ''/'' # TrimPrefix (TrimSuffix q ''/'') ''/'' \<or>
    q = CHR ''/'' # TrimPrefix (TrimSuffix q ''/'') ''/'' @ ''/'' \<and> TrimPrefix (TrimSuffix q ''/'') ''/'' \<noteq> []"
proof (cases "HasSuffix q ''/''")
  case False
  with assms(1) show ?thesis by (auto simp: TrimSuffix_id TrimPrefix_def HasPrefix_iff)
next
  case True
  then obtain y where y: "q = y @ ''/''" by (auto simp: HasSuffix_iff)
  then have t: "TrimSuffix q ''/'' = y" using TrimSuffix_slash [OF True] by simp
  show ?thesis
  proof (cases y)
    case Nil
    then show ?thesis using y t by (simp add: TrimPrefix_def HasPrefix_iff)
  next
    case (Cons a z)
    then have "a = CHR ''/''" "z \<noteq> []" using assms y by (auto simp: HasPrefix_iff)
    then show ?thesis using y t Cons by (simp add: TrimPrefix_def HasPrefix_iff)
  qed
qed

lemma route_name_inj:
  assumes ok: "server_ok parse cfg s" and "\<forall>rt' \<in> set (Routes cfg). RoutePath rt' \<noteq> ''//''"
    and "rt \<in> set (Routes cfg)" "rt' \<in> set (Routes cfg)" "route_name rt' = route_name rt"
  shows "rt' = rt"
proof -
  have slash: False if r: "a \<in> set (Routes cfg)" "b \<in> set (Routes cfg)" "RoutePath b = RoutePath a @ ''/''" "\<not> HasSuffix (RoutePath a) ''/''" for a b
  proof -
    obtain h where h: "newRouteHandler parse a = Inr h" "(RoutePath a @ ''/'', RouteEntry (RoutePath a) h) \<in> set (srv_mux s)"
      using ok r(1,4) by (auto simp: server_ok_def mux_ok_def mux_complete_def)
    obtain g where "(RoutePath a @ ''/'', RouteEntry (RoutePath b) g) \<in> set (srv_mux s)"
      using server_ok_route [OF ok r(2)] r(3) by auto
    with h(2) server_ok_mux(1) [OF ok] have "RoutePath a = RoutePath b" by (auto dest: eq_key_imp_eq_value)
    with r(3) show False by simp
  qed
  let ?n = "route_name rt"
  have cases: "RoutePath a = CHR ''/'' # ?n \<or> RoutePath a = CHR ''/'' # ?n @ ''/'' \<and> ?n \<noteq> []" if "a = rt \<or> a = rt'" for a
    using that route_name_path [OF server_ok_patterns(1) [OF ok, of a]] assms(2-5) by (auto simp: route_name_def)
  have dup: False if "a \<in> set (Routes cfg)" "b \<in> set (Routes cfg)" "RoutePath a = CHR ''/'' # n" "RoutePath b = CHR ''/'' # n @ ''/''"
    "route_name a = n" "n \<noteq> []" for a b n
  proof -
    have "\<not> HasSuffix (RoutePath a) ''/''"
    proof
      assume suf: "HasSuffix (RoutePath a) ''/''"
      then obtain y where y: "RoutePath a = y @ ''/''" by (auto simp: HasSuffix_iff)
      then have t: "TrimSuffix (RoutePath a) ''/'' = y" using TrimSuffix_slash [OF suf] by simp
      then have "length n < length (RoutePath a) - 1 \<or> y = []" using that(3,5) y by (cases y) (auto simp: route_name_def TrimPrefix_def)
      then show False using that(3,6) y by auto
    qed
    then show False using slash [OF that(1,2)] that(3,4) by simp
  qed
  have "RoutePath rt' = RoutePath rt"
    using cases [of rt] cases [of rt'] dup [OF assms(3,4)] dup [OF assms(4,3)] assms(5) by auto
  then show ?thesis by (rule route_of_path [OF ok assms(3,4)])
qed

lemma openListeners_shape:
  "openListeners p os cfg o0 = (Inr (addr, ls), o1) \<Longrightarrow>
     ls = (if ListenTCP cfg = [] then [] else [TCPListener addr]) @
          (if ListenUnix cfg = [] then [] else [UnixListener (ListenUnix cfg)]) @
          (if ListenPipe cfg = [] then [] else [PipeListener (ListenPipe cfg)])"
  by (auto simp: openListeners_def openUnixListener_def Let_def split: if_splits sum.splits option.splits prod.splits)

section \<open>A server for the witnesses\<close>

definition demo_body_route :: "unit Route" where
  "demo_body_route =
     \<lparr>RoutePath = ''/aws'', Upstream = [],
      RouteProvider =
        \<lparr>ProviderGet = (\<lambda>_ w. (Inr (empty_injection\<lparr>BodyReplace := ''{}''\<rparr>), w)),
         ProviderRefresh = (\<lambda>_ w. (Inr (empty_injection\<lparr>BodyReplace := ''{}''\<rparr>), w))\<rparr>,
      RefreshOnStatus = [], StripInboundAuth = False, AllowedClientIDs = [''ci'']\<rparr>"

definition demo_server_config :: "unit ServerConfig" where
  "demo_server_config = demo_config\<lparr>Routes := [demo_body_route]\<rparr>"

definition demo_os :: "unit os_net" where
  "demo_os =
     \<lparr>os_listenTCP = (\<lambda>a w. (Inr a, w)), os_statSocket = (\<lambda>_ _. None), os_remove = (\<lambda>_ w. w),
      os_listenUnix = (\<lambda>_ w. (None, w)), os_chmod = (\<lambda>_ _ w. (None, w)), os_closeUnix = (\<lambda>_ w. w),
      os_listenPipe = (\<lambda>_ _ w. (None, w))\<rparr>"

definition demo_body_handler :: "unit routeHandler" where
  "demo_body_handler = \<lparr>handlerCfg = demo_body_route, routeLog = ''aws'', proxyTarget = None\<rparr>"

definition demo_server :: "unit Server" where
  "demo_server =
     \<lparr>srv_cfg = demo_server_config, srv_tokens = demo_tokens,
      srv_mux = [(''/healthz'', Healthz), (''/_routes'', RouteList),
        (''/aws'', RouteEntry ''/aws'' demo_body_handler), (''/aws/'', RouteEntry ''/aws'' demo_body_handler)],
      srv_listeners = [UnixListener ''/run/credproxyd.sock''], srv_tcpAddr = [], srv_periodicJobs = []\<rparr>"

abbreviation demo_parse :: "string \<Rightarrow> go_error + url" where
  "demo_parse \<equiv> \<lambda>_. Inr demo_upstream"

definition demo_get :: http_request where
  "demo_get = demo_request\<lparr>ReqMethod := ''GET'', URL := demo_url\<lparr>Path := ''/aws''\<rparr>, ReqHeader := demo_header\<rparr>"

lemma demo_server_new: "New_server Linux demo_parse demo_os demo_server_config () = (Inr (Some demo_server), ())"
proof -
  have n: "newRouteHandler demo_parse demo_body_route = Inr demo_body_handler"
    by (simp add: newRouteHandler_def demo_body_route_def demo_body_handler_def TrimPrefix_def)
  have l: "literal_pattern ''/aws''" "literal_pattern ''/aws/''" "\<not> HasSuffix ''/aws'' ''/''"
    "TrimSuffix ''/aws'' ''/'' \<notin> set reservedPaths"
    by code_simp+
  have rp: "RoutePath demo_body_route = ''/aws''" by (simp add: demo_body_route_def)
  have r: "registerRoutes demo_parse demo_server_config = Inr (Some (srv_mux demo_server))"
    by (simp add: registerRoutes_def demo_server_config_def registerRoute_def n l rp mux_Handle_def demo_server_def
        Let_def)
  have o: "openListeners Linux demo_os demo_server_config () = (Inr ([], [UnixListener ''/run/credproxyd.sock'']), ())"
    by (simp add: openListeners_def openUnixListener_def demo_server_config_def demo_config_def demo_os_def)
  have "validatePeerListenerPolicy Linux demo_server_config = None" "route_conflict demo_server_config = None"
    by (simp_all add: validatePeerListenerPolicy_def route_conflict_def demo_server_config_def demo_config_def
        peerCredSupported_def)
  then show ?thesis
    by (simp add: New_server_def r o)
      (simp add: demo_server_def demo_server_config_def demo_config_def demo_tokens_def token_entries_def)
qed

lemma demo_server_reachable: "reachable_server Linux demo_parse demo_os demo_server_config demo_server"
  using demo_server_new by (rule reachable_server.created)

lemma demo_gate:
  "server_gate Linux 1000 demo_server (connContext Linux background demo_conn) demo_get =
     Inr ((connContext Linux background demo_conn)\<lparr>tokenIDKey := Some ''ci''\<rparr>)"
proof -
  have b: "extractBearer (Header_Values demo_header ''Authorization'') = Some ''s3cret''"
    "matchTokenEntries demo_tokens ''s3cret'' = Some ''ci''"
    by code_simp+
  have u: "peerUIDIsCurrent Linux 1000 (ctx_peerCred (connContext Linux background demo_conn))"
    by code_simp
  show ?thesis
    by (simp add: authMiddleware_def demo_server_def demo_server_config_def demo_config_def demo_get_def b u)
      (simp add: demo_tokens_def)
qed

lemma demo_get_url:
  "Path (URL demo_get) = ''/aws''" "RawPath (URL demo_get) = []" "plain_path ''/aws''" "cleanPath ''/aws'' = ''/aws''"
  by code_simp+

lemma demo_get_run:
  "\<exists>rs. server_request Linux 1000 demo_transport demo_server demo_conn demo_get () = (Replied (Some rs), [EvGet
     (provider_request ((connContext Linux background demo_conn)\<lparr>tokenIDKey := Some ''ci''\<rparr>)
        (demo_get\<lparr>URL := (URL demo_get)\<lparr>Path := []\<rparr>\<rparr>))], ())"
proof -
  have d: "mux_dispatch (srv_mux demo_server) demo_get = MuxHandler ''/aws'' (RouteEntry ''/aws'' demo_body_handler)"
    by (rule mux_ServeHTTP_exact [OF reachable_server_ok [OF demo_server_reachable] _ demo_get_url(3,4,1,2)])
      (simp add: demo_server_def)
  have a: "clientAllowed [''ci''] (ctx_tokenID ((connContext Linux background demo_conn)\<lparr>tokenIDKey := Some ''ci''\<rparr>))"
    by code_simp
  have cfg: "handlerCfg demo_body_handler = demo_body_route" by (simp add: demo_body_handler_def)
  show ?thesis
    by (simp add: server_request_def mux_ServeHTTP_def d with_auth_def demo_gate stripped_route_def
        StripPrefix_self [OF demo_get_url(1,2)] serveHTTP_def cfg buffer_body_def)
      (simp add: demo_body_route_def a Let_def decideAction_def)
qed

section \<open>Properties\<close>

text \<open>
  C5 (safety). No request reaches a provider or an upstream, or changes anything behind them,
  unless the authentication gate admitted its connection and headers and the route it addresses
  permits the resulting client id. The route is the one configured route whose path is the longest
  that matches the request's path, and all effects are those of this route's own handler. On a
  server configured with tokens and not opened up, this holds after any number of token rotations:
  such a request carries a Bearer token of the current token table.
\<close>

theorem server_effects_authorized:
  assumes "reachable_server p parse os cfg s" and "server_request p getuid tr s c r w = (rep, evs, w')"
    and "evs \<noteq> [] \<or> w' \<noteq> w"
  shows "\<exists>ctx rt h r' resp. authMiddleware p getuid cfg (srv_tokens s) (connContext p background c) (ReqHeader r) = Inr ctx \<and>
     rt \<in> set (Routes cfg) \<and> route_addressed cfg r rt \<and> (\<forall>rt' \<in> set (Routes cfg). route_addressed cfg r rt' \<longrightarrow> rt' = rt) \<and>
     newRouteHandler parse rt = Inr h \<and> StripPrefix (RoutePath rt) r = Some r' \<and>
     serveHTTP tr h ctx r' w = (resp, evs, w') \<and> rep = Replied resp \<and>
     (AllowedClientIDs rt = [] \<or> ctx_tokenID ctx \<in> set (AllowedClientIDs rt) \<and> ctx_tokenID ctx \<noteq> []) \<and>
     (AuthTokens cfg = [] \<or> AllowUnauthenticated cfg \<or>
      (\<exists>t e. extractBearer (Header_Values (ReqHeader r) ''Authorization'') = Some t \<and> e \<in> set (srv_tokens s) \<and>
         entry_token e = t \<and> ctx_tokenID ctx = entry_id e))"
proof -
  note ok = reachable_server_ok [OF assms(1)]
  have run: "mux_ServeHTTP p getuid tr s (connContext p background c) r w = (rep, evs, w')"
    using assms(2) by (simp add: server_request_def)
  from mux_ServeHTTP_effect [OF ok run assms(3)]
  obtain ctx rt h r' resp where g: "server_gate p getuid s (connContext p background c) r = Inr ctx"
    and rt: "rt \<in> set (Routes cfg)" "route_addressed cfg r rt" "\<forall>rt' \<in> set (Routes cfg). route_addressed cfg r rt' \<longrightarrow> rt' = rt"
      "newRouteHandler parse rt = Inr h" "StripPrefix (RoutePath rt) r = Some r'" "serveHTTP tr h ctx r' w = (resp, evs, w')" "rep = Replied resp"
    and perm: "route_permits rt ctx" by blast
  note gate = g [unfolded server_ok_mux(5) [OF ok]]
  have allow: "AllowedClientIDs rt = [] \<or> ctx_tokenID ctx \<in> set (AllowedClientIDs rt) \<and> ctx_tokenID ctx \<noteq> []"
    using perm by (auto simp: route_permits_def clientAllowed_def list_ex_iff split: if_splits)
  have "AuthTokens cfg = [] \<or> srv_tokens s \<noteq> []" using ok by (auto simp: server_ok_def)
  then have token: "AuthTokens cfg = [] \<or> AllowUnauthenticated cfg \<or>
      (\<exists>t e. extractBearer (Header_Values (ReqHeader r) ''Authorization'') = Some t \<and> e \<in> set (srv_tokens s) \<and>
         entry_token e = t \<and> ctx_tokenID ctx = entry_id e)"
    using authMiddleware_token [OF gate] by blast
  show ?thesis by (rule exI [of _ ctx], rule exI [of _ rt], rule exI [of _ h], rule exI [of _ r'], rule exI [of _ resp])
    (intro conjI gate rt allow token)
qed

theorem server_effects_authorized_witness:
  "\<exists>ctx rt. authMiddleware Linux 1000 demo_server_config demo_tokens (connContext Linux background demo_conn)
       (ReqHeader demo_get) = Inr ctx \<and> rt \<in> set (Routes demo_server_config) \<and>
     route_addressed demo_server_config demo_get rt \<and> ctx_tokenID ctx \<in> set (AllowedClientIDs rt)"
proof -
  obtain rs evs where run: "server_request Linux 1000 demo_transport demo_server demo_conn demo_get () = (rs, evs, ())"
    and "evs \<noteq> []" using demo_get_run by auto
  with server_effects_authorized [OF demo_server_reachable run] show ?thesis
    by (auto simp: demo_server_config_def demo_body_route_def demo_server_def)
qed

text \<open>
  Configuration never shadows the server's own endpoints: on every reachable
  server GET or any other method on /healthz answers 200 without authentication and without
  touching any provider, and /_routes answers the caller's route listing behind the
  authentication gate.
\<close>

theorem reserved_endpoints:
  assumes "reachable_server p parse os cfg s" and "RawPath (URL r) = []"
  shows "(Path (URL r) = ''/healthz'' \<longrightarrow>
            server_request p getuid tr s c r w =
              (Replied (Some (ok_response ''text/plain; charset=utf-8'' ''ok'')), [], w)) \<and>
         (Path (URL r) = ''/_routes'' \<longrightarrow>
            server_request p getuid tr s c r w =
              (Replied (Some (case authMiddleware p getuid cfg (srv_tokens s) (connContext p background c) (ReqHeader r) of
                                Inl refusal \<Rightarrow> refusal
                              | Inr ctx \<Rightarrow> handleRouteList cfg ctx)), [], w))"
  using own_endpoints [OF reachable_server_ok [OF assms(1)] assms(2)] by (simp add: server_request_def)

theorem reserved_endpoints_witness:
  "server_request Linux 1000 demo_transport demo_server demo_conn
     (demo_get\<lparr>URL := demo_url\<lparr>Path := ''/healthz''\<rparr>, ReqHeader := Map.empty\<rparr>) () =
     (Replied (Some (ok_response ''text/plain; charset=utf-8'' ''ok'')), [], ())"
  using reserved_endpoints [OF demo_server_reachable,
      of "demo_get\<lparr>URL := demo_url\<lparr>Path := ''/healthz''\<rparr>, ReqHeader := Map.empty\<rparr>"]
  by (simp add: demo_url_def)

text \<open>
  C10 (functional). The most specific route serves a request: a request with a clean plain path that
  some route covers (it is the route's path, or lies below it), that is no endpoint of the server
  itself and no route's path without its final slash, is answered by the gate's refusal or else by
  the handler of the longest such route, run on the request with exactly the rest of the path after
  the route's own. The route's own path is served too, not redirected.
\<close>

theorem longest_route_wins:
  assumes "reachable_server p parse os cfg s" and "plain_path (Path (URL r))" "cleanPath (Path (URL r)) = Path (URL r)" "RawPath (URL r) = []"
    and "Path (URL r) \<notin> {''/healthz'', ''/_routes''}" and "\<forall>rt' \<in> set (Routes cfg). RoutePath rt' \<noteq> Path (URL r) @ ''/''"
    and "rt \<in> set (Routes cfg)" "route_covers rt (Path (URL r))"
    and "\<forall>rt' \<in> set (Routes cfg). route_covers rt' (Path (URL r)) \<longrightarrow> length (RoutePath rt') \<le> length (RoutePath rt)"
  shows "\<exists>h rest. newRouteHandler parse rt = Inr h \<and> Path (URL r) = RoutePath rt @ rest \<and>
    server_request p getuid tr s c r w =
      (case authMiddleware p getuid cfg (srv_tokens s) (connContext p background c) (ReqHeader r) of
         Inl refusal \<Rightarrow> (Replied (Some refusal), [], w)
       | Inr ctx \<Rightarrow> (case serveHTTP tr h ctx (r\<lparr>URL := (URL r)\<lparr>Path := rest\<rparr>\<rparr>) w of (resp, evs, w') \<Rightarrow> (Replied resp, evs, w')))"
proof -
  note ok = reachable_server_ok [OF assms(1)]
  obtain pat path h where d: "mux_dispatch (srv_mux s) r = MuxHandler pat (RouteEntry path h)"
    using dispatch_covered [OF ok assms(2,3,5) refl assms(4,7,8,6)] by blast
  have segs: "path_segs (EscapedPath (URL r)) = Some (tl (Split (Path (URL r)) (CHR ''/'')))"
    using EscapedPath_plain [OF assms(2,4)] path_segs_plain [OF assms(2)] by simp
  have "route_addressed cfg r rt"
    using segs assms(7-9) path_matches_covers [OF assms(2) server_ok_patterns(1) [OF ok]] by (auto simp: addressed_def)
  then have h: "handlerCfg h = rt" "path = RoutePath rt" "newRouteHandler parse rt = Inr h"
    using dispatch_addressed [OF ok d] assms(7) by auto
  obtain rest where rest: "Path (URL r) = RoutePath rt @ rest"
    using assms(8) TrimSuffix_slash [of "RoutePath rt"] TrimSuffix_id [of "RoutePath rt" "''/''"]
    by (cases "HasSuffix (RoutePath rt) ''/''") (auto simp: route_covers_def HasPrefix_iff)
  have "RoutePath rt \<noteq> []" using server_ok_patterns(1) [OF ok assms(7)] by (auto simp: HasPrefix_iff)
  then have "StripPrefix (RoutePath rt) r = Some (r\<lparr>URL := (URL r)\<lparr>Path := rest\<rparr>\<rparr>)"
    using rest assms(4) by (cases r; cases "URL r") (simp add: StripPrefix_def Let_def TrimPrefix_def)
  with d h rest show ?thesis
    by (auto simp: server_request_def mux_ServeHTTP_def with_auth_def stripped_route_def server_ok_mux(5) [OF ok] Let_def split: sum.splits)
qed

theorem longest_route_wins_witness:
  "\<exists>h. newRouteHandler demo_parse demo_body_route = Inr h \<and>
     server_request Linux 1000 demo_transport demo_server demo_conn demo_get () =
       (case serveHTTP demo_transport h ((connContext Linux background demo_conn)\<lparr>tokenIDKey := Some ''ci''\<rparr>)
          (demo_get\<lparr>URL := (URL demo_get)\<lparr>Path := []\<rparr>\<rparr>) () of (resp, evs, w') \<Rightarrow> (Replied resp, evs, w'))"
proof -
  have m: "demo_body_route \<in> set (Routes demo_server_config)" "RoutePath demo_body_route = ''/aws''" "Routes demo_server_config = [demo_body_route]"
    by (simp_all add: demo_server_config_def demo_body_route_def)
  have g: "authMiddleware Linux 1000 demo_server_config (srv_tokens demo_server) (connContext Linux background demo_conn)
      (ReqHeader demo_get) = Inr ((connContext Linux background demo_conn)\<lparr>tokenIDKey := Some ''ci''\<rparr>)"
    using demo_gate by (simp add: demo_server_def)
  have c: "route_covers demo_body_route (Path (URL demo_get))" by (simp add: route_covers_def m(2) demo_get_url(1))
  have p: "plain_path (Path (URL demo_get))" "cleanPath (Path (URL demo_get)) = Path (URL demo_get)"
    "Path (URL demo_get) \<notin> {''/healthz'', ''/_routes''}"
    "\<forall>rt' \<in> set (Routes demo_server_config). RoutePath rt' \<noteq> Path (URL demo_get) @ ''/''"
    "\<forall>rt' \<in> set (Routes demo_server_config). route_covers rt' (Path (URL demo_get)) \<longrightarrow> length (RoutePath rt') \<le> length (RoutePath demo_body_route)"
    using demo_get_url by (simp_all add: m)
  from longest_route_wins [OF demo_server_reachable p(1,2) demo_get_url(2) p(3,4) m(1) c p(5), of 1000 demo_transport demo_conn "()"] g m(2) demo_get_url(1)
  show ?thesis by auto
qed

text \<open>
  C11 (equivalence). The listing tells the truth: for a route without an upstream at a plain, clean
  path and a caller the gate admits, the listing that /_routes answers to this caller contains the
  route's name exactly when a request for the route's path calls the provider, once and without any
  upstream request; a request for a route that is not listed is answered 403 without any call. Only
  routes without an upstream are listed. (No route may have the path //, whose name is that of /.)
\<close>

theorem listing_matches_access:
  assumes "reachable_server p parse os cfg s" and "rt \<in> set (Routes cfg)" and "Upstream rt = []"
    and "plain_path (RoutePath rt)" and "cleanPath (RoutePath rt) = RoutePath rt"
    and "Path (URL r) = RoutePath rt" and "RawPath (URL r) = []" and "\<not> stream_fails (Body r)"
    and "authMiddleware p getuid cfg (srv_tokens s) (connContext p background c) (ReqHeader r) = Inr ctx"
    and "server_request p getuid tr s c r w = (rep, evs, w')"
    and "Path (URL l) = ''/_routes''" "RawPath (URL l) = []" "ReqHeader l = ReqHeader r"
    and "\<forall>rt' \<in> set (Routes cfg). RoutePath rt' \<noteq> ''//''"
  shows "\<exists>names. server_request p getuid tr s c l w =
       (Replied (Some (ok_response ''application/json'' (json_line (JObj [(''routes'', JArr (map JStr names))])))), [], w) \<and>
     (route_name rt \<in> set names \<longleftrightarrow> evs = [EvGet (provider_request ctx (r\<lparr>URL := (URL r)\<lparr>Path := []\<rparr>\<rparr>))]) \<and>
     (route_name rt \<notin> set names \<longrightarrow> rep = Replied (Some (http_Error ''forbidden'' 403)) \<and> evs = [] \<and> w' = w) \<and>
     set names \<subseteq> route_name ` {rt' \<in> set (Routes cfg). Upstream rt' = []}"
proof -
  note ok = reachable_server_ok [OF assms(1)]
  obtain h where h: "newRouteHandler parse rt = Inr h" "(RoutePath rt, RouteEntry (RoutePath rt) h) \<in> set (srv_mux s)"
    using server_ok_route [OF ok assms(2)] by blast
  note keeps = newRouteHandler_keeps [OF h(1)]
  let ?r = "r\<lparr>URL := (URL r)\<lparr>Path := []\<rparr>\<rparr>" and ?names = "listed_names (Routes cfg) (ctx_tokenID ctx)"
  have ne: "RoutePath rt \<noteq> []" using assms(4) by (auto simp: plain_path_def)
  have buf: "buffer_body rt ?r \<noteq> None"
    using assms(8) by (auto simp: buffer_body_def read_limited_def)
  have "mux_dispatch (srv_mux s) r = MuxHandler (RoutePath rt) (RouteEntry (RoutePath rt) h)"
    using mux_ServeHTTP_exact [OF ok h(2) assms(4-7)] .
  then have run: "serveHTTP tr h ctx ?r w = (case rep of Replied x \<Rightarrow> x, evs, w')" "\<exists>x. rep = Replied x"
    using assms(9,10) server_ok_mux(5) [OF ok] StripPrefix_self [OF assms(6,7) ne]
    by (auto simp: server_request_def mux_ServeHTTP_def with_auth_def stripped_route_def split: prod.splits)
  have list: "server_request p getuid tr s c l w =
       (Replied (Some (ok_response ''application/json'' (json_line (JObj [(''routes'', JArr (map JStr ?names))])))), [], w)"
    using own_endpoints(2) [OF ok assms(12,11), of p getuid tr "connContext p background c" w] assms(9,13)
    by (simp add: server_request_def handleRouteList_def)
  have mem: "route_name rt \<in> set ?names \<longleftrightarrow> listed (ctx_tokenID ctx) rt"
    using route_name_inj [OF ok assms(14) assms(2)] assms(2) by (auto simp: listed_names_def)
  have sub: "set ?names \<subseteq> route_name ` {rt' \<in> set (Routes cfg). Upstream rt' = []}" by (auto simp: listed_names_def listed_def)
  have yes: "evs = [EvGet (provider_request ctx ?r)]" if "listed (ctx_tokenID ctx) rt"
    using that run(1) buf assms(3)
    by (auto simp: serveHTTP_def keeps listed_def Let_def log_event_def decideAction_def
        split: option.splits prod.splits sum.splits if_splits)
  have no: "rep = Replied (Some (http_Error ''forbidden'' 403)) \<and> evs = [] \<and> w' = w" if "\<not> listed (ctx_tokenID ctx) rt"
  proof -
    have "AllowedClientIDs rt \<noteq> []" "\<not> clientAllowed (AllowedClientIDs rt) (ctx_tokenID ctx)"
      using that assms(3) by (auto simp: listed_def)
    with serveHTTP_denied [of h ctx tr ?r w] run buf keeps show ?thesis by auto
  qed
  have "(route_name rt \<in> set ?names \<longleftrightarrow> evs = [EvGet (provider_request ctx ?r)]) \<and>
     (route_name rt \<notin> set ?names \<longrightarrow> rep = Replied (Some (http_Error ''forbidden'' 403)) \<and> evs = [] \<and> w' = w)"
    using mem yes no by (cases "listed (ctx_tokenID ctx) rt") auto
  with list sub show ?thesis by blast
qed

theorem listing_matches_access_witness:
  "\<exists>names rep evs. server_request Linux 1000 demo_transport demo_server demo_conn
       (demo_get\<lparr>URL := demo_url\<lparr>Path := ''/_routes''\<rparr>\<rparr>) () =
       (Replied (Some (ok_response ''application/json'' (json_line (JObj [(''routes'', JArr (map JStr names))])))), [], ()) \<and>
     server_request Linux 1000 demo_transport demo_server demo_conn demo_get () = (rep, evs, ()) \<and>
     (''aws'' \<in> set names \<longleftrightarrow> length evs = 1)"
proof -
  let ?ctx = "(connContext Linux background demo_conn)\<lparr>tokenIDKey := Some ''ci''\<rparr>"
  let ?l = "demo_get\<lparr>URL := demo_url\<lparr>Path := ''/_routes''\<rparr>\<rparr>"
  obtain rep evs where run: "server_request Linux 1000 demo_transport demo_server demo_conn demo_get () = (rep, evs, ())"
    by (metis (full_types) old.unit.exhaust prod_cases3)
  have n: "route_name demo_body_route = ''aws''" "Upstream demo_body_route = []"
    "RoutePath demo_body_route = ''/aws''" "\<not> stream_fails (Body demo_get)" "Routes demo_server_config = [demo_body_route]"
    by (code_simp, simp_all add: demo_body_route_def demo_server_config_def, code_simp)
  have g: "authMiddleware Linux 1000 demo_server_config (srv_tokens demo_server) (connContext Linux background demo_conn)
      (ReqHeader demo_get) = Inr ?ctx"
    using demo_gate by (simp add: demo_server_def)
  have m: "demo_body_route \<in> set (Routes demo_server_config)" by (simp add: n)
  have l: "Path (URL ?l) = ''/_routes''" "RawPath (URL ?l) = []" "ReqHeader ?l = ReqHeader demo_get"
    "\<forall>rt' \<in> set (Routes demo_server_config). RoutePath rt' \<noteq> ''//''"
    by (simp_all add: n demo_url_def)
  from listing_matches_access [OF demo_server_reachable m n(2) _ _ _ _ n(4) g run l] n demo_get_url
  obtain names where names: "server_request Linux 1000 demo_transport demo_server demo_conn ?l () =
       (Replied (Some (ok_response ''application/json'' (json_line (JObj [(''routes'', JArr (map JStr names))])))), [], ())"
    "''aws'' \<in> set names \<longleftrightarrow> evs = [EvGet (provider_request ?ctx (demo_get\<lparr>URL := (URL demo_get)\<lparr>Path := []\<rparr>\<rparr>))]"
    "''aws'' \<notin> set names \<longrightarrow> evs = []"
    by auto
  then have "''aws'' \<in> set names \<longleftrightarrow> length evs = 1" by auto
  with names(1) run show ?thesis by blast
qed

text \<open>
  C7 (safety). New fails closed. A server it returns has the listeners its configuration names,
  at least one, in order; a same-uid policy only where the platform reads peer credentials and
  never with a TCP listener; a peer SID policy only on Windows with the named pipe as its single
  listener; no client restriction on an unauthenticated server; and no route on a reserved path.
\<close>

theorem New_fails_closed:
  assumes "New_server p parse os cfg o0 = (Inr (Some s), o1)"
  shows "(RequireSamePeerUID cfg \<longrightarrow> (p = Linux \<or> p = Darwin) \<and> (\<forall>a. TCPListener a \<notin> set (srv_listeners s))) \<and>
    (RequirePeerSID cfg \<noteq> [] \<longrightarrow> p = Windows \<and> srv_listeners s = [PipeListener (ListenPipe cfg)]) \<and>
    (AllowUnauthenticated cfg \<longrightarrow> (\<forall>r \<in> set (Routes cfg). AllowedClientIDs r = [])) \<and>
    (\<forall>r \<in> set (Routes cfg). RoutePath r \<notin> {''/healthz'', ''/healthz/'', ''/_routes'', ''/_routes/''}) \<and>
    srv_listeners s \<noteq> [] \<and>
    srv_listeners s =
      (if ListenTCP cfg = [] then [] else [TCPListener (srv_tcpAddr s)]) @
      (if ListenUnix cfg = [] then [] else [UnixListener (ListenUnix cfg)]) @
      (if ListenPipe cfg = [] then [] else [PipeListener (ListenPipe cfg)])"
proof -
  note new = New_server_Some [OF assms]
  note ls = openListeners_shape [of p os cfg o0 "srv_tcpAddr s" "srv_listeners s" o1]
  have pol: "validatePeerListenerPolicy p cfg = None" and ok: "mux_ok parse (set (Routes cfg)) (srv_mux s)"
    and conf: "route_conflict cfg = None" using new by blast+
  have "RequireSamePeerUID cfg \<longrightarrow> (p = Linux \<or> p = Darwin) \<and> ListenTCP cfg = []"
    "RequirePeerSID cfg \<noteq> [] \<longrightarrow> p = Windows \<and> ListenPipe cfg \<noteq> [] \<and> ListenTCP cfg = [] \<and> ListenUnix cfg = []"
    using pol by (auto simp: validatePeerListenerPolicy_def peerCredSupported_def peerSIDSupported_def split: if_splits)
  moreover have "AllowUnauthenticated cfg \<longrightarrow> (\<forall>r \<in> set (Routes cfg). AllowedClientIDs r = [])"
    using conf by (auto simp: route_conflict_def find_None_iff)
  moreover have "\<forall>r \<in> set (Routes cfg). RoutePath r \<notin> {''/healthz'', ''/healthz/'', ''/_routes'', ''/_routes/''}"
    using ok unfolding mux_ok_def mux_complete_def mux_sound_def entry_ok_def by fast
  ultimately show ?thesis using new ls by auto
qed

theorem New_fails_closed_witness:
  "srv_listeners demo_server = [UnixListener ''/run/credproxyd.sock''] \<and> ListenTCP demo_server_config = []"
  using New_fails_closed [OF demo_server_new]
  by (simp add: demo_server_config_def demo_config_def demo_server_def)

text \<open>
  The scheduler: waiting for the computed delay makes at least one job due; the
  following pass runs every due job exactly once, in order, and no other, and schedules each at
  its interval after the end of its run, leaving the others alone. With positive intervals and a
  clock that does not run backwards, no job is due again at the time of the pass.
\<close>

theorem scheduler_pass_fires_due_jobs:
  assumes "es \<noteq> []" and "now0 + sched_delay now0 es \<le> now" and "sched_pass clock now 0 es w = (fired, es', w')"
    and "\<forall>e \<in> set es. 0 <s Every (entry_job e)" and "\<forall>k. now \<le> clock k"
  shows "fired \<noteq> [] \<and> fired = filter (\<lambda>k. nextFire (es ! k) \<le> now) [0..<length es] \<and> length es' = length es \<and>
     (\<forall>k < length es. entry_job (es' ! k) = entry_job (es ! k) \<and> now < nextFire (es' ! k) \<and>
        nextFire (es' ! k) = (if k \<in> set fired then time_Add (clock k) (Every (entry_job (es ! k))) else nextFire (es ! k)))"
proof -
  note ps = sched_pass_props [OF assms(3)]
  have fired: "fired = filter (\<lambda>k. nextFire (es ! k) \<le> now) [0..<length es]"
    using ps map_idI [of _ "(+) (0::nat)"] by simp
  obtain e es0 where es: "es = e # es0" using assms(1) by (cases es) auto
  have "next_fire (nextFire e) es0 \<le> now" using assms(2) by (simp add: es sched_delay_def)
  with next_fire_least [of "nextFire e" es0] obtain k where "k < length es" "nextFire (es ! k) \<le> now"
    unfolding es by (metis in_set_conv_nth length_Cons nth_Cons_0 nth_Cons_Suc not_less_eq zero_less_Suc)
  then have "fired \<noteq> []" by (auto simp: fired filter_empty_conv)
  moreover have "now < time_Add (clock k) (Every (entry_job (es ! k)))" if "k < length es" for k
  proof -
    have "0 < sint (Every (entry_job (es ! k)))" using assms(4) that by (simp add: word_sless_alt)
    then show ?thesis using assms(5) [rule_format, of k] by (simp add: time_Add_def)
  qed
  ultimately show ?thesis using ps fired by (auto simp: not_le)
qed

theorem scheduler_pass_fires_due_jobs_witness:
  "\<exists>es' w'. sched_pass (\<lambda>_. 7) 5 0
     (sched_start 0 [\<lparr>JobName = ''a'', Every = 5, JobRun = (\<lambda>w::nat. (None, Suc w))\<rparr>,
                     \<lparr>JobName = ''b'', Every = 9, JobRun = (\<lambda>w. (None, w))\<rparr>]) 0 = ([0], es', w') \<and> nextFire (es' ! 0) = 12"
proof -
  let ?es = "sched_start 0 [\<lparr>JobName = ''a'', Every = 5, JobRun = (\<lambda>w::nat. (None, Suc w))\<rparr>,
                     \<lparr>JobName = ''b'', Every = 9, JobRun = (\<lambda>w. (None, w))\<rparr>]"
  obtain fired es' w' where run: "sched_pass (\<lambda>_. 7) 5 0 ?es 0 = (fired, es', w')" by (metis prod_cases3)
  have c: "?es \<noteq> []" "0 + sched_delay 0 ?es \<le> 5" "\<forall>e \<in> set ?es. 0 <s Every (entry_job e)" "\<forall>k::nat. 5 \<le> (7::int)"
    by (simp_all add: sched_start_def sched_delay_def time_Add_def word_sless_alt)
  from scheduler_pass_fires_due_jobs [OF c(1,2) run c(3,4)] run show ?thesis
    by (auto simp: sched_start_def time_Add_def)
qed

end
