(* ===== verification/Daemon_Config.thy ===== *)
theory Daemon_Config
  imports Proxy_Server
begin

text \<open>
  The daemon's configuration, cmd/credproxyd/config: the decoded document (TOML decoding itself
  is outside), default filling and expansion (expand.go), validation (validate.go), the token
  file (parseTokens), and the part of serve in cmd/credproxyd/main.go that turns tokens and
  configuration into the proxy's ServerConfig. Environment expansion and the home directory are
  parameters; paths are joined as on Unix. Errors are values of a datatype with one constructor
  per error the code returns.
\<close>

section \<open>Definitions\<close>

record Credential =
  CredName :: string
  CredProvider :: string
  SecretRef :: string
  Preload :: bool
  TTLSec :: "64 word"

record cfg_route =
  rt_Path :: string
  rt_Upstream :: string
  CredentialCommand :: "string list"
  RefreshCommand :: "string list"
  rt_RefreshOnStatus :: "int list"
  HookTimeoutSec :: "64 word"
  rt_StripInboundAuth :: bool
  rt_AllowedClientIDs :: "string list"
  rt_Credential :: string
  Delivery :: string
  rt_Header :: string
  Prefix :: string
  Env :: string_map

record Config =
  cfg_ListenTCP :: string
  cfg_ListenUnix :: string
  cfg_ListenPipe :: string
  cfg_RequirePeerSID :: string
  LogLevel :: string
  AuthTokensFile :: string
  OnePasswordTokenFile :: string
  Credentials :: "Credential list"
  cfg_Routes :: "cfg_route list"

datatype config_error =
    NoHome string
  | FieldError string config_error
  | NoListener
  | SIDWithoutPipe
  | InvalidCredential nat
  | DuplicateCredential string
  | NoTokenFile
  | PathRequired nat
  | UpstreamRequired nat
  | DeliveryRequired nat
  | ScriptConflict nat
  | InvalidHeaderDelivery nat
  | PreloadedRefresh nat
  | InvalidEnvDelivery nat
  | InvalidEnvMapping nat string
  | UnknownDelivery nat string
  | TokenLine nat
  | DuplicateToken nat string
  | UnknownClientID nat string string
  | DefaultPipe go_error

definition defaultCredentialTTLSec :: "64 word" where
  "defaultCredentialTTLSec = 60 * 60"

text \<open>filepath.Join of two elements and filepath.Clean on Unix.\<close>

fun clean_any :: "bool \<Rightarrow> string list \<Rightarrow> string list \<Rightarrow> string list" where
  "clean_any rooted acc [] = rev acc"
| "clean_any rooted acc (s # ss) =
     (if s = [] \<or> s = ''.'' then clean_any rooted acc ss
      else if s = ''..'' then
        (if acc = [] \<or> hd acc = ''..'' then clean_any rooted (if rooted then acc else ''..'' # acc) ss
         else clean_any rooted (tl acc) ss)
      else clean_any rooted (s # acc) ss)"

definition filepath_Clean :: "string \<Rightarrow> string" where
  "filepath_Clean p =
     (if p = [] then ''.''
      else if HasPrefix p ''/'' then CHR ''/'' # Join (clean_any True [] (Split p (CHR ''/''))) ''/''
      else let q = Join (clean_any False [] (Split p (CHR ''/''))) ''/'' in if q = [] then ''.'' else q)"

definition filepath_Join :: "string \<Rightarrow> string \<Rightarrow> string" where
  "filepath_Join a b =
     (let es = filter (\<lambda>e. e \<noteq> []) [a, b] in if es = [] then [] else filepath_Clean (Join es ''/''))"

text \<open>expand.go.\<close>

definition expandPath :: "string \<Rightarrow> string \<Rightarrow> config_error + string" where
  "expandPath p home =
     (if \<not> HasPrefix p ''~/'' then Inr p
      else if home = [] then Inl (NoHome p)
      else Inr (filepath_Join home (drop 2 p)))"

record envFuncs =
  getenv :: "string \<Rightarrow> string"
  home :: string

definition expand_route :: "envFuncs \<Rightarrow> cfg_route \<Rightarrow> cfg_route" where
  "expand_route e r =
     r\<lparr>rt_Upstream := getenv e (rt_Upstream r),
       HookTimeoutSec := (if HookTimeoutSec r \<le>s 0 then 10 else HookTimeoutSec r),
       CredentialCommand := map (getenv e) (CredentialCommand r),
       RefreshCommand := map (getenv e) (RefreshCommand r)\<rparr>"

definition expand :: "Config \<Rightarrow> envFuncs \<Rightarrow> config_error + Config" where
  "expand c e =
     (case expandPath (getenv e (cfg_ListenUnix c)) (home e) of
        Inl err \<Rightarrow> Inl (FieldError ''listen_unix'' err)
      | Inr unix \<Rightarrow>
        (case expandPath (getenv e (AuthTokensFile c)) (home e) of
           Inl err \<Rightarrow> Inl (FieldError ''auth_tokens_file'' err)
         | Inr tokens \<Rightarrow>
           (case expandPath (getenv e (OnePasswordTokenFile c)) (home e) of
              Inl err \<Rightarrow> Inl (FieldError ''onepassword_token_file'' err)
            | Inr op \<Rightarrow>
                Inr (c\<lparr>cfg_ListenTCP := getenv e (cfg_ListenTCP c), cfg_ListenUnix := unix,
                       cfg_ListenPipe := getenv e (cfg_ListenPipe c),
                       cfg_RequirePeerSID := getenv e (cfg_RequirePeerSID c),
                       AuthTokensFile := tokens, OnePasswordTokenFile := op,
                       cfg_Routes := map (expand_route e) (cfg_Routes c)\<rparr>))))"

text \<open>validate.go.\<close>

definition validHeader :: "string \<Rightarrow> bool" where
  "validHeader s \<longleftrightarrow> CanonicalHeaderKey s = s \<and> \<not> ContainsAny s ([CHR '' '', CHR 0x09, CHR 0x0D, CHR 0x0A, CHR '':''])"

definition valid_credential :: "Credential \<Rightarrow> bool" where
  "valid_credential s \<longleftrightarrow>
     \<not> (CredName s = [] \<or> CredProvider s \<noteq> ''onepassword'' \<or> \<not> HasPrefix (SecretRef s) ''op://''
        \<or> (\<not> Preload s \<and> TTLSec s \<le>s 0))"

definition known_credential :: "Credential list \<Rightarrow> string \<Rightarrow> Credential option" where
  "known_credential known name = find (\<lambda>s. CredName s = name) known"

fun validate_credentials :: "nat \<Rightarrow> Credential list \<Rightarrow> Credential list \<Rightarrow> config_error + Credential list" where
  "validate_credentials i known [] = Inr known"
| "validate_credentials i known (s # ss) =
     (if \<not> valid_credential s then Inl (InvalidCredential i)
      else if known_credential known (CredName s) \<noteq> None then Inl (DuplicateCredential (CredName s))
      else validate_credentials (Suc i) (known @ [s]) ss)"

definition bad_env_key :: "string \<Rightarrow> bool" where
  "bad_env_key key \<longleftrightarrow> key = [] \<or> ContainsAny key [CHR ''='', CHR 0x00, CHR 0x0D, CHR 0x0A]"

definition validate_route :: "Credential list \<Rightarrow> nat \<Rightarrow> cfg_route \<Rightarrow> config_error option" where
  "validate_route known i r =
     (if rt_Path r = [] then Some (PathRequired i)
      else if rt_Upstream r = [] \<and> length (CredentialCommand r) = 0 \<and> Delivery r \<noteq> ''env'' then Some (UpstreamRequired i)
      else if Delivery r = []
      then (if rt_Credential r \<noteq> [] \<or> 0 < length (Env r) then Some (DeliveryRequired i) else None)
      else if 0 < length (CredentialCommand r) \<or> 0 < length (RefreshCommand r) then Some (ScriptConflict i)
      else if Delivery r = ''header''
      then (case known_credential known (rt_Credential r) of
              None \<Rightarrow> Some (InvalidHeaderDelivery i)
            | Some credential \<Rightarrow>
                if rt_Upstream r = [] \<or> rt_Header r = [] \<or> \<not> validHeader (rt_Header r)
                   \<or> ContainsAny (Prefix r) [CHR 0x0D, CHR 0x0A] \<or> 0 < length (Env r)
                then Some (InvalidHeaderDelivery i)
                else if Preload credential \<and> 0 < length (rt_RefreshOnStatus r) then Some (PreloadedRefresh i)
                else None)
      else if Delivery r = ''env''
      then (if rt_Upstream r \<noteq> [] \<or> rt_Credential r \<noteq> [] \<or> rt_Header r \<noteq> [] \<or> length (Env r) = 0
            then Some (InvalidEnvDelivery i)
            else map_option (\<lambda>(key, name). InvalidEnvMapping i key)
                   (find (\<lambda>(key, name). bad_env_key key \<or> known_credential known name = None) (Env r)))
      else Some (UnknownDelivery i (Delivery r)))"

fun validate_routes :: "Credential list \<Rightarrow> nat \<Rightarrow> cfg_route list \<Rightarrow> config_error option" where
  "validate_routes known i [] = None"
| "validate_routes known i (r # rs) =
     (case validate_route known i r of Some err \<Rightarrow> Some err | None \<Rightarrow> validate_routes known (Suc i) rs)"

definition validate :: "Config \<Rightarrow> config_error option" where
  "validate c =
     (if cfg_ListenTCP c = [] \<and> cfg_ListenUnix c = [] \<and> cfg_ListenPipe c = [] then Some NoListener
      else if cfg_RequirePeerSID c \<noteq> [] \<and> cfg_ListenPipe c = [] then Some SIDWithoutPipe
      else case validate_credentials 0 [] (Credentials c) of
             Inl err \<Rightarrow> Some err
           | Inr known \<Rightarrow>
               if 0 < length (Credentials c) \<and> OnePasswordTokenFile c = [] then Some NoTokenFile
               else validate_routes known 0 (cfg_Routes c))"

fun client_id_error :: "string list \<Rightarrow> nat \<Rightarrow> cfg_route list \<Rightarrow> config_error option" where
  "client_id_error known i [] = None"
| "client_id_error known i (r # rs) =
     (case find (\<lambda>i. i \<notin> set known) (rt_AllowedClientIDs r) of
        Some bad \<Rightarrow> Some (UnknownClientID i (rt_Path r) bad)
      | None \<Rightarrow> client_id_error known (Suc i) rs)"

definition ValidateClientIDs :: "cfg_route list \<Rightarrow> string list \<Rightarrow> config_error option" where
  "ValidateClientIDs routes tokenIDs = client_id_error tokenIDs 0 routes"

text \<open>config.go: defaults, expansion and validation of the decoded document.\<close>

definition fill_ttl :: "Credential \<Rightarrow> Credential" where
  "fill_ttl s = (if TTLSec s = 0 then s\<lparr>TTLSec := defaultCredentialTTLSec\<rparr> else s)"

definition Load :: "(go_error + string) \<Rightarrow> envFuncs \<Rightarrow> Config \<Rightarrow> config_error + Config" where
  "Load defaultListenPipe e decoded =
     (let nolisten = (cfg_ListenTCP decoded = [] \<and> cfg_ListenUnix decoded = [] \<and> cfg_ListenPipe decoded = [])
      in case (if nolisten then defaultListenPipe else Inr (cfg_ListenPipe decoded)) of
           Inl err \<Rightarrow> Inl (DefaultPipe err)
         | Inr pipe \<Rightarrow>
             (case expand (decoded\<lparr>cfg_ListenPipe := pipe, Credentials := map fill_ttl (Credentials decoded)\<rparr>) e of
                Inl err \<Rightarrow> Inl err
              | Inr expanded \<Rightarrow> (case validate expanded of Some err \<Rightarrow> Inl err | None \<Rightarrow> Inr expanded)))"

text \<open>The token file.\<close>

record file_token =
  tok_ID :: string
  tok_Value :: string

fun parse_token_lines :: "nat \<Rightarrow> string list \<Rightarrow> string list \<Rightarrow> config_error + file_token list" where
  "parse_token_lines n seen [] = Inr []"
| "parse_token_lines n seen (line # ls) =
     (let t = TrimSpace line in
      if t = [] then parse_token_lines (Suc n) seen ls
      else case IndexByte t (CHR ''='') of
             None \<Rightarrow>
               (case parse_token_lines (Suc n) seen ls of
                  Inl err \<Rightarrow> Inl err
                | Inr ts \<Rightarrow> Inr (\<lparr>tok_ID = [], tok_Value = t\<rparr> # ts))
           | Some i \<Rightarrow>
               let tid = TrimSpace (take i t); value = TrimSpace (drop (Suc i) t) in
               if tid = [] \<or> value = [] then Inl (TokenLine (n + 1))
               else if tid \<in> set seen then Inl (DuplicateToken (n + 1) tid)
               else (case parse_token_lines (Suc n) (tid # seen) ls of
                       Inl err \<Rightarrow> Inl err
                     | Inr ts \<Rightarrow> Inr (\<lparr>tok_ID = tid, tok_Value = value\<rparr> # ts)))"

definition parseTokens :: "string \<Rightarrow> config_error + file_token list" where
  "parseTokens data = parse_token_lines 0 [] (Split data (CHR 0x0A))"

text \<open>serve: the ids of unnamed tokens are positional.\<close>

fun serve_tokens :: "nat \<Rightarrow> file_token list \<Rightarrow> TokenAuth list" where
  "serve_tokens i [] = []"
| "serve_tokens i (t # ts) =
     \<lparr>Token = tok_Value t, ID = (if tok_ID t = [] then ''token-'' @ decimal i else tok_ID t)\<rparr> # serve_tokens (Suc i) ts"

definition serve_config :: "Config \<Rightarrow> TokenAuth list \<Rightarrow> 'w Route list \<Rightarrow> 'w ServerConfig" where
  "serve_config cfg tokens routes =
     \<lparr>ListenTCP = cfg_ListenTCP cfg, ListenUnix = cfg_ListenUnix cfg, ListenPipe = cfg_ListenPipe cfg, UnixMode = 0,
      AuthTokens = tokens, AllowUnauthenticated = (cfg_ListenTCP cfg = [] \<and> length tokens = 0),
      RequireSamePeerUID = False, RequirePeerSID = cfg_RequirePeerSID cfg, Routes = routes, ShutdownTimeout = 0\<rparr>"

section \<open>Lemmas\<close>

text \<open>The token file of a list of tokens, one line each.\<close>

definition render_token :: "file_token \<Rightarrow> string" where
  "render_token t = (if tok_ID t = [] then tok_Value t else tok_ID t @ ''='' @ tok_Value t)"

definition visible :: "string \<Rightarrow> bool" where
  "visible s \<longleftrightarrow> s \<noteq> [] \<and> list_all (\<lambda>c. \<not> space_byte c) s"

definition clean_token :: "file_token \<Rightarrow> bool" where
  "clean_token t \<longleftrightarrow> visible (tok_Value t) \<and>
     (if tok_ID t = [] then CHR ''='' \<notin> set (tok_Value t) else visible (tok_ID t) \<and> CHR ''='' \<notin> set (tok_ID t))"

lemma visible_trimmed: "visible s \<Longrightarrow> TrimSpace s = s"
  by (rule TrimSpace_id, rule trimmed_no_space) (simp add: visible_def list_all_iff)

lemma clean_token_visible: "clean_token t \<Longrightarrow> visible (render_token t)"
proof -
  have "\<not> space_byte (CHR ''='')" by code_simp
  then show "clean_token t \<Longrightarrow> ?thesis" by (auto simp: clean_token_def render_token_def visible_def)
qed

lemma parse_token_lines_render:
  assumes "list_all clean_token ts" and "distinct (filter (\<lambda>i. i \<noteq> []) (map tok_ID ts))"
    and "set (filter (\<lambda>i. i \<noteq> []) (map tok_ID ts)) \<inter> set seen = {}"
  shows "parse_token_lines n seen (map render_token ts) = Inr ts"
  using assms
proof (induction ts arbitrary: n seen)
  case (Cons t ts)
  have v: "visible (render_token t)" using Cons.prems by (simp add: clean_token_visible)
  then have tr: "TrimSpace (render_token t) = render_token t" "render_token t \<noteq> []"
    by (simp_all add: visible_trimmed) (simp add: visible_def)
  show ?case
  proof (cases "tok_ID t = []")
    case True
    then have "IndexByte (render_token t) (CHR ''='') = None"
      using Cons.prems by (simp add: IndexByte_None render_token_def clean_token_def)
    moreover have "parse_token_lines (Suc n) seen (map render_token ts) = Inr ts"
      using Cons True by simp
    moreover have "t = \<lparr>tok_ID = [], tok_Value = render_token t\<rparr>" using True by (cases t) (simp add: render_token_def)
    ultimately show ?thesis using tr by (simp add: Let_def)
  next
    case False
    then have c: "visible (tok_ID t)" "visible (tok_Value t)" "CHR ''='' \<notin> set (tok_ID t)"
      using Cons.prems by (simp_all add: clean_token_def)
    then have "IndexByte (render_token t) (CHR ''='') = Some (length (tok_ID t))"
      using False by (simp add: render_token_def IndexByte_append)
    moreover have "parse_token_lines (Suc n) (tok_ID t # seen) (map render_token ts) = Inr ts"
      using Cons False by auto
    moreover have "take (length (tok_ID t)) (render_token t) = tok_ID t"
      "drop (Suc (length (tok_ID t))) (render_token t) = tok_Value t"
      using False by (simp_all add: render_token_def)
    moreover have "tok_ID t \<notin> set seen" "tok_Value t \<noteq> []" using Cons.prems(3) False c by (auto simp: visible_def)
    ultimately show ?thesis using tr False c by (simp add: visible_trimmed Let_def)
  qed
qed simp

lemma parse_token_lines_sound:
  "parse_token_lines n seen ls = Inr ts \<Longrightarrow>
     distinct (filter (\<lambda>i. i \<noteq> []) (map tok_ID ts)) \<and> set (filter (\<lambda>i. i \<noteq> []) (map tok_ID ts)) \<inter> set seen = {} \<and>
     (\<forall>t \<in> set ts. tok_Value t \<noteq> [] \<and> trimmed (tok_Value t) \<and> trimmed (tok_ID t))"
proof (induction n seen ls arbitrary: ts rule: parse_token_lines.induct)
  case (2 n seen line ls)
  let ?t = "TrimSpace line"
  show ?case
  proof (cases "?t = []")
    case True
    then show ?thesis using 2 by simp
  next
    case False
    show ?thesis
    proof (cases "IndexByte ?t (CHR ''='')")
      case None
      with 2(4) False obtain ts' where "parse_token_lines (Suc n) seen ls = Inr ts'"
        "ts = \<lparr>tok_ID = [], tok_Value = ?t\<rparr> # ts'" by (auto simp: Let_def split: sum.splits)
      with 2(2) False None show ?thesis by (simp add: trimmedI)
    next
      case (Some i)
      let ?i = "TrimSpace (take i ?t)" and ?v = "TrimSpace (drop (Suc i) ?t)"
      from Some 2(4) False obtain ts' where "?i \<noteq> []" "?v \<noteq> []" "?i \<notin> set seen"
        "parse_token_lines (Suc n) (?i # seen) ls = Inr ts'" "ts = \<lparr>tok_ID = ?i, tok_Value = ?v\<rparr> # ts'"
        by (auto simp: Let_def split: sum.splits if_splits)
      with 2(3) [of ?t i ?i ?v ts'] False Some show ?thesis by auto
    qed
  qed
qed simp

lemma serve_tokens_ids:
  "map ID (serve_tokens i ts) =
     map (\<lambda>(k, t). if tok_ID t = [] then ''token-'' @ decimal k else tok_ID t) (zip [i..<i + length ts] ts)"
proof (induction ts arbitrary: i)
  case (Cons t ts)
  have "[i..<i + length (t # ts)] = i # [Suc i..<Suc i + length ts]" by (simp add: upt_rec)
  then show ?case using Cons.IH [of "Suc i"] by simp
qed simp

lemma serve_tokens_distinct:
  assumes "distinct (filter (\<lambda>x. x \<noteq> []) (map tok_ID ts))"
    and "\<And>t k. t \<in> set ts \<Longrightarrow> tok_ID t \<noteq> ''token-'' @ decimal k"
  shows "distinct (map ID (serve_tokens i ts)) \<and>
    set (map ID (serve_tokens i ts)) \<subseteq> set (map tok_ID ts) \<union> {''token-'' @ decimal k |k. i \<le> k}"
  using assms
proof (induction ts arbitrary: i)
  case (Cons t ts)
  let ?x = "if tok_ID t = [] then ''token-'' @ decimal i else tok_ID t"
  have IH: "distinct (map ID (serve_tokens (Suc i) ts))"
    "set (map ID (serve_tokens (Suc i) ts)) \<subseteq> set (map tok_ID ts) \<union> {''token-'' @ decimal k |k. Suc i \<le> k}"
    using Cons.IH [of "Suc i"] Cons.prems by (auto split: if_splits)
  have "?x \<notin> set (map tok_ID ts)"
  proof (cases "tok_ID t = []")
    case True
    show ?thesis
    proof
      assume "?x \<in> set (map tok_ID ts)"
      then obtain u where "u \<in> set ts" "tok_ID u = ''token-'' @ decimal i" using True by auto
      with Cons.prems(2) [of u i] show False by simp
    qed
  next
    case False
    then show ?thesis using Cons.prems(1) by auto
  qed
  moreover have "?x \<notin> {''token-'' @ decimal k |k. Suc i \<le> k}"
    using Cons.prems(2) [of t] by (auto simp: decimal_inj)
  ultimately have "?x \<notin> set (map ID (serve_tokens (Suc i) ts))" using IH(2) by blast
  moreover have "{''token-'' @ decimal k |k. Suc i \<le> k} \<subseteq> {''token-'' @ decimal k |k. i \<le> k}"
    using Suc_leD by blast
  moreover have "?x \<in> set (map tok_ID (t # ts)) \<union> {''token-'' @ decimal k |k. i \<le> k}" by auto
  moreover have ids: "map ID (serve_tokens i (t # ts)) = ?x # map ID (serve_tokens (Suc i) ts)" by simp
  ultimately show ?case unfolding ids using IH by (simp only: distinct.simps list.set list.map) blast
qed simp

text \<open>What a valid configuration guarantees.\<close>

lemma known_credential_Some: "known_credential known n = Some s \<Longrightarrow> s \<in> set known \<and> CredName s = n"
  by (auto simp: known_credential_def find_Some_iff)

lemma known_credential_None: "known_credential known n = None \<longleftrightarrow> n \<notin> CredName ` set known"
  by (auto simp: known_credential_def find_None_iff)

lemma validate_credentials_ok:
  "validate_credentials i known ss = Inr known' \<Longrightarrow>
     known' = known @ ss \<and> list_all valid_credential ss \<and>
     (distinct (map CredName known) \<longrightarrow> distinct (map CredName (known @ ss)))"
proof (induction i known ss rule: validate_credentials.induct)
  case (2 i known s ss)
  then have v: "valid_credential s" "known_credential known (CredName s) = None"
    "validate_credentials (Suc i) (known @ [s]) ss = Inr known'"
    by (auto split: if_splits)
  with 2(1) show ?case by (auto simp: known_credential_None)
qed simp

lemma validate_routes_None:
  "validate_routes known i rs = None \<Longrightarrow> r \<in> set rs \<Longrightarrow> \<exists>j. validate_route known j r = None"
  by (induction known i rs rule: validate_routes.induct) (auto split: option.splits)

definition route_ok :: "Credential list \<Rightarrow> cfg_route \<Rightarrow> bool" where
  "route_ok known r \<longleftrightarrow>
     rt_Path r \<noteq> [] \<and>
     (Delivery r = [] \<and> rt_Credential r = [] \<and> Env r = [] \<or>
      CredentialCommand r = [] \<and> RefreshCommand r = [] \<and>
      (Delivery r = ''header'' \<and> rt_Upstream r \<noteq> [] \<and> rt_Credential r \<in> CredName ` set known \<and>
         validHeader (rt_Header r) \<and> rt_Header r \<noteq> [] \<and>
         set (Prefix r) \<inter> {CHR 0x0D, CHR 0x0A} = {} \<and>
         (\<forall>s \<in> set known. CredName s = rt_Credential r \<and> distinct (map CredName known) \<and> Preload s \<longrightarrow> rt_RefreshOnStatus r = [])
       \<or> Delivery r = ''env'' \<and> rt_Upstream r = [] \<and> Env r \<noteq> [] \<and>
         (\<forall>(key, name) \<in> set (Env r). key \<noteq> [] \<and> set key \<inter> {CHR ''='', CHR 0x00, CHR 0x0D, CHR 0x0A} = {} \<and>
            name \<in> CredName ` set known)))"

lemma validate_route_ok: "validate_route known i r = None \<Longrightarrow> route_ok known r"
proof -
  assume v: "validate_route known i r = None"
  have hdr: "known_credential known (rt_Credential r) = Some c \<Longrightarrow> distinct (map CredName known) \<Longrightarrow>
      s \<in> set known \<Longrightarrow> CredName s = rt_Credential r \<Longrightarrow> s = c" for s c
    using known_credential_Some [of known "rt_Credential r" c] by (metis distinct_map inj_on_def)
  consider "Delivery r = []" | "Delivery r = ''header''" | "Delivery r = ''env''"
    using v by (auto simp: validate_route_def split: if_splits)
  then show ?thesis
  proof cases
    case 1
    with v show ?thesis by (auto simp: validate_route_def route_ok_def split: if_splits)
  next
    case 2
    with v obtain c where c: "known_credential known (rt_Credential r) = Some c"
      by (auto simp: validate_route_def split: if_splits option.splits)
    then have "rt_Credential r \<in> CredName ` set known" using known_credential_Some [OF c] by (metis imageI)
    with 2 v c hdr [OF c] show ?thesis
      by (auto simp: validate_route_def route_ok_def ContainsAny_iff split: if_splits)
  next
    case 3
    with v have "find (\<lambda>(key, name). bad_env_key key \<or> known_credential known name = None) (Env r) = None"
      and r: "rt_Upstream r = []" "Env r \<noteq> []" "rt_Path r \<noteq> []" "CredentialCommand r = []" "RefreshCommand r = []"
      by (auto simp: validate_route_def split: if_splits)
    then have "\<forall>(key, name) \<in> set (Env r). \<not> bad_env_key key \<and> name \<in> CredName ` set known"
      unfolding find_None_iff known_credential_None by blast
    then show ?thesis using 3 r unfolding route_ok_def bad_env_key_def ContainsAny_iff by fastforce
  qed
qed

lemma validate_ok:
  assumes "validate c = None"
  shows "distinct (map CredName (Credentials c)) \<and> list_all valid_credential (Credentials c) \<and>
    (\<forall>r \<in> set (cfg_Routes c). route_ok (Credentials c) r) \<and>
    \<not> (cfg_ListenTCP c = [] \<and> cfg_ListenUnix c = [] \<and> cfg_ListenPipe c = [])"
proof -
  from assms obtain known where k: "validate_credentials 0 [] (Credentials c) = Inr known"
    "validate_routes known 0 (cfg_Routes c) = None"
    by (auto simp: validate_def split: if_splits sum.splits)
  have "known = Credentials c" "list_all valid_credential (Credentials c)" "distinct (map CredName (Credentials c))"
    using validate_credentials_ok [OF k(1)] by auto
  moreover have "r \<in> set (cfg_Routes c) \<Longrightarrow> route_ok known r" for r
    using validate_routes_None [OF k(2)] validate_route_ok by blast
  ultimately show ?thesis using assms by (auto simp: validate_def split: if_splits)
qed

lemma client_id_error_None:
  "client_id_error known i rs = None \<longleftrightarrow> (\<forall>r \<in> set rs. set (rt_AllowedClientIDs r) \<subseteq> set known)"
  by (induction known i rs rule: client_id_error.induct)
    (auto simp: find_None_iff split: option.splits dest: find_SomeD)

section \<open>Properties\<close>

text \<open>
  A token file written one token per line, bare or as id=value, with visible
  ASCII ids and values, an id without an equals sign and no id twice, parses back to exactly
  those tokens.
\<close>

theorem parseTokens_roundtrip:
  assumes "list_all clean_token ts" and "distinct (filter (\<lambda>i. i \<noteq> []) (map tok_ID ts))"
  shows "parseTokens (Join (map render_token ts) [CHR 0x0A]) = Inr ts"
proof (cases "ts = []")
  case False
  have nl: "CHR 0x0A \<notin> set (render_token t)" if "t \<in> set ts" for t
  proof -
    have "space_byte (CHR 0x0A)" by code_simp
    then show ?thesis using assms(1) that clean_token_visible [of t] by (auto simp: list_all_iff visible_def)
  qed
  have "Split (Join (map render_token ts) [CHR 0x0A]) (CHR 0x0A) = map render_token ts"
    using False nl by (intro Split_Join) auto
  then show ?thesis using parse_token_lines_render [of ts "[]" 0] assms by (simp add: parseTokens_def)
qed (simp add: parseTokens_def)

theorem parseTokens_roundtrip_witness:
  "parseTokens (''ci=s3cret'' @ [CHR 0x0A] @ ''bare'') =
     Inr [\<lparr>tok_ID = ''ci'', tok_Value = ''s3cret''\<rparr>, \<lparr>tok_ID = [], tok_Value = ''bare''\<rparr>]"
proof -
  let ?ts = "[\<lparr>tok_ID = ''ci'', tok_Value = ''s3cret''\<rparr>, \<lparr>tok_ID = [], tok_Value = ''bare''\<rparr>]"
  have "list_all clean_token ?ts" by code_simp
  from parseTokens_roundtrip [OF this] show ?thesis by (simp add: render_token_def)
qed

text \<open>
  The token table serve builds from a parsed file: no two tokens share an id
  unless a named id has the form of a positional one, and then they can: a file that names its
  second token token-0 gives two clients the same identity.
\<close>

theorem serve_token_ids:
  assumes "parseTokens data = Inr ts" and "\<forall>t \<in> set ts. \<forall>k. tok_ID t \<noteq> ''token-'' @ decimal k"
  shows "distinct (map entry_id (token_entries (serve_tokens 0 ts))) \<and>
     (\<forall>t \<in> set ts. tok_Value t \<noteq> [] \<and> trimmed (tok_Value t)) \<and>
     map ID (serve_tokens 0 [\<lparr>tok_ID = [], tok_Value = ''a''\<rparr>, \<lparr>tok_ID = ''token-0'', tok_Value = ''b''\<rparr>]) =
       [''token-0'', ''token-0'']"
proof -
  have s: "distinct (filter (\<lambda>i. i \<noteq> []) (map tok_ID ts))" "\<forall>t \<in> set ts. tok_Value t \<noteq> [] \<and> trimmed (tok_Value t)"
    using parse_token_lines_sound assms(1) unfolding parseTokens_def by blast+
  have "distinct (map ID (serve_tokens 0 ts))" using serve_tokens_distinct [OF s(1)] assms(2) by blast
  moreover have "map entry_id (token_entries xs) = map ID xs" for xs by (simp add: token_entries_def)
  moreover have "decimal 0 = ''0''" by code_simp
  ultimately show ?thesis using s(2) by simp
qed

theorem serve_token_ids_witness:
  "distinct (map entry_id (token_entries (serve_tokens 0
     [\<lparr>tok_ID = ''ci'', tok_Value = ''s3cret''\<rparr>, \<lparr>tok_ID = [], tok_Value = ''bare''\<rparr>])))"
proof -
  have "parseTokens (''ci=s3cret'' @ [CHR 0x0A] @ ''bare'') =
      Inr [\<lparr>tok_ID = ''ci'', tok_Value = ''s3cret''\<rparr>, \<lparr>tok_ID = [], tok_Value = ''bare''\<rparr>]"
    by code_simp
  from serve_token_ids [OF this] show ?thesis by simp
qed

text \<open>
  Load returns only configurations whose routes can be served as written: the
  credential names are distinct, every route that delivers a credential names only configured
  ones and carries no script commands, header delivery has an upstream, a header name and a
  prefix without line breaks, an environment variable name has no equals sign, NUL or line
  break, and some listener is configured.
\<close>

theorem Load_valid:
  assumes "Load pipe e decoded = Inr c"
  shows "distinct (map CredName (Credentials c)) \<and>
    \<not> (cfg_ListenTCP c = [] \<and> cfg_ListenUnix c = [] \<and> cfg_ListenPipe c = []) \<and>
    (\<forall>r \<in> set (cfg_Routes c). rt_Path r \<noteq> [] \<and>
       (Delivery r = [] \<or> CredentialCommand r = [] \<and> RefreshCommand r = []) \<and>
       (Delivery r \<noteq> [] \<longrightarrow> Delivery r = ''header'' \<or> Delivery r = ''env'') \<and>
       (Delivery r = ''header'' \<longrightarrow> rt_Upstream r \<noteq> [] \<and> rt_Header r \<noteq> [] \<and>
          rt_Credential r \<in> CredName ` set (Credentials c) \<and> set (Prefix r) \<inter> {CHR 0x0D, CHR 0x0A} = {}) \<and>
       (Delivery r = ''env'' \<longrightarrow> rt_Upstream r = [] \<and>
          (\<forall>(key, name) \<in> set (Env r). key \<noteq> [] \<and> set key \<inter> {CHR ''='', CHR 0x00, CHR 0x0D, CHR 0x0A} = {} \<and>
             name \<in> CredName ` set (Credentials c))))"
proof -
  have v: "validate c = None"
    using assms by (auto simp: Load_def Let_def split: sum.splits option.splits if_splits)
  have "r \<in> set (cfg_Routes c) \<Longrightarrow> route_ok (Credentials c) r" for r using validate_ok [OF v] by blast
  then show ?thesis using validate_ok [OF v] unfolding route_ok_def by fastforce
qed

theorem Load_valid_witness:
  "\<exists>c. Load (Inr []) \<lparr>getenv = (\<lambda>s. s), home = []\<rparr>
     \<lparr>cfg_ListenTCP = [], cfg_ListenUnix = ''/run/c.sock'', cfg_ListenPipe = [], cfg_RequirePeerSID = [],
      LogLevel = ''info'', AuthTokensFile = [], OnePasswordTokenFile = ''/etc/op'',
      Credentials = [\<lparr>CredName = ''k'', CredProvider = ''onepassword'', SecretRef = ''op://v/i/f'', Preload = True, TTLSec = 0\<rparr>],
      cfg_Routes = [\<lparr>rt_Path = ''/env'', rt_Upstream = [], CredentialCommand = [], RefreshCommand = [], rt_RefreshOnStatus = [],
        HookTimeoutSec = 0, rt_StripInboundAuth = False, rt_AllowedClientIDs = [], rt_Credential = [], Delivery = ''env'',
        rt_Header = [], Prefix = [], Env = [(''API_KEY'', ''k'')]\<rparr>]\<rparr> = Inr c \<and>
     distinct (map CredName (Credentials c))"
  (is "\<exists>c. Load _ ?e ?d = Inr c \<and> _")
proof -
  have "\<exists>c. Load (Inr []) ?e ?d = Inr c"
    by (simp add: Load_def Let_def expand_def expandPath_def expand_route_def validate_def validate_route_def
        valid_credential_def known_credential_def fill_ttl_def bad_env_key_def ContainsAny_def)
  then obtain c where c: "Load (Inr []) ?e ?d = Inr c" by blast
  from Load_valid [OF c] c show ?thesis by blast
qed

text \<open>
  The client restrictions of a loaded configuration are checked against the ids of
  all tokens, the positional ids of unnamed ones included: ValidateClientIDs accepts a
  configuration exactly when every id of every route occurs among them.
\<close>

lemma ValidateClientIDs_iff:
  "ValidateClientIDs routes tokenIDs = None \<longleftrightarrow> (\<forall>r \<in> set routes. set (rt_AllowedClientIDs r) \<subseteq> set tokenIDs)"
  by (simp add: ValidateClientIDs_def client_id_error_None)

text \<open>
  A daemon that listens on TCP and has no tokens is open: serve leaves
  AllowUnauthenticated unset, New's policy check accepts the configuration, and the
  authentication gate admits every request on every connection unchanged.
\<close>

theorem tcp_without_tokens_is_open:
  assumes "cfg_ListenTCP cfg \<noteq> []" and "cfg_RequirePeerSID cfg = []"
  shows "\<not> AllowUnauthenticated (serve_config cfg [] routes) \<and>
     validatePeerListenerPolicy p (serve_config cfg [] routes) = None \<and>
     route_conflict (serve_config cfg [] routes) = None \<and>
     authMiddleware p getuid (serve_config cfg [] routes) (token_entries (AuthTokens (serve_config cfg [] routes))) ctx hdr = Inr ctx"
  using assms
  by (simp add: serve_config_def validatePeerListenerPolicy_def route_conflict_def find_None_iff authMiddleware_def
      token_entries_def)

theorem tcp_without_tokens_is_open_witness:
  "authMiddleware Linux 1000 (serve_config
       \<lparr>cfg_ListenTCP = ''0.0.0.0:8080'', cfg_ListenUnix = [], cfg_ListenPipe = [], cfg_RequirePeerSID = [],
        LogLevel = ''info'', AuthTokensFile = [], OnePasswordTokenFile = [], Credentials = [], cfg_Routes = []\<rparr>
       [] [demo_body_route]) [] background Map.empty = Inr background"
  using tcp_without_tokens_is_open [of "\<lparr>cfg_ListenTCP = ''0.0.0.0:8080'', cfg_ListenUnix = [], cfg_ListenPipe = [],
        cfg_RequirePeerSID = [], LogLevel = ''info'', AuthTokensFile = [], OnePasswordTokenFile = [], Credentials = [], cfg_Routes = []\<rparr>"
      "[demo_body_route]" Linux 1000 background Map.empty]
  by (simp add: serve_config_def token_entries_def)

end
