(* ===== verification/Credential_Cache.thy ===== *)
theory Credential_Cache
  imports Proxy_Types
begin

text \<open>
  The contract of an expiring credential cache, shared by the script provider (one entry per
  provider), the AWS SSO provider (one entry per profile) and the client's secret hook (one per
  reference, never evicted): a lookup hits exactly when the
  last store for the key, not followed by an eviction, expires later than the refresh margin
  from now. The clients' facts are proved once here, over arbitrary histories of operations.
\<close>

datatype ('k, 'v) cache_op = Store 'k 'v instant | Evict 'k

fun last_store :: "('k, 'v) cache_op list \<Rightarrow> 'k \<Rightarrow> ('v \<times> instant) option" where
  "last_store [] k = None"
| "last_store (Store k' v e # ops) k =
     (case last_store ops k of
        Some x \<Rightarrow> Some x
      | None \<Rightarrow> if k' = k \<and> Evict k \<notin> set ops then Some (v, e) else None)"
| "last_store (Evict k' # ops) k = last_store ops k"

text \<open>Lookup and store alone, as the secret hook of the client has them.\<close>

locale expiring_map =
  fixes lookup :: "'c \<Rightarrow> 'k \<Rightarrow> instant \<Rightarrow> 'v option"
    and store :: "'c \<Rightarrow> 'k \<Rightarrow> 'v \<Rightarrow> instant \<Rightarrow> 'c"
    and empty :: 'c
    and margin :: int
  assumes lookup_empty: "lookup empty k t = None"
    and lookup_store: "lookup (store c k v e) j t =
      (if j = k then if t + margin < e then Some v else None else lookup c j t)"
begin

lemma stored_is_served: "t + margin < e \<Longrightarrow> lookup (store c k v e) k t = Some v"
  by (simp add: lookup_store)

lemma expired_is_not_served: "e \<le> t + margin \<Longrightarrow> lookup (store c k v e) k t = None"
  by (simp add: lookup_store)

text \<open>The map after a list of stores, the latest first.\<close>

fun store_all :: "('k \<times> 'v \<times> instant) list \<Rightarrow> 'c" where
  "store_all [] = empty"
| "store_all ((k, v, e) # h) = store (store_all h) k v e"

lemma lookup_store_all:
  "lookup (store_all h) k t =
     (case map_of h k of Some (v, e) \<Rightarrow> if t + margin < e then Some v else None | None \<Rightarrow> None)"
  by (induction h rule: store_all.induct) (auto simp: lookup_empty lookup_store)

end

text \<open>With eviction, as the daemon's providers have it.\<close>

locale ttl_cache = expiring_map +
  fixes evict :: "'a \<Rightarrow> 'b \<Rightarrow> 'a"
  assumes lookup_evict: "lookup (evict c k) j t = (if j = k then None else lookup c j t)"
begin

lemma evicted_is_not_served: "lookup (evict c k) k t = None"
  by (simp add: lookup_evict)

text \<open>The cache after a history of operations.\<close>

fun run_ops :: "'a \<Rightarrow> ('b, 'c) cache_op list \<Rightarrow> 'a" where
  "run_ops c [] = c"
| "run_ops c (Store k v e # ops) = run_ops (store c k v e) ops"
| "run_ops c (Evict k # ops) = run_ops (evict c k) ops"

lemma lookup_run_ops:
  "lookup (run_ops c ops) k t =
     (case last_store ops k of
        Some (v, e) \<Rightarrow> if t + margin < e then Some v else None
      | None \<Rightarrow> if Evict k \<in> set ops then None else lookup c k t)"
proof (induction c ops rule: run_ops.induct)
  case (2 c k' v e ops)
  then show ?case by (auto simp: lookup_store split: option.splits)
next
  case (3 c k' ops)
  then show ?case by (auto simp: lookup_evict split: option.splits)
qed simp

lemma history_hit:
  assumes "lookup (run_ops empty ops) k t = Some v"
  shows "\<exists>e. last_store ops k = Some (v, e) \<and> t + margin < e"
  using assms by (auto simp: lookup_run_ops lookup_empty split: option.splits if_splits prod.splits)

end

end
