(* ===== verification/Script_Provider.thy ===== *)
theory Script_Provider
  imports Credential_Cache Route_Handler
begin

text \<open>
  The hook-script provider, cmd/credproxyd/providers/script: hook request encoding (hookreq.go),
  stdout and stderr parsing (parse.go), the single-entry TTL cache (cache.go) and the provider's
  Get, Refresh and run (script.go). The hook process, the clock and the singleflight group are
  parameters; a provider's state is its cache entry beside the world \<open>'w\<close> the hooks act on.
\<close>

section \<open>Definitions\<close>

definition reasonPrefix :: string where
  "reasonPrefix = ''reason:''"

definition maxReasonLen :: nat where
  "maxReasonLen = 64"

definition reason_char :: "char \<Rightarrow> bool" where
  "reason_char c \<longleftrightarrow> is_lower c \<or> is_digit c \<or> c = CHR ''_''"

definition parseReason :: "bytes \<Rightarrow> string option" where
  "parseReason stderr =
     (let line = TrimSpace (case IndexByte stderr (CHR 0x0A) of Some i \<Rightarrow> take i stderr | None \<Rightarrow> stderr) in
      if \<not> HasPrefix line reasonPrefix then None
      else let token = drop (length reasonPrefix) line in
        if length token = 0 \<or> maxReasonLen < length token then None
        else if list_all reason_char token then Some token
        else None)"

definition maxLoggedStderr :: nat where
  "maxLoggedStderr = 2048"

definition truncateForLog :: "bytes \<Rightarrow> string" where
  "truncateForLog b =
     (if length b \<le> maxLoggedStderr then b else take maxLoggedStderr b @ ''...(truncated)'')"

definition defaultSafety :: duration where
  "defaultSafety = 30 * second"

text \<open>hookreq.go: the JSON document a hook reads on stdin; empty context members are omitted.\<close>

definition meta_get :: "string_map \<Rightarrow> string \<Rightarrow> string" where
  "meta_get m k = (case map_of m k of Some v \<Rightarrow> v | None \<Rightarrow> [])"

definition omitempty :: "string \<Rightarrow> string \<Rightarrow> (string \<times> json) list" where
  "omitempty k v = (if v = [] then [] else [(k, JStr v)])"

definition hook_json :: "string \<Rightarrow> string \<Rightarrow> Request \<Rightarrow> json" where
  "hook_json action route req =
     JObj [(''action'', JStr action), (''route'', JStr route),
           (''request'', JObj [(''method'', JStr (Method req)), (''path'', JStr (RequestPath req)),
                               (''host'', JStr (Host req))]),
           (''context'', JObj (omitempty ''client'' (meta_get (Metadata req) ''client'') @
                               omitempty ''project_path'' (meta_get (Metadata req) ''project_path'')))]"

definition buildHookRequest :: "string \<Rightarrow> string \<Rightarrow> Request \<Rightarrow> bytes" where
  "buildHookRequest action route req = json_encode (hook_json action route req)"

text \<open>The hook's answer, decoded with unknown fields disallowed.\<close>

record hookResponse =
  hr_Headers :: string_map
  hr_AppendHeaders :: string_map
  hr_Query :: string_map
  hr_ExpiresInSec :: "64 word"
  hr_BodyReplace :: bytes

definition empty_hookResponse :: hookResponse where
  "empty_hookResponse =
     \<lparr>hr_Headers = [], hr_AppendHeaders = [], hr_Query = [], hr_ExpiresInSec = 0, hr_BodyReplace = []\<rparr>"

definition hook_fields :: "string list" where
  "hook_fields = [''headers'', ''append_headers'', ''query'', ''expires_in_sec'', ''body_replace'']"

definition hook_member :: "hookResponse \<Rightarrow> string \<times> string \<times> json \<Rightarrow> hookResponse option" where
  "hook_member h m =
     (case m of (k, raw, v) \<Rightarrow>
        (case field_for hook_fields k of
           None \<Rightarrow> None
         | Some f \<Rightarrow>
             if f = ''headers'' then map_option (\<lambda>x. h\<lparr>hr_Headers := x\<rparr>) (into_string_map v (hr_Headers h))
             else if f = ''append_headers''
             then map_option (\<lambda>x. h\<lparr>hr_AppendHeaders := x\<rparr>) (into_string_map v (hr_AppendHeaders h))
             else if f = ''query'' then map_option (\<lambda>x. h\<lparr>hr_Query := x\<rparr>) (into_string_map v (hr_Query h))
             else if f = ''expires_in_sec''
             then map_option (\<lambda>x. h\<lparr>hr_ExpiresInSec := x\<rparr>) (into_int v (hr_ExpiresInSec h))
             else Some (h\<lparr>hr_BodyReplace := raw\<rparr>)))"

fun hook_members :: "hookResponse \<Rightarrow> (string \<times> string \<times> json) list \<Rightarrow> hookResponse option" where
  "hook_members h [] = Some h"
| "hook_members h (m # ms) = (case hook_member h m of None \<Rightarrow> None | Some h' \<Rightarrow> hook_members h' ms)"

definition decode_hook :: "bytes \<Rightarrow> go_error + hookResponse" where
  "decode_hook stdout =
     (case decode_stream stdout of
        Inl e \<Rightarrow> Inl e
      | Inr (None, rest) \<Rightarrow> Inr empty_hookResponse
      | Inr (Some ms, rest) \<Rightarrow>
          (case hook_members empty_hookResponse ms of None \<Rightarrow> Inl json_error | Some h \<Rightarrow> Inr h))"

definition parseHookResponse :: "bytes \<Rightarrow> instant \<Rightarrow> duration \<Rightarrow> go_error + Injection \<times> instant" where
  "parseHookResponse stdout now safety =
     (case decode_hook stdout of
        Inl err \<Rightarrow> Inl (WrapError ''decode hook response'' err)
      | Inr resp \<Rightarrow>
          let raw = hr_BodyReplace resp;
              i0 = \<lparr>Headers = hr_Headers resp, AppendHeaders = hr_AppendHeaders resp, Query = hr_Query resp,
                    BodyReplace = (if 0 < length raw \<and> raw \<noteq> ''null'' \<and> raw \<noteq> ''{}'' then raw else []),
                    ExpiresAt = zeroTime\<rparr>;
              ttl = seconds_of (hr_ExpiresInSec resp) - safety
          in if 0 <s ttl then Inr (i0\<lparr>ExpiresAt := time_Add now ttl\<rparr>, time_Add now ttl)
             else Inr (i0, zeroTime))"

text \<open>cache.go.\<close>

record cacheEntry =
  ce_inj :: Injection
  ce_expires :: instant

type_synonym ttlCache = "cacheEntry option"

definition ttlCache_get :: "ttlCache \<Rightarrow> instant \<Rightarrow> Injection option" where
  "ttlCache_get c now = (case c of Some e \<Rightarrow> if now < ce_expires e then Some (ce_inj e) else None | None \<Rightarrow> None)"

definition ttlCache_set :: "ttlCache \<Rightarrow> Injection \<Rightarrow> instant \<Rightarrow> ttlCache" where
  "ttlCache_set c injection expires = Some \<lparr>ce_inj = injection, ce_expires = expires\<rparr>"

definition ttlCache_invalidate :: "ttlCache \<Rightarrow> ttlCache" where
  "ttlCache_invalidate c = None"

type_synonym 'w cached = "ttlCache \<times> 'w"
type_synonym 'w fetch = "'w cached \<Rightarrow> (go_error + Injection \<times> instant) \<times> 'w cached"

definition ttlCache_do ::
  "(string \<Rightarrow> 'w fetch \<Rightarrow> 'w fetch) \<Rightarrow> string \<Rightarrow> 'w fetch \<Rightarrow> 'w cached \<Rightarrow> (go_error + Injection) \<times> 'w cached" where
  "ttlCache_do sfDo key fn st =
     (case sfDo key
             (\<lambda>st. case fn st of
                (Inl err, st') \<Rightarrow> (Inl err, st')
              | (Inr (injection, expires), (c, w)) \<Rightarrow>
                  (Inr (injection, expires),
                   (if expires \<noteq> zeroTime then ttlCache_set c injection expires else c, w))) st of
        (Inl err, st') \<Rightarrow> (Inl err, st')
      | (Inr (injection, expires), st') \<Rightarrow> (Inr injection, st'))"

text \<open>script.go. A hook run gives the process error, stdout and stderr.\<close>

record 'w hook_env =
  run_hook :: "string list \<Rightarrow> bytes \<Rightarrow> 'w \<Rightarrow> (go_error option \<times> bytes \<times> bytes) \<times> 'w"
  time_Now :: "'w \<Rightarrow> instant"
  singleflight_Do :: "string \<Rightarrow> 'w fetch \<Rightarrow> 'w fetch"

record script_provider =
  routeName :: string
  getCmd :: "string list"
  refreshCmd :: "string list"
  safety :: duration

definition script_New :: "string \<Rightarrow> string list \<Rightarrow> string list \<Rightarrow> script_provider" where
  "script_New name get refresh =
     \<lparr>routeName = name, getCmd = get, refreshCmd = refresh, safety = defaultSafety\<rparr>"

definition format_strings :: "string list \<Rightarrow> string" where
  "format_strings xs = ''['' @ Join xs '' '' @ '']''"

definition script_run ::
  "'w hook_env \<Rightarrow> script_provider \<Rightarrow> string \<Rightarrow> Request \<Rightarrow> string list \<Rightarrow> 'w fetch" where
  "script_run env p action req cmd st =
     (if cmd = [] then (Inr (empty_injection, zeroTime), st)
      else case st of (c, w) \<Rightarrow>
        (case run_hook env cmd (buildHookRequest action (routeName p) req) w of
           ((Some err, stdout, stderr), w') \<Rightarrow>
             let detail = FormatError (''script '' @ format_strings cmd @ '': '' @ error_string err @
                            '' (stderr: '' @ truncateForLog stderr @ '')'') err
             in (case parseReason stderr of
                   Some reason \<Rightarrow> (Inl (ReasonError reason (Some detail)), (c, w'))
                 | None \<Rightarrow> (Inl detail, (c, w')))
         | ((None, stdout, stderr), w') \<Rightarrow>
             (case parseHookResponse stdout (time_Now env w') (safety p) of
                Inl err \<Rightarrow> (Inl (WrapError (''script '' @ format_strings cmd) err), (c, w'))
              | Inr res \<Rightarrow> (Inr res, (c, w')))))"

definition script_Get ::
  "'w hook_env \<Rightarrow> script_provider \<Rightarrow> Request \<Rightarrow> 'w cached \<Rightarrow> (go_error + Injection) \<times> 'w cached" where
  "script_Get env p req st =
     (case ttlCache_get (fst st) (time_Now env (snd st)) of
        Some injection \<Rightarrow> (Inr injection, st)
      | None \<Rightarrow> ttlCache_do (singleflight_Do env) (routeName p @ '':get'') (script_run env p ''get'' req (getCmd p)) st)"

definition script_Refresh ::
  "'w hook_env \<Rightarrow> script_provider \<Rightarrow> Request \<Rightarrow> 'w cached \<Rightarrow> (go_error + Injection) \<times> 'w cached" where
  "script_Refresh env p req st =
     (let st0 = (ttlCache_invalidate (fst st), snd st);
          cmd = (if length (refreshCmd p) = 0 then getCmd p else refreshCmd p)
      in ttlCache_do (singleflight_Do env) (routeName p @ '':refresh'') (script_run env p ''refresh'' req cmd) st0)"

text \<open>The provider as the proxy's Provider interface.\<close>

definition script_Provider :: "'w hook_env \<Rightarrow> script_provider \<Rightarrow> 'w cached Provider" where
  "script_Provider env p = \<lparr>ProviderGet = script_Get env p, ProviderRefresh = script_Refresh env p\<rparr>"

section \<open>Lemmas\<close>

interpretation script_cache: ttl_cache "\<lambda>c (_::unit) t. ttlCache_get c t" "\<lambda>c _ v e. ttlCache_set c v e"
    None 0 "\<lambda>c _. ttlCache_invalidate c"
  by unfold_locales (auto simp: ttlCache_get_def ttlCache_set_def ttlCache_invalidate_def)

lemma script_cache_hit: "ttlCache_get (ttlCache_set c injection e) t = (if t < e then Some injection else None)"
  using script_cache.lookup_store [where c = c and k = "()" and v = injection and e = e and j = "()" and t = t] by simp

lemma script_cache_miss: "ttlCache_get None t = None"
  by (rule script_cache.lookup_empty)

definition reason_token :: "string \<Rightarrow> bool" where
  "reason_token t \<longleftrightarrow> 0 < length t \<and> length t \<le> 64 \<and> (\<forall>c \<in> set t. is_lower c \<or> is_digit c \<or> c = CHR ''_'')"

lemma parseReason_token: "parseReason s = Some t \<Longrightarrow> reason_token t"
  by (auto simp: parseReason_def Let_def reason_token_def maxReasonLen_def reason_char_def list_all_iff split: if_splits)

text \<open>An environment whose singleflight group has no other call in flight runs the function.\<close>

definition runs_alone :: "'w hook_env \<Rightarrow> bool" where
  "runs_alone env \<longleftrightarrow> (\<forall>key fn st. singleflight_Do env key fn st = fn st)"

lemma ttlCache_do_alone:
  "runs_alone env \<Longrightarrow> ttlCache_do (singleflight_Do env) key fn st =
     (case fn st of
        (Inl err, st') \<Rightarrow> (Inl err, st')
      | (Inr (injection, expires), (c, w)) \<Rightarrow>
          (Inr injection, (if expires \<noteq> zeroTime then Some \<lparr>ce_inj = injection, ce_expires = expires\<rparr> else c, w)))"
proof -
  assume "runs_alone env"
  then have "singleflight_Do env = (\<lambda>key fn. fn)" unfolding runs_alone_def by blast
  then show ?thesis by (auto simp: ttlCache_do_def ttlCache_set_def split: sum.splits prod.splits)
qed

lemma script_run_cache: "script_run env p action req cmd (c, w) = (res, (c', w')) \<Longrightarrow> c' = c"
  by (auto simp: script_run_def Let_def split: if_splits prod.splits option.splits sum.splits)

lemma parseHookResponse_expires:
  "parseHookResponse stdout now safe = Inr (injection, e) \<Longrightarrow> ExpiresAt injection = e \<and> (e = zeroTime \<or> now < e)"
  by (auto simp: parseHookResponse_def Let_def time_Add_def word_sless_alt split: sum.splits if_splits)

text \<open>Process errors come from the operating system and carry no reason.\<close>

definition hook_errors_plain :: "'w hook_env \<Rightarrow> bool" where
  "hook_errors_plain env \<longleftrightarrow>
     (\<forall>cmd i w e out err w'. run_hook env cmd i w = ((Some e, out, err), w') \<longrightarrow> as_ReasonError e = None)"

lemma parseHookResponse_plain: "parseHookResponse stdout now safe = Inl err \<Longrightarrow> as_ReasonError err = None"
  by (auto simp: parseHookResponse_def Let_def json_error_def decode_hook_def decode_stream_def
      split: if_splits prod.splits option.splits sum.splits list.splits json.splits)

lemma script_run_error:
  assumes "script_run env p action req cmd st = (Inl err, st')" and "as_ReasonError err = Some t" and "hook_errors_plain env"
  shows "reason_token t"
proof -
  obtain c w where st: "st = (c, w)" by force
  obtain e out serr w' where run: "run_hook env cmd (buildHookRequest action (routeName p) req) w = ((e, out, serr), w')"
    by (metis prod_cases3 surj_pair)
  show ?thesis
  proof (cases e)
    case None
    with assms(1,2) run st show ?thesis
      by (auto simp: script_run_def split: if_splits sum.splits dest!: parseHookResponse_plain)
  next
    case (Some x)
    then have "as_ReasonError x = None" using assms(3) run unfolding hook_errors_plain_def by blast
    with Some assms(1,2) run st show ?thesis
      by (auto simp: script_run_def Let_def split: if_splits option.splits dest!: parseReason_token)
  qed
qed

lemma script_do_error:
  "\<lbrakk>ttlCache_do (singleflight_Do env) key fn st = (Inl err, st'); runs_alone env\<rbrakk> \<Longrightarrow> \<exists>st1. fn st = (Inl err, st1)"
  by (auto simp: ttlCache_do_alone split: sum.splits prod.splits)

lemma script_Get_error:
  assumes "script_Get env p req st = (Inl err, st')" and "runs_alone env" and "hook_errors_plain env"
    and "as_ReasonError err = Some t"
  shows "reason_token t"
proof -
  obtain st1 where "script_run env p ''get'' req (getCmd p) st = (Inl err, st1)"
    using assms(1) script_do_error [OF _ assms(2), of _ _ st err st'] unfolding script_Get_def
    by (auto split: option.splits)
  then show ?thesis using script_run_error assms(3,4) by blast
qed

lemma sint_ttl:
  assumes "- 9223372006 \<le> sint (n :: 64 word)" and "sint n \<le> 9223372066"
  shows "sint (seconds_of n - defaultSafety) = (sint n - 30) * 1000000000"
proof -
  have "seconds_of n - defaultSafety = word_of_int ((sint n - 30) * 1000000000)"
    by (simp add: seconds_of_def defaultSafety_def second_def left_diff_distrib)
  moreover have "sint (word_of_int ((sint n - 30) * 1000000000) :: 64 word) = (sint n - 30) * 1000000000"
    using assms by (simp only: sint_sbintrunc') (rule signed_take_bit_int_eq_self; simp)
  ultimately show ?thesis by simp
qed

section \<open>A provider for the witnesses\<close>

text \<open>A hook that answers with a fixed document, or fails, according to the world's flag.\<close>

definition demo_stdout :: bytes where
  "demo_stdout = json_encode (JObj [(''headers'', JObj [(''Authorization'', JStr ''Bearer t'')]),
                                    (''expires_in_sec'', JNum ''90'')])"

definition demo_env :: "bool hook_env" where
  "demo_env =
     \<lparr>run_hook = (\<lambda>_ _ ok. ((if ok then None else Some (PlainError ''exit status 1''), demo_stdout,
                             ''reason:sso_expired'' @ [CHR 0x0A] @ ''secret detail''), ok)),
      time_Now = (\<lambda>_. 0), singleflight_Do = (\<lambda>_ fn. fn)\<rparr>"

definition demo_script :: script_provider where
  "demo_script = script_New ''aws'' [''hook''] []"

definition demo_preq :: Request where
  "demo_preq = \<lparr>Method = ''GET'', RequestPath = ''/'', Host = ''localhost'', Metadata = []\<rparr>"

lemma demo_env_alone: "runs_alone demo_env"
  by (simp add: runs_alone_def demo_env_def)

lemma demo_decode: "decode_hook demo_stdout =
    Inr (empty_hookResponse\<lparr>hr_Headers := [(''Authorization'', ''Bearer t'')], hr_ExpiresInSec := 90\<rparr>)"
  by code_simp

section \<open>Properties\<close>

text \<open>
  A failing hook tells the client nothing but a token: whatever its stderr says, the
  response of a route served by the script provider is the fixed text, or the JSON object whose
  reason has one to 64 characters out of lower-case letters, digits and the underscore.
\<close>

theorem hook_failure_response:
  assumes "RouteProvider (handlerCfg h) = script_Provider env p" and "runs_alone env" and "hook_errors_plain env"
    and "fst (script_Get env p (provider_request ctx r) st) = Inl err"
    and "buffer_body (handlerCfg h) r \<noteq> None"
    and "AllowedClientIDs (handlerCfg h) = [] \<or> clientAllowed (AllowedClientIDs (handlerCfg h)) (ctx_tokenID ctx)"
  shows "\<exists>resp. fst (serveHTTP tr h ctx r st) = Some resp \<and>
     (resp = http_Error ''credential error'' 502 \<or>
      (\<exists>t. 0 < length t \<and> length t \<le> 64 \<and> (\<forall>c \<in> set t. is_lower c \<or> is_digit c \<or> c = CHR ''_'') \<and>
         StatusCode resp = 502 \<and>
         RespBody resp = json_line (json_string_map
           [(''error'', ''credential_unavailable''), (''route'', routeLog h), (''reason'', t)])))"
proof -
  obtain st' where get: "script_Get env p (provider_request ctx r) st = (Inl err, st')"
    using assms(4) by (metis prod.collapse)
  then have "fst (serveHTTP tr h ctx r st) = Some (writeCredentialError (routeLog h) err ''credential error'')"
    using assms(1,5,6) by (auto simp: serveHTTP_def script_Provider_def Let_def log_event_def split: option.splits)
  moreover have "as_ReasonError err = Some t \<Longrightarrow> reason_token t" for t
    using script_Get_error [OF get assms(2,3)] .
  ultimately show ?thesis
    by (auto simp: writeCredentialError_def reason_token_def split: option.splits)
qed

theorem hook_failure_response_witness:
  "\<exists>resp. fst (serveHTTP (\<lambda>_ w. (Inl (PlainError []), w))
      \<lparr>handlerCfg = \<lparr>RoutePath = ''/aws'', Upstream = [], RouteProvider = script_Provider demo_env demo_script,
         RefreshOnStatus = [], StripInboundAuth = False, AllowedClientIDs = []\<rparr>, routeLog = ''aws'', proxyTarget = None\<rparr>
      background demo_request (None, False)) = Some resp \<and> StatusCode resp = 502"
proof -
  let ?h = "\<lparr>handlerCfg = \<lparr>RoutePath = ''/aws'', Upstream = [], RouteProvider = script_Provider demo_env demo_script,
         RefreshOnStatus = [], StripInboundAuth = False, AllowedClientIDs = []\<rparr>, routeLog = ''aws'', proxyTarget = None\<rparr>"
  have plain: "hook_errors_plain demo_env" by (auto simp: hook_errors_plain_def demo_env_def split: if_splits)
  have "\<exists>err. fst (script_Get demo_env demo_script (provider_request background demo_request) (None, False)) = Inl err"
    by (simp add: script_Get_def ttlCache_get_def ttlCache_do_alone [OF demo_env_alone] script_run_def demo_script_def
        script_New_def Let_def) (simp add: demo_env_def Let_def split: option.splits)
  with hook_failure_response [OF _ demo_env_alone plain, of ?h demo_script background demo_request "(None, False)"]
  show ?thesis by (fastforce simp: buffer_body_def http_Error_def)
qed

text \<open>
  Refresh never serves a cached credential and forgets the old one: it runs its
  hook once, on failure it leaves the cache empty, and on success the cache is empty or holds
  exactly the new injection until its expiry. Afterwards a Get before that expiry answers the new
  injection without running any hook, and any other Get runs the get hook.
\<close>

theorem script_refresh_then_get:
  assumes "runs_alone env" and "script_Refresh env p req (c, w) = (res, (c', w'))"
  shows "(\<forall>err. res = Inl err \<longrightarrow> c' = None) \<and>
    (\<forall>injection. res = Inr injection \<longrightarrow>
       c' = (if ExpiresAt injection = zeroTime then None
             else Some \<lparr>ce_inj = injection, ce_expires = ExpiresAt injection\<rparr>)) \<and>
    (\<forall>w2 req2. script_Get env p req2 (c', w2) =
       (case res of
          Inr injection \<Rightarrow>
            if ExpiresAt injection \<noteq> zeroTime \<and> time_Now env w2 < ExpiresAt injection then (Inr injection, (c', w2))
            else ttlCache_do (singleflight_Do env) (routeName p @ '':get'') (script_run env p ''get'' req2 (getCmd p)) (c', w2)
        | Inl err \<Rightarrow>
            ttlCache_do (singleflight_Do env) (routeName p @ '':get'') (script_run env p ''get'' req2 (getCmd p)) (c', w2)))"
proof -
  let ?cmd = "if length (refreshCmd p) = 0 then getCmd p else refreshCmd p"
  obtain out c1 w1 where run: "script_run env p ''refresh'' req ?cmd (None, w) = (out, (c1, w1))" by (metis surj_pair)
  have c1: "c1 = None" using script_run_cache [OF run] .
  have res: "(res, (c', w')) = (case out of Inl err \<Rightarrow> (Inl err, (c1, w1))
      | Inr (injection, e) \<Rightarrow> (Inr injection, (if e \<noteq> zeroTime then Some \<lparr>ce_inj = injection, ce_expires = e\<rparr> else c1, w1)))"
    using assms(2) run by (auto simp: script_Refresh_def Let_def ttlCache_invalidate_def ttlCache_do_alone [OF assms(1)]
        split: sum.splits prod.splits)
  have exp: "out = Inr (injection, e) \<Longrightarrow> ExpiresAt injection = e" for injection e
    using run by (auto simp: script_run_def Let_def empty_injection_def
        split: if_splits prod.splits option.splits sum.splits dest!: parseHookResponse_expires)
  note hit = script_cache_hit [unfolded ttlCache_set_def]
  show ?thesis
    using res c1 exp by (auto simp: script_Get_def hit script_cache_miss split: sum.splits prod.splits if_splits)
qed

theorem script_refresh_then_get_witness:
  "\<exists>injection st. script_Refresh demo_env demo_script demo_preq (None, True) = (Inr injection, st) \<and>
     script_Get demo_env demo_script demo_preq (fst st, True) = (Inr injection, (fst st, True))"
proof -
  have p: "parseHookResponse demo_stdout 0 defaultSafety =
      Inr (\<lparr>Headers = [(''Authorization'', ''Bearer t'')], AppendHeaders = [], Query = [], BodyReplace = [],
            ExpiresAt = 60000000000\<rparr>, 60000000000)"
    by (simp add: parseHookResponse_def demo_decode Let_def empty_hookResponse_def seconds_of_def defaultSafety_def
        second_def time_Add_def word_sless_alt)
  then have run: "script_Refresh demo_env demo_script demo_preq (None, True) =
      (Inr \<lparr>Headers = [(''Authorization'', ''Bearer t'')], AppendHeaders = [], Query = [], BodyReplace = [],
            ExpiresAt = 60000000000\<rparr>,
       (Some \<lparr>ce_inj = \<lparr>Headers = [(''Authorization'', ''Bearer t'')], AppendHeaders = [], Query = [], BodyReplace = [],
            ExpiresAt = 60000000000\<rparr>, ce_expires = 60000000000\<rparr>, True))"
    by (simp add: script_Refresh_def ttlCache_do_alone [OF demo_env_alone] demo_script_def script_New_def Let_def
        ttlCache_invalidate_def script_run_def) (simp add: demo_env_def zeroTime_def)
  have now: "time_Now demo_env True = 0" by (simp add: demo_env_def)
  show ?thesis using script_refresh_then_get [OF demo_env_alone run] run now by (simp add: zeroTime_def)
qed

text \<open>
  The cache deadline: as long as the lifetime less the safety margin fits in 64 bits
  of nanoseconds, a response is cached exactly when it lives longer than the 30 seconds of safety,
  and then until 30 seconds before its expiry. One second beyond the range the value wraps
  around, and a lifetime of 292 years is not cached at all.
\<close>

theorem hook_ttl:
  assumes "decode_hook stdout = Inr h" and "- 9223372006 \<le> sint (hr_ExpiresInSec h)"
    and "sint (hr_ExpiresInSec h) \<le> 9223372066"
  shows "\<exists>injection. parseHookResponse stdout now defaultSafety =
      Inr (injection, if 30 < sint (hr_ExpiresInSec h)
                      then now + (sint (hr_ExpiresInSec h) - 30) * 1000000000 else zeroTime) \<and>
    Headers injection = hr_Headers h \<and> AppendHeaders injection = hr_AppendHeaders h \<and> Query injection = hr_Query h \<and>
    \<not> 0 <s seconds_of 9223372067 - defaultSafety"
  using assms
  by (simp add: parseHookResponse_def Let_def time_Add_def word_sless_alt sint_ttl)
    (simp add: seconds_of_def second_def defaultSafety_def)

theorem hook_ttl_witness:
  "\<exists>injection. parseHookResponse demo_stdout 0 defaultSafety = Inr (injection, 60000000000) \<and>
     Headers injection = [(''Authorization'', ''Bearer t'')]"
  using hook_ttl [OF demo_decode, of 0] by (auto simp: empty_hookResponse_def)

text \<open>
  What a hook reads on stdin: the document decodes to the action, the route and
  the request's method, path and host, for ASCII values. The context object of a request that
  comes from the route handler is always empty, whoever the caller is.
\<close>

theorem hook_request_document:
  assumes "ascii action" and "ascii route" and "ascii (ReqMethod r)" and "ascii (Path (URL r))" and "ascii (ReqHost r)"
  shows "map_option (map (\<lambda>(k, raw, v). (k, v)))
      (case decode_document (buildHookRequest action route (provider_request ctx r)) of Inr d \<Rightarrow> d | Inl e \<Rightarrow> None) =
    Some [(''action'', JStr action), (''route'', JStr route),
          (''request'', JObj [(''method'', JStr (ReqMethod r)), (''path'', JStr (Path (URL r))), (''host'', JStr (ReqHost r))]),
          (''context'', JObj [])]"
proof -
  have ctx: "hook_json action route (provider_request ctx r) =
      JObj [(''action'', JStr action), (''route'', JStr route),
          (''request'', JObj [(''method'', JStr (ReqMethod r)), (''path'', JStr (Path (URL r))), (''host'', JStr (ReqHost r))]),
          (''context'', JObj [])]"
    by (auto simp: hook_json_def provider_request_def Let_def meta_get_def omitempty_def split: option.splits)
  have plain: "json_plain (hook_json action route (provider_request ctx r))"
    using assms by (simp add: ctx)
  show ?thesis
    using decode_document_marshal [OF plain [unfolded ctx]] by (simp add: buildHookRequest_def ctx)
qed

theorem hook_request_document_witness:
  "\<exists>ms. decode_document (buildHookRequest ''get'' ''aws'' (provider_request demo_ctx demo_request)) = Inr (Some ms) \<and>
     (''context'', JObj []) \<in> set (map (\<lambda>(k, raw, v). (k, v)) ms)"
proof -
  have "ascii ''get''" "ascii ''aws''" "ascii (ReqMethod demo_request)" "ascii (Path (URL demo_request))"
    "ascii (ReqHost demo_request)" by code_simp+
  from hook_request_document [OF this, of demo_ctx] show ?thesis
    by (auto split: sum.splits)
qed

end
