(* ===== verification/Onepassword.thy ===== *)
theory Onepassword
  imports Go_Json Proxy_Types
begin

text \<open>
  The 1Password store of providers/onepassword/provider.go: construction, preload, cached reads,
  single and multiple refresh. The resolver (the 1Password SDK), the clock and the singleflight
  group are parameters; the store's state is its cache beside the resolver's world. The
  per-name mutexes are modelled apart, as a step relation on the processes that hold them.
\<close>

section \<open>Definitions\<close>

record op_credential =
  op_Name :: string
  op_Ref :: string
  op_Preload :: bool
  op_TTL :: duration

record op_entry =
  op_value :: string
  op_expires :: instant
  op_valid :: bool

definition zero_entry :: op_entry where
  "zero_entry = \<lparr>op_value = [], op_expires = zeroTime, op_valid = False\<rparr>"

type_synonym op_specs = "(string \<times> op_credential) list"
type_synonym op_cache = "(string \<times> op_entry) list"
type_synonym 'w op_state = "op_cache \<times> 'w"
type_synonym 'w op_read = "'w op_state \<Rightarrow> (go_error + string) \<times> 'w op_state"

record 'w op_env =
  op_Resolve :: "string \<Rightarrow> 'w \<Rightarrow> (go_error + string) \<times> 'w"
  op_now :: "'w \<Rightarrow> instant"
  op_Do :: "string \<Rightarrow> 'w op_read \<Rightarrow> 'w op_read"

definition op_spec_ok :: "op_credential \<Rightarrow> bool" where
  "op_spec_ok spec \<longleftrightarrow>
     \<not> (op_Name spec = [] \<or> \<not> HasPrefix (op_Ref spec) ''op://'' \<or> (\<not> op_Preload spec \<and> op_TTL spec \<le>s 0))"

fun op_add_specs :: "op_specs \<Rightarrow> op_credential list \<Rightarrow> go_error + op_specs" where
  "op_add_specs m [] = Inr m"
| "op_add_specs m (spec # ss) =
     (if \<not> op_spec_ok spec then Inl (PlainError (''invalid 1Password credential '' @ op_Name spec))
      else if map_of m (op_Name spec) \<noteq> None then Inl (PlainError (''duplicate 1Password credential '' @ op_Name spec))
      else op_add_specs (map_put m (op_Name spec) spec) ss)"

definition op_New :: "op_credential list \<Rightarrow> go_error + op_specs" where
  "op_New specs = op_add_specs [] specs"

definition cache_entry :: "op_cache \<Rightarrow> string \<Rightarrow> op_entry" where
  "cache_entry c name = (case map_of c name of Some e \<Rightarrow> e | None \<Rightarrow> zero_entry)"

definition cache_put_all :: "op_cache \<Rightarrow> (string \<times> op_entry) list \<Rightarrow> op_cache" where
  "cache_put_all c next = foldl (\<lambda>c (k, v). map_put c k v) c next"

text \<open>Preload: the pinned credentials, in the map's iteration order; nothing is stored on error.\<close>

fun preload_values :: "'w op_env \<Rightarrow> op_specs \<Rightarrow> (string \<times> op_entry) list \<Rightarrow> 'w
    \<Rightarrow> (go_error + (string \<times> op_entry) list) \<times> 'w" where
  "preload_values env [] vals w = (Inr vals, w)"
| "preload_values env ((name, spec) # ss) vals w =
     (if \<not> op_Preload spec then preload_values env ss vals w
      else case op_Resolve env (op_Ref spec) w of
             (Inl err, w') \<Rightarrow> (Inl (WrapError (''preload '' @ name) err), w')
           | (Inr value, w') \<Rightarrow>
               if value = [] then (Inl (PlainError (''preload '' @ name @ '': 1Password returned an empty value'')), w')
               else preload_values env ss
                      (map_put vals name \<lparr>op_value = value, op_expires = zeroTime, op_valid = True\<rparr>) w')"

definition op_Preload_all :: "'w op_env \<Rightarrow> op_specs \<Rightarrow> 'w op_state \<Rightarrow> go_error option \<times> 'w op_state" where
  "op_Preload_all env specs st =
     (case st of (c, w) \<Rightarrow>
        (case preload_values env specs [] w of
           (Inl err, w') \<Rightarrow> (Some err, (c, w'))
         | (Inr vals, w') \<Rightarrow> (None, (cache_put_all c vals, w'))))"

definition op_usable :: "'w op_env \<Rightarrow> op_credential \<Rightarrow> op_entry \<Rightarrow> 'w \<Rightarrow> bool" where
  "op_usable env spec cached w \<longleftrightarrow> op_valid cached \<and> (op_Preload spec \<or> op_now env w < op_expires cached)"

definition op_resolve :: "'w op_env \<Rightarrow> string \<Rightarrow> op_credential \<Rightarrow> 'w op_read" where
  "op_resolve env name spec st =
     (case st of (c, w) \<Rightarrow>
        (case op_Resolve env (op_Ref spec) w of
           (Inl err, w') \<Rightarrow> (Inl (WrapError (''resolve '' @ name) err), (c, w'))
         | (Inr value, w') \<Rightarrow>
             if value = [] then (Inl (PlainError (''resolve '' @ name @ '': 1Password returned an empty value'')), (c, w'))
             else let e = \<lparr>op_value = value,
                           op_expires = (if op_Preload spec then zeroTime else time_Add (op_now env w') (op_TTL spec)),
                           op_valid = True\<rparr>
                  in (Inr value, (map_put c name e, w'))))"

definition unknown_credential :: "string \<Rightarrow> go_error" where
  "unknown_credential name = PlainError (''unknown credential '' @ name)"

definition op_Get :: "'w op_env \<Rightarrow> op_specs \<Rightarrow> string \<Rightarrow> 'w op_read" where
  "op_Get env specs name st =
     (case map_of specs name of
        None \<Rightarrow> (Inl (unknown_credential name), st)
      | Some spec \<Rightarrow>
          let cached = cache_entry (fst st) name in
          if op_usable env spec cached (snd st) then (Inr (op_value cached), st)
          else op_Do env name
                 (\<lambda>st. let cached = cache_entry (fst st) name in
                       if op_usable env spec cached (snd st) then (Inr (op_value cached), st)
                       else op_resolve env name spec st) st)"

definition op_Refresh :: "'w op_env \<Rightarrow> op_specs \<Rightarrow> string \<Rightarrow> 'w op_read" where
  "op_Refresh env specs name st =
     (case map_of specs name of
        None \<Rightarrow> (Inl (unknown_credential name), st)
      | Some spec \<Rightarrow> op_resolve env name spec st)"

text \<open>RefreshMany.\<close>

fun uniq :: "string list \<Rightarrow> string list" where
  "uniq [] = []"
| "uniq [x] = [x]"
| "uniq (x # y # xs) = (if x = y then uniq (y # xs) else x # uniq (y # xs))"

definition selectedNames :: "op_specs \<Rightarrow> string list \<Rightarrow> bool \<Rightarrow> go_error + string list" where
  "selectedNames specs names allPreloaded =
     (let selected = (if allPreloaded then map fst (filter (\<lambda>(n, spec). op_Preload spec) specs) else names) in
      if length selected = 0 then Inl (PlainError ''no credentials selected for refresh'')
      else let unique = uniq (sort selected) in
        (case find (\<lambda>n. map_of specs n = None) unique of
           Some n \<Rightarrow> Inl (unknown_credential n)
         | None \<Rightarrow> Inr unique))"

fun resolveSelected :: "'w op_env \<Rightarrow> op_specs \<Rightarrow> string list \<Rightarrow> (string \<times> op_entry) list \<Rightarrow> 'w
    \<Rightarrow> (go_error + (string \<times> op_entry) list) \<times> 'w" where
  "resolveSelected env specs [] next w = (Inr next, w)"
| "resolveSelected env specs (name # ns) next w =
     (case map_of specs name of
        None \<Rightarrow> (Inl (unknown_credential name), w)
      | Some spec \<Rightarrow>
          (case op_Resolve env (op_Ref spec) w of
             (Inl err, w') \<Rightarrow> (Inl (WrapError (''refresh '' @ name) err), w')
           | (Inr value, w') \<Rightarrow>
               if value = [] then (Inl (PlainError (''refresh '' @ name @ '': 1Password returned an empty value'')), w')
               else resolveSelected env specs ns
                      (map_put next name
                         \<lparr>op_value = value,
                          op_expires = (if op_Preload spec then zeroTime else time_Add (op_now env w') (op_TTL spec)),
                          op_valid = True\<rparr>) w'))"

definition op_RefreshMany ::
  "'w op_env \<Rightarrow> op_specs \<Rightarrow> string list \<Rightarrow> bool \<Rightarrow> 'w op_state \<Rightarrow> go_error option \<times> 'w op_state" where
  "op_RefreshMany env specs names allPreloaded st =
     (case selectedNames specs names allPreloaded of
        Inl err \<Rightarrow> (Some err, st)
      | Inr selected \<Rightarrow>
          (case st of (c, w) \<Rightarrow>
             (case resolveSelected env specs selected [] w of
                (Inl err, w') \<Rightarrow> (Some err, (c, w'))
              | (Inr next, w') \<Rightarrow> (None, (cache_put_all c next, w')))))"

text \<open>
  The per-name mutexes: a call that still has to lock the names in its second list holds those of
  its first. Get and Refresh lock one name, RefreshMany the selected names in order; every call
  unlocks when it is done.
\<close>

datatype lock_call = Running "string list" "string list" | Done

fun lock_held :: "lock_call \<Rightarrow> string list" where
  "lock_held (Running h w) = h"
| "lock_held Done = []"

inductive lock_step :: "lock_call list \<Rightarrow> lock_call list \<Rightarrow> bool" where
  acquire: "\<lbrakk>i < length ps; ps ! i = Running h (l # ls); \<forall>c \<in> set ps. l \<notin> set (lock_held c)\<rbrakk>
    \<Longrightarrow> lock_step ps (ps[i := Running (h @ [l]) ls])"
| release: "\<lbrakk>i < length ps; ps ! i = Running h []\<rbrakk> \<Longrightarrow> lock_step ps (ps[i := Done])"

inductive lock_reachable :: "lock_call list \<Rightarrow> lock_call list \<Rightarrow> bool" for start where
  init: "lock_reachable start start"
| step: "\<lbrakk>lock_reachable start ps; lock_step ps ps'\<rbrakk> \<Longrightarrow> lock_reachable start ps'"

inductive_cases lock_stepE: "lock_step ps ps'"

section \<open>Selection\<close>

lemma uniq_set [simp]: "set (uniq xs) = set xs"
  by (induction xs rule: uniq.induct) auto

lemma uniq_sorted: "sorted xs \<Longrightarrow> sorted (uniq xs) \<and> distinct (uniq xs)"
proof (induction xs rule: uniq.induct)
  case (3 x y xs)
  then show ?case by (auto simp: antisym)
qed auto

lemma selectedNames_Inr:
  assumes "selectedNames specs names allPreloaded = Inr sel"
  shows "sorted sel \<and> distinct sel \<and> sel \<noteq> [] \<and> set sel \<subseteq> fst ` set specs \<and>
    set sel = (if allPreloaded then fst ` {(n, spec). (n, spec) \<in> set specs \<and> op_Preload spec} else set names)"
proof -
  let ?s = "if allPreloaded then map fst (filter (\<lambda>(n, spec). op_Preload spec) specs) else names"
  have sel: "sel = uniq (sort ?s)" "?s \<noteq> []" "find (\<lambda>n. map_of specs n = None) (uniq (sort ?s)) = None"
    using assms by (auto simp: selectedNames_def Let_def split: if_splits option.splits)
  have "set sel \<subseteq> fst ` set specs"
    using sel(1,3) by (auto simp: find_None_iff map_of_eq_None_iff)
  moreover have "set sel = set ?s" using sel(1) by simp
  moreover have "sel \<noteq> []" using calculation(2) sel(2) by (metis (full_types) set_empty)
  ultimately show ?thesis using uniq_sorted [of "sort ?s"] sel(1) by auto
qed

section \<open>The cache\<close>

lemma cache_entry_put [simp]: "cache_entry (map_put c k e) n = (if n = k then e else cache_entry c n)"
  by (simp add: cache_entry_def)

lemma cache_put_all_entry:
  "distinct (map fst next) \<Longrightarrow> cache_entry (cache_put_all c next) n =
     (case map_of next n of Some e \<Rightarrow> e | None \<Rightarrow> cache_entry c n)"
proof (induction "next" arbitrary: c)
  case (Cons x xs)
  obtain k e where x: "x = (k, e)" by force
  from Cons have IH: "cache_entry (cache_put_all (map_put c k e) xs) n =
      (case map_of xs n of Some e \<Rightarrow> e | None \<Rightarrow> cache_entry (map_put c k e) n)" by simp
  have step: "cache_put_all c ((k, e) # xs) = cache_put_all (map_put c k e) xs" by (simp add: cache_put_all_def)
  show ?case
  proof (cases "n = k")
    case True
    then have "map_of xs n = None" using Cons.prems x by (auto simp: map_of_eq_None_iff image_iff)
    then show ?thesis using IH True x by (simp add: step)
  next
    case False
    then show ?thesis using IH x by (simp add: step split: option.splits)
  qed
qed (simp add: cache_put_all_def)

text \<open>Every valid cache entry holds a non-empty value.\<close>

definition cache_ok :: "op_cache \<Rightarrow> bool" where
  "cache_ok c \<longleftrightarrow> (\<forall>n. op_valid (cache_entry c n) \<longrightarrow> op_value (cache_entry c n) \<noteq> [])"

lemma cache_ok_empty: "cache_ok []"
  by (simp add: cache_ok_def cache_entry_def zero_entry_def)

lemma cache_ok_put [step_inv]: "\<lbrakk>cache_ok c; op_valid e \<longrightarrow> op_value e \<noteq> []\<rbrakk> \<Longrightarrow> cache_ok (map_put c n e)"
  by (simp add: cache_ok_def)

lemma cache_ok_put_all [step_inv]:
  "\<lbrakk>cache_ok c; \<And>n e. (n, e) \<in> set next \<Longrightarrow> op_valid e \<longrightarrow> op_value e \<noteq> []\<rbrakk> \<Longrightarrow> cache_ok (cache_put_all c next)"
proof (induction "next" arbitrary: c)
  case (Cons x xs)
  obtain k e where x: "x = (k, e)" by force
  have "cache_ok (map_put c k e)" using Cons.prems x by (intro cache_ok_put) auto
  with Cons.IH [of "map_put c k e"] Cons.prems x show ?case by (auto simp: cache_put_all_def)
qed (simp add: cache_put_all_def)

lemma map_put_set: "(n, e) \<in> set (map_put m k v) \<Longrightarrow> (n, e) = (k, v) \<or> (n, e) \<in> set m"
  by (induction m k v rule: map_put.induct) (auto split: if_splits)

lemma preload_values_ok:
  "\<lbrakk>preload_values env ss vals w = (Inr vals', w'); \<forall>(n, e) \<in> set vals. op_valid e \<and> op_value e \<noteq> []\<rbrakk>
     \<Longrightarrow> \<forall>(n, e) \<in> set vals'. op_valid e \<and> op_value e \<noteq> []"
proof (induction env ss vals w rule: preload_values.induct)
  case (2 env name spec ss vals w)
  show ?case
  proof (cases "op_Preload spec")
    case True
    with "2.prems"(1) obtain v w1 where r: "op_Resolve env (op_Ref spec) w = (Inr v, w1)" "v \<noteq> []"
      "preload_values env ss (map_put vals name \<lparr>op_value = v, op_expires = zeroTime, op_valid = True\<rparr>) w1 = (Inr vals', w')"
      by (auto split: prod.splits sum.splits if_splits)
    have "\<forall>(n, e) \<in> set (map_put vals name \<lparr>op_value = v, op_expires = zeroTime, op_valid = True\<rparr>).
        op_valid e \<and> op_value e \<noteq> []"
      using "2.prems"(2) r(2) by (auto dest!: map_put_set)
    with "2.IH"(2) [OF _ r(1) [symmetric] refl r(2,3)] True show ?thesis by simp
  qed (use 2 in simp)
qed simp

lemma resolveSelected_ok:
  "\<lbrakk>resolveSelected env specs ns next w = (Inr next', w'); distinct ns; distinct (map fst next);
    \<forall>(n, e) \<in> set next. op_valid e \<and> op_value e \<noteq> []\<rbrakk>
     \<Longrightarrow> distinct (map fst next') \<and> fst ` set next' = set ns \<union> fst ` set next \<and>
         (\<forall>(n, e) \<in> set next'. op_valid e \<and> op_value e \<noteq> [])"
proof (induction env specs ns "next" w rule: resolveSelected.induct)
  case (2 env specs name ns "next" w)
  from "2.prems"(1) obtain spec v w1 where r: "map_of specs name = Some spec" "op_Resolve env (op_Ref spec) w = (Inr v, w1)" "v \<noteq> []"
    by (auto split: option.splits prod.splits sum.splits if_splits)
  define e where "e = \<lparr>op_value = v,
      op_expires = (if op_Preload spec then zeroTime else time_Add (op_now env w1) (op_TTL spec)), op_valid = True\<rparr>"
  have rec: "resolveSelected env specs ns (map_put next name e) w1 = (Inr next', w')"
    using "2.prems"(1) r by (simp add: e_def)
  have "\<forall>(n, e) \<in> set (map_put next name e). op_valid e \<and> op_value e \<noteq> []"
    using "2.prems"(4) r(3) by (auto simp: e_def dest!: map_put_set)
  with "2.IH" [OF r(1) r(2) [symmetric] refl r(3)] rec "2.prems" show ?case
    by (auto simp: e_def distinct_map_put keys_map_put)
qed simp

section \<open>Reading secrets\<close>

text \<open>
  A secret store as its clients see it: reads (cached or refreshing) keep the store's invariant
  and never return an empty secret.
\<close>

locale secret_store =
  fixes read :: "bool \<Rightarrow> string \<Rightarrow> 's \<Rightarrow> (go_error + string) \<times> 's"
    and inv :: "'s \<Rightarrow> bool"
    and known :: "string set"
  assumes read_inv: "\<lbrakk>inv s; read refresh n s = (res, s')\<rbrakk> \<Longrightarrow> inv s'"
    and read_nonempty: "\<lbrakk>inv s; read refresh n s = (Inr v, s')\<rbrakk> \<Longrightarrow> v \<noteq> []"
    and read_known: "\<lbrakk>inv s; n \<in> known; read refresh n s = (Inl err, s')\<rbrakk> \<Longrightarrow> err \<noteq> unknown_credential m"

text \<open>Processes that run alone: the singleflight group runs the function.\<close>

definition op_alone :: "'w op_env \<Rightarrow> bool" where
  "op_alone env \<longleftrightarrow> (\<forall>key fn st. op_Do env key fn st = fn st)"

definition op_store_read :: "'w op_env \<Rightarrow> op_specs \<Rightarrow> bool \<Rightarrow> string \<Rightarrow> 'w op_read" where
  "op_store_read env specs refresh name = (if refresh then op_Refresh env specs name else op_Get env specs name)"

lemma op_resolve_ok:
  "\<lbrakk>op_resolve env name spec (c, w) = (res, (c', w')); cache_ok c\<rbrakk> \<Longrightarrow>
     cache_ok c' \<and> (\<forall>v. res = Inr v \<longrightarrow> v \<noteq> []) \<and> (\<forall>err. res = Inl err \<longrightarrow> err \<noteq> unknown_credential m \<and> c' = c)"
  by (auto simp: op_resolve_def Let_def unknown_credential_def cache_ok_put
      split: prod.splits sum.splits if_splits)

lemma op_Get_alone:
  "op_alone env \<Longrightarrow> op_Get env specs name (c, w) =
     (case map_of specs name of
        None \<Rightarrow> (Inl (unknown_credential name), (c, w))
      | Some spec \<Rightarrow>
          if op_usable env spec (cache_entry c name) w then (Inr (op_value (cache_entry c name)), (c, w))
          else op_resolve env name spec (c, w))"
  unfolding op_alone_def by (simp add: op_Get_def Let_def split: option.splits)

lemma op_read_ok:
  assumes "op_alone env" and "op_store_read env specs refresh name (c, w) = (res, (c', w'))" and "cache_ok c"
  shows "cache_ok c' \<and> (\<forall>v. res = Inr v \<longrightarrow> v \<noteq> []) \<and>
    (\<forall>err. res = Inl err \<longrightarrow> c' = c \<and> (name \<in> fst ` set specs \<longrightarrow> err \<noteq> unknown_credential m))"
proof (cases "map_of specs name")
  case None
  then have "name \<notin> fst ` set specs" by (simp add: map_of_eq_None_iff)
  with None assms show ?thesis
    by (auto simp: op_store_read_def op_Refresh_def op_Get_alone split: if_splits)
next
  case (Some spec)
  show ?thesis
  proof (cases "\<not> refresh \<and> op_usable env spec (cache_entry c name) w")
    case True
    then show ?thesis using Some assms by (auto simp: op_store_read_def op_Get_alone cache_ok_def op_usable_def)
  next
    case False
    then have "op_resolve env name spec (c, w) = (res, (c', w'))"
      using Some assms by (auto simp: op_store_read_def op_Refresh_def op_Get_alone split: if_splits)
    from op_resolve_ok [OF this assms(3)] show ?thesis by blast
  qed
qed

section \<open>The locks\<close>

definition call_ordered :: "lock_call \<Rightarrow> bool" where
  "call_ordered c = (case c of Running h w \<Rightarrow> sorted_wrt (<) (h @ w) | Done \<Rightarrow> True)"

definition locks_ok :: "lock_call list \<Rightarrow> bool" where
  "locks_ok ps \<longleftrightarrow> list_all call_ordered ps \<and>
     (\<forall>i < length ps. \<forall>j < length ps. i \<noteq> j \<longrightarrow> set (lock_held (ps ! i)) \<inter> set (lock_held (ps ! j)) = {})"

lemma locks_ok_step [step_inv]: "\<lbrakk>lock_step ps ps'; locks_ok ps\<rbrakk> \<Longrightarrow> locks_ok ps'"
proof (induction rule: lock_step.induct)
  case (acquire i ps h l ls)
  have "call_ordered (Running (h @ [l]) ls)"
    using acquire by (fastforce simp: locks_ok_def list_all_length call_ordered_def)
  moreover have "l \<notin> set (lock_held (ps ! j))" if "j < length ps" for j using acquire(3) that by auto
  ultimately show ?case
    using acquire by (auto simp: locks_ok_def list_all_length nth_list_update) (metis lock_held.simps(1) disjoint_iff)+
next
  case (release i ps h)
  then show ?case
    by (auto simp: locks_ok_def list_all_length nth_list_update call_ordered_def)
qed

lemma locks_ok_reachable: "\<lbrakk>lock_reachable start ps; locks_ok start\<rbrakk> \<Longrightarrow> locks_ok ps"
  by (induction rule: lock_reachable.induct) (auto intro: locks_ok_step)

definition call_work :: "lock_call \<Rightarrow> nat" where
  "call_work c = (case c of Running h w \<Rightarrow> Suc (length w) | Done \<Rightarrow> 0)"

lemma sum_list_update_less:
  "\<lbrakk>i < length xs; f y < f (xs ! i)\<rbrakk> \<Longrightarrow> sum_list (map f (xs[i := y])) < (sum_list (map f xs) :: nat)"
proof (induction xs arbitrary: i)
  case (Cons x xs)
  then show ?case by (cases i) auto
qed simp

lemma lock_step_work: "lock_step ps ps' \<Longrightarrow> sum_list (map call_work ps') < sum_list (map call_work ps)"
  by (erule lock_step.cases; hypsubst; rule sum_list_update_less) (simp_all add: call_work_def)

text \<open>A call that waits for the greatest wanted name finds its holder able to move.\<close>

lemma lock_progress:
  assumes "locks_ok ps" and "\<exists>c \<in> set ps. c \<noteq> Done"
  shows "\<exists>ps'. lock_step ps ps'"
proof (rule ccontr)
  assume stuck: "\<nexists>ps'. lock_step ps ps'"
  have wants: "\<exists>h l ls. ps ! i = Running h (l # ls)" if "i < length ps" "ps ! i \<noteq> Done" for i
  proof (cases "ps ! i")
    case (Running h w)
    then show ?thesis using stuck that lock_step.release [of i ps h] by (cases w) auto
  qed (use that in simp)
  define W where "W = {l. \<exists>h ls. Running h (l # ls) \<in> set ps}"
  have "W \<subseteq> (\<lambda>c. case c of Running h (l # ls) \<Rightarrow> l | _ \<Rightarrow> []) ` set ps"
    by (force simp: W_def)
  then have fin: "finite W" by (rule finite_subset) simp
  have "W \<noteq> {}" using assms(2) wants unfolding W_def by (metis (mono_tags, lifting) empty_Collect_eq in_set_conv_nth)
  then obtain l where l: "l \<in> W" "\<And>m. m \<in> W \<Longrightarrow> m \<le> l" using Max_in [OF fin] Max_ge [OF fin] by blast
  then obtain h ls where "Running h (l # ls) \<in> set ps" by (auto simp: W_def)
  then obtain i where i: "i < length ps" "ps ! i = Running h (l # ls)" by (metis in_set_conv_nth)
  then obtain c where c: "c \<in> set ps" "l \<in> set (lock_held c)" using stuck lock_step.acquire [of i ps h l ls] by blast
  then obtain j where j: "j < length ps" "ps ! j = c" by (metis in_set_conv_nth)
  have "c \<noteq> Done" using c(2) by auto
  then obtain h' m ms where m: "c = Running h' (m # ms)" using wants [of j] j by auto
  then have "m \<in> W" using c(1) by (auto simp: W_def)
  moreover have "call_ordered c" using assms(1) c(1) by (simp add: locks_ok_def list_all_iff)
  then have "l < m" using m c(2) by (auto simp: call_ordered_def sorted_wrt_append)
  ultimately show False using l(2) [of m] by simp
qed

section \<open>Preloading\<close>

lemma op_add_specs_ok:
  "\<lbrakk>op_add_specs m ss = Inr m'; distinct (map fst m); \<forall>(n, spec) \<in> set m. n = op_Name spec \<and> op_spec_ok spec\<rbrakk> \<Longrightarrow>
     distinct (map fst m') \<and> (\<forall>(n, spec) \<in> set m'. n = op_Name spec \<and> op_spec_ok spec) \<and>
     fst ` set m' = fst ` set m \<union> op_Name ` set ss"
proof (induction m ss rule: op_add_specs.induct)
  case (2 m spec ss)
  have s: "op_spec_ok spec" "map_of m (op_Name spec) = None"
    "op_add_specs (map_put m (op_Name spec) spec) ss = Inr m'"
    using "2.prems"(1) by (simp_all split: if_splits)
  have "\<forall>(n, sp) \<in> set (map_put m (op_Name spec) spec). n = op_Name sp \<and> op_spec_ok sp"
    using "2.prems"(3) s(1) by (auto dest!: map_put_set)
  moreover have "distinct (map fst (map_put m (op_Name spec) spec))" using "2.prems"(2) by (rule distinct_map_put)
  ultimately have "distinct (map fst m') \<and> (\<forall>(n, spec) \<in> set m'. n = op_Name spec \<and> op_spec_ok spec) \<and>
      fst ` set m' = fst ` set (map_put m (op_Name spec) spec) \<union> op_Name ` set ss"
    using "2.IH" s "2.prems" by simp
  then show ?case by (simp add: keys_map_put)
qed simp

lemma preload_values_keys:
  "\<lbrakk>preload_values env ss vals w = (Inr vals', w'); distinct (map fst vals)\<rbrakk> \<Longrightarrow>
     distinct (map fst vals') \<and>
     fst ` set vals' = fst ` set vals \<union> fst ` {(n, spec). (n, spec) \<in> set ss \<and> op_Preload spec}"
proof (induction env ss vals w rule: preload_values.induct)
  case (2 env name spec ss vals w)
  have split: "fst ` {(n, sp). (n, sp) \<in> set ((name, spec) # ss) \<and> op_Preload sp} =
      (if op_Preload spec then {name} else {}) \<union> fst ` {(n, sp). (n, sp) \<in> set ss \<and> op_Preload sp}"
    by force
  show ?case
  proof (cases "op_Preload spec")
    case True
    with "2.prems"(1) obtain v w1 where r: "op_Resolve env (op_Ref spec) w = (Inr v, w1)" "v \<noteq> []"
      "preload_values env ss (map_put vals name \<lparr>op_value = v, op_expires = zeroTime, op_valid = True\<rparr>) w1 = (Inr vals', w')"
      by (auto split: prod.splits sum.splits if_splits)
    with "2.IH"(2) [OF _ r(1) [symmetric] refl r(2,3)] True "2.prems"(2) show ?thesis
      unfolding split by (auto simp: distinct_map_put keys_map_put)
  next
    case False
    with 2 show ?thesis unfolding split by simp
  qed
qed simp

text \<open>
  What a refresh of the names means: every reference is resolved in this order, each call in the
  world the one before it left, every answer is a non-empty value, and the entries hold exactly
  these answers.
\<close>

fun resolved_in_order :: "'w op_env \<Rightarrow> op_specs \<Rightarrow> string list \<Rightarrow> op_entry list \<Rightarrow> 'w \<Rightarrow> 'w \<Rightarrow> bool" where
  "resolved_in_order env specs [] [] w w' \<longleftrightarrow> w' = w"
| "resolved_in_order env specs (n # ns) (e # es) w w' \<longleftrightarrow>
     (\<exists>spec v w1. map_of specs n = Some spec \<and> op_Resolve env (op_Ref spec) w = (Inr v, w1) \<and> v \<noteq> [] \<and>
        op_value e = v \<and> op_valid e \<and>
        op_expires e = (if op_Preload spec then zeroTime else time_Add (op_now env w1) (op_TTL spec)) \<and>
        resolved_in_order env specs ns es w1 w')"
| "resolved_in_order env specs ns es w w' \<longleftrightarrow> False"

lemma resolved_length: "resolved_in_order env specs ns es w w' \<Longrightarrow> length es = length ns"
  by (induction env specs ns es w w' rule: resolved_in_order.induct) auto

lemma resolveSelected_resolved:
  "resolveSelected env specs ns next w = (Inr next', w') \<Longrightarrow>
     \<exists>es. resolved_in_order env specs ns es w w' \<and> next' = cache_put_all next (zip ns es)"
proof (induction env specs ns "next" w rule: resolveSelected.induct)
  case (1 env specs "next" w)
  then show ?case by (auto intro!: exI [of _ "[]"] simp: cache_put_all_def)
next
  case (2 env specs name ns "next" w)
  from "2.prems" obtain spec v w1 where r: "map_of specs name = Some spec" "op_Resolve env (op_Ref spec) w = (Inr v, w1)" "v \<noteq> []"
    by (auto split: option.splits prod.splits sum.splits if_splits)
  define e where "e = \<lparr>op_value = v,
      op_expires = (if op_Preload spec then zeroTime else time_Add (op_now env w1) (op_TTL spec)), op_valid = True\<rparr>"
  have "resolveSelected env specs ns (map_put next name e) w1 = (Inr next', w')"
    using "2.prems" r by (simp add: e_def)
  with "2.IH" [OF r(1) r(2) [symmetric] refl r(3)] obtain es where
    "resolved_in_order env specs ns es w1 w'" "next' = cache_put_all (map_put next name e) (zip ns es)"
    by (auto simp: e_def)
  with r show ?case by (intro exI [of _ "e # es"]) (simp add: e_def cache_put_all_def)
qed

lemma resolved_resolveSelected:
  "resolved_in_order env specs ns es w w' \<Longrightarrow> resolveSelected env specs ns next w = (Inr (cache_put_all next (zip ns es)), w')"
proof (induction env specs ns es w w' arbitrary: "next" rule: resolved_in_order.induct)
  case (2 env specs n ns e es w w')
  from "2.prems" obtain spec v w1 where r: "map_of specs n = Some spec" "op_Resolve env (op_Ref spec) w = (Inr v, w1)" "v \<noteq> []"
    "e = \<lparr>op_value = v, op_expires = (if op_Preload spec then zeroTime else time_Add (op_now env w1) (op_TTL spec)), op_valid = True\<rparr>"
    "resolved_in_order env specs ns es w1 w'"
    by (cases e) auto
  show ?case using "2.IH" [OF r(5)] r(1-4) by (simp add: cache_put_all_def)
qed (simp_all add: cache_put_all_def)

lemma cache_put_all_zip:
  assumes "distinct ns" "length es = length ns"
  shows "i < length ns \<Longrightarrow> cache_entry (cache_put_all c (cache_put_all [] (zip ns es))) (ns ! i) = es ! i"
    and "n \<notin> set ns \<Longrightarrow> cache_entry (cache_put_all c (cache_put_all [] (zip ns es))) n = cache_entry c n"
proof -
  have keys: "distinct (map fst (cache_put_all m z))" "fst ` set (cache_put_all m z) = fst ` set m \<union> fst ` set z"
    if "distinct (map fst m)" for m :: op_cache and z :: op_cache
    using that by (induction z arbitrary: m) (simp_all add: cache_put_all_def distinct_map_put keys_map_put case_prod_beta)
  let ?z = "zip ns es" and ?new = "cache_put_all [] (zip ns es)"
  have z: "distinct (map fst ?z)" "fst ` set ?z = set ns" using assms by (simp_all add: set_map [symmetric] del: set_map)
  have new: "distinct (map fst ?new)" "fst ` set ?new = set ns" using keys [of "[]" ?z] z(2) by simp_all
  have entry: "cache_entry ?new n = (case map_of ?z n of Some e \<Rightarrow> e | None \<Rightarrow> cache_entry [] n)" for n
    by (rule cache_put_all_entry [OF z(1)])
  have whole: "cache_entry (cache_put_all c ?new) n = (case map_of ?new n of Some e \<Rightarrow> e | None \<Rightarrow> cache_entry c n)" for n
    by (rule cache_put_all_entry [OF new(1)])
  show "cache_entry (cache_put_all c ?new) (ns ! i) = es ! i" if i: "i < length ns"
  proof -
    have "map_of ?z (ns ! i) = Some (es ! i)" using assms i by (simp add: map_of_zip_nth)
    moreover have "map_of ?new (ns ! i) \<noteq> None" using new(2) i by (auto simp: map_of_eq_None_iff)
    ultimately show ?thesis using entry [of "ns ! i"] whole [of "ns ! i"] by (auto simp: cache_entry_def)
  qed
  show "cache_entry (cache_put_all c ?new) n = cache_entry c n" if "n \<notin> set ns"
  proof -
    have "map_of ?new n = None" using new(2) that by (auto simp: map_of_eq_None_iff)
    then show ?thesis using whole by simp
  qed
qed

text \<open>A call that succeeds and one that fails, in terms of the resolver's answers.\<close>

lemma RefreshMany_resolves:
  assumes run: "op_RefreshMany env specs names allPreloaded (c, w) = (err, (c', w'))"
  shows "case err of
      Some e \<Rightarrow> c' = c \<and>
        (\<forall>sel es w2. selectedNames specs names allPreloaded = Inr sel \<longrightarrow> \<not> resolved_in_order env specs sel es w w2)
    | None \<Rightarrow>
        (\<exists>sel es. selectedNames specs names allPreloaded = Inr sel \<and> sorted sel \<and> distinct sel \<and>
           set sel = (if allPreloaded then fst ` {(n, spec). (n, spec) \<in> set specs \<and> op_Preload spec} else set names) \<and>
           resolved_in_order env specs sel es w w' \<and>
           (\<forall>i < length sel. cache_entry c' (sel ! i) = es ! i) \<and> (\<forall>n. n \<notin> set sel \<longrightarrow> cache_entry c' n = cache_entry c n))"
proof (cases err)
  case (Some e)
  have "\<not> resolved_in_order env specs sel es w w2" if "selectedNames specs names allPreloaded = Inr sel" for sel es w2
    using that run Some resolved_resolveSelected [of env specs sel es w w2 "[]"] by (auto simp: op_RefreshMany_def)
  moreover have "c' = c" using run Some by (auto simp: op_RefreshMany_def split: sum.splits prod.splits)
  ultimately show ?thesis using Some by simp
next
  case None
  obtain sel new where n: "selectedNames specs names allPreloaded = Inr sel" "resolveSelected env specs sel [] w = (Inr new, w')" "c' = cache_put_all c new"
    using run None by (auto simp: op_RefreshMany_def split: sum.splits prod.splits)
  obtain es where es: "resolved_in_order env specs sel es w w'" "new = cache_put_all [] (zip sel es)"
    using resolveSelected_resolved [OF n(2)] by blast
  note sel = selectedNames_Inr [OF n(1)]
  have "length es = length sel" using resolved_length [OF es(1)] .
  with sel cache_put_all_zip [of sel es] have "\<forall>i < length sel. cache_entry c' (sel ! i) = es ! i" "\<forall>n. n \<notin> set sel \<longrightarrow> cache_entry c' n = cache_entry c n"
    by (simp_all add: n(3) es(2))
  with None n(1) es(1) sel show ?thesis by auto
qed

lemma RefreshMany_effect:
  assumes "op_RefreshMany env specs names allPreloaded (c, w) = (err, (c', w'))"
  shows "(err \<noteq> None \<longrightarrow> c' = c) \<and>
    (err = None \<longrightarrow> (\<exists>sel. selectedNames specs names allPreloaded = Inr sel \<and> sorted sel \<and> distinct sel \<and>
       set sel = (if allPreloaded then fst ` {(n, spec). (n, spec) \<in> set specs \<and> op_Preload spec} else set names) \<and>
       (\<forall>n. if n \<in> set sel then op_valid (cache_entry c' n) \<and> op_value (cache_entry c' n) \<noteq> []
            else cache_entry c' n = cache_entry c n)))"
proof (cases "selectedNames specs names allPreloaded")
  case (Inl e)
  then show ?thesis using assms by (auto simp: op_RefreshMany_def)
next
  case (Inr sel)
  note sel = selectedNames_Inr [OF Inr]
  show ?thesis
  proof (cases err)
    case None
    with assms Inr obtain new where r: "resolveSelected env specs sel [] w = (Inr new, w')" "c' = cache_put_all c new"
      by (auto simp: op_RefreshMany_def split: prod.splits sum.splits)
    from resolveSelected_ok [OF r(1)] sel have n: "distinct (map fst new)" "fst ` set new = set sel"
      "\<forall>(n, e) \<in> set new. op_valid e \<and> op_value e \<noteq> []" by auto
    have "if n \<in> set sel then op_valid (cache_entry c' n) \<and> op_value (cache_entry c' n) \<noteq> []
        else cache_entry c' n = cache_entry c n" for n
    proof (cases "map_of new n")
      case None
      then have "n \<notin> set sel" using n(2) by (metis map_of_eq_None_iff)
      then show ?thesis using None r(2) n(1) by (simp add: cache_put_all_entry)
    next
      case (Some e)
      then have "(n, e) \<in> set new" by (rule map_of_SomeD)
      moreover from this have "n \<in> set sel" using n(2) by force
      ultimately show ?thesis using Some r(2) n(1,3) by (auto simp: cache_put_all_entry)
    qed
    with None Inr sel show ?thesis by auto
  next
    case (Some e)
    with assms Inr show ?thesis by (auto simp: op_RefreshMany_def split: prod.splits sum.splits)
  qed
qed

section \<open>A store for the witnesses\<close>

definition demo_specs :: op_specs where
  "demo_specs = [(''b'', \<lparr>op_Name = ''b'', op_Ref = ''op://v/b'', op_Preload = True, op_TTL = 0\<rparr>),
                 (''a'', \<lparr>op_Name = ''a'', op_Ref = ''op://v/a'', op_Preload = False, op_TTL = 5\<rparr>)]"

text \<open>A resolver that answers the reference itself, and fails from the second call on.\<close>

definition demo_op :: "nat op_env" where
  "demo_op = \<lparr>op_Resolve = (\<lambda>ref n. (if n = 0 then Inr ref else Inl (PlainError ''offline''), Suc n)),
     op_now = (\<lambda>_. 0), op_Do = (\<lambda>_ fn. fn)\<rparr>"

lemma demo_op_alone: "op_alone demo_op"
  by (simp add: op_alone_def demo_op_def)

section \<open>Properties\<close>

text \<open>
  C38 (functional). RefreshMany replaces all selected credentials or none: on success every reference
  of the selection was resolved in this call, one after the other, and each selected name's entry
  now holds exactly the value its reference resolved to, with the deadline of its policy, while every
  other name keeps its entry; the selection is the set of requested names (or all pinned ones),
  sorted and without duplicates. It fails, with the cache as it was, only when there is no valid
  selection or some reference of it does not resolve to a non-empty value.
\<close>

theorem RefreshMany_atomic:
  assumes "op_RefreshMany env specs names allPreloaded (c, w) = (err, (c', w'))"
  shows "case err of
      Some e \<Rightarrow> c' = c \<and>
        (\<forall>sel es w2. selectedNames specs names allPreloaded = Inr sel \<longrightarrow> \<not> resolved_in_order env specs sel es w w2)
    | None \<Rightarrow>
        (\<exists>sel es. selectedNames specs names allPreloaded = Inr sel \<and> sorted sel \<and> distinct sel \<and>
           set sel = (if allPreloaded then fst ` {(n, spec). (n, spec) \<in> set specs \<and> op_Preload spec} else set names) \<and>
           resolved_in_order env specs sel es w w' \<and>
           (\<forall>i < length sel. cache_entry c' (sel ! i) = es ! i) \<and> (\<forall>n. n \<notin> set sel \<longrightarrow> cache_entry c' n = cache_entry c n))"
  by (rule RefreshMany_resolves [OF assms])

theorem RefreshMany_atomic_witness:
  "(\<exists>c w. op_RefreshMany demo_op demo_specs [''b'', ''b''] False ([(''b'', \<lparr>op_value = ''old'', op_expires = 0, op_valid = True\<rparr>)], 0) = (None, (c, w)) \<and>
      op_value (cache_entry c ''b'') = ''op://v/b'' \<and> w = 1) \<and>
   (\<exists>e w. op_RefreshMany demo_op demo_specs [''b'', ''a'', ''b''] False ([], 0) = (Some e, ([], w)))"
proof
  let ?c = "[(''b'', \<lparr>op_value = ''old'', op_expires = 0, op_valid = True\<rparr>)]"
  obtain err c w where run: "op_RefreshMany demo_op demo_specs [''b'', ''b''] False (?c, 0) = (err, (c, w))" by (metis surj_pair)
  have sel: "selectedNames demo_specs [''b'', ''b''] False = Inr [''b'']" by code_simp
  then have "err = None" using run by (simp add: op_RefreshMany_def demo_specs_def) (simp add: demo_op_def)
  with RefreshMany_atomic [OF run] sel obtain es where es: "resolved_in_order demo_op demo_specs [''b''] es 0 w" "cache_entry c ''b'' = es ! 0"
    by auto
  then obtain e where "es = [e]" using resolved_length [OF es(1)] by (cases es) auto
  then have "op_value (cache_entry c ''b'') = ''op://v/b'' \<and> w = 1" using es by (simp add: demo_specs_def demo_op_def)
  with run \<open>err = None\<close> show "\<exists>c w. op_RefreshMany demo_op demo_specs [''b'', ''b''] False (?c, 0) = (None, (c, w)) \<and>
      op_value (cache_entry c ''b'') = ''op://v/b'' \<and> w = 1" by blast
next
  obtain err c w where run: "op_RefreshMany demo_op demo_specs [''b'', ''a'', ''b''] False ([], 0) = (err, (c, w))"
    by (metis surj_pair)
  have "selectedNames demo_specs [''b'', ''a'', ''b''] False = Inr [''a'', ''b'']" by code_simp
  then have "fst (op_RefreshMany demo_op demo_specs [''b'', ''a'', ''b''] False ([], 0)) \<noteq> None"
    by (simp add: op_RefreshMany_def demo_specs_def) (simp add: demo_op_def)
  with RefreshMany_atomic [OF run] run show "\<exists>e w. op_RefreshMany demo_op demo_specs [''b'', ''a'', ''b''] False ([], 0) = (Some e, ([], w))" by auto
qed

text \<open>
  C39 (liveness). The locks cannot deadlock: from any set of calls that lock one name (Get,
  Refresh) or the sorted selection of RefreshMany, in any interleaving, some call can move as
  long as one is unfinished, and every step uses up work, so all calls finish.
\<close>

theorem refresh_locks_no_deadlock:
  assumes "\<forall>c \<in> set start. (\<exists>n. c = Running [] [n]) \<or>
             (\<exists>specs names all sel. selectedNames specs names all = Inr sel \<and> c = Running [] sel)"
    and "lock_reachable start ps"
  shows "((\<exists>c \<in> set ps. c \<noteq> Done) \<longrightarrow> (\<exists>ps'. lock_step ps ps')) \<and>
    (\<forall>ps'. lock_step ps ps' \<longrightarrow> sum_list (map call_work ps') < sum_list (map call_work ps))"
proof -
  have "call_ordered c \<and> lock_held c = []" if c: "c \<in> set start" for c
  proof -
    consider n where "c = Running [] [n]"
      | specs names all sel where "selectedNames specs names all = Inr sel" "c = Running [] sel"
      using assms(1) c by blast
    then show ?thesis
    proof cases
      case (2 specs names all sel)
      with selectedNames_Inr [OF 2(1)] show ?thesis
        by (simp add: call_ordered_def strict_sorted_iff)
    qed (simp add: call_ordered_def)
  qed
  then have "locks_ok start" by (simp add: locks_ok_def list_all_iff)
  then have "locks_ok ps" using locks_ok_reachable assms(2) by blast
  then show ?thesis using lock_progress lock_step_work by blast
qed

theorem refresh_locks_no_deadlock_witness:
  "\<exists>ps'. lock_step [Running [''a''] [''b''], Running [] [''a'']] ps'"
proof -
  let ?start = "[Running [] [''a'', ''b''], Running [] [''a'']]"
  have "selectedNames demo_specs [''b'', ''a''] False = Inr [''a'', ''b'']" by code_simp
  then have s: "\<forall>c \<in> set ?start. (\<exists>n. c = Running [] [n]) \<or>
      (\<exists>specs names all sel. selectedNames specs names all = Inr sel \<and> c = Running [] sel)" by auto
  have "lock_step ?start (?start[0 := Running ([] @ [''a'']) [''b'']])"
    by (rule lock_step.acquire) auto
  then have "lock_reachable ?start [Running [''a''] [''b''], Running [] [''a'']]"
    using lock_reachable.init lock_reachable.step by fastforce
  from refresh_locks_no_deadlock [OF s this] show ?thesis by simp
qed

text \<open>
  Pinned credentials: after New and a successful Preload, every pinned credential
  is answered from the cache at any time, without asking the resolver; a failed Preload stores
  nothing, and a failed Refresh keeps the value that was cached.
\<close>

theorem preloaded_are_pinned:
  assumes "op_New ss = Inr specs" and "op_alone env" and "op_Preload_all env specs ([], w) = (err, (c, w'))"
  shows "(err \<noteq> None \<longrightarrow> c = []) \<and>
    (err = None \<longrightarrow> (\<forall>(n, spec) \<in> set specs. op_Preload spec \<longrightarrow>
       (\<exists>v. v \<noteq> [] \<and> (\<forall>w2. op_Get env specs n (c, w2) = (Inr v, (c, w2)))))) \<and>
    (\<forall>n w2 e c2 w3. op_Refresh env specs n (c, w2) = (Inl e, (c2, w3)) \<longrightarrow> c2 = c)"
proof -
  have specs: "distinct (map fst specs)" using op_add_specs_ok [of "[]" ss specs] assms(1) by (simp add: op_New_def)
  have pinned: "\<exists>v. v \<noteq> [] \<and> (\<forall>w2. op_Get env specs n (c, w2) = (Inr v, (c, w2)))"
    if "err = None" and s: "(n, spec) \<in> set specs" "op_Preload spec" for n spec
  proof -
    obtain vals where v: "preload_values env specs [] w = (Inr vals, w')" "c = cache_put_all [] vals"
      using assms(3) \<open>err = None\<close> by (auto simp: op_Preload_all_def split: prod.splits sum.splits)
    have "n \<in> fst ` {(n, spec). (n, spec) \<in> set specs \<and> op_Preload spec}"
      using s by (intro image_eqI [of _ _ "(n, spec)"]) simp_all
    then have "n \<in> fst ` set vals" using preload_values_keys [OF v(1)] by simp
    then obtain e where e: "map_of vals n = Some e" by (metis map_of_eq_None_iff not_Some_eq)
    then have "op_valid e" "op_value e \<noteq> []" using preload_values_ok [OF v(1)] map_of_SomeD [OF e] by auto
    moreover have "cache_entry c n = e" using v preload_values_keys [OF v(1)] e by (simp add: cache_put_all_entry)
    moreover have "map_of specs n = Some spec" using s(1) specs by simp
    ultimately show ?thesis using s(2) by (auto simp: op_Get_alone [OF assms(2)] op_usable_def)
  qed
  have failed: "op_Refresh env specs n (c, w2) = (Inl e, (c2, w3)) \<Longrightarrow> c2 = c" for n w2 e c2 w3
    by (auto simp: op_Refresh_def op_resolve_def Let_def split: option.splits prod.splits sum.splits if_splits)
  show ?thesis
  proof (intro conjI impI)
    show "c = []" if "err \<noteq> None"
      using assms(3) that by (auto simp: op_Preload_all_def split: prod.splits sum.splits)
    show "\<forall>(n, spec) \<in> set specs. op_Preload spec \<longrightarrow> (\<exists>v. v \<noteq> [] \<and> (\<forall>w2. op_Get env specs n (c, w2) = (Inr v, (c, w2))))"
      if "err = None" using pinned [OF that] by blast
    show "\<forall>n w2 e c2 w3. op_Refresh env specs n (c, w2) = (Inl e, (c2, w3)) \<longrightarrow> c2 = c"
      by (intro allI impI) (rule failed)
  qed
qed

theorem preloaded_are_pinned_witness:
  "\<exists>v c w. op_Preload_all demo_op demo_specs ([], 0) = (None, (c, w)) \<and> op_Get demo_op demo_specs ''b'' (c, 99) = (Inr v, (c, 99))"
proof -
  have n: "op_New (map snd demo_specs) = Inr demo_specs" by code_simp
  obtain err c w where run: "op_Preload_all demo_op demo_specs ([], 0) = (err, (c, w))" by (metis surj_pair)
  moreover have "fst (op_Preload_all demo_op demo_specs ([], 0)) = None"
    by (simp add: op_Preload_all_def demo_specs_def demo_op_def)
  ultimately have err: "err = None" by simp
  have mem: "(''b'', \<lparr>op_Name = ''b'', op_Ref = ''op://v/b'', op_Preload = True, op_TTL = 0\<rparr>) \<in> set demo_specs"
    by (simp add: demo_specs_def)
  have "\<forall>(n, spec) \<in> set demo_specs. op_Preload spec \<longrightarrow>
      (\<exists>v. v \<noteq> [] \<and> (\<forall>w2. op_Get demo_op demo_specs n (c, w2) = (Inr v, (c, w2))))"
    using preloaded_are_pinned [OF n demo_op_alone run] err by blast
  from bspec [OF this mem] obtain v where "op_Get demo_op demo_specs ''b'' (c, 99) = (Inr v, (c, 99))" by auto
  with run err show ?thesis by blast
qed

end
