(* ===== verification/Daemon_Routes.thy ===== *)
theory Daemon_Routes
  imports Daemon_Config Script_Provider Onepassword
begin

text \<open>
  The daemon's routes: the 1Password delivery routes of cmd/credproxyd/onepassword_routes.go and
  buildRoutes of cmd/credproxyd/main.go, which gives every route a script provider or a
  delivery route over the shared store. The daemon's state has one script cache per route, the
  store's cache and the outside world \<open>'x\<close>.
\<close>

section \<open>Definitions\<close>

record onePasswordRoute =
  op_credential_name :: string
  op_delivery :: string
  op_header :: string
  op_prefix :: string
  op_env_vars :: string_map

type_synonym 's secret_read = "bool \<Rightarrow> string \<Rightarrow> 's \<Rightarrow> (go_error + string) \<times> 's"

text \<open>The loop over the environment map, in the order one run visits it.\<close>

fun read_env :: "(string \<Rightarrow> 's \<Rightarrow> (go_error + string) \<times> 's) \<Rightarrow> string_map \<Rightarrow> string_map \<Rightarrow> 's
    \<Rightarrow> (go_error + string_map) \<times> 's" where
  "read_env rd [] vals s = (Inr vals, s)"
| "read_env rd ((key, name) # env) vals s =
     (case rd name s of
        (Inl err, s') \<Rightarrow> (Inl err, s')
      | (Inr value, s') \<Rightarrow> read_env rd env (map_put vals key value) s')"

definition env_body :: "string_map \<Rightarrow> bytes" where
  "env_body vals = json_encode (JObj [(''env'', json_string_map vals)])"

definition op_inject :: "'s secret_read \<Rightarrow> onePasswordRoute \<Rightarrow> bool \<Rightarrow> 's \<Rightarrow> (go_error + Injection) \<times> 's" where
  "op_inject rd r refresh s =
     (if op_delivery r = ''header''
      then (case rd refresh (op_credential_name r) s of
              (Inl err, s') \<Rightarrow> (Inl err, s')
            | (Inr value, s') \<Rightarrow>
                (Inr (empty_injection\<lparr>Headers := [(op_header r, op_prefix r @ value)]\<rparr>), s'))
      else (case read_env (rd refresh) (op_env_vars r) [] s of
              (Inl err, s') \<Rightarrow> (Inl err, s')
            | (Inr vals, s') \<Rightarrow> (Inr (empty_injection\<lparr>BodyReplace := env_body vals\<rparr>), s')))"

text \<open>The daemon's state and the providers over their parts of it.\<close>

record 'x daemon =
  d_caches :: "nat \<Rightarrow> ttlCache"
  d_op :: op_cache
  d_ext :: 'x

definition on_script :: "nat \<Rightarrow> ('x cached \<Rightarrow> 'r \<times> 'x cached) \<Rightarrow> 'x daemon \<Rightarrow> 'r \<times> 'x daemon" where
  "on_script i f d =
     (case f (d_caches d i, d_ext d) of
        (res, (c, x)) \<Rightarrow> (res, d\<lparr>d_caches := (d_caches d)(i := c), d_ext := x\<rparr>))"

definition on_store :: "('x op_state \<Rightarrow> 'r \<times> 'x op_state) \<Rightarrow> 'x daemon \<Rightarrow> 'r \<times> 'x daemon" where
  "on_store f d = (case f (d_op d, d_ext d) of (res, (c, x)) \<Rightarrow> (res, d\<lparr>d_op := c, d_ext := x\<rparr>))"

definition script_route_provider :: "'x hook_env \<Rightarrow> script_provider \<Rightarrow> nat \<Rightarrow> 'x daemon Provider" where
  "script_route_provider env p i =
     \<lparr>ProviderGet = (\<lambda>req. on_script i (script_Get env p req)),
      ProviderRefresh = (\<lambda>req. on_script i (script_Refresh env p req))\<rparr>"

definition op_route_provider :: "'x op_env \<Rightarrow> op_specs \<Rightarrow> onePasswordRoute \<Rightarrow> 'x daemon Provider" where
  "op_route_provider env specs r =
     \<lparr>ProviderGet = (\<lambda>req. on_store (op_inject (op_store_read env specs) r False)),
      ProviderRefresh = (\<lambda>req. on_store (op_inject (op_store_read env specs) r True))\<rparr>"

definition trimPrefix :: "string \<Rightarrow> string" where
  "trimPrefix path = (if 0 < length path \<and> path ! 0 = CHR ''/'' then drop 1 path else path)"

definition op_route_of :: "cfg_route \<Rightarrow> onePasswordRoute" where
  "op_route_of r =
     \<lparr>op_credential_name = rt_Credential r, op_delivery = Delivery r, op_header = rt_Header r,
      op_prefix = Prefix r, op_env_vars = Env r\<rparr>"

fun buildRoutes :: "'x hook_env \<Rightarrow> 'x op_env \<Rightarrow> op_specs \<Rightarrow> nat \<Rightarrow> cfg_route list \<Rightarrow> 'x daemon Route list" where
  "buildRoutes henv oenv specs i [] = []"
| "buildRoutes henv oenv specs i (r # rs) =
     \<lparr>RoutePath = rt_Path r, Upstream = rt_Upstream r,
      RouteProvider =
        (if Delivery r \<noteq> [] then op_route_provider oenv specs (op_route_of r)
         else script_route_provider henv (script_New (trimPrefix (rt_Path r)) (CredentialCommand r) (RefreshCommand r)) i),
      RefreshOnStatus = rt_RefreshOnStatus r, StripInboundAuth = rt_StripInboundAuth r,
      AllowedClientIDs = rt_AllowedClientIDs r\<rparr> # buildRoutes henv oenv specs (Suc i) rs"

text \<open>serve: the store's credentials from the configuration.\<close>

definition op_credentials_of :: "Config \<Rightarrow> op_credential list" where
  "op_credentials_of c =
     map (\<lambda>s. \<lparr>op_Name = CredName s, op_Ref = SecretRef s, op_Preload = Preload s, op_TTL = seconds_of (TTLSec s)\<rparr>)
       (Credentials c)"

section \<open>Clients of a secret store\<close>

context secret_store
begin

lemma read_env_inv: "\<lbrakk>read_env (read refresh) env vals s = (res, s'); inv s\<rbrakk> \<Longrightarrow> inv s'"
proof (induction "read refresh" env vals s rule: read_env.induct)
  case (2 key name env vals s)
  then show ?case by (cases "read refresh name s") (auto split: sum.splits dest: read_inv)
qed auto

lemma read_env_values:
  "\<lbrakk>read_env (read refresh) env vals s = (Inr vals', s'); inv s; \<forall>(k, v) \<in> set vals. v \<noteq> []\<rbrakk> \<Longrightarrow>
     fst ` set vals' = fst ` set vals \<union> fst ` set env \<and> (\<forall>(k, v) \<in> set vals'. v \<noteq> [])"
proof (induction "read refresh" env vals s rule: read_env.induct)
  case (2 key name env vals s)
  then obtain v s1 where out: "read refresh name s = (Inr v, s1)"
    and rec: "read_env (read refresh) env (map_put vals key v) s1 = (Inr vals', s')"
    by (auto split: prod.splits sum.splits)
  have "v \<noteq> []" "inv s1" using read_nonempty read_inv "2.prems"(2) out by blast+
  moreover have "\<forall>(k, v) \<in> set (map_put vals key v). v \<noteq> []"
    using \<open>v \<noteq> []\<close> "2.prems"(3) by (auto dest!: map_put_set)
  ultimately show ?case using "2.hyps" [OF out [symmetric] refl rec] by (simp add: keys_map_put)
qed simp

lemma read_env_error:
  "\<lbrakk>read_env (read refresh) env vals s = (Inl err, s'); inv s\<rbrakk> \<Longrightarrow>
     \<exists>key name s1 s2. (key, name) \<in> set env \<and> inv s1 \<and> read refresh name s1 = (Inl err, s2)"
proof (induction "read refresh" env vals s rule: read_env.induct)
  case (2 key name env vals s)
  obtain out s1 where out: "read refresh name s = (out, s1)" by force
  show ?case
  proof (cases out)
    case (Inl e)
    then have "e = err" using "2.prems"(1) out by simp
    then show ?thesis using out Inl "2.prems"(2) by (metis list.set_intros(1))
  next
    case (Inr v)
    then have "read_env (read refresh) env (map_put vals key v) s1 = (Inl err, s')" using "2.prems"(1) out by simp
    with "2.hyps" [OF out [symmetric] Inr] read_inv [OF "2.prems"(2) out] show ?thesis by (metis list.set_intros(2))
  qed
qed simp

lemma inject_result:
  assumes "op_inject read r refresh s = (res, s')" and "inv s"
  shows "inv s' \<and>
    (\<forall>err. res = Inl err \<longrightarrow>
       (\<exists>name s1 s2. (if op_delivery r = ''header'' then name = op_credential_name r else \<exists>key. (key, name) \<in> set (op_env_vars r)) \<and>
          inv s1 \<and> read refresh name s1 = (Inl err, s2)))"
proof (cases "op_delivery r = ''header''")
  case True
  obtain out s1 where out: "read refresh (op_credential_name r) s = (out, s1)" by force
  with True assms read_inv [OF assms(2) out] show ?thesis
    by (auto simp: op_inject_def split: sum.splits)
next
  case False
  obtain out s1 where out: "read_env (read refresh) (op_env_vars r) [] s = (out, s1)" by force
  show ?thesis
  proof (cases out)
    case (Inl err)
    with False assms out read_env_inv [OF out assms(2)] read_env_error [of refresh "op_env_vars r" "[]" s err s1]
    show ?thesis by (simp add: op_inject_def) blast
  next
    case (Inr vals)
    with False assms out read_env_inv [OF out assms(2)] show ?thesis by (auto simp: op_inject_def)
  qed
qed

end

text \<open>The 1Password store is a secret store, for calls that run one at a time.\<close>

definition serial :: "'w op_env \<Rightarrow> 'w op_env" where
  "serial env = env\<lparr>op_Do := (\<lambda>_ fn. fn)\<rparr>"

lemma serial_alone: "op_alone (serial env)"
  by (simp add: op_alone_def serial_def)

lemma serial_id: "op_alone env \<Longrightarrow> serial env = env"
proof -
  assume "op_alone env"
  then have "op_Do env = (\<lambda>_ fn. fn)" unfolding op_alone_def by blast
  then show ?thesis by (cases env) (simp add: serial_def)
qed

interpretation op_store: secret_store "op_store_read (serial env) specs" "\<lambda>st. cache_ok (fst st)" "fst ` set specs"
  for env :: "'w op_env" and specs
proof unfold_locales
  fix s s' :: "'w op_state" and refresh n res
  assume "cache_ok (fst s)" "op_store_read (serial env) specs refresh n s = (res, s')"
  then show "cache_ok (fst s')" using op_read_ok [OF serial_alone] by (metis prod.collapse)
next
  fix s s' :: "'w op_state" and refresh n v
  assume "cache_ok (fst s)" "op_store_read (serial env) specs refresh n s = (Inr v, s')"
  then show "v \<noteq> []" using op_read_ok [OF serial_alone] by (metis prod.collapse)
next
  fix s s' :: "'w op_state" and refresh n err m
  assume "cache_ok (fst s)" "n \<in> fst ` set specs" "op_store_read (serial env) specs refresh n s = (Inl err, s')"
  then show "err \<noteq> unknown_credential m" using op_read_ok [OF serial_alone] by (metis prod.collapse)
qed

lemma read_env_distinct:
  "\<lbrakk>read_env rd env vals s = (Inr vals', s'); distinct (map fst vals)\<rbrakk> \<Longrightarrow> distinct (map fst vals')"
  by (induction rd env vals s rule: read_env.induct) (auto split: prod.splits sum.splits intro: distinct_map_put)

text \<open>The members of the encoded environment.\<close>

definition env_members :: "string_map \<Rightarrow> (string \<times> json) list" where
  "env_members vals = map (\<lambda>(k, v). (k, JStr v)) (sort_key fst vals)"

lemma env_body_decode:
  assumes "list_all (\<lambda>(k, v). ascii k \<and> ascii v) vals"
  shows "\<exists>raw. decode_document (env_body vals) = Inr (Some [(''env'', raw, JObj (env_members vals))])"
proof -
  have "json_plain (JObj [(''env'', JObj (env_members vals))])"
    using assms by (auto simp: env_members_def list_all_iff)
  from decode_document_marshal [OF this] show ?thesis
    by (simp add: env_body_def json_string_map_def env_members_def)
qed

lemma op_New_keys: "op_New ss = Inr specs \<Longrightarrow> fst ` set specs = op_Name ` set ss"
  using op_add_specs_ok [of "[]" ss specs] by (simp add: op_New_def)

section \<open>Properties\<close>

text \<open>
  An environment delivery route answers with one JSON document that decodes to
  exactly its configured variables, each with the non-empty secret the store gave for its
  credential, in increasing order of the variable name, when names and secrets are ASCII; the
  store's cache invariant is kept.
\<close>

theorem env_route_delivers:
  assumes "op_delivery r = ''env''" and "op_alone env" and "cache_ok c"
    and "op_inject (op_store_read env specs) r refresh (c, w) = (Inr injection, (c', w'))"
  shows "cache_ok c' \<and> (\<exists>vals. distinct (map fst vals) \<and> fst ` set vals = fst ` set (op_env_vars r) \<and>
     (\<forall>(k, v) \<in> set vals. v \<noteq> []) \<and> BodyReplace injection = env_body vals \<and>
     (list_all (\<lambda>(k, v). ascii k \<and> ascii v) vals \<longrightarrow>
        (\<exists>raw. decode_document (BodyReplace injection) =
           Inr (Some [(''env'', raw, JObj (map (\<lambda>(k, v). (k, JStr v)) (sort_key fst vals)))]))))"
proof -
  note inv = op_store.inject_result [of env specs r refresh "(c, w)", unfolded serial_id [OF assms(2)], OF assms(4)]
  from assms(1,4) obtain vals where
    v: "read_env (op_store_read env specs refresh) (op_env_vars r) [] (c, w) = (Inr vals, (c', w'))"
    "injection = empty_injection\<lparr>BodyReplace := env_body vals\<rparr>"
    by (auto simp: op_inject_def split: prod.splits sum.splits)
  note vals = op_store.read_env_values [of env specs refresh "op_env_vars r" "[]" "(c, w)", unfolded serial_id [OF assms(2)], OF v(1)]
  have "\<exists>raw. decode_document (BodyReplace injection) = Inr (Some [(''env'', raw, JObj (env_members vals))])"
    if "list_all (\<lambda>(k, v). ascii k \<and> ascii v) vals" using env_body_decode [OF that] v(2) by simp
  then show ?thesis
    using inv vals assms(3) read_env_distinct [OF v(1)] v(2) unfolding env_members_def by (intro conjI exI [of _ vals]) auto
qed

theorem env_route_delivers_witness:
  "\<exists>injection st. op_inject (op_store_read demo_op demo_specs)
      \<lparr>op_credential_name = [], op_delivery = ''env'', op_header = [], op_prefix = [], op_env_vars = [(''KEY'', ''a'')]\<rparr>
      False ([], 0) = (Inr injection, st) \<and>
    (\<exists>vals. fst ` set vals = {''KEY''} \<and> BodyReplace injection = env_body vals)"
proof -
  let ?r = "\<lparr>op_credential_name = [], op_delivery = ''env'', op_header = [], op_prefix = [], op_env_vars = [(''KEY'', ''a'')]\<rparr>"
  have "op_Get demo_op demo_specs ''a'' ([], 0) = (Inr ''op://v/a'',
      ([(''a'', \<lparr>op_value = ''op://v/a'', op_expires = 5, op_valid = True\<rparr>)], 1))"
    by (simp add: op_Get_alone [OF demo_op_alone] demo_specs_def op_usable_def cache_entry_def zero_entry_def op_resolve_def)
      (simp add: demo_op_def time_Add_def)
  then obtain injection c w where run: "op_inject (op_store_read demo_op demo_specs) ?r False ([], 0) = (Inr injection, (c, w))"
    by (simp add: op_inject_def op_store_read_def)
  have d: "op_delivery ?r = ''env''" by simp
  from env_route_delivers [OF d demo_op_alone cache_ok_empty run] run show ?thesis by auto
qed

text \<open>
  The configuration check covers what the routes read at run time: with the store
  that serve builds from a loaded configuration, no route of it ever fails because a credential
  is unknown, whether it reads the cache or refreshes; and a configuration with a delivery route
  has credentials, so the store exists.
\<close>

theorem loaded_routes_know_their_credentials:
  assumes "Load pipe e decoded = Inr c" and "op_New (op_credentials_of c) = Inr specs" and "r \<in> set (cfg_Routes c)"
    and "Delivery r \<noteq> []" and "op_alone env" and "cache_ok (d_op d)"
    and "ProviderGet (op_route_provider env specs (op_route_of r)) req d = (Inl err, d') \<or>
         ProviderRefresh (op_route_provider env specs (op_route_of r)) req d = (Inl err, d')"
  shows "(\<forall>n. err \<noteq> unknown_credential n) \<and> Credentials c \<noteq> [] \<and> cache_ok (d_op d')"
proof -
  have v: "validate c = None"
    using assms(1) by (auto simp: Load_def Let_def split: sum.splits option.splits if_splits)
  have ok: "route_ok (Credentials c) r" using validate_ok [OF v] assms(3) by blast
  have keys: "fst ` set specs = CredName ` set (Credentials c)"
    using op_New_keys [OF assms(2)] by (simp add: op_credentials_of_def image_image)
  obtain refresh st where run: "op_inject (op_store_read env specs) (op_route_of r) refresh (d_op d, d_ext d) = (Inl err, st)"
    and d': "d_op d' = fst st"
    using assms(7) by (auto simp: op_route_provider_def on_store_def split: prod.splits)
  note res = op_store.inject_result [of env specs "op_route_of r" refresh "(d_op d, d_ext d)",
      unfolded serial_id [OF assms(5)], OF run]
  have f: "op_delivery (op_route_of r) = Delivery r" "op_credential_name (op_route_of r) = rt_Credential r"
    "op_env_vars (op_route_of r) = Env r" by (simp_all add: op_route_of_def)
  from res obtain name s1 s2 where n: "if Delivery r = ''header'' then name = rt_Credential r else \<exists>key. (key, name) \<in> set (Env r)"
    and s1: "cache_ok (fst s1)" "op_store_read env specs refresh name s1 = (Inl err, s2)"
    using assms(6) unfolding f fst_conv by blast
  have "name \<in> fst ` set specs"
    using n ok assms(4) unfolding keys route_ok_def by (fastforce split: if_splits)
  moreover from this have "Credentials c \<noteq> []" by (auto simp: keys)
  ultimately show ?thesis
    using op_store.read_known [of s1 name specs env refresh err s2, unfolded serial_id [OF assms(5)]] s1 res assms(6) d' by auto
qed

theorem loaded_routes_know_their_credentials_witness:
  "\<exists>c specs r err d'. Load (Inr []) \<lparr>getenv = (\<lambda>s. s), home = []\<rparr>
     \<lparr>cfg_ListenTCP = [], cfg_ListenUnix = ''/run/c.sock'', cfg_ListenPipe = [], cfg_RequirePeerSID = [],
      LogLevel = ''info'', AuthTokensFile = [], OnePasswordTokenFile = ''/etc/op'',
      Credentials = [\<lparr>CredName = ''k'', CredProvider = ''onepassword'', SecretRef = ''op://v/i/f'', Preload = True, TTLSec = 7\<rparr>],
      cfg_Routes = [\<lparr>rt_Path = ''/env'', rt_Upstream = [], CredentialCommand = [], RefreshCommand = [], rt_RefreshOnStatus = [],
        HookTimeoutSec = 3, rt_StripInboundAuth = False, rt_AllowedClientIDs = [], rt_Credential = [], Delivery = ''env'',
        rt_Header = [], Prefix = [], Env = [(''API_KEY'', ''k'')]\<rparr>]\<rparr> = Inr c \<and>
     op_New (op_credentials_of c) = Inr specs \<and> r \<in> set (cfg_Routes c) \<and>
     ProviderGet (op_route_provider demo_op specs (op_route_of r)) demo_preq
       \<lparr>d_caches = (\<lambda>_. None), d_op = [], d_ext = 1\<rparr> = (Inl err, d') \<and> (\<forall>n. err \<noteq> unknown_credential n)"
  (is "\<exists>c specs r err d'. Load _ ?e ?d = Inr c \<and> _")
proof -
  have l: "Load (Inr []) ?e ?d = Inr ?d"
    by (simp add: Load_def Let_def expand_def expandPath_def expand_route_def validate_def validate_route_def
        valid_credential_def known_credential_def fill_ttl_def bad_env_key_def ContainsAny_def word_sle_eq)
  let ?spec = "\<lparr>op_Name = ''k'', op_Ref = ''op://v/i/f'', op_Preload = True, op_TTL = seconds_of 7\<rparr>"
  let ?r = "hd (cfg_Routes ?d)" and ?s = "\<lparr>d_caches = (\<lambda>_. None), d_op = [], d_ext = (1::nat)\<rparr>"
  have n: "op_New (op_credentials_of ?d) = Inr [(''k'', ?spec)]"
    by (simp add: op_New_def op_credentials_of_def op_spec_ok_def)
  have g: "ProviderGet (op_route_provider demo_op [(''k'', ?spec)] (op_route_of ?r)) demo_preq ?s =
      (Inl (WrapError ''resolve k'' (PlainError ''offline'')), ?s\<lparr>d_ext := 2\<rparr>)"
    by (simp add: op_route_provider_def on_store_def op_inject_def op_route_of_def op_store_read_def
        op_Get_alone [OF demo_op_alone] op_usable_def cache_entry_def zero_entry_def op_resolve_def)
      (simp add: demo_op_def)
  have s: "?r \<in> set (cfg_Routes ?d)" "Delivery ?r \<noteq> []" "cache_ok (d_op ?s)" by (simp_all add: cache_ok_empty)
  from loaded_routes_know_their_credentials [OF l n s(1,2) demo_op_alone s(3) disjI1 [OF g]] l n s g show ?thesis by blast
qed

end
