(* ===== verification/Client_Env.thy ===== *)
theory Client_Env
  imports Daemon_Routes
begin

text \<open>
  The command-line client, cmd/credproxy: env.go, exec.go and the argument and environment
  helpers of main.go, with the Unix transport of broker_transport_unix.go. The broker is a
  parameter: what http.Client.Do answers to a GET of a path with a token, acting on a world \<open>'w\<close>,
  over the connection brokerDialer opens for an endpoint and an expected server executable; files
  are read through a parameter too. Flag parsing (package flag) is outside: the options are the
  input. Diagnostics are the list of lines the command writes to standard error.
\<close>

section \<open>Definitions\<close>

type_synonym 'w broker = "string \<Rightarrow> string \<Rightarrow> 'w \<Rightarrow> (go_error + http_response) \<times> 'w"

type_synonym 'w dialer = "string \<Rightarrow> string \<Rightarrow> 'w broker"

definition maxEnvResponse :: nat where
  "maxEnvResponse = 1048576"

definition maxErrorBody :: nat where
  "maxErrorBody = 4096"

definition maxRouteListResponse :: nat where
  "maxRouteListResponse = 65536"

definition routeListPath :: string where
  "routeListPath = ''_routes''"

text \<open>exec.go: names, the broker request and its answers.\<close>

definition validRouteName :: "string \<Rightarrow> bool" where
  "validRouteName s \<longleftrightarrow>
     s \<noteq> [] \<and> list_all (\<lambda>c. is_lower c \<or> is_digit c \<or> c = CHR ''_'' \<or> c = CHR ''-'') s"

fun error_fields :: "(string \<times> string \<times> json) list \<Rightarrow> string \<times> string \<Rightarrow> (string \<times> string) option" where
  "error_fields [] er = Some er"
| "error_fields ((k, raw, v) # ms) (e, r) =
     (case field_for [''error'', ''reason''] k of
        None \<Rightarrow> error_fields ms (e, r)
      | Some f \<Rightarrow>
          if f = ''error'' then (case into_string v e of None \<Rightarrow> None | Some e' \<Rightarrow> error_fields ms (e', r))
          else (case into_string v r of None \<Rightarrow> None | Some r' \<Rightarrow> error_fields ms (e, r')))"

definition brokerError :: "http_response \<Rightarrow> go_error" where
  "brokerError resp =
     (let status = PlainError (''broker: status '' @ FormatInt (StatusCode resp)) in
      case decode_document (take maxErrorBody (RespBody resp)) of
        Inr (Some ms) \<Rightarrow>
          (case error_fields ms ([], []) of
             Some (e, r) \<Rightarrow> if r \<noteq> [] then PlainError (''broker: '' @ e @ '' (reason: '' @ r @ '')'') else status
           | None \<Rightarrow> status)
      | _ \<Rightarrow> status)"

definition brokerGet :: "'w broker \<Rightarrow> string \<Rightarrow> string \<Rightarrow> string \<Rightarrow> 'w \<Rightarrow> (go_error + http_response) \<times> 'w" where
  "brokerGet broker socketPath path token w =
     (case broker path token w of
        (Inl err, w') \<Rightarrow> (Inl (WrapError (''broker '' @ socketPath) err), w')
      | (Inr resp, w') \<Rightarrow> if StatusCode resp \<noteq> 200 then (Inl (brokerError resp), w') else (Inr resp, w'))"

text \<open>The env map of a body: None is a body without one.\<close>

fun env_fields :: "(string \<times> string \<times> json) list \<Rightarrow> string_map option \<Rightarrow> string_map option option" where
  "env_fields [] m = Some m"
| "env_fields ((k, raw, v) # ms) m =
     (case field_for [''env''] k of
        None \<Rightarrow> env_fields ms m
      | Some f \<Rightarrow>
          if v = JNull then env_fields ms None
          else (case into_string_map v (case m of Some old \<Rightarrow> old | None \<Rightarrow> []) of
                  None \<Rightarrow> None
                | Some m' \<Rightarrow> env_fields ms (Some m')))"

definition decode_env :: "bytes \<Rightarrow> go_error + string_map option" where
  "decode_env b =
     (case decode_stream (take maxEnvResponse b) of
        Inl err \<Rightarrow> Inl err
      | Inr (None, rest) \<Rightarrow> Inr None
      | Inr (Some ms, rest) \<Rightarrow> (case env_fields ms None of None \<Rightarrow> Inl json_error | Some m \<Rightarrow> Inr m))"

definition fetchRouteEnv :: "'w broker \<Rightarrow> string \<Rightarrow> string \<Rightarrow> string \<Rightarrow> 'w \<Rightarrow> (go_error + string_map option) \<times> 'w" where
  "fetchRouteEnv broker socketPath route token w =
     (case brokerGet broker socketPath (route @ ''/'') token w of
        (Inl err, w') \<Rightarrow> (Inl err, w')
      | (Inr resp, w') \<Rightarrow>
          (case decode_env (RespBody resp) of
             Inl err \<Rightarrow> (Inl (WrapError ''broker response'' err), w')
           | Inr env \<Rightarrow> (Inr env, w')))"

definition fetchEnv :: "'w broker \<Rightarrow> string \<Rightarrow> string \<Rightarrow> string \<Rightarrow> 'w \<Rightarrow> (go_error + string_map) \<times> 'w" where
  "fetchEnv broker socketPath route token w =
     (case fetchRouteEnv broker socketPath route token w of
        (Inl err, w') \<Rightarrow> (Inl err, w')
      | (Inr None, w') \<Rightarrow> (Inl (PlainError ''broker response: missing env''), w')
      | (Inr (Some env), w') \<Rightarrow> (Inr env, w'))"

text \<open>main.go.\<close>

fun splitAtDashDash :: "string list \<Rightarrow> string list \<times> string list" where
  "splitAtDashDash [] = ([], [])"
| "splitAtDashDash (a # as) =
     (if a = ''--'' then ([], as) else (case splitAtDashDash as of (b, c) \<Rightarrow> (a # b, c)))"

definition mergeEnv :: "string list \<Rightarrow> string_map \<Rightarrow> string list" where
  "mergeEnv base resolved =
     (if length resolved = 0 then base
      else filter (\<lambda>e. \<not> (case IndexByte e (CHR ''='') of
                            Some i \<Rightarrow> take i e \<in> set (map fst resolved)
                          | None \<Rightarrow> False)) base
           @ map (\<lambda>(k, v). k @ ''='' @ v) resolved)"

text \<open>broker_transport_unix.go: where the broker is, and which executable is expected to serve it.\<close>

record client_host =
  RuntimeDir :: string
  HomeDir :: string
  Uid :: nat
  Goos :: platform

definition defaultBrokerEndpoint :: "client_host \<Rightarrow> go_error + string" where
  "defaultBrokerEndpoint h =
     (let dir = RuntimeDir h in
      if dir = [] \<and> Goos h = Darwin
      then Inr (filepath_Join (HomeDir h) ''Library/Caches/credproxyd/runtime/credproxyd/broker.sock'')
      else Inr (filepath_Join (if dir = [] then ''/run/user/'' @ FormatInt (int (Uid h)) else dir) ''credproxyd/broker.sock''))"

definition defaultExecEndpoint :: string where
  "defaultExecEndpoint = []"

definition expectedServerExecutable :: "string \<Rightarrow> go_error + string" where
  "expectedServerExecutable explicit = Inr explicit"

text \<open>execCmd, from its options to the process it starts: the program, arguments and environment.\<close>

record execOptions =
  ex_socket :: string
  ex_serverExecutable :: string
  ex_route :: string
  ex_tokenFile :: string

definition parseExecOptions :: "execOptions \<Rightarrow> string list \<Rightarrow> go_error option" where
  "parseExecOptions opts cmdArgs =
     (if \<not> validRouteName (ex_route opts) then Some (PlainError ''--route must match [a-z0-9_-]+'')
      else if length cmdArgs = 0 then Some (PlainError ''command is required after --'')
      else None)"

datatype file_read = FileMissing | FileError go_error | FileData bytes

definition readExecToken :: "(string \<Rightarrow> file_read) \<Rightarrow> string \<Rightarrow> go_error + string" where
  "readExecToken readFile path =
     (if path = [] then Inr []
      else case readFile path of
             FileData d \<Rightarrow> Inr (TrimSpace d)
           | FileMissing \<Rightarrow> Inl (WrapError ''token file'' (PlainError ''file does not exist''))
           | FileError err \<Rightarrow> Inl (WrapError ''token file'' err))"

definition execCmd ::
  "'w dialer \<Rightarrow> (string \<Rightarrow> file_read) \<Rightarrow> (string \<Rightarrow> go_error + string) \<Rightarrow> string list
     \<Rightarrow> execOptions \<Rightarrow> string list \<Rightarrow> 'w \<Rightarrow> (go_error + string \<times> string list \<times> string list) \<times> 'w" where
  "execCmd dial readFile lookPath environ opts cmdArgs w =
     (case parseExecOptions opts cmdArgs of
        Some err \<Rightarrow> (Inl err, w)
      | None \<Rightarrow>
          let socketPath = (if ex_socket opts = [] then defaultExecEndpoint else ex_socket opts) in
          if socketPath = [] then (Inl (PlainError ''--socket is required''), w)
          else (case readExecToken readFile (ex_tokenFile opts) of
                  Inl err \<Rightarrow> (Inl err, w)
                | Inr token \<Rightarrow>
                    (case expectedServerExecutable (ex_serverExecutable opts) of
                       Inl err \<Rightarrow> (Inl err, w)
                     | Inr expectedExe \<Rightarrow>
                         (case fetchEnv (dial socketPath expectedExe) socketPath (ex_route opts) token w of
                            (Inl err, w') \<Rightarrow> (Inl err, w')
                          | (Inr env, w') \<Rightarrow>
                              (case lookPath (hd cmdArgs) of
                                 Inl err \<Rightarrow> (Inl (WrapError (''lookup '' @ hd cmdArgs) err), w')
                               | Inr bin \<Rightarrow> (Inr (bin, cmdArgs, mergeEnv environ env), w'))))))"

text \<open>env.go: the output.\<close>

definition name_start :: "char \<Rightarrow> bool" where
  "name_start c \<longleftrightarrow> is_lower c \<or> is_upper c \<or> c = CHR ''_''"

definition validEnvName :: "string \<Rightarrow> bool" where
  "validEnvName s =
     (case s of [] \<Rightarrow> False | c # cs \<Rightarrow> name_start c \<and> list_all (\<lambda>c. name_start c \<or> is_digit c) cs)"

definition shellQuote :: "string \<Rightarrow> string" where
  "shellQuote v =
     [CHR 0x27] @ concat (map (\<lambda>c. if c = CHR 0x27 then [CHR 0x27, CHR 0x5C, CHR 0x27, CHR 0x27] else [c]) v) @ [CHR 0x27]"

definition export_line :: "string_map \<Rightarrow> string \<Rightarrow> string" where
  "export_line env name =
     ''export '' @ name @ ''='' @ shellQuote (case map_of env name of Some v \<Rightarrow> v | None \<Rightarrow> []) @ [CHR 0x0A]"

definition writeEnv :: "string \<Rightarrow> string_map \<Rightarrow> string \<times> string list" where
  "writeEnv format env =
     (if format = ''json'' then (json_line (JObj [(''env'', json_string_map env)]), [])
      else (concat (map (export_line env) (sort (filter validEnvName (map fst env)))),
            map (\<lambda>_. ''credproxy env: skipping variable with an unusable name'')
              (filter (\<lambda>n. \<not> validEnvName n) (map fst env))))"

text \<open>env.go: discovery and collection.\<close>

fun routes_fields :: "(string \<times> string \<times> json) list \<Rightarrow> string list \<Rightarrow> string list option" where
  "routes_fields [] rs = Some rs"
| "routes_fields ((k, raw, v) # ms) rs =
     (case field_for [''routes''] k of
        None \<Rightarrow> routes_fields ms rs
      | Some f \<Rightarrow> (case into_strings v of None \<Rightarrow> None | Some rs' \<Rightarrow> routes_fields ms rs'))"

definition decode_routes :: "bytes \<Rightarrow> go_error + string list" where
  "decode_routes b =
     (case decode_stream (take maxRouteListResponse b) of
        Inl err \<Rightarrow> Inl err
      | Inr (None, rest) \<Rightarrow> Inr []
      | Inr (Some ms, rest) \<Rightarrow> (case routes_fields ms [] of None \<Rightarrow> Inl json_error | Some rs \<Rightarrow> Inr rs))"

definition fetchRouteNames ::
  "'w broker \<Rightarrow> string \<Rightarrow> string \<Rightarrow> 'w \<Rightarrow> (go_error + string list) \<times> string list \<times> 'w" where
  "fetchRouteNames broker endpoint token w =
     (case brokerGet broker endpoint routeListPath token w of
        (Inl err, w') \<Rightarrow> (Inl err, [], w')
      | (Inr resp, w') \<Rightarrow>
          (case decode_routes (RespBody resp) of
             Inl err \<Rightarrow> (Inl (WrapError ''broker response'' err), [], w')
           | Inr routes \<Rightarrow>
               (Inr (sort (filter validRouteName routes)),
                map (\<lambda>_. ''credproxy env: skipping unaddressable route name'') (filter (\<lambda>n. \<not> validRouteName n) routes),
                w')))"

fun merge_route :: "string \<Rightarrow> string_map \<Rightarrow> string_map \<Rightarrow> string_map \<Rightarrow> string list \<Rightarrow> string_map \<times> string_map \<times> string list" where
  "merge_route route [] merged origin out = (merged, origin, out)"
| "merge_route route ((name, value) # env) merged origin out =
     (let out' = (case map_of origin name of
                    Some prev \<Rightarrow> out @ [''credproxy env: '' @ name @ '' from route '' @ route @ '' overrides route '' @ prev]
                  | None \<Rightarrow> out)
      in merge_route route env (map_put merged name value) (map_put origin name route) out')"

fun collect_routes ::
  "'w broker \<Rightarrow> string \<Rightarrow> string \<Rightarrow> string list \<Rightarrow> string_map \<Rightarrow> string_map \<Rightarrow> string list \<Rightarrow> 'w
     \<Rightarrow> string_map \<times> string list \<times> 'w" where
  "collect_routes broker endpoint token [] merged origin out w = (merged, out, w)"
| "collect_routes broker endpoint token (route # rs) merged origin out w =
     (case fetchRouteEnv broker endpoint route token w of
        (Inl err, w') \<Rightarrow>
          collect_routes broker endpoint token rs merged origin
            (out @ [''credproxy env: route '' @ route @ '': '' @ error_string err]) w'
      | (Inr env, w') \<Rightarrow>
          (case merge_route route (case env of Some m \<Rightarrow> m | None \<Rightarrow> []) merged origin out of
             (merged', origin', out') \<Rightarrow> collect_routes broker endpoint token rs merged' origin' out' w'))"

definition collectRouteEnv ::
  "'w broker \<Rightarrow> string \<Rightarrow> string \<Rightarrow> string list \<Rightarrow> 'w \<Rightarrow> string_map \<times> string list \<times> 'w" where
  "collectRouteEnv broker endpoint token routes w = collect_routes broker endpoint token routes [] [] [] w"

fun collectRouteEnvStrict ::
  "'w broker \<Rightarrow> string \<Rightarrow> string \<Rightarrow> string list \<Rightarrow> string_map \<Rightarrow> 'w \<Rightarrow> (go_error + string_map) \<times> 'w" where
  "collectRouteEnvStrict broker endpoint token [] merged w = (Inr merged, w)"
| "collectRouteEnvStrict broker endpoint token (route # rs) merged w =
     (case fetchRouteEnv broker endpoint route token w of
        (Inl err, w') \<Rightarrow> (Inl (WrapError (''route '' @ route) err), w')
      | (Inr None, w') \<Rightarrow> (Inl (PlainError (''route '' @ route @ '' does not serve env'')), w')
      | (Inr (Some values'), w') \<Rightarrow>
          collectRouteEnvStrict broker endpoint token rs (foldl (\<lambda>m (k, v). map_put m k v) merged values') w')"

record envOptions =
  en_socket :: string
  en_serverExecutable :: string
  en_tokenFile :: string
  en_format :: string
  en_strict :: bool
  en_routes :: "string list"

definition parseEnvOptions :: "envOptions \<Rightarrow> go_error option" where
  "parseEnvOptions opts =
     (if en_format opts \<noteq> ''sh'' \<and> en_format opts \<noteq> ''json'' then Some (PlainError ''--format must be sh or json'')
      else if list_ex (\<lambda>r. \<not> validRouteName r) (en_routes opts) then Some (PlainError ''--route must match [a-z0-9_-]+'')
      else None)"

text \<open>The result of the command: its error, standard output, diagnostics and the new world.\<close>

type_synonym 'w cli = "go_error option \<times> string \<times> string list \<times> 'w"

definition fetchSelectedRoutes :: "'w broker \<Rightarrow> envOptions \<Rightarrow> string \<Rightarrow> string \<Rightarrow> 'w \<Rightarrow> 'w cli" where
  "fetchSelectedRoutes broker opts endpoint token w =
     (case (if length (en_routes opts) = 0 then fetchRouteNames broker endpoint token w else (Inr (en_routes opts), [], w)) of
        (Inl err, d0, w1) \<Rightarrow>
          if en_strict opts then (Some (WrapError ''route discovery'' err), [], d0, w1)
          else (None, [], d0 @ [''credproxy env: route discovery failed: '' @ error_string err], w1)
      | (Inr routes, d0, w1) \<Rightarrow>
          if en_strict opts
          then (case collectRouteEnvStrict broker endpoint token routes [] w1 of
                  (Inl err, w2) \<Rightarrow> (Some err, [], d0, w2)
                | (Inr env, w2) \<Rightarrow>
                    (case writeEnv (en_format opts) env of (out, d1) \<Rightarrow> (None, out, d0 @ d1, w2)))
          else (case collectRouteEnv broker endpoint token routes w1 of
                  (env, d1, w2) \<Rightarrow>
                    (case writeEnv (en_format opts) env of (out, d2) \<Rightarrow> (None, out, d0 @ d1 @ d2, w2))))"

definition loadBrokerToken :: "(string \<Rightarrow> file_read) \<Rightarrow> string \<Rightarrow> string option \<times> string list" where
  "loadBrokerToken readFile path =
     (if path = [] then (Some [], [])
      else case readFile path of
             FileData d \<Rightarrow> (Some (TrimSpace d), [])
           | FileMissing \<Rightarrow> (None, [''credproxy env: token file unavailable ('' @ path @ ''); no variables exported''])
           | FileError err \<Rightarrow> (None, [''credproxy env: token file: '' @ error_string err]))"

definition brokerTarget :: "(go_error + string) \<Rightarrow> string \<Rightarrow> string \<Rightarrow> go_error + string \<times> string" where
  "brokerTarget defaultEndpoint socket serverExecutable =
     (case (if socket = [] then defaultEndpoint else Inr socket) of
        Inl err \<Rightarrow> Inl (WrapError ''broker endpoint'' err)
      | Inr endpoint \<Rightarrow>
          (case expectedServerExecutable serverExecutable of
             Inl err \<Rightarrow> Inl (WrapError ''expected server executable'' err)
           | Inr expectedExe \<Rightarrow> Inr (endpoint, expectedExe)))"

definition unavailableBroker :: "envOptions \<Rightarrow> string \<Rightarrow> go_error \<Rightarrow> go_error option \<times> string list" where
  "unavailableBroker opts endpoint err =
     (if en_strict opts then (Some (WrapError (''broker endpoint '' @ endpoint) err), [])
      else (None, [''credproxy env: broker endpoint unavailable ('' @ endpoint @ ''); no variables exported'']))"

definition runEnvCmd ::
  "'w dialer \<Rightarrow> (string \<Rightarrow> file_read) \<Rightarrow> (string \<Rightarrow> go_error option) \<Rightarrow> client_host \<Rightarrow> envOptions \<Rightarrow> 'w \<Rightarrow> 'w cli" where
  "runEnvCmd dial readFile stat host opts w =
     (case parseEnvOptions opts of
        Some err \<Rightarrow> (Some err, [], [], w)
      | None \<Rightarrow>
        (case brokerTarget (defaultBrokerEndpoint host) (en_socket opts) (en_serverExecutable opts) of
           Inl err \<Rightarrow> (Some err, [], [], w)
         | Inr (endpoint, expectedExe) \<Rightarrow>
           (case loadBrokerToken readFile (en_tokenFile opts) of
              (None, d) \<Rightarrow> ((if en_strict opts then Some (PlainError ''broker token unavailable'') else None), [], d, w)
            | (Some token, d) \<Rightarrow>
              (case stat endpoint of
                 Some err \<Rightarrow> (case unavailableBroker opts endpoint err of (e, d') \<Rightarrow> (e, [], d @ d', w))
               | None \<Rightarrow>
                   (case fetchSelectedRoutes (dial endpoint expectedExe) opts endpoint token w of
                      (err, out, d', w') \<Rightarrow> (err, out, d @ d', w'))))))"

section \<open>What a shell makes of the output\<close>

text \<open>
  The part of the POSIX shell that reads the output: words made of single-quoted regions,
  backslash escapes and plain characters, and export commands, one per line. It is the
  specification of the env command's output, not code of the repository. A zero byte, which no
  shell variable can hold, is read like any other character.
\<close>

fun sh_quoted :: "string \<Rightarrow> (string \<times> string) option" where
  "sh_quoted [] = None"
| "sh_quoted (c # s) = (if c = CHR 0x27 then Some ([], s) else map_option (apfst ((#) c)) (sh_quoted s))"

lemma sh_quoted_shorter: "sh_quoted s = Some (a, r) \<Longrightarrow> length r < length s"
  by (induction s arbitrary: a) (auto split: if_splits)

definition sh_plain :: "char \<Rightarrow> bool" where
  "sh_plain c \<longleftrightarrow> name_start c \<or> is_digit c"

function sh_word :: "string \<Rightarrow> (string \<times> string) option" where
  "sh_word [] = Some ([], [])"
| "sh_word (c # s) =
     (if c = CHR 0x27 then
        (case sh_quoted s of None \<Rightarrow> None | Some (a, r) \<Rightarrow> map_option (apfst ((@) a)) (sh_word r))
      else if c = CHR 0x5C then
        (case s of [] \<Rightarrow> None | d # r \<Rightarrow> map_option (apfst ((#) d)) (sh_word r))
      else if sh_plain c then map_option (apfst ((#) c)) (sh_word s)
      else if c = CHR 0x0A then Some ([], c # s)
      else None)"
  by pat_completeness auto
termination
  by (relation "measure length") (auto dest: sh_quoted_shorter)

lemma sh_word_length: "sh_word s = Some (v, r) \<Longrightarrow> length r \<le> length s"
proof (induction s arbitrary: v r rule: sh_word.induct)
  case (2 c s)
  then show ?case
    by (auto split: if_splits option.splits list.splits dest!: sh_quoted_shorter) force+
qed simp

lemma drop_Cons_shorter: "c # r = drop n s \<Longrightarrow> length r < length s"
  by (metis Suc_le_eq diff_le_self length_Cons length_drop)

function sh_eval :: "string \<Rightarrow> (string \<times> string) list option" where
  "sh_eval s =
     (if s = [] then Some []
      else if \<not> HasPrefix s ''export '' then None
      else let name = takeWhile sh_plain (drop 7 s); rest = drop (length name) (drop 7 s) in
        (case rest of
           [] \<Rightarrow> None
         | e # r \<Rightarrow>
             if e \<noteq> CHR ''='' \<or> name = [] then None
             else (case sh_word r of
                     Some (v, nl # t) \<Rightarrow> map_option ((#) (name, v)) (sh_eval t)
                   | _ \<Rightarrow> None)))"
  by pat_completeness auto
termination
  by (relation "measure length") (auto dest!: sh_word_length drop_Cons_shorter)

declare sh_eval.simps [simp del]

lemma sh_quoted_plain: "CHR 0x27 \<notin> set a \<Longrightarrow> sh_quoted (a @ CHR 0x27 # r) = Some (a, r)"
  by (induction a) auto

text \<open>Inside a quoted region the rest of a quoted value evaluates to itself.\<close>

lemma sh_word_quote_body:
  assumes "sh_word rest = Some (w, r)"
  shows "\<exists>a t. sh_quoted (concat (map (\<lambda>c. if c = CHR 0x27 then [CHR 0x27, CHR 0x5C, CHR 0x27, CHR 0x27] else [c]) v) @ CHR 0x27 # rest)
      = Some (a, t) \<and> map_option (apfst ((@) a)) (sh_word t) = Some (v @ w, r)"
proof (induction v)
  case Nil
  then show ?case using assms by simp
next
  case (Cons c v)
  let ?q = "\<lambda>v. concat (map (\<lambda>c. if c = CHR 0x27 then [CHR 0x27, CHR 0x5C, CHR 0x27, CHR 0x27] else [c]) v) @ CHR 0x27 # rest"
  from Cons.IH obtain a t x where IH: "sh_quoted (?q v) = Some (a, t)" "sh_word t = Some (x, r)" "a @ x = v @ w" by auto
  show ?case
  proof (cases "c = CHR 0x27")
    case True
    have "sh_word (CHR 0x5C # CHR 0x27 # CHR 0x27 # ?q v) = Some (CHR 0x27 # v @ w, r)"
      using IH by simp
    with True show ?thesis by simp
  next
    case False
    with IH show ?thesis by simp
  qed
qed

lemma sh_word_shellQuote: "sh_word (shellQuote v @ CHR 0x0A # r) = Some (v, CHR 0x0A # r)"
proof -
  have nl: "sh_word (CHR 0x0A # r) = Some ([], CHR 0x0A # r)" by (simp add: sh_plain_def name_start_def in_range_def)
  show ?thesis using sh_word_quote_body [OF nl, of v] by (auto simp: shellQuote_def)
qed

lemma validEnvName_plain: "validEnvName n \<Longrightarrow> n \<noteq> [] \<and> list_all sh_plain n"
  by (auto simp: validEnvName_def sh_plain_def list_all_iff split: list.splits)

lemma sh_eval_export:
  assumes "validEnvName n"
  shows "sh_eval (''export '' @ n @ ''='' @ shellQuote v @ [CHR 0x0A] @ t) = map_option ((#) (n, v)) (sh_eval t)"
proof -
  have n: "n \<noteq> []" "list_all sh_plain n" using validEnvName_plain [OF assms] by simp_all
  have eq: "\<not> sh_plain (CHR ''='')" by code_simp
  let ?s = "''export '' @ n @ ''='' @ shellQuote v @ [CHR 0x0A] @ t"
  have tw: "takeWhile sh_plain (n @ ''='' @ u) = n" for u
    using n(2) eq by (simp add: list_all_iff)
  have "HasPrefix ?s ''export ''" by (rule HasPrefix_append)
  then show ?thesis using n(1) tw [of "shellQuote v @ [CHR 0x0A] @ t"] sh_word_shellQuote [of v t]
    by (subst sh_eval.simps) (simp add: Let_def)
qed

lemma sh_eval_exports:
  "list_all validEnvName ns \<Longrightarrow>
     sh_eval (concat (map (export_line env) ns)) =
       Some (map (\<lambda>n. (n, case map_of env n of Some v \<Rightarrow> v | None \<Rightarrow> [])) ns)"
proof (induction ns)
  case (Cons n ns)
  let ?v = "case map_of env n of Some v \<Rightarrow> v | None \<Rightarrow> []"
  have "concat (map (export_line env) (n # ns)) =
      ''export '' @ n @ ''='' @ shellQuote ?v @ [CHR 0x0A] @ concat (map (export_line env) ns)"
    by (simp add: export_line_def [of env n])
  with Cons sh_eval_export [of n ?v "concat (map (export_line env) ns)"] show ?case by simp
qed (simp add: sh_eval.simps)

section \<open>The client against the server\<close>

text \<open>
  The request the client sends, and a broker that is a server of this development on one
  connection. The client's http.Client would follow a redirect; the paths it asks for are never
  redirected, so the broker reports one as an error. Its transport would also refuse
  a token with control characters, which cannot be sent in a header value; that check is left out.
\<close>

definition client_request :: "string \<Rightarrow> string \<Rightarrow> http_request" where
  "client_request path token =
     (let h0 = [''User-Agent'' \<mapsto> [''Go-http-client/1.1''], ''Accept-Encoding'' \<mapsto> [''gzip'']] in
      \<lparr>ReqMethod = ''GET'',
       URL = \<lparr>Scheme = [], UrlHost = [], Path = CHR ''/'' # path, RawPath = [], RawQuery = []\<rparr>,
       ReqHost = ''credproxyd'',
       ReqHeader = (if token \<noteq> [] then Header_Set h0 ''Authorization'' (''Bearer '' @ token) else h0),
       Body = no_body, ContentLength = 0\<rparr>)"

definition server_broker :: "platform \<Rightarrow> 32 word \<Rightarrow> 'w transport \<Rightarrow> 'w Server \<Rightarrow> conn \<Rightarrow> 'w broker" where
  "server_broker p getuid tr s c path token w =
     (case server_request p getuid tr s c (client_request path token) w of
        (Replied (Some resp), evs, w') \<Rightarrow> (Inr resp, w')
      | (Replied None, evs, w') \<Rightarrow> (Inl (PlainError ''EOF''), w')
      | (Redirected _ _, evs, w') \<Rightarrow> (Inl (PlainError ''redirect''), w'))"

lemma client_request_fields [simp]:
  "Path (URL (client_request path token)) = CHR ''/'' # path" "RawPath (URL (client_request path token)) = []"
  "Body (client_request path token) = no_body" "ReqMethod (client_request path token) = ''GET''"
  by (simp_all add: client_request_def Let_def)

lemma decode_document_stream:
  "decode_document b = Inr ms \<Longrightarrow> \<exists>rest. decode_stream b = Inr (ms, rest)"
  by (auto simp: decode_document_def split: sum.splits prod.splits if_splits)

lemma into_strings_JStr: "into_strings (JArr (map JStr ns)) = Some ns"
proof -
  have "those (map (\<lambda>v. into_string v []) (map JStr ns)) = Some ns"
    by (induction ns) (auto simp: into_string_def)
  then show ?thesis by (simp add: into_strings_def)
qed

lemma decode_routes_listing:
  assumes "list_all ascii ns" and "length b \<le> maxRouteListResponse" and "b = json_line (JObj [(''routes'', JArr (map JStr ns))])"
  shows "decode_routes b = Inr ns"
proof -
  have "json_plain (JObj [(''routes'', JArr (map JStr ns))])" using assms(1) by (auto simp: list_all_iff)
  from decode_document_line [OF this] have "decode_document b =
      Inr (Some [(''routes'', json_encode (JArr (map JStr ns)), JArr (map JStr ns))])"
    by (simp add: assms(3) del: json_encode.simps)
  then obtain rest where "decode_stream b = Inr (Some [(''routes'', json_encode (JArr (map JStr ns)), JArr (map JStr ns))], rest)"
    by (blast dest: decode_document_stream)
  then show ?thesis using assms(2)
    by (simp add: decode_routes_def field_for_def into_strings_JStr del: json_encode.simps)
qed

lemma into_map_entries_fresh:
  "\<lbrakk>distinct (map fst kvs); fst ` set kvs \<inter> fst ` set m = {}\<rbrakk> \<Longrightarrow>
     into_map_entries (map (\<lambda>(k, v). (k, JStr v)) kvs) m = Some (m @ kvs)"
proof (induction kvs arbitrary: m)
  case (Cons kv kvs)
  obtain k v where kv: "kv = (k, v)" by force
  then have "map_put m k v = m @ [(k, v)]" using Cons.prems by (intro map_put_fresh) auto
  with Cons kv show ?case by (auto simp: into_string_def)
qed simp

lemma decode_env_body:
  assumes "distinct (map fst vals)" and "list_all (\<lambda>(k, v). ascii k \<and> ascii v) vals" and "length (env_body vals) \<le> maxEnvResponse"
  shows "decode_env (env_body vals) = Inr (Some (sort_key fst vals))"
proof -
  obtain raw where "decode_document (env_body vals) = Inr (Some [(''env'', raw, JObj (env_members vals))])"
    using env_body_decode [OF assms(2)] by blast
  then obtain rest where d: "decode_stream (env_body vals) = Inr (Some [(''env'', raw, JObj (env_members vals))], rest)"
    by (blast dest: decode_document_stream)
  have "distinct (map fst (sort_key fst vals))"
    using assms(1) by (simp add: distinct_map)
  then have "into_map_entries (env_members vals) [] = Some (sort_key fst vals)"
    unfolding env_members_def using into_map_entries_fresh [of "sort_key fst vals" "[]"] by simp
  then show ?thesis using d assms(3)
    by (simp add: decode_env_def field_for_def into_string_map_def)
qed

text \<open>Route names the client accepts are addressed literally.\<close>

definition route_char :: "char \<Rightarrow> bool" where
  "route_char c \<longleftrightarrow> is_lower c \<or> is_digit c \<or> c = CHR ''_'' \<or> c = CHR ''-''"

lemma validRouteName_alt: "validRouteName n \<longleftrightarrow> n \<noteq> [] \<and> list_all route_char n"
  by (simp add: validRouteName_def route_char_def [abs_def])

lemma route_char_no_sep: "\<not> route_char (CHR ''/'')" "\<not> route_char (CHR ''.'')"
  by code_simp+

lemma validRouteName_chars: "validRouteName n \<Longrightarrow> CHR ''/'' \<notin> set n \<and> n \<noteq> [] \<and> n \<noteq> ''.'' \<and> n \<noteq> ''..''"
  using route_char_no_sep by (auto simp: validRouteName_alt list_all_iff)

lemma route_char_literal: "route_char c \<Longrightarrow> path_escape_char c = [c]"
  by (auto simp: route_char_def path_escape_char_def unreserved_def)

lemma validRouteName_plain: "validRouteName n \<Longrightarrow> plain_path (CHR ''/'' # n @ ''/'')"
proof -
  have "path_escape_char (CHR ''/'') = ''/''" by code_simp
  then show "validRouteName n \<Longrightarrow> ?thesis"
    using route_char_literal by (auto simp: plain_path_def validRouteName_alt list_all_iff)
qed

lemma validRouteName_clean: "validRouteName n \<Longrightarrow> cleanPath (CHR ''/'' # n @ ''/'') = CHR ''/'' # n @ ''/''"
proof -
  assume v: "validRouteName n"
  note c = validRouteName_chars [OF v]
  have "Split (CHR ''/'' # n @ ''/'') (CHR ''/'') = [[], n, []]"
    using c Split_append_sep [of "CHR ''/''" n "[]"] by simp
  then have "path_Clean (CHR ''/'' # n @ ''/'') = CHR ''/'' # n" using c by (simp add: path_Clean_def)
  moreover have "HasSuffix (CHR ''/'' # n @ ''/'') ''/''"
    unfolding HasSuffix_iff by (rule exI [of _ "CHR ''/'' # n"]) simp
  ultimately show ?thesis using c by (simp add: cleanPath_def Let_def)
qed

text \<open>What the broker answers to the client's two requests.\<close>

abbreviation conn_ctx :: "platform \<Rightarrow> conn \<Rightarrow> req_context" where
  "conn_ctx p c \<equiv> connContext p background c"

definition stripped_request :: "string \<Rightarrow> string \<Rightarrow> http_request" where
  "stripped_request route token =
     (let r = client_request (route @ ''/'') token in r\<lparr>URL := (URL r)\<lparr>Path := ''/''\<rparr>\<rparr>)"

lemma broker_env_route:
  assumes "server_ok parse cfg s" and "rt \<in> set (Routes cfg)" and "RoutePath rt = CHR ''/'' # route" and "validRouteName route"
    and "authMiddleware p getuid cfg (srv_tokens s) (conn_ctx p c) (ReqHeader (client_request (route @ ''/'') token)) = Inr ctx"
    and "listed (ctx_tokenID ctx) rt"
    and "ProviderGet (RouteProvider rt) (provider_request ctx (stripped_request route token)) w = (Inr injection, w')"
    and "BodyReplace injection \<noteq> []"
  shows "server_broker p getuid tr s c (route @ ''/'') token w =
     (Inr (ok_response ''application/json'' (BodyReplace injection)), w')"
proof -
  let ?r = "client_request (route @ ''/'') token"
  have slash: "\<not> HasSuffix (RoutePath rt) ''/''"
    using validRouteName_chars [OF assms(4)] by (auto simp: assms(3) HasSuffix_iff Cons_eq_append_conv)
  obtain h where h: "newRouteHandler parse rt = Inr h"
    and run: "mux_ServeHTTP p getuid tr s (conn_ctx p c) ?r w =
      (case serveHTTP tr h ctx (stripped_request route token) w of (resp, evs, w') \<Rightarrow> (Replied resp, evs, w'))"
    using route_request [OF assms(1,2) slash _ _ _ _ assms(5)] validRouteName_plain [OF assms(4)] validRouteName_clean [OF assms(4)]
    by (auto simp: assms(3) stripped_request_def Let_def)
  note keeps = newRouteHandler_keeps [OF h]
  have body: "buffer_body rt (stripped_request route token) \<noteq> None"
    by (auto simp: buffer_body_def read_limited_def stripped_request_def Let_def no_body_def)
  have "serveHTTP tr h ctx (stripped_request route token) w =
      (Some (ok_response ''application/json'' (BodyReplace injection)),
       [EvGet (provider_request ctx (stripped_request route token))], w')"
    using assms(6-8) body
    by (auto simp: serveHTTP_def keeps listed_def Let_def log_event_def decideAction_def split: option.splits)
  then show ?thesis by (simp add: server_broker_def server_request_def run)
qed

lemma broker_route_list:
  assumes "server_ok parse cfg s"
    and "authMiddleware p getuid cfg (srv_tokens s) (conn_ctx p c) (ReqHeader (client_request routeListPath token)) = Inr ctx"
  shows "server_broker p getuid tr s c routeListPath token w = (Inr (handleRouteList cfg ctx), w)"
proof -
  let ?r = "client_request routeListPath token"
  have "Path (URL ?r) = ''/_routes''" by (simp add: routeListPath_def)
  then show ?thesis
    using own_endpoints(2) [OF assms(1), of ?r p getuid tr "conn_ctx p c" w] assms(2)
    by (simp add: server_broker_def server_request_def)
qed

section \<open>The child's environment and the collected variables\<close>

definition assigns :: "string \<Rightarrow> string \<Rightarrow> bool" where
  "assigns k e \<longleftrightarrow> HasPrefix e (k @ ''='')"

lemma IndexByte_assign: "CHR ''='' \<notin> set k \<Longrightarrow> IndexByte (k @ ''='' @ v) (CHR ''='') = Some (length k)"
  by (induction k) auto

lemma assigns_other: "\<lbrakk>CHR ''='' \<notin> set k; CHR ''='' \<notin> set k'; assigns k (k' @ ''='' @ v)\<rbrakk> \<Longrightarrow> k = k'"
proof (induction k arbitrary: k')
  case Nil
  then show ?case by (cases k') (auto simp: assigns_def HasPrefix_iff)
next
  case (Cons a k)
  then show ?case by (cases k') (auto simp: assigns_def HasPrefix_iff)
qed

lemma mergeEnv_assigns:
  assumes "distinct (map fst vals)" and "\<forall>(k, v) \<in> set vals. CHR ''='' \<notin> set k" and "CHR ''='' \<notin> set k"
  shows "filter (assigns k) (mergeEnv base vals) =
     (case map_of vals k of Some v \<Rightarrow> [k @ ''='' @ v] | None \<Rightarrow> filter (assigns k) base)"
proof (cases "vals = []")
  case False
  have old: "(case IndexByte e (CHR ''='') of Some i \<Rightarrow> take i e \<in> set (map fst vals) | None \<Rightarrow> False) \<longleftrightarrow> k \<in> fst ` set vals"
    if e: "assigns k e" for e
  proof -
    obtain v where "e = k @ ''='' @ v" using e by (auto simp: assigns_def HasPrefix_iff)
    then show ?thesis using IndexByte_assign [OF assms(3)] by simp
  qed
  have new: "filter (assigns k) (map (\<lambda>(k, v). k @ ''='' @ v) kvs) = (case map_of kvs k of Some v \<Rightarrow> [k @ ''='' @ v] | None \<Rightarrow> [])"
    if "distinct (map fst kvs)" "\<forall>(k, v) \<in> set kvs. CHR ''='' \<notin> set k" for kvs
    using that
  proof (induction kvs)
    case (Cons kv kvs)
    obtain k' v where kv: "kv = (k', v)" by force
    have "assigns k (k' @ ''='' @ v) \<longleftrightarrow> k = k'"
      using assigns_other [OF assms(3), of k' v] Cons.prems kv HasPrefix_append [of "k @ ''=''" v] by (auto simp: assigns_def)
    then show ?case using Cons kv by (auto split: option.splits dest: map_of_SomeD) (force dest: map_of_SomeD)+
  qed simp
  define shadowed where "shadowed e = (case IndexByte e (CHR ''='') of Some i \<Rightarrow> take i e \<in> set (map fst vals) | None \<Rightarrow> False)" for e
  have kept: "filter (assigns k) (filter (\<lambda>e. \<not> shadowed e) base) = (if k \<in> fst ` set vals then [] else filter (assigns k) base)"
    using old by (induction base) (simp_all add: shadowed_def)
  have "mergeEnv base vals = filter (\<lambda>e. \<not> shadowed e) base @ map (\<lambda>(k, v). k @ ''='' @ v) vals"
    using False by (simp add: mergeEnv_def shadowed_def)
  moreover have "k \<in> fst ` set vals \<longleftrightarrow> map_of vals k \<noteq> None" by (simp add: map_of_eq_None_iff)
  ultimately show ?thesis using kept new [OF assms(1,2)] by (cases "map_of vals k") simp_all
qed (simp add: mergeEnv_def)

text \<open>The answers of the routes, asked in order, and what each adds to the merged environment.\<close>

fun route_answers :: "'w broker \<Rightarrow> string \<Rightarrow> string \<Rightarrow> string list \<Rightarrow> 'w \<Rightarrow> (go_error + string_map option) list" where
  "route_answers broker endpoint token [] w = []"
| "route_answers broker endpoint token (route # rs) w =
     (case fetchRouteEnv broker endpoint route token w of (a, w') \<Rightarrow> a # route_answers broker endpoint token rs w')"

definition contribution :: "(go_error + string_map option) \<Rightarrow> string \<rightharpoonup> string" where
  "contribution a = (case a of Inr (Some m) \<Rightarrow> map_of m | _ \<Rightarrow> Map.empty)"

definition serves_env :: "(go_error + string_map option) \<Rightarrow> bool" where
  "serves_env a = (case a of Inr (Some m) \<Rightarrow> True | _ \<Rightarrow> False)"

lemma into_map_entries_distinct:
  "\<lbrakk>into_map_entries kvs m = Some m'; distinct (map fst m)\<rbrakk> \<Longrightarrow> distinct (map fst m')"
  by (induction kvs m rule: into_map_entries.induct) (auto split: option.splits intro: distinct_map_put)

lemma env_fields_distinct:
  "\<lbrakk>env_fields ms m = Some (Some m'); \<forall>old. m = Some old \<longrightarrow> distinct (map fst old)\<rbrakk> \<Longrightarrow> distinct (map fst m')"
proof (induction ms m rule: env_fields.induct)
  case (2 k raw v ms m)
  have "distinct (map fst (case m of Some old \<Rightarrow> old | None \<Rightarrow> []))" using "2.prems"(2) by (auto split: option.splits)
  then have "\<And>m1. into_string_map v (case m of Some old \<Rightarrow> old | None \<Rightarrow> []) = Some m1 \<Longrightarrow> distinct (map fst m1)"
    by (auto simp: into_string_map_def split: json.splits dest: into_map_entries_distinct)
  with 2 show ?case by (auto split: option.splits if_splits)
qed simp

lemma fetchRouteEnv_distinct:
  "fetchRouteEnv broker endpoint route token w = (Inr (Some m), w') \<Longrightarrow> distinct (map fst m)"
  by (auto simp: fetchRouteEnv_def decode_env_def split: sum.splits prod.splits option.splits intro: env_fields_distinct)

lemma map_of_foldl_put:
  "distinct (map fst kvs) \<Longrightarrow> map_of (foldl (\<lambda>m (k, v). map_put m k v) m kvs) = map_of m ++ map_of kvs"
proof (induction kvs arbitrary: m)
  case (Cons kv kvs)
  obtain k v where kv: "kv = (k, v)" by force
  then have "map_of kvs k = None" using Cons.prems by (simp add: map_of_eq_None_iff)
  then show ?case using Cons kv by (simp add: fun_eq_iff map_add_def split: option.splits)
qed simp

lemma merge_route_map: "fst (merge_route route env merged origin out) = foldl (\<lambda>m (k, v). map_put m k v) merged env"
  by (induction route env merged origin out rule: merge_route.induct) (auto simp: Let_def)

lemma collect_routes_map:
  "map_of (fst (collect_routes broker endpoint token rs merged origin out w)) =
     foldl (++) (map_of merged) (map contribution (route_answers broker endpoint token rs w))"
proof (induction rs arbitrary: merged origin out w)
  case (Cons route rs)
  obtain a w' where a: "fetchRouteEnv broker endpoint route token w = (a, w')" by force
  show ?case
  proof (cases a)
    case (Inl err)
    with a Cons show ?thesis by (simp add: contribution_def)
  next
    case (Inr env)
    let ?env = "case env of Some m \<Rightarrow> m | None \<Rightarrow> []"
    have d: "distinct (map fst ?env)"
      using a Inr fetchRouteEnv_distinct [of broker endpoint route token w] by (cases env) auto
    obtain m1 o1 out1 where m: "merge_route route ?env merged origin out = (m1, o1, out1)" by (metis prod_cases3)
    then have "map_of m1 = map_of merged ++ map_of ?env"
      using merge_route_map [of route ?env merged origin out] map_of_foldl_put [OF d, of merged] by simp
    moreover have "contribution a = map_of ?env" using Inr by (cases env) (simp_all add: contribution_def)
    ultimately show ?thesis using a Inr m Cons.IH [of m1 o1 out1 w'] by simp
  qed
qed simp

lemma collect_strict_map:
  "case fst (collectRouteEnvStrict broker endpoint token rs merged w) of
     Inr m \<Rightarrow> list_all serves_env (route_answers broker endpoint token rs w) \<and>
       map_of m = foldl (++) (map_of merged) (map contribution (route_answers broker endpoint token rs w))
   | Inl err \<Rightarrow> \<not> list_all serves_env (route_answers broker endpoint token rs w)"
proof (induction rs arbitrary: merged w)
  case (Cons route rs)
  obtain a w' where a: "fetchRouteEnv broker endpoint route token w = (a, w')" by force
  show ?case
  proof (cases "serves_env a")
    case True
    then obtain m where m: "a = Inr (Some m)" by (auto simp: serves_env_def split: sum.splits option.splits)
    note d = map_of_foldl_put [OF fetchRouteEnv_distinct [OF a [unfolded m]], of merged]
    show ?thesis
      using Cons.IH [where merged = "foldl (\<lambda>m (k, v). map_put m k v) merged m" and w = w'] a m d
      by (simp add: serves_env_def contribution_def split: sum.splits)
  next
    case False
    then show ?thesis using a by (auto simp: serves_env_def split: sum.splits option.splits)
  qed
qed simp

lemma writeEnv_sh: "fst (writeEnv ''sh'' env) = concat (map (export_line env) (sort (filter validEnvName (map fst env))))"
  by (simp add: writeEnv_def)

lemma fetchSelectedRoutes_quiet:
  "\<lbrakk>\<not> en_strict opts; fetchSelectedRoutes broker opts endpoint token w = (err, out, d, w')\<rbrakk> \<Longrightarrow> err = None"
  by (auto simp: fetchSelectedRoutes_def split: prod.splits sum.splits)

section \<open>A client and a server for the witnesses\<close>

definition demo_env_route :: "unit Route" where
  "demo_env_route =
     demo_body_route\<lparr>RouteProvider :=
        \<lparr>ProviderGet = (\<lambda>_ w. (Inr (empty_injection\<lparr>BodyReplace := env_body [(''KEY'', ''v'')]\<rparr>), w)),
         ProviderRefresh = (\<lambda>_ w. (Inr empty_injection, w))\<rparr>\<rparr>"

definition demo_env_server :: "unit Server" where
  "demo_env_server =
     (let h = \<lparr>handlerCfg = demo_env_route, routeLog = ''aws'', proxyTarget = None\<rparr> in
      demo_server\<lparr>srv_cfg := demo_config\<lparr>Routes := [demo_env_route]\<rparr>,
        srv_mux := [(''/healthz'', Healthz), (''/_routes'', RouteList),
          (''/aws'', RouteEntry ''/aws'' h), (''/aws/'', RouteEntry ''/aws'' h)]\<rparr>)"

lemma demo_env_server_reachable:
  "reachable_server Linux demo_parse demo_os (demo_config\<lparr>Routes := [demo_env_route]\<rparr>) demo_env_server"
proof -
  have rp: "RoutePath demo_env_route = ''/aws''" "Upstream demo_env_route = []"
    by (simp_all add: demo_env_route_def demo_body_route_def)
  have l: "literal_pattern ''/aws''" "literal_pattern ''/aws/''" "\<not> HasSuffix ''/aws'' ''/''"
    "TrimSuffix ''/aws'' ''/'' \<notin> set reservedPaths"
    by code_simp+
  have n: "newRouteHandler demo_parse demo_env_route = Inr \<lparr>handlerCfg = demo_env_route, routeLog = ''aws'', proxyTarget = None\<rparr>"
    by (simp add: newRouteHandler_def rp TrimPrefix_def)
  have r: "registerRoutes demo_parse (demo_config\<lparr>Routes := [demo_env_route]\<rparr>) = Inr (Some (srv_mux demo_env_server))"
    by (simp add: registerRoutes_def registerRoute_def n l rp mux_Handle_def demo_env_server_def Let_def)
  have o: "openListeners Linux demo_os (demo_config\<lparr>Routes := [demo_env_route]\<rparr>) () =
      (Inr ([], [UnixListener ''/run/credproxyd.sock'']), ())"
    by (simp add: openListeners_def openUnixListener_def demo_config_def demo_os_def)
  have "validatePeerListenerPolicy Linux (demo_config\<lparr>Routes := [demo_env_route]\<rparr>) = None"
    "route_conflict (demo_config\<lparr>Routes := [demo_env_route]\<rparr>) = None"
    by (simp_all add: validatePeerListenerPolicy_def route_conflict_def demo_config_def peerCredSupported_def)
  then have "New_server Linux demo_parse demo_os (demo_config\<lparr>Routes := [demo_env_route]\<rparr>) () = (Inr (Some demo_env_server), ())"
    by (simp add: New_server_def r o)
      (simp add: demo_env_server_def demo_server_def demo_config_def demo_tokens_def token_entries_def Let_def)
  then show ?thesis by (rule reachable_server.created)
qed

lemma demo_client_gate:
  "authMiddleware Linux 1000 (demo_config\<lparr>Routes := rs\<rparr>) demo_tokens (conn_ctx Linux demo_conn)
     (ReqHeader (client_request path ''s3cret'')) = Inr ((conn_ctx Linux demo_conn)\<lparr>tokenIDKey := Some ''ci''\<rparr>)"
proof -
  have v: "Header_Values (ReqHeader (client_request path ''s3cret'')) ''Authorization'' = [''Bearer s3cret'']"
    by (simp add: client_request_def)
  have b: "extractBearer [''Bearer s3cret''] = Some ''s3cret''" "matchTokenEntries demo_tokens ''s3cret'' = Some ''ci''"
    "peerUIDIsCurrent Linux 1000 (ctx_peerCred (conn_ctx Linux demo_conn))"
    by code_simp+
  show ?thesis by (simp add: authMiddleware_def demo_config_def v b) (simp add: demo_tokens_def)
qed

section \<open>Properties\<close>

text \<open>
  C40 (roundtrip). What the env command prints in its sh format is a shell program that a POSIX
  shell evaluates to exactly the variables with a valid name, in increasing order, each with its
  value verbatim: no value, whatever characters it has, ends its quotation.
\<close>

theorem env_output_evaluates:
  "sh_eval (fst (writeEnv ''sh'' env)) =
     Some (map (\<lambda>n. (n, case map_of env n of Some v \<Rightarrow> v | None \<Rightarrow> [])) (sort (filter validEnvName (map fst env))))"
proof -
  have "list_all validEnvName (sort (filter validEnvName (map fst env)))" by (simp add: list_all_iff)
  then show ?thesis unfolding writeEnv_sh by (rule sh_eval_exports)
qed

text \<open>
  The two collection policies against one reference, the answers of the routes
  in order. The quiet policy merges what the routes that serve an environment answer, the later
  route winning, whatever the others answer; the strict policy succeeds exactly when every route
  serves an environment, and then gives the same variables.
\<close>

theorem collection_policies:
  "let answers = route_answers broker endpoint token rs w;
       quiet = map_of (fst (collectRouteEnv broker endpoint token rs w))
   in quiet = foldl (++) Map.empty (map contribution answers) \<and>
      (case fst (collectRouteEnvStrict broker endpoint token rs [] w) of
         Inr m \<Rightarrow> list_all serves_env answers \<and> map_of m = quiet
       | Inl err \<Rightarrow> \<not> list_all serves_env answers)"
  using collect_strict_map [where merged = "[]" and broker = broker and endpoint = endpoint and token = token and rs = rs and w = w] collect_routes_map [of broker endpoint token rs "[]" "[]" "[]" w]
  by (auto simp: Let_def collectRouteEnv_def split: sum.splits)

text \<open>
  Without --strict a well-formed env command never fails, so that a shell start-up
  that evaluates its output is never broken: its error is always nil, and when the token file
  cannot be read or the endpoint is not there it prints nothing and asks nobody.
\<close>

theorem quiet_env_never_fails:
  assumes "\<not> en_strict opts" and "parseEnvOptions opts = None"
    and "brokerTarget (defaultBrokerEndpoint host) (en_socket opts) (en_serverExecutable opts) = Inr (endpoint, exe)"
    and "runEnvCmd dial readFile stat host opts w = (err, out, d, w')"
  shows "err = None \<and> (fst (loadBrokerToken readFile (en_tokenFile opts)) = None \<or> stat endpoint \<noteq> None \<longrightarrow> out = [] \<and> w' = w)"
  using assms
  by (auto simp: runEnvCmd_def unavailableBroker_def split: prod.splits option.splits sum.splits if_splits
      dest: fetchSelectedRoutes_quiet)

theorem quiet_env_never_fails_witness:
  "\<exists>d. runEnvCmd (\<lambda>_ _ _ _ w. (Inl (PlainError ''refused''), w)) (\<lambda>_. FileMissing) (\<lambda>_. Some (PlainError ''no such file''))
     \<lparr>RuntimeDir = [], HomeDir = ''/home/u'', Uid = 1000, Goos = Linux\<rparr>
     \<lparr>en_socket = [], en_serverExecutable = [], en_tokenFile = [], en_format = ''sh'', en_strict = False, en_routes = []\<rparr> ()
     = (None, [], d, ())"
  (is "\<exists>d. runEnvCmd ?dial ?read ?stat ?host ?opts () = _")
proof -
  obtain err out d u where run: "runEnvCmd ?dial ?read ?stat ?host ?opts () = (err, out, d, u)"
    by (rule prod_cases4)
  obtain endpoint exe where t: "brokerTarget (defaultBrokerEndpoint ?host) [] [] = Inr (endpoint, exe)"
    by (simp add: brokerTarget_def defaultBrokerEndpoint_def expectedServerExecutable_def)
  have "parseEnvOptions ?opts = None" by (simp add: parseEnvOptions_def)
  from quiet_env_never_fails [OF _ this _ run] t run show ?thesis by simp
qed

text \<open>
  Discovery end to end: against a server of this development, the env command
  learns exactly the routes the server lists for its client, less the names it could not address,
  sorted, and makes no provider or upstream call; names are ASCII and the listing fits the limit.
\<close>

theorem discovery_matches_listing:
  assumes "reachable_server p parse os cfg s"
    and "authMiddleware p getuid cfg (srv_tokens s) (conn_ctx p c) (ReqHeader (client_request routeListPath token)) = Inr ctx"
    and "list_all ascii (listed_names (Routes cfg) (ctx_tokenID ctx))"
    and "length (RespBody (handleRouteList cfg ctx)) \<le> maxRouteListResponse"
  shows "fst (fetchRouteNames (server_broker p getuid tr s c) endpoint token w) =
      Inr (sort (filter validRouteName (listed_names (Routes cfg) (ctx_tokenID ctx)))) \<and>
    snd (snd (fetchRouteNames (server_broker p getuid tr s c) endpoint token w)) = w"
proof -
  note broker = broker_route_list [OF reachable_server_ok [OF assms(1)] assms(2), of tr w]
  have ok: "StatusCode (handleRouteList cfg ctx) = 200" by (simp add: handleRouteList_def ok_response_def)
  have "decode_routes (RespBody (handleRouteList cfg ctx)) = Inr (listed_names (Routes cfg) (ctx_tokenID ctx))"
    by (rule decode_routes_listing [OF assms(3,4)]) (simp add: handleRouteList_def ok_response_def)
  then show ?thesis by (simp add: fetchRouteNames_def brokerGet_def broker ok)
qed

theorem discovery_matches_listing_witness:
  "fst (fetchRouteNames (server_broker Linux 1000 demo_transport demo_server demo_conn) ''sock'' ''s3cret'' ()) = Inr [''aws'']"
proof -
  let ?ctx = "(conn_ctx Linux demo_conn)\<lparr>tokenIDKey := Some ''ci''\<rparr>"
  have l: "listed_names (Routes demo_server_config) (ctx_tokenID ?ctx) = [''aws'']" by code_simp
  have g: "authMiddleware Linux 1000 demo_server_config (srv_tokens demo_server) (conn_ctx Linux demo_conn)
      (ReqHeader (client_request routeListPath ''s3cret'')) = Inr ?ctx"
    unfolding demo_server_config_def using demo_client_gate by (simp add: demo_server_def)
  have b: "RespBody (handleRouteList demo_server_config ?ctx) = ''{\"routes\":[\"aws\"]}'' @ [CHR 0x0A]"
    unfolding handleRouteList_def l by code_simp
  from discovery_matches_listing [OF demo_server_reachable g, of demo_transport "''sock''" "()"] show ?thesis
    unfolding l b by (simp add: maxRouteListResponse_def validRouteName_def in_range_def)
qed

text \<open>
  The exec command end to end: for a route of a server of this development whose
  provider answers an environment, a caller the server admits to the route runs its program with
  each of the route's variables set exactly once, to the route's value, and every other
  assignment of the caller's environment unchanged.
\<close>

theorem exec_delivers_route_env:
  assumes "reachable_server p parse os cfg s" and "rt \<in> set (Routes cfg)" and "RoutePath rt = CHR ''/'' # ex_route opts"
    and "parseExecOptions opts cmdArgs = None" and "ex_socket opts \<noteq> []" and "readExecToken readFile (ex_tokenFile opts) = Inr token"
    and "authMiddleware p getuid cfg (srv_tokens s) (conn_ctx p c) (ReqHeader (client_request (ex_route opts @ ''/'') token)) = Inr ctx"
    and "listed (ctx_tokenID ctx) rt"
    and "ProviderGet (RouteProvider rt) (provider_request ctx (stripped_request (ex_route opts) token)) w = (Inr injection, w')"
    and "BodyReplace injection = env_body vals" and "length (env_body vals) \<le> maxEnvResponse"
    and "distinct (map fst vals)" and "list_all (\<lambda>(k, v). ascii k \<and> ascii v) vals" and "\<forall>(k, v) \<in> set vals. CHR ''='' \<notin> set k"
    and "lookPath (hd cmdArgs) = Inr bin"
  shows "\<exists>environ'. execCmd (\<lambda>_ _. server_broker p getuid tr s c) readFile lookPath environ opts cmdArgs w = (Inr (bin, cmdArgs, environ'), w') \<and>
    (\<forall>k. CHR ''='' \<notin> set k \<longrightarrow> filter (assigns k) environ' =
       (case map_of vals k of Some v \<Rightarrow> [k @ ''='' @ v] | None \<Rightarrow> filter (assigns k) environ))"
proof -
  have v: "validRouteName (ex_route opts)" using assms(4) by (auto simp: parseExecOptions_def split: if_splits)
  have ne: "BodyReplace injection \<noteq> []" by (simp add: assms(10) env_body_def)
  note broker = broker_env_route [OF reachable_server_ok [OF assms(1)] assms(2,3) v assms(7-9) ne, of tr]
  let ?env = "sort_key fst vals"
  have "fetchEnv (server_broker p getuid tr s c) (ex_socket opts) (ex_route opts) token w = (Inr ?env, w')"
    by (simp add: fetchEnv_def fetchRouteEnv_def brokerGet_def broker assms(10) ok_response_def decode_env_body [OF assms(12,13,11)])
  then have run: "execCmd (\<lambda>_ _. server_broker p getuid tr s c) readFile lookPath environ opts cmdArgs w =
      (Inr (bin, cmdArgs, mergeEnv environ ?env), w')"
    using assms(4,5,6,15) by (simp add: execCmd_def expectedServerExecutable_def)
  have d: "distinct (map fst ?env)" "\<forall>(k, v) \<in> set ?env. CHR ''='' \<notin> set k" using assms(12,14) by (simp_all add: distinct_map)
  have "map_of ?env = map_of vals" using assms(12) d(1) by (simp add: map_of_inject_set)
  then show ?thesis using run mergeEnv_assigns [OF d] by simp
qed

theorem exec_delivers_route_env_witness:
  "\<exists>environ'. execCmd (\<lambda>_ _. server_broker Linux 1000 demo_transport demo_env_server demo_conn) (\<lambda>_. FileData ''s3cret'') Inr
      [''KEY=old'', ''HOME=/h'']
      \<lparr>ex_socket = ''/run/credproxyd.sock'', ex_serverExecutable = [], ex_route = ''aws'', ex_tokenFile = ''/t''\<rparr> [''tool''] () =
      (Inr (''tool'', [''tool''], environ'), ()) \<and> filter (assigns ''KEY'') environ' = [''KEY=v'']"
  (is "\<exists>environ'. execCmd ?dial ?read Inr ?env ?opts [''tool''] () = _ \<and> _")
proof -
  let ?ctx = "(conn_ctx Linux demo_conn)\<lparr>tokenIDKey := Some ''ci''\<rparr>"
  let ?injection = "empty_injection\<lparr>BodyReplace := env_body [(''KEY'', ''v'')]\<rparr>"
  have g: "authMiddleware Linux 1000 (demo_config\<lparr>Routes := [demo_env_route]\<rparr>) (srv_tokens demo_env_server) (conn_ctx Linux demo_conn)
      (ReqHeader (client_request (ex_route ?opts @ ''/'') ''s3cret'')) = Inr ?ctx"
    using demo_client_gate by (simp add: demo_env_server_def demo_server_def Let_def)
  have t: "readExecToken ?read (ex_tokenFile ?opts) = Inr ''s3cret''" by code_simp
  have l: "listed (ctx_tokenID ?ctx) demo_env_route" by code_simp
  have n: "env_body [(''KEY'', ''v'')] = ''{\"env\":{\"KEY\":\"v\"}}''" by code_simp
  have o: "parseExecOptions ?opts [''tool''] = None" by code_simp
  have a: "list_all (\<lambda>(k, v). ascii k \<and> ascii v) [(''KEY'', ''v'')]" by code_simp
  have p: "ProviderGet (RouteProvider demo_env_route) r () = (Inr ?injection, ())" "RoutePath demo_env_route = CHR ''/'' # ex_route ?opts" for r
    by (simp_all add: demo_env_route_def demo_body_route_def)
  have m: "demo_env_route \<in> set (Routes (demo_config\<lparr>Routes := [demo_env_route]\<rparr>))" by simp
  from exec_delivers_route_env [OF demo_env_server_reachable m p(2) o _ t g l p(1), of "[(''KEY'', ''v'')]" Inr "''tool''" demo_transport ?env] a
  obtain environ' where e: "execCmd ?dial ?read Inr ?env ?opts [''tool''] () = (Inr (''tool'', [''tool''], environ'), ())"
    "\<forall>k. CHR ''='' \<notin> set k \<longrightarrow> filter (assigns k) environ' =
       (case map_of [(''KEY'', ''v'')] k of Some v \<Rightarrow> [k @ ''='' @ v] | None \<Rightarrow> filter (assigns k) ?env)"
    by (auto simp: n maxEnvResponse_def)
  then show ?thesis using e(2) [rule_format, of "''KEY''"] by auto
qed

end
