(* ===== verification/Admin.thy ===== *)
theory Admin
  imports Client_Env
begin

text \<open>
  Daemon administration: the refresh endpoint of cmd/credproxyd/admin/server.go, its Unix socket
  (listen_unix.go) and the same-user listener (peer_linux.go), and the client command of
  cmd/credproxy/refresh.go. What the handler relies on of the credential store is the locale
  atomic_refresher; the 1Password store behind adminRefresher interprets it.
\<close>

section \<open>The refresh handler\<close>

record refreshRequest =
  req_Credential :: string
  req_AllPreloaded :: bool

type_synonym 's refresher = "string list \<Rightarrow> bool \<Rightarrow> 's \<Rightarrow> go_error option \<times> 's"

definition into_bool :: "json \<Rightarrow> bool \<Rightarrow> bool option" where
  "into_bool v old = (case v of JBool b \<Rightarrow> Some b | JNull \<Rightarrow> Some old | _ \<Rightarrow> None)"

fun refresh_fields :: "(string \<times> string \<times> json) list \<Rightarrow> refreshRequest \<Rightarrow> refreshRequest option" where
  "refresh_fields [] req = Some req"
| "refresh_fields ((k, raw, v) # ms) req =
     (case field_for [''credential'', ''all_preloaded''] k of
        None \<Rightarrow> None
      | Some f \<Rightarrow>
          if f = ''credential'' then
            (case into_string v (req_Credential req) of
               None \<Rightarrow> None | Some c \<Rightarrow> refresh_fields ms (req\<lparr>req_Credential := c\<rparr>))
          else
            (case into_bool v (req_AllPreloaded req) of
               None \<Rightarrow> None | Some b \<Rightarrow> refresh_fields ms (req\<lparr>req_AllPreloaded := b\<rparr>)))"

text \<open>
  http.MaxBytesReader: the first n bytes, and a failing read where there are more. The first
  Decode takes one value (a null is complete only once the reader has said that nothing
  follows), the second must find the end of the stream.
\<close>

definition MaxBytesReader :: "body_stream \<Rightarrow> nat \<Rightarrow> body_stream" where
  "MaxBytesReader b n =
     (if length (stream_data b) \<le> n then b else \<lparr>stream_data = take n (stream_data b), stream_fails = True\<rparr>)"

definition decode_refresh :: "body_stream \<Rightarrow> refreshRequest option" where
  "decode_refresh b =
     (let zero = \<lparr>req_Credential = [], req_AllPreloaded = False\<rparr> in
      case decode_stream (stream_data b) of
        Inl err \<Rightarrow> None
      | Inr (None, rest) \<Rightarrow> if skip_ws rest = [] \<and> \<not> stream_fails b then Some zero else None
      | Inr (Some ms, rest) \<Rightarrow>
          (case refresh_fields ms zero of
             None \<Rightarrow> None
           | Some req \<Rightarrow> if skip_ws rest = [] \<and> \<not> stream_fails b then Some req else None))"

definition no_content :: http_response where
  "no_content = \<lparr>StatusCode = 204, RespHeader = Map.empty, RespBody = []\<rparr>"

definition handleRefresh :: "'s refresher \<Rightarrow> http_request \<Rightarrow> 's \<Rightarrow> http_response \<times> 's" where
  "handleRefresh refresh r s =
     (case decode_refresh (MaxBytesReader (Body r) 4096) of
        None \<Rightarrow> (http_Error ''invalid refresh request'' 400, s)
      | Some req \<Rightarrow>
          if req_AllPreloaded req = (req_Credential req \<noteq> []) \<or> TrimSpace (req_Credential req) \<noteq> req_Credential req
          then (http_Error ''specify one credential or all_preloaded'' 400, s)
          else (case refresh (if req_Credential req \<noteq> [] then [req_Credential req] else []) (req_AllPreloaded req) s of
                  (Some err, s') \<Rightarrow> (http_Error ''credential refresh failed; see daemon log'' 502, s')
                | (None, s') \<Rightarrow> (no_content, s')))"

definition method_not_allowed :: http_response where
  "method_not_allowed =
     (let e = http_Error ''Method Not Allowed'' 405 in e\<lparr>RespHeader := Header_Set (RespHeader e) ''Allow'' ''POST''\<rparr>)"

text \<open>The mux with its single pattern POST /refresh; None stands for a redirect to the clean path.\<close>

definition admin_Handler :: "'s refresher \<Rightarrow> http_request \<Rightarrow> 's \<Rightarrow> http_response option \<times> 's" where
  "admin_Handler refresh r s =
     (case mux_dispatch [(''/refresh'', ())] r of
        MuxRedirect l q \<Rightarrow> (None, s)
      | MuxNotFound \<Rightarrow> (Some http_NotFound, s)
      | MuxHandler pat h \<Rightarrow>
          if ReqMethod r \<noteq> ''POST'' then (Some method_not_allowed, s)
          else (case handleRefresh refresh r s of (resp, s') \<Rightarrow> (Some resp, s')))"

definition adminRefresher :: "'w op_env \<Rightarrow> op_specs \<Rightarrow> 'w op_state refresher" where
  "adminRefresher env specs names allPreloaded st = op_RefreshMany env specs names allPreloaded st"

section \<open>The socket\<close>

text \<open>
  listen, with every system call it makes as an event and the answers of the system as a
  parameter: the error a call returns, and what Lstat and the probing dial find.
\<close>

datatype os_call =
    MkdirAll string nat | Chmod string nat | Lstat string | DialUnix string | RemoveFile string
  | ListenUnixSocket string | CloseListener string

text \<open>The octal permission bits 0600 and 0700.\<close>

abbreviation mode_0600 :: nat where "mode_0600 \<equiv> 384"

abbreviation mode_0700 :: nat where "mode_0700 \<equiv> 448"

datatype lstat_result = IsSocket | NotSocket | NotExist | LstatError go_error

datatype dial_result = Connected | ConnRefused | DialError go_error

record os_answers =
  ans_error :: "os_call \<Rightarrow> go_error option"
  ans_lstat :: lstat_result
  ans_dial :: dial_result

definition filepath_Dir :: "string \<Rightarrow> string" where
  "filepath_Dir p = filepath_Clean (rev (dropWhile (\<lambda>c. c \<noteq> CHR ''/'') (rev p)))"

definition DefaultSocketPath :: "client_host \<Rightarrow> go_error + string" where
  "DefaultSocketPath h =
     (if RuntimeDir h = [] then
        (if Goos h \<noteq> Darwin then Inl (PlainError ''XDG_RUNTIME_DIR is required for the admin socket'')
         else if HomeDir h = [] then Inl (WrapError ''admin socket home directory'' (PlainError ''$HOME is not defined''))
         else Inr (filepath_Join (filepath_Join (HomeDir h) ''Library/Caches/credproxyd/runtime'') ''credproxyd/admin.sock''))
      else Inr (filepath_Join (RuntimeDir h) ''credproxyd/admin.sock''))"

text \<open>Close of a Unix listener unlinks its path and closes the socket.\<close>

definition unix_Close :: "string \<Rightarrow> os_call list" where
  [simp]: "unix_Close socket = [RemoveFile socket, CloseListener socket]"

definition open_socket :: "os_answers \<Rightarrow> string \<Rightarrow> (go_error + string) \<times> os_call list" where
  "open_socket os socket =
     (case ans_error os (ListenUnixSocket socket) of
        Some err \<Rightarrow> (Inl (WrapError ''listen admin socket'' err), [ListenUnixSocket socket])
      | None \<Rightarrow>
          (case ans_error os (Chmod socket mode_0600) of
             Some err \<Rightarrow> (Inl (WrapError ''protect admin socket'' err),
               [ListenUnixSocket socket, Chmod socket mode_0600] @ unix_Close socket @ [RemoveFile socket])
           | None \<Rightarrow> (Inr socket, [ListenUnixSocket socket, Chmod socket mode_0600])))"

definition clear_stale :: "os_answers \<Rightarrow> string \<Rightarrow> go_error option \<times> os_call list" where
  "clear_stale os socket =
     (case ans_lstat os of
        NotExist \<Rightarrow> (None, [Lstat socket])
      | LstatError err \<Rightarrow> (Some err, [Lstat socket])
      | NotSocket \<Rightarrow> (Some (PlainError (''admin socket path is not a socket: '' @ socket)), [Lstat socket])
      | IsSocket \<Rightarrow>
          (case ans_dial os of
             Connected \<Rightarrow> (Some (PlainError (''admin socket already in use: '' @ socket)), [Lstat socket, DialUnix socket])
           | DialError err \<Rightarrow> (Some (WrapError ''check existing admin socket'' err), [Lstat socket, DialUnix socket])
           | ConnRefused \<Rightarrow>
               (map_option (WrapError ''remove stale admin socket'') (ans_error os (RemoveFile socket)),
                [Lstat socket, DialUnix socket, RemoveFile socket])))"

definition admin_listen :: "os_answers \<Rightarrow> string \<Rightarrow> (go_error + string) \<times> os_call list" where
  "admin_listen os socket =
     (if socket = [] then (Inl (PlainError ''admin socket path is empty''), [])
      else let dir = filepath_Dir socket in
        case ans_error os (MkdirAll dir mode_0700) of
          Some err \<Rightarrow> (Inl (WrapError ''create admin socket directory'' err), [MkdirAll dir mode_0700])
        | None \<Rightarrow>
            (case ans_error os (Chmod dir mode_0700) of
               Some err \<Rightarrow> (Inl (WrapError ''protect admin socket directory'' err), [MkdirAll dir mode_0700, Chmod dir mode_0700])
             | None \<Rightarrow>
                 (case clear_stale os socket of
                    (Some err, calls) \<Rightarrow> (Inl err, [MkdirAll dir mode_0700, Chmod dir mode_0700] @ calls)
                  | (None, calls) \<Rightarrow>
                      (case open_socket os socket of
                         (res, calls') \<Rightarrow> (res, [MkdirAll dir mode_0700, Chmod dir mode_0700] @ calls @ calls')))))"

text \<open>
  uidListener.Accept: connections arrive in order, each with whether it is a Unix connection whose
  raw handle is there, and the SO_PEERCRED answer; those of another user are closed and the loop
  goes on. The accepted connection comes with the closed ones and what is left. An exhausted
  list is a listener that waits.
\<close>

record incoming =
  in_conn :: conn
  in_handle :: bool

datatype accept_result = Accepted conn | AcceptError go_error | Waiting

fun uid_Accept :: "32 word \<Rightarrow> (go_error + incoming) list \<Rightarrow> accept_result \<times> conn list \<times> (go_error + incoming) list" where
  "uid_Accept uid [] = (Waiting, [], [])"
| "uid_Accept uid (Inl err # rest) = (AcceptError err, [], rest)"
| "uid_Accept uid (Inr c # rest) =
     (let skip = (case uid_Accept uid rest of (res, closed, rest') \<Rightarrow> (res, in_conn c # closed, rest')) in
      if \<not> conn_unix (in_conn c) \<or> \<not> in_handle c then skip
      else case conn_ucred (in_conn c) of
             None \<Rightarrow> skip
           | Some (u, pid) \<Rightarrow> if u \<noteq> uid then skip else (Accepted (in_conn c), [], rest))"

definition protectListener :: "platform \<Rightarrow> 32 word \<Rightarrow> (go_error + incoming) list
    \<Rightarrow> accept_result \<times> conn list \<times> (go_error + incoming) list" where
  "protectListener p uid incoming' =
     (if p = Linux then uid_Accept uid incoming'
      else case incoming' of
             [] \<Rightarrow> (Waiting, [], [])
           | Inl err # rest \<Rightarrow> (AcceptError err, [], rest)
           | Inr c # rest \<Rightarrow> (Accepted (in_conn c), [], rest))"

section \<open>The client command\<close>

record refreshOptions =
  ro_credential :: string
  ro_all :: bool
  ro_socket :: string
  ro_serverExecutable :: string

definition parseRefreshOptions :: "refreshOptions \<Rightarrow> string list \<Rightarrow> go_error option" where
  "parseRefreshOptions opts args =
     (if length args \<noteq> 0 then Some (PlainError ''refresh takes no positional arguments'')
      else if ro_all opts = (ro_credential opts \<noteq> [])
      then Some (PlainError ''specify exactly one of --credential or --all-preloaded'')
      else None)"

definition refreshPayload :: "string \<Rightarrow> bool \<Rightarrow> json" where
  "refreshPayload credential allPreloaded =
     JObj ((if credential \<noteq> [] then [(''credential'', JStr credential)] else []) @
           (if allPreloaded then [(''all_preloaded'', JBool True)] else []))"

definition refresh_request :: "bytes \<Rightarrow> http_request" where
  "refresh_request payload =
     \<lparr>ReqMethod = ''POST'', URL = \<lparr>Scheme = [], UrlHost = [], Path = ''/refresh'', RawPath = [], RawQuery = []\<rparr>,
      ReqHost = ''unix'',
      ReqHeader = Header_Set [''User-Agent'' \<mapsto> [''Go-http-client/1.1''], ''Accept-Encoding'' \<mapsto> [''gzip'']]
                    ''Content-Type'' ''application/json'',
      Body = \<lparr>stream_data = payload, stream_fails = False\<rparr>, ContentLength = int (length payload)\<rparr>"

definition adminTarget :: "client_host \<Rightarrow> string \<Rightarrow> string \<Rightarrow> go_error + string \<times> string" where
  "adminTarget host socket serverExecutable =
     (case (if socket = [] then DefaultSocketPath host else Inr socket) of
        Inl err \<Rightarrow> Inl err
      | Inr socket' \<Rightarrow>
          (case expectedServerExecutable serverExecutable of
             Inl err \<Rightarrow> Inl (WrapError ''expected server executable'' err)
           | Inr exe \<Rightarrow> Inr (socket', exe)))"

text \<open>
  The admin endpoint as http.Client.Do sees it: a transport error, or the status line and the
  response; None in the last place is a body that cannot be read.
\<close>

type_synonym 'w admin_dialer = "string \<Rightarrow> string \<Rightarrow> http_request \<Rightarrow> 'w \<Rightarrow> (go_error + string \<times> int \<times> bytes option) \<times> 'w"

definition sendRefreshRequest :: "'w admin_dialer \<Rightarrow> string \<Rightarrow> string \<Rightarrow> bytes \<Rightarrow> 'w \<Rightarrow> go_error option \<times> string \<times> 'w" where
  "sendRefreshRequest dial socket expectedExe payload w =
     (case dial socket expectedExe (refresh_request payload) w of
        (Inl err, w') \<Rightarrow> (Some (WrapError ''refresh request'' err), [], w')
      | (Inr (status, code, body), w') \<Rightarrow>
          if code \<noteq> 204 then
            (case body of
               None \<Rightarrow> (Some (WrapError (''refresh failed ('' @ status @ ''): read response'') (PlainError ''unexpected EOF'')), [], w')
             | Some b \<Rightarrow> (Some (PlainError (''refresh failed ('' @ status @ ''): '' @ TrimSpace (take 8192 b))), [], w'))
          else (None, ''credential refreshed'' @ [CHR 0x0A], w'))"

definition refreshCmd :: "'w admin_dialer \<Rightarrow> client_host \<Rightarrow> refreshOptions \<Rightarrow> string list \<Rightarrow> 'w \<Rightarrow> go_error option \<times> string \<times> 'w" where
  "refreshCmd dial host opts args w =
     (case parseRefreshOptions opts args of
        Some err \<Rightarrow> (Some err, [], w)
      | None \<Rightarrow>
          (case adminTarget host (ro_socket opts) (ro_serverExecutable opts) of
             Inl err \<Rightarrow> (Some err, [], w)
           | Inr (endpoint, exe) \<Rightarrow>
               sendRefreshRequest dial endpoint exe (json_encode (refreshPayload (ro_credential opts) (ro_all opts))) w))"

text \<open>The admin server behind a dialer, on one connection.\<close>

definition StatusText :: "int \<Rightarrow> string" where
  "StatusText code =
     (if code = 204 then ''No Content'' else if code = 400 then ''Bad Request'' else if code = 404 then ''Not Found''
      else if code = 405 then ''Method Not Allowed'' else if code = 502 then ''Bad Gateway'' else [])"

definition admin_endpoint :: "'s refresher \<Rightarrow> 's admin_dialer" where
  "admin_endpoint refresh socket exe r s =
     (case admin_Handler refresh r s of
        (None, s') \<Rightarrow> (Inl (PlainError ''redirect''), s')
      | (Some resp, s') \<Rightarrow>
          (Inr (FormatInt (StatusCode resp) @ '' '' @ StatusText (StatusCode resp), StatusCode resp, Some (RespBody resp)), s'))"

section \<open>What the handler relies on\<close>

text \<open>
  The Refresher contract: the implementation owns atomic replacement, so a refresh that fails
  leaves what the store shows as it was.
\<close>

locale atomic_refresher =
  fixes refresh :: "'s refresher" and view :: "'s \<Rightarrow> 'v"
  assumes refresh_failed: "refresh names allPreloaded s = (Some err, s') \<Longrightarrow> view s' = view s"
begin

lemma handleRefresh_cases:
  assumes "handleRefresh refresh r s = (resp, s')"
  obtains (rejected) msg where "resp = http_Error msg 400" "msg \<in> {''invalid refresh request'', ''specify one credential or all_preloaded''}" "s' = s"
  | (failed) "resp = http_Error ''credential refresh failed; see daemon log'' 502" "view s' = view s"
  | (refreshed) req where "resp = no_content" "decode_refresh (MaxBytesReader (Body r) 4096) = Some req"
      "req_AllPreloaded req \<noteq> (req_Credential req \<noteq> [])" "TrimSpace (req_Credential req) = req_Credential req"
      "refresh (if req_Credential req \<noteq> [] then [req_Credential req] else []) (req_AllPreloaded req) s = (None, s')"
proof (cases "decode_refresh (MaxBytesReader (Body r) 4096)")
  case None
  with assms show ?thesis by (intro rejected) (auto simp: handleRefresh_def)
next
  case (Some req)
  let ?names = "if req_Credential req \<noteq> [] then [req_Credential req] else []"
  obtain e s1 where run: "refresh ?names (req_AllPreloaded req) s = (e, s1)" by force
  show ?thesis
  proof (cases "req_AllPreloaded req = (req_Credential req \<noteq> []) \<or> TrimSpace (req_Credential req) \<noteq> req_Credential req")
    case True
    with Some assms show ?thesis by (intro rejected) (auto simp: handleRefresh_def)
  next
    case False
    then have out: "(resp, s') = (case e of Some err \<Rightarrow> (http_Error ''credential refresh failed; see daemon log'' 502, s1) | None \<Rightarrow> (no_content, s1))"
      using Some assms run by (auto simp: handleRefresh_def split: if_splits option.splits)
    show ?thesis
    proof (cases e)
      case None
      with False out run show ?thesis by (intro refreshed [OF _ Some]) auto
    next
      case (Some err)
      then show ?thesis using out run refresh_failed by (intro failed) auto
    qed
  qed
qed

text \<open>The view changes only with a 204 answer to a POST of a well-formed request.\<close>

lemma view_changes_only_on_success:
  assumes "admin_Handler refresh r s = (resp, s')" and "resp \<noteq> Some no_content"
  shows "view s' = view s"
  using assms by (auto simp: admin_Handler_def split: mux_result.splits if_splits prod.splits elim!: handleRefresh_cases)

lemma success_means_refreshed:
  assumes "admin_Handler refresh r s = (Some no_content, s')"
  shows "ReqMethod r = ''POST'' \<and> (\<exists>req. decode_refresh (MaxBytesReader (Body r) 4096) = Some req \<and>
      req_AllPreloaded req \<noteq> (req_Credential req \<noteq> []) \<and>
      refresh (if req_Credential req \<noteq> [] then [req_Credential req] else []) (req_AllPreloaded req) s = (None, s'))"
proof -
  have ne: "no_content \<noteq> http_NotFound" "no_content \<noteq> method_not_allowed" "no_content \<noteq> http_Error m c" if "c \<noteq> 204" for m c
    using that by (auto simp: no_content_def http_NotFound_def method_not_allowed_def http_Error_def Let_def)
  then have h: "ReqMethod r = ''POST''" "handleRefresh refresh r s = (no_content, s')"
    using assms ne [of 0] by (auto simp: admin_Handler_def split: mux_result.splits if_splits prod.splits)
  from h(2) show ?thesis using h(1) ne(3) [of 400] ne(3) [of 502] by (auto elim!: handleRefresh_cases)
qed

end

interpretation store_refresh: atomic_refresher "adminRefresher env specs" "fst" for env :: "'w op_env" and specs
proof
  fix names :: "string list" and all err and s s' :: "'w op_state"
  assume "adminRefresher env specs names all s = (Some err, s')"
  then show "fst s' = fst s"
    by (auto simp: adminRefresher_def op_RefreshMany_def split: sum.splits prod.splits)
qed

section \<open>Lemmas\<close>

lemma admin_responses:
  "admin_Handler refresh r s = (Some resp, s') \<Longrightarrow>
     resp \<in> {no_content, http_NotFound, method_not_allowed, http_Error ''invalid refresh request'' 400,
       http_Error ''specify one credential or all_preloaded'' 400, http_Error ''credential refresh failed; see daemon log'' 502}"
  by (auto simp: admin_Handler_def handleRefresh_def split: mux_result.splits if_splits prod.splits option.splits)

lemma decode_refresh_payload:
  assumes "ascii credential" and "allPreloaded \<noteq> (credential \<noteq> [])" and "length (json_encode (refreshPayload credential allPreloaded)) \<le> 4096"
  shows "decode_refresh (MaxBytesReader \<lparr>stream_data = json_encode (refreshPayload credential allPreloaded), stream_fails = False\<rparr> 4096) =
     Some \<lparr>req_Credential = credential, req_AllPreloaded = allPreloaded\<rparr>"
proof -
  obtain kvs where kvs: "refreshPayload credential allPreloaded = JObj kvs" "json_plain (JObj kvs)"
    "refresh_fields (map (\<lambda>(k, v). (k, json_encode v, v)) kvs) \<lparr>req_Credential = [], req_AllPreloaded = False\<rparr> =
       Some \<lparr>req_Credential = credential, req_AllPreloaded = allPreloaded\<rparr>"
    using assms(1,2) by (auto simp: refreshPayload_def field_for_def into_string_def into_bool_def)
  obtain rest where "decode_stream (json_encode (JObj kvs)) = Inr (Some (map (\<lambda>(k, v). (k, json_encode v, v)) kvs), rest)" "skip_ws rest = []"
    using decode_document_marshal [OF kvs(2)] by (auto simp: decode_document_def split: sum.splits prod.splits if_splits)
  then show ?thesis using assms(3) kvs(1,3) by (simp add: MaxBytesReader_def decode_refresh_def Let_def)
qed

lemma admin_dispatch_refresh: "mux_dispatch [(''/refresh'', ())] (refresh_request payload) = MuxHandler ''/refresh'' ()"
proof -
  have "plain_path ''/refresh''" "cleanPath ''/refresh'' = ''/refresh''" by code_simp+
  then show ?thesis by (intro mux_dispatch_exact) (auto simp: refresh_request_def)
qed

text \<open>The events of admin_listen.\<close>

lemma clear_stale_ok: "clear_stale os socket = (None, calls) \<Longrightarrow>
    (ans_lstat os = NotExist \<and> calls = [Lstat socket]) \<or>
    (ans_lstat os = IsSocket \<and> ans_dial os = ConnRefused \<and> ans_error os (RemoveFile socket) = None \<and>
       calls = [Lstat socket, DialUnix socket, RemoveFile socket])"
  by (auto simp: clear_stale_def split: lstat_result.splits dial_result.splits)

lemma uid_Accept_sound:
  "uid_Accept uid incoming' = (res, closed, rest) \<Longrightarrow>
     (\<forall>c. res = Accepted c \<longrightarrow> conn_unix c \<and> (\<exists>pid. conn_ucred c = Some (uid, pid)) \<and>
        (\<exists>h. incoming' = map Inr h @ rest \<and> map in_conn h = closed @ [c]))"
proof (induction uid incoming' arbitrary: res closed rest rule: uid_Accept.induct)
  case (3 uid i rest0)
  show ?case
  proof (cases "\<exists>pid. conn_unix (in_conn i) \<and> in_handle i \<and> conn_ucred (in_conn i) = Some (uid, pid)")
    case True
    with "3.prems" show ?thesis by (auto simp: Let_def intro!: exI [of _ "[i]"])
  next
    case False
    then obtain closed' where r: "uid_Accept uid rest0 = (res, closed', rest)" "closed = in_conn i # closed'"
      using "3.prems" by (auto simp: Let_def split: if_splits option.splits prod.splits)
    have "\<exists>h. Inr i # rest0 = map Inr h @ rest \<and> map in_conn h = closed @ [c]" "conn_unix c" "\<exists>pid. conn_ucred c = Some (uid, pid)"
      if acc: "res = Accepted c" for c
    proof -
      obtain h where "rest0 = map Inr h @ rest" "map in_conn h = closed' @ [c]" "conn_unix c" "\<exists>pid. conn_ucred c = Some (uid, pid)"
        using "3.IH" [OF r(1)] acc by blast
      then show "\<exists>h. Inr i # rest0 = map Inr h @ rest \<and> map in_conn h = closed @ [c]" "conn_unix c" "\<exists>pid. conn_ucred c = Some (uid, pid)"
        using r(2) by (auto intro!: exI [of _ "i # h"])
    qed
    then show ?thesis by blast
  qed
qed simp_all

section \<open>Properties\<close>

text \<open>
  C34 (safety). The admin endpoint reveals nothing and changes nothing by accident: whatever the
  request, the answer is a redirect to the clean path or one of six fixed responses, and the cache
  of the store is as it was unless the answer is 204. That answer only a POST of a document with
  exactly one of a credential and all_preloaded gets, and only after every selected credential was
  resolved again in this very request: the selected entries hold exactly the values their
  references resolved to, all others are as they were.
\<close>

theorem admin_refresh_outcome:
  assumes "admin_Handler (adminRefresher env specs) r (c, w) = (resp, (c', w'))"
  shows "(case resp of
       None \<Rightarrow> (\<exists>l q. mux_dispatch [(''/refresh'', ())] r = MuxRedirect l q) \<and> w' = w
     | Some answer \<Rightarrow> answer \<in> {no_content, http_NotFound, method_not_allowed, http_Error ''invalid refresh request'' 400,
         http_Error ''specify one credential or all_preloaded'' 400, http_Error ''credential refresh failed; see daemon log'' 502}) \<and>
    (if resp = Some no_content
     then ReqMethod r = ''POST'' \<and> (\<exists>req sel es. decode_refresh (MaxBytesReader (Body r) 4096) = Some req \<and>
       req_AllPreloaded req \<noteq> (req_Credential req \<noteq> []) \<and>
       set sel = (if req_AllPreloaded req then fst ` {(n, spec). (n, spec) \<in> set specs \<and> op_Preload spec} else {req_Credential req}) \<and>
       distinct sel \<and> resolved_in_order env specs sel es w w' \<and>
       (\<forall>i < length sel. cache_entry c' (sel ! i) = es ! i) \<and> (\<forall>n. n \<notin> set sel \<longrightarrow> cache_entry c' n = cache_entry c n))
     else c' = c)"
proof (cases "resp = Some no_content")
  case True
  from store_refresh.success_means_refreshed [OF assms [unfolded True]] obtain req where
    req: "ReqMethod r = ''POST''" "decode_refresh (MaxBytesReader (Body r) 4096) = Some req"
    "req_AllPreloaded req \<noteq> (req_Credential req \<noteq> [])"
    and run: "op_RefreshMany env specs (if req_Credential req \<noteq> [] then [req_Credential req] else []) (req_AllPreloaded req) (c, w) = (None, (c', w'))"
    unfolding adminRefresher_def by blast
  from RefreshMany_resolves [OF run] req(3) obtain sel es where
    "set sel = (if req_AllPreloaded req then fst ` {(n, spec). (n, spec) \<in> set specs \<and> op_Preload spec} else {req_Credential req})"
    "distinct sel" "resolved_in_order env specs sel es w w'"
    "\<forall>i < length sel. cache_entry c' (sel ! i) = es ! i" "\<forall>n. n \<notin> set sel \<longrightarrow> cache_entry c' n = cache_entry c n"
    by auto
  then have "\<exists>sel es. set sel = (if req_AllPreloaded req then fst ` {(n, spec). (n, spec) \<in> set specs \<and> op_Preload spec} else {req_Credential req}) \<and>
       distinct sel \<and> resolved_in_order env specs sel es w w' \<and>
       (\<forall>i < length sel. cache_entry c' (sel ! i) = es ! i) \<and> (\<forall>n. n \<notin> set sel \<longrightarrow> cache_entry c' n = cache_entry c n)" by blast
  with req True show ?thesis by simp
next
  case False
  have keep: "c' = c" using store_refresh.view_changes_only_on_success [OF assms False] by simp
  show ?thesis
  proof (cases resp)
    case None
    with assms have "(\<exists>l q. mux_dispatch [(''/refresh'', ())] r = MuxRedirect l q) \<and> w' = w"
      by (auto simp: admin_Handler_def split: mux_result.splits if_splits prod.splits)
    with None keep show ?thesis by simp
  next
    case (Some answer)
    with False keep show ?thesis using admin_responses [OF assms [unfolded Some]] by simp
  qed
qed

theorem admin_refresh_outcome_witness:
  "\<exists>c w. admin_Handler (adminRefresher demo_op demo_specs) (refresh_request (json_encode (refreshPayload ''b'' False)))
       ([(''b'', \<lparr>op_value = ''old'', op_expires = 0, op_valid = True\<rparr>)], 0) = (Some no_content, (c, w)) \<and>
     op_value (cache_entry c ''b'') = ''op://v/b''"
proof -
  let ?c = "[(''b'', \<lparr>op_value = ''old'', op_expires = 0, op_valid = True\<rparr>)]"
  let ?r = "refresh_request (json_encode (refreshPayload ''b'' False))"
  have "ascii ''b''" "length (json_encode (refreshPayload ''b'' False)) \<le> 4096" by code_simp+
  then have d: "decode_refresh (MaxBytesReader (Body ?r) 4096) = Some \<lparr>req_Credential = ''b'', req_AllPreloaded = False\<rparr>"
    using decode_refresh_payload [of "''b''" False] by (simp add: refresh_request_def)
  have m: "ReqMethod ?r = ''POST''" "TrimSpace ''b'' = ''b''" by (simp add: refresh_request_def, code_simp)
  have "selectedNames demo_specs [''b''] False = Inr [''b'']" by code_simp
  then have "\<exists>st. op_RefreshMany demo_op demo_specs [''b''] False (?c, 0) = (None, st)"
    by (simp add: op_RefreshMany_def demo_specs_def) (simp add: demo_op_def)
  then obtain c w where run: "admin_Handler (adminRefresher demo_op demo_specs) ?r (?c, 0) = (Some no_content, (c, w))"
    using d m by (auto simp: admin_Handler_def admin_dispatch_refresh handleRefresh_def adminRefresher_def)
  from admin_refresh_outcome [OF run] d obtain sel es where
    es: "set sel = {''b''}" "distinct sel" "resolved_in_order demo_op demo_specs sel es 0 w" "\<forall>i < length sel. cache_entry c (sel ! i) = es ! i"
    by auto
  have sel: "sel = [''b'']" using es(1,2) by (cases sel; cases "tl sel") auto
  then obtain e where "es = [e]" using resolved_length [OF es(3)] by (cases es) auto
  then have "op_value (cache_entry c ''b'') = ''op://v/b''" using es(3,4) sel by (simp add: demo_specs_def demo_op_def)
  with run show ?thesis by blast
qed

lemma refreshCmd_RefreshMany:
  assumes "parseRefreshOptions opts [] = None" and "adminTarget host (ro_socket opts) (ro_serverExecutable opts) = Inr target"
    and "ascii (ro_credential opts)" and "TrimSpace (ro_credential opts) = ro_credential opts"
    and "length (json_encode (refreshPayload (ro_credential opts) (ro_all opts))) \<le> 4096"
  shows "refreshCmd (admin_endpoint (adminRefresher env specs)) host opts [] st =
     (case op_RefreshMany env specs (if ro_all opts then [] else [ro_credential opts]) (ro_all opts) st of
        (None, st') \<Rightarrow> (None, ''credential refreshed'' @ [CHR 0x0A], st')
      | (Some err, st') \<Rightarrow>
          (Some (PlainError ''refresh failed (502 Bad Gateway): credential refresh failed; see daemon log''), [], st'))"
proof -
  let ?payload = "json_encode (refreshPayload (ro_credential opts) (ro_all opts))"
  have one: "ro_all opts \<noteq> (ro_credential opts \<noteq> [])" using assms(1) by (auto simp: parseRefreshOptions_def split: if_splits)
  note dec = decode_refresh_payload [OF assms(3) one assms(5)]
  have names: "(if ro_credential opts \<noteq> [] then [ro_credential opts] else []) = (if ro_all opts then [] else [ro_credential opts])"
    using one by auto
  have req: "ReqMethod (refresh_request ?payload) = ''POST''"
    "Body (refresh_request ?payload) = \<lparr>stream_data = ?payload, stream_fails = False\<rparr>"
    by (simp_all add: refresh_request_def)
  obtain e st' where run: "op_RefreshMany env specs (if ro_all opts then [] else [ro_credential opts]) (ro_all opts) st = (e, st')"
    by (rule prod.exhaust)
  have "handleRefresh (adminRefresher env specs) (refresh_request ?payload) st =
      (case e of Some err \<Rightarrow> (http_Error ''credential refresh failed; see daemon log'' 502, st') | None \<Rightarrow> (no_content, st'))"
    unfolding handleRefresh_def req dec using one assms(4) run names by (auto simp: adminRefresher_def split: option.splits)
  then have h: "admin_Handler (adminRefresher env specs) (refresh_request ?payload) st =
      (Some (case e of Some err \<Rightarrow> http_Error ''credential refresh failed; see daemon log'' 502 | None \<Rightarrow> no_content), st')"
    by (simp add: admin_Handler_def admin_dispatch_refresh req split: option.splits)
  have t: "TrimSpace (take 8192 (''credential refresh failed; see daemon log'' @ [CHR 0x0A])) = ''credential refresh failed; see daemon log''"
    "FormatInt 502 = ''502''" by code_simp+
  show ?thesis
    using assms(1,2) h run t
    by (cases e; cases target) (auto simp: refreshCmd_def sendRefreshRequest_def admin_endpoint_def http_Error_def no_content_def StatusText_def)
qed

text \<open>
  C35 (refinement). The refresh command implements the store's RefreshMany over the admin socket:
  with well-formed options and an ASCII credential name without surrounding space, the command
  succeeds exactly when RefreshMany on the named credential (or on all pinned ones) does, leaves
  the daemon in the state RefreshMany leaves it in, and reports a failure without its cause.
\<close>

theorem refresh_command_refines:
  assumes "parseRefreshOptions opts [] = None" and "adminTarget host (ro_socket opts) (ro_serverExecutable opts) = Inr target"
    and "ascii (ro_credential opts)" and "TrimSpace (ro_credential opts) = ro_credential opts"
    and "length (json_encode (refreshPayload (ro_credential opts) (ro_all opts))) \<le> 4096"
  shows "refreshCmd (admin_endpoint (adminRefresher env specs)) host opts [] st =
     (case op_RefreshMany env specs (if ro_all opts then [] else [ro_credential opts]) (ro_all opts) st of
        (None, st') \<Rightarrow> (None, ''credential refreshed'' @ [CHR 0x0A], st')
      | (Some err, st') \<Rightarrow>
          (Some (PlainError ''refresh failed (502 Bad Gateway): credential refresh failed; see daemon log''), [], st'))"
  using assms by (rule refreshCmd_RefreshMany)

theorem refresh_command_refines_witness:
  "refreshCmd (admin_endpoint (adminRefresher demo_op demo_specs)) \<lparr>RuntimeDir = ''/run/user/1000'', HomeDir = [], Uid = 1000, Goos = Linux\<rparr>
     \<lparr>ro_credential = ''nope'', ro_all = False, ro_socket = [], ro_serverExecutable = []\<rparr> [] ([], 0) =
   (Some (PlainError ''refresh failed (502 Bad Gateway): credential refresh failed; see daemon log''), [], ([], 0))"
  (is "refreshCmd ?dial ?host ?opts [] ([], 0) = _")
proof -
  obtain target where t: "adminTarget ?host [] [] = Inr target"
    by (simp add: adminTarget_def DefaultSocketPath_def expectedServerExecutable_def)
  have o: "parseRefreshOptions ?opts [] = None" "ascii ''nope''" "TrimSpace ''nope'' = ''nope''"
    "length (json_encode (refreshPayload ''nope'' False)) \<le> 4096"
    by code_simp+
  have "selectedNames demo_specs [''nope''] False = Inl (unknown_credential ''nope'')" by code_simp
  then have "op_RefreshMany demo_op demo_specs [''nope''] False ([], 0) = (Some (unknown_credential ''nope''), ([], 0))"
    by (simp add: op_RefreshMany_def)
  then show ?thesis using refresh_command_refines [of ?opts ?host target demo_op demo_specs "([], 0)"] o t by simp
qed

text \<open>
  C36 (safety). The admin socket is never stolen and never open to others: listen removes a file
  only when it is a socket nobody answers on, or the socket it has just created itself; a live
  socket or any other file makes it fail; and when it succeeds it has made the directory private
  (0700) before it created the socket, and then the socket itself (0600). On Linux the connections it hands
  to the server are Unix connections of the daemon's own user, and the others are closed.
\<close>

theorem admin_socket_private:
  assumes "admin_listen os socket = (res, calls)" and "protectListener Linux uid incoming' = (got, closed, rest)"
  shows "(RemoveFile socket \<in> set calls \<longrightarrow>
       (ans_lstat os = IsSocket \<and> ans_dial os = ConnRefused) \<or>
       (ans_lstat os = NotExist \<and> ans_error os (Chmod socket mode_0600) \<noteq> None)) \<and>
    (\<forall>l. res = Inr l \<longrightarrow> l = socket \<and> (\<exists>between.
       calls = [MkdirAll (filepath_Dir socket) mode_0700, Chmod (filepath_Dir socket) mode_0700] @ between @
         [ListenUnixSocket socket, Chmod socket mode_0600] \<and> set between \<subseteq> {Lstat socket, DialUnix socket, RemoveFile socket}) \<and>
       (\<forall>call \<in> set calls - {Lstat socket, DialUnix socket}. ans_error os call = None)) \<and>
    (ListenUnixSocket socket \<in> set calls \<longrightarrow> ans_lstat os = NotExist \<or> (ans_lstat os = IsSocket \<and> ans_dial os = ConnRefused)) \<and>
    (\<forall>c. got = Accepted c \<longrightarrow> conn_unix c \<and> (\<exists>pid. conn_ucred c = Some (uid, pid)) \<and>
       (\<exists>h. incoming' = map Inr h @ rest \<and> map in_conn h = closed @ [c]))"
proof -
  have acc: "\<forall>c. got = Accepted c \<longrightarrow> conn_unix c \<and> (\<exists>pid. conn_ucred c = Some (uid, pid)) \<and>
       (\<exists>h. incoming' = map Inr h @ rest \<and> map in_conn h = closed @ [c])"
    using assms(2) uid_Accept_sound by (simp add: protectListener_def)
  have open_s: "set calls' \<subseteq> {ListenUnixSocket socket, Chmod socket mode_0600, CloseListener socket, RemoveFile socket} \<and>
      (RemoveFile socket \<in> set calls' \<longrightarrow> ans_error os (Chmod socket mode_0600) \<noteq> None) \<and>
      (\<forall>l. res' = Inr l \<longrightarrow> l = socket \<and> calls' = [ListenUnixSocket socket, Chmod socket mode_0600] \<and>
        ans_error os (ListenUnixSocket socket) = None \<and> ans_error os (Chmod socket mode_0600) = None)"
    if "open_socket os socket = (res', calls')" for res' calls'
    using that by (auto simp: open_socket_def split: option.splits)
  show ?thesis
  proof (cases "\<exists>stale. clear_stale os socket = (None, stale)")
    case True
    then obtain stale where st: "clear_stale os socket = (None, stale)" by blast
    obtain res' calls' where op: "open_socket os socket = (res', calls')" by force
    note o = open_s [OF op]
    show ?thesis using assms(1) acc clear_stale_ok [OF st] o st op
      by (auto simp: admin_listen_def Let_def split: if_splits option.splits)
  next
    case False
    then have "\<exists>e stale. clear_stale os socket = (Some e, stale)" by (cases "clear_stale os socket"; cases "fst (clear_stale os socket)") auto
    then obtain e stale where st: "clear_stale os socket = (Some e, stale)" by blast
    show ?thesis using assms(1) acc st
      by (auto simp: admin_listen_def Let_def clear_stale_def split: if_splits option.splits lstat_result.splits dial_result.splits)
  qed
qed

theorem admin_socket_private_witness:
  "\<exists>calls closed rest. admin_listen \<lparr>ans_error = (\<lambda>_. None), ans_lstat = IsSocket, ans_dial = ConnRefused\<rparr> ''/run/c/admin.sock'' =
      (Inr ''/run/c/admin.sock'', calls) \<and>
     protectListener Linux 1000 [Inr \<lparr>in_conn = demo_conn\<lparr>conn_ucred := Some (0, 7)\<rparr>, in_handle = True\<rparr>, Inr \<lparr>in_conn = demo_conn, in_handle = True\<rparr>] =
      (Accepted demo_conn, closed, rest) \<and>
     last calls = Chmod ''/run/c/admin.sock'' mode_0600 \<and> closed = [demo_conn\<lparr>conn_ucred := Some (0, 7)\<rparr>]"
  (is "\<exists>calls closed rest. admin_listen ?os ?sock = _ \<and> protectListener Linux 1000 ?in = _ \<and> _")
proof -
  obtain calls where l: "admin_listen ?os ?sock = (Inr ?sock, calls)"
    by (simp add: admin_listen_def clear_stale_def open_socket_def Let_def)
  have p: "protectListener Linux 1000 ?in = (Accepted demo_conn, [demo_conn\<lparr>conn_ucred := Some (0, 7)\<rparr>], [])"
    by (simp add: protectListener_def demo_conn_def)
  from admin_socket_private [OF l p] l p show ?thesis by auto
qed

end
