(* ===== verification/Win_Secure_File.thy ===== *)
theory Win_Secure_File
  imports Proxy_Types
begin

text \<open>
  Protected files on Windows, internal/winsecurefile: the policies on owners and access control
  entries (policy.go) and the admission of a path with its held handles (file_windows.go). The
  Windows API is a parameter: what it returns, and which handles are open afterwards. SIDs are
  ASCII texts.
\<close>

unbundle bit_operations_syntax

section \<open>policy.go\<close>

datatype aceKind = aceUnsupported | aceAllowed | aceDenied

record accessACE =
  ace_kind :: aceKind
  ace_sid :: string
  ace_mask :: "32 word"
  inheritOnly :: bool

definition systemSID :: string where
  "systemSID = ''S-1-5-18''"

definition localAdministratorsSID :: string where
  "localAdministratorsSID = ''S-1-5-32-544''"

definition trustedInstallerSID :: string where
  "trustedInstallerSID = ''S-1-5-80-956008885-3418522649-1831038044-1853292631-2271478464''"

definition ownerRightsSID :: string where
  "ownerRightsSID = ''S-1-3-4''"

definition genericAll :: "32 word" where "genericAll = 0x10000000"
definition genericExecute :: "32 word" where "genericExecute = 0x20000000"
definition genericWrite :: "32 word" where "genericWrite = 0x40000000"
definition genericRead :: "32 word" where "genericRead = 0x80000000"

definition fileReadData :: "32 word" where "fileReadData = 0x00000001"
definition fileExecute :: "32 word" where "fileExecute = 0x00000020"
definition fileReadEA :: "32 word" where "fileReadEA = 0x00000008"
definition fileReadAttributes :: "32 word" where "fileReadAttributes = 0x00000080"
definition readControl :: "32 word" where "readControl = 0x00020000"
definition synchronize :: "32 word" where "synchronize = 0x00100000"

definition fileGenericRead :: "32 word" where
  "fileGenericRead = fileReadData OR fileReadEA OR fileReadAttributes OR readControl OR synchronize"

definition fileGenericExec :: "32 word" where
  "fileGenericExec = fileExecute OR fileReadAttributes OR readControl OR synchronize"

definition imageReadExec :: "32 word" where
  "imageReadExec = fileGenericRead OR fileGenericExec"

definition sameSID :: "string \<Rightarrow> string \<Rightarrow> bool" where
  "sameSID left right \<longleftrightarrow> left \<noteq> [] \<and> right \<noteq> [] \<and> EqualFold left right"

definition trustedImageSID :: "string \<Rightarrow> string \<Rightarrow> bool" where
  "trustedImageSID sid currentSID \<longleftrightarrow>
     sameSID sid currentSID \<or> sameSID sid systemSID \<or> sameSID sid localAdministratorsSID \<or> sameSID sid trustedInstallerSID"

definition readExecuteOnly :: "32 word \<Rightarrow> bool" where
  "readExecuteOnly am =
     (if am AND (genericWrite OR genericAll) \<noteq> 0 then False
      else
        let allowed = am AND NOT (genericRead OR genericExecute);
            allowed = (if am AND genericRead \<noteq> 0 then allowed OR fileGenericRead else allowed);
            allowed = (if am AND genericExecute \<noteq> 0 then allowed OR fileGenericExec else allowed)
        in allowed AND NOT imageReadExec = 0)"

text \<open>The loops over the entries: None when every entry passes.\<close>

fun secret_entries :: "string \<Rightarrow> accessACE list \<Rightarrow> go_error option" where
  "secret_entries currentSID [] = None"
| "secret_entries currentSID (entry # es) =
     (if inheritOnly entry then secret_entries currentSID es
      else (case ace_kind entry of
              aceDenied \<Rightarrow> secret_entries currentSID es
            | aceAllowed \<Rightarrow>
                if \<not> sameSID (ace_sid entry) currentSID \<and> \<not> sameSID (ace_sid entry) systemSID \<and> \<not> sameSID (ace_sid entry) ownerRightsSID
                then Some (PlainError ''protected secret DACL grants access outside owner and SYSTEM'')
                else secret_entries currentSID es
            | aceUnsupported \<Rightarrow> Some (PlainError ''protected secret DACL contains an unsupported ACE'')))"

definition validateSecretPolicy :: "string \<Rightarrow> string \<Rightarrow> accessACE list \<Rightarrow> go_error option" where
  "validateSecretPolicy ownerSID currentSID entries =
     (if \<not> sameSID ownerSID currentSID then Some (PlainError ''protected secret owner SID mismatch'')
      else if entries = [] then Some (PlainError ''protected secret has no restrictive DACL'')
      else secret_entries currentSID entries)"

fun image_entries :: "string \<Rightarrow> accessACE list \<Rightarrow> go_error option" where
  "image_entries currentSID [] = None"
| "image_entries currentSID (entry # es) =
     (if inheritOnly entry then image_entries currentSID es
      else (case ace_kind entry of
              aceDenied \<Rightarrow> image_entries currentSID es
            | aceAllowed \<Rightarrow>
                if trustedImageSID (ace_sid entry) currentSID \<or> sameSID (ace_sid entry) ownerRightsSID then image_entries currentSID es
                else if \<not> readExecuteOnly (ace_mask entry)
                then Some (PlainError ''managed image DACL grants untrusted write or control access'')
                else image_entries currentSID es
            | aceUnsupported \<Rightarrow> Some (PlainError ''managed image DACL contains an unsupported ACE'')))"

definition validateManagedImagePolicy :: "string \<Rightarrow> string \<Rightarrow> accessACE list \<Rightarrow> go_error option" where
  "validateManagedImagePolicy ownerSID currentSID entries =
     (if currentSID = [] then Some (PlainError ''current user SID is unavailable for managed image admission'')
      else if \<not> trustedImageSID ownerSID currentSID then Some (PlainError ''managed image owner is not trusted'')
      else if entries = [] then Some (PlainError ''managed image has no restrictive DACL'')
      else image_entries currentSID entries)"

section \<open>file_windows.go\<close>

text \<open>
  What the Windows calls return. A security descriptor has an owner, possibly absent, and a DACL:
  none at all, or its entries as GetAce returns them. The trustee of an entry is meaningful for
  the two access types only.
\<close>

type_synonym win_handle = "64 word"

record win_ace =
  AceType :: "8 word"
  AceFlags :: "8 word"
  AceMask :: "32 word"
  AceTrustee :: string

record win_sd =
  sd_Owner :: "go_error + string option"
  sd_DACL :: "go_error + (go_error + win_ace) list option"

record win_info =
  FileAttributes :: "32 word"
  VolumeSerialNumber :: "32 word"
  FileIndexHigh :: "32 word"
  FileIndexLow :: "32 word"

record 'x win_api =
  win_TokenUser :: "'x \<Rightarrow> go_error + string"
  win_Abs :: "string \<Rightarrow> 'x \<Rightarrow> go_error + string"
  win_CreateFile :: "string \<Rightarrow> 32 word \<Rightarrow> 32 word \<Rightarrow> 32 word \<Rightarrow> 'x \<Rightarrow> (go_error + win_handle) \<times> 'x"
  win_CloseHandle :: "win_handle \<Rightarrow> 'x \<Rightarrow> go_error option \<times> 'x"
  win_FileInformation :: "win_handle \<Rightarrow> 'x \<Rightarrow> go_error + win_info"
  win_SecurityInfo :: "win_handle \<Rightarrow> 'x \<Rightarrow> go_error + win_sd"

definition ACCESS_ALLOWED_ACE_TYPE :: "8 word" where "ACCESS_ALLOWED_ACE_TYPE = 0"
definition ACCESS_DENIED_ACE_TYPE :: "8 word" where "ACCESS_DENIED_ACE_TYPE = 1"
definition INHERIT_ONLY_ACE :: "8 word" where "INHERIT_ONLY_ACE = 8"
definition FILE_SHARE_READ :: "32 word" where "FILE_SHARE_READ = 1"
definition FILE_FLAG_OPEN_REPARSE_POINT :: "32 word" where "FILE_FLAG_OPEN_REPARSE_POINT = 0x00200000"
definition FILE_FLAG_BACKUP_SEMANTICS :: "32 word" where "FILE_FLAG_BACKUP_SEMANTICS = 0x02000000"
definition FILE_FLAG_SEQUENTIAL_SCAN :: "32 word" where "FILE_FLAG_SEQUENTIAL_SCAN = 0x08000000"
definition FILE_ATTRIBUTE_DIRECTORY :: "32 word" where "FILE_ATTRIBUTE_DIRECTORY = 0x10"
definition FILE_ATTRIBUTE_REPARSE_POINT :: "32 word" where "FILE_ATTRIBUTE_REPARSE_POINT = 0x400"

record File =
  file_handle :: win_handle
  file_name :: string
  ancestors :: "win_handle list"
  file_components :: "win_handle list"
  file_closed :: bool
  closeErr :: "go_error option"

text \<open>errors.Join of two results, by its text: one line per error.\<close>

fun errors_Join :: "go_error option \<Rightarrow> go_error option \<Rightarrow> go_error option" where
  "errors_Join None e = e"
| "errors_Join e None = e"
| "errors_Join (Some e) (Some e') = Some (PlainError (error_string e @ [CHR 0x0A] @ error_string e'))"

fun close_all :: "'x win_api \<Rightarrow> win_handle list \<Rightarrow> go_error option \<Rightarrow> 'x \<Rightarrow> go_error option \<times> 'x" where
  "close_all api [] err x = (err, x)"
| "close_all api (h # hs) err x = (case win_CloseHandle api h x of (e, x') \<Rightarrow> close_all api hs (errors_Join err e) x')"

definition File_Close :: "'x win_api \<Rightarrow> File \<Rightarrow> 'x \<Rightarrow> go_error option \<times> File \<times> 'x" where
  "File_Close api f x =
     (if file_closed f then (closeErr f, f, x)
      else (case win_CloseHandle api (file_handle f) x of
              (e, x1) \<Rightarrow>
                (case close_all api (rev (ancestors f)) (map_option (WrapError (''close '' @ file_name f)) e) x1 of
                   (err, x2) \<Rightarrow> (err, f\<lparr>file_closed := True, closeErr := err\<rparr>, x2))))"

definition closeHandles :: "'x win_api \<Rightarrow> win_handle list \<Rightarrow> 'x \<Rightarrow> 'x" where
  "closeHandles api hs x = snd (close_all api (rev hs) None x)"

text \<open>
  filepath on Windows. A path whose second byte is a colon has its first two bytes as the volume;
  all other volumes are empty, begin with a separator, or are at least three bytes long, and
  pathParts refuses them alike. Join of the components that pathParts admits adds a separator
  where there is none.
\<close>

definition separator :: char where
  "separator = CHR 0x5C"

definition VolumeName :: "string \<Rightarrow> string" where
  "VolumeName path = (if 2 \<le> length path \<and> path ! 1 = CHR '':'' then take 2 path else [])"

definition win_Join :: "string \<Rightarrow> string \<Rightarrow> string" where
  "win_Join dir part = (if HasSuffix dir [separator] then dir @ part else dir @ [separator] @ part)"

definition pathParts :: "'x win_api \<Rightarrow> string \<Rightarrow> 'x \<Rightarrow> go_error + string \<times> string list" where
  "pathParts api path x =
     (case win_Abs api path x of
        Inl err \<Rightarrow> Inl err
      | Inr absolute \<Rightarrow>
          if HasPrefix absolute [separator, separator] then Inl (PlainError ''protected path must be on a local drive'')
          else let volume = VolumeName absolute in
            if length volume \<noteq> 2 \<or> volume ! 1 \<noteq> CHR '':'' then Inl (PlainError ''protected path must use a local drive letter'')
            else
              let tail = TrimPrefix (TrimPrefix absolute volume) [separator]; parts = Split tail separator in
              if list_ex (\<lambda>part. part = [] \<or> part = ''.'' \<or> part = ''..'') parts
              then Inl (PlainError ''protected path contains an invalid component'')
              else Inr (volume @ [separator], parts))"

definition openComponent :: "'x win_api \<Rightarrow> string \<Rightarrow> bool \<Rightarrow> 'x \<Rightarrow> (go_error + win_handle) \<times> 'x" where
  "openComponent api path isFile x =
     (if CHR 0x00 \<in> set path then (Inl (PlainError ''invalid argument''), x)
      else
        let access = (if isFile then genericRead OR readControl else fileReadAttributes OR readControl);
            flags = (if isFile then FILE_FLAG_OPEN_REPARSE_POINT OR FILE_FLAG_SEQUENTIAL_SCAN
                     else FILE_FLAG_OPEN_REPARSE_POINT OR FILE_FLAG_BACKUP_SEMANTICS)
        in win_CreateFile api path access FILE_SHARE_READ flags x)"

definition validateAttributes :: "win_info \<Rightarrow> bool \<Rightarrow> go_error option" where
  "validateAttributes info isFile =
     (if FileAttributes info AND FILE_ATTRIBUTE_REPARSE_POINT \<noteq> 0 then Some (PlainError ''protected path contains a reparse point'')
      else if (FileAttributes info AND FILE_ATTRIBUTE_DIRECTORY \<noteq> 0) = isFile
      then Some (PlainError ''protected path component has the wrong file type'')
      else None)"

definition check_component :: "'x win_api \<Rightarrow> win_handle \<Rightarrow> bool \<Rightarrow> 'x \<Rightarrow> go_error option" where
  "check_component api handle isFile x =
     (case win_FileInformation api handle x of Inl err \<Rightarrow> Some err | Inr info \<Rightarrow> validateAttributes info isFile)"

definition openDirectory :: "'x win_api \<Rightarrow> string \<Rightarrow> 'x \<Rightarrow> (go_error + win_handle) \<times> 'x" where
  "openDirectory api path x =
     (case openComponent api path False x of
        (Inl err, x1) \<Rightarrow> (Inl (WrapError ''open protected directory'' err), x1)
      | (Inr handle, x1) \<Rightarrow>
          (case check_component api handle False x1 of
             Some err \<Rightarrow> (Inl err, snd (win_CloseHandle api handle x1))
           | None \<Rightarrow> (Inr handle, x1)))"

definition openFinalFile :: "'x win_api \<Rightarrow> string \<Rightarrow> 'x \<Rightarrow> (go_error + win_handle) \<times> 'x" where
  "openFinalFile api path x =
     (case openComponent api path True x of
        (Inl err, x1) \<Rightarrow> (Inl (WrapError ''open protected file'' err), x1)
      | (Inr handle, x1) \<Rightarrow>
          (case check_component api handle True x1 of
             Some err \<Rightarrow> (Inl err, snd (win_CloseHandle api handle x1))
           | None \<Rightarrow> (Inr handle, x1)))"

text \<open>The loop of openPath with its deferred closeHandles on every failure.\<close>

fun open_parts ::
  "'x win_api \<Rightarrow> string \<Rightarrow> win_handle list \<Rightarrow> win_handle list \<Rightarrow> string list \<Rightarrow> 'x \<Rightarrow> (go_error + File) \<times> 'x" where
  "open_parts api path ancs comps [] x = (Inl (PlainError ''protected file path is empty''), closeHandles api ancs x)"
| "open_parts api path ancs comps (part # parts) x =
     (let path' = win_Join path part in
      if parts \<noteq> [] then
        (case openDirectory api path' x of
           (Inl err, x1) \<Rightarrow> (Inl err, closeHandles api ancs x1)
         | (Inr handle, x1) \<Rightarrow> open_parts api path' (ancs @ [handle]) (comps @ [handle]) parts x1)
      else
        (case openFinalFile api path' x of
           (Inl err, x1) \<Rightarrow> (Inl err, closeHandles api ancs x1)
         | (Inr handle, x1) \<Rightarrow>
             (Inr \<lparr>file_handle = handle, file_name = path', ancestors = ancs, file_components = comps @ [handle],
                   file_closed = False, closeErr = None\<rparr>, x1)))"

definition openPath :: "'x win_api \<Rightarrow> string \<Rightarrow> 'x \<Rightarrow> (go_error + File) \<times> 'x" where
  "openPath api path x =
     (case pathParts api path x of
        Inl err \<Rightarrow> (Inl err, x)
      | Inr (root, parts) \<Rightarrow>
          if parts = [] then (Inl (PlainError ''protected file path is empty''), x)
          else (case openDirectory api root x of
                  (Inl err, x1) \<Rightarrow> (Inl (WrapError ''open protected volume root'' err), x1)
                | (Inr rootHandle, x1) \<Rightarrow> open_parts api root [rootHandle] [] parts x1))"

definition protectedComponents :: "File \<Rightarrow> go_error + win_handle list" where
  "protectedComponents file =
     (if length (file_components file) < 3 then Inl (PlainError ''protected path needs a file, parent and grandparent'')
      else Inr (drop (length (file_components file) - 3) (file_components file)))"

definition ace_entry :: "win_ace \<Rightarrow> accessACE" where
  "ace_entry raw =
     (let inherit = (AceFlags raw AND INHERIT_ONLY_ACE \<noteq> 0) in
      if AceType raw = ACCESS_ALLOWED_ACE_TYPE
      then \<lparr>ace_kind = aceAllowed, ace_sid = AceTrustee raw, ace_mask = AceMask raw, inheritOnly = inherit\<rparr>
      else if AceType raw = ACCESS_DENIED_ACE_TYPE
      then \<lparr>ace_kind = aceDenied, ace_sid = AceTrustee raw, ace_mask = AceMask raw, inheritOnly = inherit\<rparr>
      else \<lparr>ace_kind = aceUnsupported, ace_sid = [], ace_mask = 0, inheritOnly = inherit\<rparr>)"

fun ace_loop :: "(go_error + win_ace) list \<Rightarrow> accessACE list \<Rightarrow> go_error + accessACE list" where
  "ace_loop [] entries = Inr entries"
| "ace_loop (Inl err # aces) entries = Inl err"
| "ace_loop (Inr raw # aces) entries = ace_loop aces (entries @ [ace_entry raw])"

definition securityEntries :: "'x win_api \<Rightarrow> win_handle \<Rightarrow> 'x \<Rightarrow> go_error + string \<times> accessACE list" where
  "securityEntries api handle x =
     (case win_SecurityInfo api handle x of
        Inl err \<Rightarrow> Inl (WrapError ''read protected path security descriptor'' err)
      | Inr sd \<Rightarrow>
          (case sd_Owner sd of
             Inr (Some owner) \<Rightarrow>
               (case sd_DACL sd of
                  Inl err \<Rightarrow> Inl (PlainError ''read protected path DACL'')
                | Inr None \<Rightarrow> Inr (owner, [])
                | Inr (Some dacl) \<Rightarrow>
                    (case ace_loop dacl [] of Inl err \<Rightarrow> Inl err | Inr entries \<Rightarrow> Inr (owner, entries)))
           | _ \<Rightarrow> Inl (PlainError ''read protected path owner'')))"

definition validateSecretHandle :: "'x win_api \<Rightarrow> win_handle \<Rightarrow> string \<Rightarrow> 'x \<Rightarrow> go_error option" where
  "validateSecretHandle api handle current x =
     (case securityEntries api handle x of
        Inl err \<Rightarrow> Some err
      | Inr (owner, entries) \<Rightarrow> validateSecretPolicy owner current entries)"

definition validateManagedImageHandle :: "'x win_api \<Rightarrow> win_handle \<Rightarrow> string \<Rightarrow> 'x \<Rightarrow> go_error option" where
  "validateManagedImageHandle api handle current x =
     (case securityEntries api handle x of
        Inl err \<Rightarrow> Some err
      | Inr (owner, entries) \<Rightarrow> validateManagedImagePolicy owner current entries)"

definition win_currentSID :: "'x win_api \<Rightarrow> 'x \<Rightarrow> go_error + string" where
  "win_currentSID api x =
     (case win_TokenUser api x of Inl err \<Rightarrow> Inl (WrapError ''read current process SID'' err) | Inr sid \<Rightarrow> Inr sid)"

fun first_error :: "('a \<Rightarrow> go_error option) \<Rightarrow> 'a list \<Rightarrow> go_error option" where
  "first_error f [] = None"
| "first_error f (a # as) = (case f a of Some err \<Rightarrow> Some err | None \<Rightarrow> first_error f as)"

text \<open>The common body of Open and OpenManagedImage, which differ in the check of a handle.\<close>

definition open_protected ::
  "('x win_api \<Rightarrow> win_handle \<Rightarrow> string \<Rightarrow> 'x \<Rightarrow> go_error option) \<Rightarrow> 'x win_api \<Rightarrow> string \<Rightarrow> 'x \<Rightarrow> (go_error + File \<times> string) \<times> 'x" where
  "open_protected validate api path x =
     (case win_currentSID api x of
        Inl err \<Rightarrow> (Inl err, x)
      | Inr sid \<Rightarrow>
          (case openPath api path x of
             (Inl err, x1) \<Rightarrow> (Inl err, x1)
           | (Inr file, x1) \<Rightarrow>
               (case protectedComponents file of
                  Inl err \<Rightarrow> (Inl err, snd (snd (File_Close api file x1)))
                | Inr components \<Rightarrow>
                    (case first_error (\<lambda>handle. validate api handle sid x1) components of
                       Some err \<Rightarrow> (Inl err, snd (snd (File_Close api file x1)))
                     | None \<Rightarrow> (Inr (file, sid), x1)))))"

definition win_Open :: "'x win_api \<Rightarrow> string \<Rightarrow> 'x \<Rightarrow> (go_error + File \<times> string) \<times> 'x" where
  "win_Open = open_protected validateSecretHandle"

definition OpenManagedImage :: "'x win_api \<Rightarrow> string \<Rightarrow> 'x \<Rightarrow> (go_error + File) \<times> 'x" where
  "OpenManagedImage api path x = apfst (map_sum id fst) (open_protected validateManagedImageHandle api path x)"

definition OpenImage :: "'x win_api \<Rightarrow> string \<Rightarrow> 'x \<Rightarrow> (go_error + File) \<times> 'x" where
  "OpenImage = openPath"

definition SameFile :: "'x win_api \<Rightarrow> File \<Rightarrow> File \<Rightarrow> 'x \<Rightarrow> go_error + bool" where
  "SameFile api a b x =
     (case win_FileInformation api (file_handle a) x of
        Inl err \<Rightarrow> Inl err
      | Inr left \<Rightarrow>
          (case win_FileInformation api (file_handle b) x of
             Inl err \<Rightarrow> Inl err
           | Inr right \<Rightarrow>
               if FileIndexHigh left = 0 \<and> FileIndexLow left = 0 \<or> FileIndexHigh right = 0 \<and> FileIndexLow right = 0
               then Inl (PlainError ''stable Windows file identity is unavailable'')
               else Inr (VolumeSerialNumber left = VolumeSerialNumber right \<and> FileIndexHigh left = FileIndexHigh right \<and>
                         FileIndexLow left = FileIndexLow right)))"

section \<open>Masks\<close>

text \<open>
  What Windows makes of an access mask of a file: the four generic bits stand for the file's
  specific rights (FILE_GENERIC_READ, FILE_GENERIC_WRITE, FILE_GENERIC_EXECUTE, FILE_ALL_ACCESS).
\<close>

definition map_generic :: "32 word \<Rightarrow> 32 word" where
  "map_generic am =
     (am AND NOT 0xF0000000) OR (if bit am 31 then 0x120089 else 0) OR (if bit am 30 then 0x120116 else 0) OR
     (if bit am 29 then 0x1200A0 else 0) OR (if bit am 28 then 0x1F01FF else 0)"

lemmas right_defs =
  genericWrite_def genericAll_def genericRead_def genericExecute_def imageReadExec_def fileGenericRead_def fileGenericExec_def
  fileReadData_def fileExecute_def fileReadEA_def fileReadAttributes_def readControl_def synchronize_def

lemma upt32: "[0..<32::nat] = [0,1,2,3,4,5,6,7,8,9,10,11,12,13,14,15,16,17,18,19,20,21,22,23,24,25,26,27,28,29,30,31]"
  by (simp add: upt_rec)

lemma word_bits32: "(a :: 32 word) = b \<longleftrightarrow> (\<forall>n \<in> set [0..<32]. bit a n = bit b n)"
  by (auto simp: bit_eq_iff bit_simps intro: impossible_bit)

lemma and_zero_iff:
  "(a :: 32 word) AND b = 0 \<longleftrightarrow>
   list_all (\<lambda>n. bit a n \<longrightarrow> \<not> bit b n)
     [0,1,2,3,4,5,6,7,8,9,10,11,12,13,14,15,16,17,18,19,20,21,22,23,24,25,26,27,28,29,30,31]"
  unfolding upt32 [symmetric] by (auto simp: word_bits32 bit_simps list_all_iff)

lemma readExecuteOnly_iff: "readExecuteOnly m \<longleftrightarrow> map_generic m AND NOT imageReadExec = 0"
  by (cases "bit m 31"; cases "bit m 30"; cases "bit m 29"; cases "bit m 28")
    (simp_all add: readExecuteOnly_def map_generic_def and_zero_iff right_defs bit_simps Let_def)

section \<open>Policies\<close>

definition entry_ok :: "(accessACE \<Rightarrow> bool) \<Rightarrow> accessACE \<Rightarrow> bool" where
  "entry_ok grant e \<longleftrightarrow> inheritOnly e \<or> ace_kind e = aceDenied \<or> ace_kind e = aceAllowed \<and> grant e"

definition secret_grant :: "string \<Rightarrow> accessACE \<Rightarrow> bool" where
  "secret_grant current e \<longleftrightarrow> sameSID (ace_sid e) current \<or> sameSID (ace_sid e) systemSID \<or> sameSID (ace_sid e) ownerRightsSID"

definition image_grant :: "string \<Rightarrow> accessACE \<Rightarrow> bool" where
  "image_grant current e \<longleftrightarrow>
     trustedImageSID (ace_sid e) current \<or> sameSID (ace_sid e) ownerRightsSID \<or> map_generic (ace_mask e) AND NOT imageReadExec = 0"

lemma secret_entries_None: "secret_entries current es = None \<longleftrightarrow> list_all (entry_ok (secret_grant current)) es"
  by (induction es) (auto simp: entry_ok_def secret_grant_def split: aceKind.splits)

lemma image_entries_None: "image_entries current es = None \<longleftrightarrow> list_all (entry_ok (image_grant current)) es"
  by (induction es) (auto simp: entry_ok_def image_grant_def readExecuteOnly_iff split: aceKind.splits)

lemma first_error_None: "first_error f as = None \<longleftrightarrow> (\<forall>a \<in> set as. f a = None)"
  by (induction as) (auto split: option.splits)

text \<open>
  An admission policy accepts a security descriptor exactly when its owner is acceptable, it has
  entries, and every effective entry denies or is an acceptable grant; a handle is checked by the
  policy on the entries read through it.
\<close>

locale admission_policy =
  fixes policy :: "string \<Rightarrow> string \<Rightarrow> accessACE list \<Rightarrow> go_error option"
    and validate :: "'x win_api \<Rightarrow> win_handle \<Rightarrow> string \<Rightarrow> 'x \<Rightarrow> go_error option"
    and owner_ok :: "string \<Rightarrow> string \<Rightarrow> bool"
    and grant_ok :: "string \<Rightarrow> accessACE \<Rightarrow> bool"
  assumes policy_iff: "policy owner current es = None \<longleftrightarrow> owner_ok owner current \<and> es \<noteq> [] \<and> list_all (entry_ok (grant_ok current)) es"
    and validate_eq:
      "validate api h current x =
         (case securityEntries api h x of Inl err \<Rightarrow> Some err | Inr (owner, entries) \<Rightarrow> policy owner current entries)"
begin

lemma validated_handle:
  "validate api h current x = None \<longleftrightarrow>
   (\<exists>owner es. securityEntries api h x = Inr (owner, es) \<and> owner_ok owner current \<and> es \<noteq> [] \<and>
      list_all (entry_ok (grant_ok current)) es)"
  by (auto simp: validate_eq policy_iff split: sum.splits)

lemma admitted_path:
  assumes "open_protected validate api path x = (Inr (f, sid), x')"
  shows "win_TokenUser api x = Inr sid \<and> openPath api path x = (Inr f, x') \<and> 3 \<le> length (file_components f) \<and>
    (\<forall>h \<in> set (drop (length (file_components f) - 3) (file_components f)).
       \<exists>owner es. securityEntries api h x' = Inr (owner, es) \<and> owner_ok owner sid \<and> es \<noteq> [] \<and>
         list_all (entry_ok (grant_ok sid)) es)"
  using assms
  by (auto simp: open_protected_def win_currentSID_def protectedComponents_def first_error_None validated_handle
        split: sum.splits prod.splits option.splits if_splits)

end

interpretation secret_policy: admission_policy validateSecretPolicy validateSecretHandle sameSID secret_grant
  by unfold_locales (simp_all add: validateSecretPolicy_def secret_entries_None validateSecretHandle_def)

interpretation image_policy: admission_policy validateManagedImagePolicy validateManagedImageHandle
    "\<lambda>owner current. current \<noteq> [] \<and> trustedImageSID owner current" image_grant
  by unfold_locales (simp_all add: validateManagedImagePolicy_def image_entries_None validateManagedImageHandle_def)

section \<open>Handles\<close>

text \<open>
  What Windows documents of handles: a successful CreateFile opens a new one, a failed one opens
  none, CloseHandle closes the one it is given. held is the set of handles that are open.
\<close>

definition tracks_handles :: "'x win_api \<Rightarrow> ('x \<Rightarrow> win_handle set) \<Rightarrow> bool" where
  "tracks_handles api held \<longleftrightarrow>
     (\<forall>p a s fl x.
        case win_CreateFile api p a s fl x of
          (Inl e, x') \<Rightarrow> held x' = held x
        | (Inr h, x') \<Rightarrow> h \<notin> held x \<and> held x' = insert h (held x)) \<and>
     (\<forall>h x. held (snd (win_CloseHandle api h x)) = held x - {h})"

definition opens_one :: "('x \<Rightarrow> win_handle set) \<Rightarrow> 'x \<Rightarrow> (go_error + win_handle) \<times> 'x \<Rightarrow> bool" where
  "opens_one held x res \<longleftrightarrow>
     (case res of
        (Inl e, x') \<Rightarrow> held x' = held x
      | (Inr h, x') \<Rightarrow> h \<notin> held x \<and> held x' = insert h (held x))"

definition file_handles :: "File \<Rightarrow> win_handle set" where
  "file_handles f = insert (file_handle f) (set (ancestors f))"

lemma close_held: "tracks_handles api held \<Longrightarrow> win_CloseHandle api h x = (e, x') \<Longrightarrow> held x' = held x - {h}"
  unfolding tracks_handles_def by (metis snd_conv)

lemma close_all_held: "tracks_handles api held \<Longrightarrow> held (snd (close_all api hs err x)) = held x - set hs"
  by (induction hs arbitrary: err x) (auto split: prod.splits dest: close_held)

lemma closeHandles_held: "tracks_handles api held \<Longrightarrow> held (closeHandles api hs x) = held x - set hs"
  by (simp add: closeHandles_def close_all_held)

lemma File_Close_held:
  assumes "tracks_handles api held" "\<not> file_closed f"
  shows "held (snd (snd (File_Close api f x))) = held x - file_handles f"
proof -
  obtain e x1 where c: "win_CloseHandle api (file_handle f) x = (e, x1)" by (rule prod.exhaust)
  show ?thesis
    using assms(2) close_held [OF assms(1) c]
      close_all_held [OF assms(1), of "rev (ancestors f)" "map_option (WrapError (''close '' @ file_name f)) e" x1]
    by (auto simp: File_Close_def c file_handles_def case_prod_beta)
qed

lemma openComponent_opens: "tracks_handles api held \<Longrightarrow> opens_one held x (openComponent api path isFile x)"
  unfolding tracks_handles_def openComponent_def opens_one_def Let_def by simp

lemma checked_opens:
  assumes "tracks_handles api held" "opens_one held x (r, x1)"
  shows "opens_one held x
    (case r of
       Inl err \<Rightarrow> (Inl (WrapError msg err), x1)
     | Inr h \<Rightarrow> (case check_component api h isFile x1 of Some err \<Rightarrow> (Inl err, snd (win_CloseHandle api h x1)) | None \<Rightarrow> (Inr h, x1)))"
  using assms by (cases r) (auto simp: opens_one_def tracks_handles_def split: option.splits)

lemma openDirectory_opens:
  assumes "tracks_handles api held"
  shows "opens_one held x (openDirectory api path x)"
proof -
  obtain r x1 where c: "openComponent api path False x = (r, x1)" by (rule prod.exhaust)
  with openComponent_opens [OF assms] have "opens_one held x (r, x1)" by metis
  from checked_opens [OF assms this] show ?thesis unfolding openDirectory_def c prod.case .
qed

lemma openFinalFile_opens:
  assumes "tracks_handles api held"
  shows "opens_one held x (openFinalFile api path x)"
proof -
  obtain r x1 where c: "openComponent api path True x = (r, x1)" by (rule prod.exhaust)
  with openComponent_opens [OF assms] have "opens_one held x (r, x1)" by metis
  from checked_opens [OF assms this] show ?thesis unfolding openFinalFile_def c prod.case .
qed

text \<open>What the loop of openPath does with handles, from ancestors that are open.\<close>

definition opens_file :: "('x \<Rightarrow> win_handle set) \<Rightarrow> win_handle list \<Rightarrow> 'x \<Rightarrow> (go_error + File) \<times> 'x \<Rightarrow> bool" where
  "opens_file held ancs x res \<longleftrightarrow>
     (case res of
        (Inl e, x') \<Rightarrow> held x' = held x - set ancs
      | (Inr f, x') \<Rightarrow> \<not> file_closed f \<and> held x' = held x \<union> file_handles f \<and> set ancs \<subseteq> file_handles f \<and>
          (file_handles f - set ancs) \<inter> held x = {} \<and> set (file_components f) \<subseteq> file_handles f \<and>
          file_components f \<noteq> [] \<and> last (file_components f) = file_handle f)"

lemma open_parts_opens:
  assumes "tracks_handles api held"
  shows "set ancs \<subseteq> held x \<Longrightarrow> set comps \<subseteq> set ancs \<Longrightarrow> opens_file held ancs x (open_parts api path ancs comps parts x)"
proof (induction parts arbitrary: path ancs comps x)
  case Nil
  then show ?case by (simp add: opens_file_def closeHandles_held [OF assms])
next
  case (Cons part parts)
  show ?case
  proof (cases "parts = []")
    case True
    with Cons.prems openFinalFile_opens [OF assms, of x "win_Join path part"] show ?thesis
      by (auto simp: opens_file_def opens_one_def closeHandles_held [OF assms] file_handles_def split: prod.splits sum.splits)
  next
    case False
    obtain r x1 where d: "openDirectory api (win_Join path part) x = (r, x1)" by (rule prod.exhaust)
    note o = openDirectory_opens [OF assms, of x "win_Join path part"]
    show ?thesis
    proof (cases r)
      case (Inl err)
      with o d False show ?thesis
        by (simp add: opens_file_def opens_one_def closeHandles_held [OF assms])
    next
      case (Inr h)
      with o d have h: "h \<notin> held x" "held x1 = insert h (held x)" by (simp_all add: opens_one_def)
      with Cons.prems have "opens_file held (ancs @ [h]) x1 (open_parts api (win_Join path part) (ancs @ [h]) (comps @ [h]) parts x1)"
        by (intro Cons.IH) auto
      with h Inr d False Cons.prems show ?thesis
        by (auto simp: opens_file_def split: prod.splits sum.splits)
    qed
  qed
qed

lemma openPath_opens:
  assumes "tracks_handles api held"
  shows "opens_file held [] x (openPath api path x)"
proof (cases "pathParts api path x")
  case (Inl err)
  then show ?thesis by (simp add: openPath_def opens_file_def)
next
  case (Inr rp)
  obtain root parts where rp: "rp = (root, parts)" by (rule prod.exhaust)
  obtain r x1 where d: "openDirectory api root x = (r, x1)" by (rule prod.exhaust)
  note o = openDirectory_opens [OF assms, of x root]
  show ?thesis
  proof (cases "parts = [] \<or> isl r")
    case True
    with Inr rp d o show ?thesis
      by (auto simp: openPath_def opens_file_def opens_one_def split: sum.splits)
  next
    case False
    then obtain h where h: "r = Inr h" by (cases r) auto
    with o d have "opens_file held [h] x1 (open_parts api root [h] [] parts x1)"
      by (intro open_parts_opens [OF assms]) (simp_all add: opens_one_def)
    with False h Inr rp d o show ?thesis
      by (auto simp: openPath_def opens_file_def opens_one_def split: prod.splits sum.splits)
  qed
qed

lemma open_protected_opens:
  assumes "tracks_handles api held" "open_protected validate api path x = (r, x')"
  shows "case r of
      Inl err \<Rightarrow> held x' = held x
    | Inr (f, sid) \<Rightarrow>
        held x' = held x \<union> file_handles f \<and> file_handles f \<inter> held x = {} \<and> set (file_components f) \<subseteq> held x' \<and>
        held (snd (snd (File_Close api f x'))) = held x"
proof (cases "win_currentSID api x")
  case (Inl err)
  with assms(2) show ?thesis by (auto simp: open_protected_def)
next
  case (Inr sid)
  obtain ro x1 where op: "openPath api path x = (ro, x1)" by (rule prod.exhaust)
  show ?thesis
  proof (cases ro)
    case Inl
    with assms(2) op Inr openPath_opens [OF assms(1), of x path] show ?thesis
      by (auto simp: open_protected_def opens_file_def)
  next
    case (Inr f)
    with openPath_opens [OF assms(1), of x path] op
    have f: "\<not> file_closed f" "held x1 = held x \<union> file_handles f" "file_handles f \<inter> held x = {}"
      "set (file_components f) \<subseteq> file_handles f"
      by (simp_all add: opens_file_def)
    then have "held (snd (snd (File_Close api f x1))) = held x"
      using File_Close_held [OF assms(1) f(1), of x1] by auto
    with f assms(2) op Inr \<open>win_currentSID api x = Inr sid\<close> show ?thesis
      by (auto simp: open_protected_def split: sum.splits option.splits)
  qed
qed

section \<open>A host for the witnesses\<close>

text \<open>
  The world is the list of open handles; the path has one component below the two protected
  directories, the fourth handle is the file.
\<close>

definition demo_create :: "win_handle list \<Rightarrow> (go_error + win_handle) \<times> win_handle list" where
  "demo_create x =
     (case find (\<lambda>h. h \<notin> set x) [1, 2, 3, 4, 5, 6, 7, 8] of
        None \<Rightarrow> (Inl (PlainError ''too many handles''), x)
      | Some h \<Rightarrow> (Inr h, h # x))"

definition demo_api :: "32 word \<Rightarrow> win_handle list win_api" where
  "demo_api other =
     \<lparr>win_TokenUser = \<lambda>x. Inr ''S-1-5-21-7'', win_Abs = \<lambda>p x. Inr p,
      win_CreateFile = \<lambda>p a s fl x. demo_create x,
      win_CloseHandle = \<lambda>h x. (None, filter (\<lambda>k. k \<noteq> h) x),
      win_FileInformation = \<lambda>h x. Inr \<lparr>FileAttributes = (if h = 4 then 0x20 else 0x10), VolumeSerialNumber = 9,
        FileIndexHigh = 0, FileIndexLow = ucast h\<rparr>,
      win_SecurityInfo = \<lambda>h x. Inr \<lparr>sd_Owner = Inr (Some ''S-1-5-21-7''),
        sd_DACL = Inr (Some [Inr \<lparr>AceType = 0, AceFlags = 0, AceMask = 0x1F01FF, AceTrustee = ''s-1-5-21-7''\<rparr>,
                             Inr \<lparr>AceType = 0, AceFlags = (if other = 0 then 8 else 0), AceMask = other, AceTrustee = ''S-1-1-0''\<rparr>])\<rparr>\<rparr>"

lemma demo_tracks: "tracks_handles (demo_api other) set"
  by (auto simp: tracks_handles_def demo_api_def demo_create_def find_Some_iff split: option.splits)

definition demo_path :: string where
  "demo_path = ''C:'' @ [separator] @ ''a'' @ [separator] @ ''b'' @ [separator] @ ''k''"

definition demo_file :: File where
  "demo_file = \<lparr>file_handle = 4, file_name = demo_path, ancestors = [1, 2, 3], file_components = [2, 3, 4],
     file_closed = False, closeErr = None\<rparr>"

lemma demo_open: "win_Open (demo_api 0) demo_path [] = (Inr (demo_file, ''S-1-5-21-7''), [4, 3, 2, 1])"
  by code_simp

lemma demo_open_readable:
  "win_Open (demo_api 0x1200A9) demo_path [] =
     (Inl (PlainError ''protected secret DACL grants access outside owner and SYSTEM''), [])"
  by code_simp

lemma demo_open_image: "OpenManagedImage (demo_api 0x1200A9) demo_path [] = (Inr demo_file, [4, 3, 2, 1])"
  by code_simp

section \<open>Properties\<close>

lemma last_three:
  assumes "3 \<le> length cs"
  shows "\<exists>pre gp p. cs = pre @ [gp, p, last cs] \<and> set (drop (length cs - 3) cs) = {gp, p, last cs}"
proof -
  define ds where "ds = drop (length cs - 3) cs"
  then have "length ds = Suc (Suc (Suc 0))" using assms by simp
  then obtain gp p h where "ds = [gp, p, h]" by (auto simp: length_Suc_conv)
  then have d: "drop (length cs - 3) cs = [gp, p, h]" by (simp add: ds_def)
  then have cs: "cs = take (length cs - 3) cs @ [gp, p, h]" by (metis append_take_drop_id)
  then have "last cs = h" by (metis last.simps last_append list.distinct(1))
  with d cs show ?thesis by force
qed

lemma openPath_last:
  assumes "tracks_handles api held" "openPath api path x = (Inr f, x')"
  shows "last (file_components f) = file_handle f" "set (file_components f) \<subseteq> held x'"
  using openPath_opens [OF assms(1), of x path] assms(2) by (auto simp: opens_file_def)

lemma bit_imageReadExec: "n < 32 \<Longrightarrow> bit imageReadExec n \<longleftrightarrow> n \<in> {0, 3, 5, 7, 17, 20}"
proof -
  have "list_all (\<lambda>n. bit imageReadExec n \<longleftrightarrow> n \<in> {0, 3, 5, 7, 17, 20}) [0..<32]"
    unfolding upt32 by (simp add: right_defs)
  then show "n < 32 \<Longrightarrow> ?thesis" by (simp add: list_all_iff)
qed

lemma within_imageReadExec: "a AND NOT imageReadExec = 0 \<longleftrightarrow> (\<forall>n. bit a n \<longrightarrow> n \<in> {0, 3, 5, 7, 17, 20})"
proof -
  have "a AND NOT imageReadExec = 0 \<longleftrightarrow> (\<forall>n<32. bit a n \<longrightarrow> bit imageReadExec n)"
    by (auto simp: word_bits32 bit_simps)
  moreover have "n < 32" if "bit a n" for n using that by (auto dest: bit_imp_le_length)
  ultimately show ?thesis using bit_imageReadExec by blast
qed

text \<open>
  A secret file opened on Windows passed the confidentiality policy: the file, its
  parent and its grandparent, through handles that are still held, are owned by the current user,
  have entries, and grant access to nobody but the user, SYSTEM and the owner-rights SID; entries
  of unknown types are refused.
\<close>

theorem secret_file_admission:
  assumes "tracks_handles api held" "win_Open api path x = (Inr (f, sid), x')"
  shows "win_TokenUser api x = Inr sid \<and>
    (\<exists>pre gp p. file_components f = pre @ [gp, p, file_handle f] \<and> {gp, p, file_handle f} \<subseteq> held x' \<and>
       (\<forall>h \<in> {gp, p, file_handle f}. \<exists>owner es.
          securityEntries api h x' = Inr (owner, es) \<and> sameSID owner sid \<and> es \<noteq> [] \<and>
          (\<forall>e \<in> set es. inheritOnly e \<or> ace_kind e = aceDenied \<or>
             ace_kind e = aceAllowed \<and>
             (sameSID (ace_sid e) sid \<or> sameSID (ace_sid e) systemSID \<or> sameSID (ace_sid e) ownerRightsSID))))"
proof -
  note a = secret_policy.admitted_path [OF assms(2) [unfolded win_Open_def]]
  then have o: "openPath api path x = (Inr f, x')" by simp
  note l = openPath_last [OF assms(1) o]
  from a last_three [of "file_components f"] l obtain pre gp p
    where "file_components f = pre @ [gp, p, file_handle f]"
      "set (drop (length (file_components f) - 3) (file_components f)) = {gp, p, file_handle f}" by auto
  with a l(2) show ?thesis
    by (fastforce simp: list_all_iff entry_ok_def secret_grant_def)
qed

theorem secret_file_admission_witness:
  "win_Open (demo_api 0) demo_path [] = (Inr (demo_file, ''S-1-5-21-7''), [4, 3, 2, 1]) \<and>
   (\<exists>pre gp p. file_components demo_file = pre @ [gp, p, file_handle demo_file] \<and> {gp, p, file_handle demo_file} \<subseteq> set [4, 3, 2, 1])"
proof (rule conjI [OF demo_open])
  show "\<exists>pre gp p. file_components demo_file = pre @ [gp, p, file_handle demo_file] \<and> {gp, p, file_handle demo_file} \<subseteq> set [4, 3, 2, 1]"
    using secret_file_admission [OF demo_tracks demo_open] by (elim conjE ex_forward) (intro conjI; assumption)
qed

text \<open>
  C23 (bounds). A managed executable opened on Windows passed the integrity policy: file, parent
  and grandparent have a trusted owner, and an entry that grants access to anybody else grants,
  once Windows has mapped the generic rights of its 32-bit mask, only the rights to read data,
  extended attributes and attributes, to execute, to read the descriptor and to synchronise (bits
  0, 3, 7, 5, 17, 20): never to write, delete, or change owner or permissions.
\<close>

theorem managed_image_admission:
  assumes "tracks_handles api held" "OpenManagedImage api path x = (Inr f, x')"
  shows "\<exists>sid pre gp p. win_TokenUser api x = Inr sid \<and> sid \<noteq> [] \<and>
    file_components f = pre @ [gp, p, file_handle f] \<and> {gp, p, file_handle f} \<subseteq> held x' \<and>
    (\<forall>h \<in> {gp, p, file_handle f}. \<exists>owner es.
       securityEntries api h x' = Inr (owner, es) \<and> trustedImageSID owner sid \<and> es \<noteq> [] \<and>
       (\<forall>e \<in> set es. inheritOnly e \<or> ace_kind e = aceDenied \<or>
          ace_kind e = aceAllowed \<and>
          (trustedImageSID (ace_sid e) sid \<or> sameSID (ace_sid e) ownerRightsSID \<or>
           (\<forall>n. bit (map_generic (ace_mask e)) n \<longrightarrow> n \<in> {0, 3, 5, 7, 17, 20}))))"
proof -
  from assms(2) obtain sid where op: "open_protected validateManagedImageHandle api path x = (Inr (f, sid), x')"
    by (cases "open_protected validateManagedImageHandle api path x"; cases "fst (open_protected validateManagedImageHandle api path x)")
      (auto simp: OpenManagedImage_def)
  note a = image_policy.admitted_path [OF op]
  then have o: "openPath api path x = (Inr f, x')" by simp
  note l = openPath_last [OF assms(1) o]
  from a last_three [of "file_components f"] l obtain pre gp p
    where c: "file_components f = pre @ [gp, p, file_handle f]"
      and d: "set (drop (length (file_components f) - 3) (file_components f)) = {gp, p, file_handle f}" by auto
  from a have h: "\<forall>h \<in> {gp, p, file_handle f}. \<exists>owner es. securityEntries api h x' = Inr (owner, es) \<and>
      (sid \<noteq> [] \<and> trustedImageSID owner sid) \<and> es \<noteq> [] \<and> list_all (entry_ok (image_grant sid)) es"
    unfolding d by blast
  then have "sid \<noteq> []" by blast
  with a c l(2) h show ?thesis
    unfolding list_all_iff entry_ok_def image_grant_def within_imageReadExec
    by (intro exI [of _ sid] exI [of _ pre] exI [of _ gp] exI [of _ p]) auto
qed

theorem managed_image_admission_witness:
  "OpenManagedImage (demo_api 0x1200A9) demo_path [] = (Inr demo_file, [4, 3, 2, 1]) \<and>
   (\<exists>sid pre gp p. win_TokenUser (demo_api 0x1200A9) [] = Inr sid \<and> sid \<noteq> [] \<and>
      file_components demo_file = pre @ [gp, p, file_handle demo_file] \<and> {gp, p, file_handle demo_file} \<subseteq> set [4, 3, 2, 1])"
proof (rule conjI [OF demo_open_image])
  show "\<exists>sid pre gp p. win_TokenUser (demo_api 0x1200A9) [] = Inr sid \<and> sid \<noteq> [] \<and>
      file_components demo_file = pre @ [gp, p, file_handle demo_file] \<and> {gp, p, file_handle demo_file} \<subseteq> set [4, 3, 2, 1]"
    using managed_image_admission [OF demo_tracks demo_open_image]
    by (elim ex_forward conjE) (intro conjI; assumption)
qed

text \<open>
  C22 (safety). Opening a protected file leaks no handle: a failure at any point leaves exactly
  the handles open that were open before, a success adds the handles of the file and of all its
  ancestors, none of them open before, and closing the file closes all of them.
\<close>

theorem protected_open_handles:
  assumes "tracks_handles api held" "win_Open api path x = (r, x')" "OpenManagedImage api path y = (m, y')"
  shows "(case r of
            Inl err \<Rightarrow> held x' = held x
          | Inr (f, sid) \<Rightarrow> held x' = held x \<union> file_handles f \<and> file_handles f \<inter> held x = {} \<and>
              set (file_components f) \<subseteq> held x' \<and> held (snd (snd (File_Close api f x'))) = held x) \<and>
         (case m of
            Inl err \<Rightarrow> held y' = held y
          | Inr f \<Rightarrow> held y' = held y \<union> file_handles f \<and> file_handles f \<inter> held y = {} \<and>
              set (file_components f) \<subseteq> held y' \<and> held (snd (snd (File_Close api f y'))) = held y)"
proof -
  obtain r' z where op: "open_protected validateManagedImageHandle api path y = (r', z)" by (rule prod.exhaust)
  with assms(3) have "m = map_sum id fst r'" "y' = z" by (simp_all add: OpenManagedImage_def)
  with open_protected_opens [OF assms(1) op] open_protected_opens [OF assms(1) assms(2) [unfolded win_Open_def]]
  show ?thesis by (auto split: sum.splits)
qed

theorem protected_open_handles_witness:
  "set ([] :: win_handle list) = set [] \<and> file_handles demo_file \<inter> set [] = {} \<and>
   set (snd (snd (File_Close (demo_api 0x1200A9) demo_file [4, 3, 2, 1]))) = set []"
  using protected_open_handles [OF demo_tracks demo_open_readable demo_open_image]
  unfolding sum.case by blast

end
