(* ===== verification/Daemon_Serve.thy ===== *)
theory Daemon_Serve
  imports Admin Win_Secure_File
begin

text \<open>
  The daemon from start to end: the protected token file of the 1Password SDK
  (providers/onepassword/protected_token_unix.go, protected_token_windows.go, NewSDK), the startup
  sequence serve of cmd/credproxyd/main.go up to the running server, and the end of a run: Server.Run,
  admin.Start and the goroutine between them as a step relation.
\<close>

section \<open>The protected token\<close>

record file_stat =
  st_isDir :: bool
  st_isRegular :: bool
  st_perm :: "32 word"
  st_uid :: "32 word"

record token_host =
  th_Lstat :: "string \<Rightarrow> go_error + file_stat"
  th_ReadFile :: "string \<Rightarrow> go_error + bytes"
  th_getuid :: "32 word"

definition ownedByUser :: "token_host \<Rightarrow> file_stat \<Rightarrow> bool" where
  "ownedByUser h info \<longleftrightarrow> st_uid info = th_getuid h"

fun check_dirs :: "token_host \<Rightarrow> string list \<Rightarrow> go_error option" where
  "check_dirs h [] = None"
| "check_dirs h (dir # dirs) =
     (case th_Lstat h dir of
        Inl err \<Rightarrow> Some (WrapError (''stat protected directory '' @ dir) err)
      | Inr info \<Rightarrow>
          if \<not> st_isDir info \<or> st_perm info \<noteq> 0x1C0 \<or> \<not> ownedByUser h info
          then Some (PlainError (''protected directory identity invalid: '' @ dir))
          else check_dirs h dirs)"

definition nonempty_token :: "bytes \<Rightarrow> go_error + string" where
  "nonempty_token raw = (let token = TrimSpace raw in if token = [] then Inl (PlainError ''protected token is empty'') else Inr token)"

definition readProtectedToken :: "token_host \<Rightarrow> string \<Rightarrow> go_error + string" where
  "readProtectedToken h path =
     (case check_dirs h [filepath_Dir (filepath_Dir path), filepath_Dir path] of
        Some err \<Rightarrow> Inl err
      | None \<Rightarrow>
          (case th_Lstat h path of
             Inl err \<Rightarrow> Inl (WrapError ''stat protected token'' err)
           | Inr info \<Rightarrow>
               if \<not> st_isRegular info \<or> st_perm info \<noteq> 0x180 \<or> \<not> ownedByUser h info
               then Inl (PlainError (''protected token identity invalid: '' @ path))
               else (case th_ReadFile h path of
                       Inl err \<Rightarrow> Inl (WrapError ''read protected token'' err)
                     | Inr raw \<Rightarrow> nonempty_token raw)))"

text \<open>On Windows the file is read through the handle that winsecurefile.Open returned.\<close>

definition readProtectedToken_windows ::
  "'x win_api \<Rightarrow> (File \<Rightarrow> 'x \<Rightarrow> (go_error + bytes) \<times> 'x) \<Rightarrow> string \<Rightarrow> 'x \<Rightarrow> (go_error + string) \<times> 'x" where
  "readProtectedToken_windows api readAll path x =
     (case win_Open api path x of
        (Inl err, x1) \<Rightarrow> (Inl (WrapError ''validate protected 1Password token'' err), x1)
      | (Inr (file, sid), x1) \<Rightarrow>
          (case readAll file x1 of
             (Inl err, x2) \<Rightarrow> (Inl (WrapError ''read protected token handle'' err), snd (snd (File_Close api file x2)))
           | (Inr raw, x2) \<Rightarrow> (nonempty_token raw, snd (snd (File_Close api file x2)))))"

definition NewSDK ::
  "(string \<Rightarrow> 'x \<Rightarrow> (go_error + string) \<times> 'x) \<Rightarrow> (string \<Rightarrow> 'x \<Rightarrow> go_error option \<times> 'x) \<Rightarrow> string \<Rightarrow> 'x \<Rightarrow> go_error option \<times> 'x" where
  "NewSDK readToken newClient tokenPath x =
     (case readToken tokenPath x of
        (Inl err, x1) \<Rightarrow> (Some (WrapError ''read protected 1Password token'' err), x1)
      | (Inr token, x1) \<Rightarrow>
          (case newClient token x1 of
             (Some err, x') \<Rightarrow> (Some (WrapError ''initialize 1Password SDK'' err), x')
           | (None, x') \<Rightarrow> (None, x')))"

section \<open>serve\<close>

text \<open>
  What serve takes from outside: the decoded configuration file, the environment, the token file's
  contents, the SDK, hooks, URL parsing, the network and the admin socket's operating system; on
  Windows also the file API, the read through a held handle and the default admin pipe.
\<close>

record ('x, 'o) serve_host =
  sh_platform :: platform
  sh_decode :: "string \<Rightarrow> go_error + Config"
  sh_defaultPipe :: "go_error + string"
  sh_envFuncs :: envFuncs
  sh_ReadFile :: "string \<Rightarrow> go_error + bytes"
  sh_token :: token_host
  sh_newClient :: "string \<Rightarrow> 'x \<Rightarrow> go_error option \<times> 'x"
  sh_hooks :: "'x hook_env"
  sh_op :: "'x op_env"
  sh_parse :: "string \<Rightarrow> go_error + url"
  sh_net :: "'o os_net"
  sh_client :: client_host
  sh_adminOS :: os_answers
  sh_win :: "'x win_api"
  sh_readHandle :: "File \<Rightarrow> 'x \<Rightarrow> (go_error + bytes) \<times> 'x"
  sh_adminPipe :: "go_error + string"

datatype serve_error = ConfigFailed config_error | Failed go_error | Panicked

definition LoadTokens :: "envFuncs \<Rightarrow> (string \<Rightarrow> go_error + bytes) \<Rightarrow> string \<Rightarrow> serve_error + file_token list" where
  "LoadTokens e readFile path =
     (case expandPath (getenv e path) (home e) of
        Inl err \<Rightarrow> Inl (ConfigFailed (FieldError ''config: tokens file'' err))
      | Inr p \<Rightarrow>
          (case readFile p of
             Inl err \<Rightarrow> Inl (Failed (WrapError (''config: tokens file '' @ p) err))
           | Inr data \<Rightarrow> (case parseTokens data of Inl err \<Rightarrow> Inl (ConfigFailed err) | Inr ts \<Rightarrow> Inr ts)))"

definition load_config :: "('x, 'o) serve_host \<Rightarrow> string \<Rightarrow> serve_error + Config" where
  "load_config h cfgPath =
     (case sh_decode h cfgPath of
        Inl err \<Rightarrow> Inl (Failed (WrapError (''config: decode '' @ cfgPath) err))
      | Inr decoded \<Rightarrow>
          (case Load (sh_defaultPipe h) (sh_envFuncs h) decoded of Inl err \<Rightarrow> Inl (ConfigFailed err) | Inr c \<Rightarrow> Inr c))"

definition load_tokens :: "('x, 'o) serve_host \<Rightarrow> Config \<Rightarrow> serve_error + TokenAuth list" where
  "load_tokens h c =
     (case (if AuthTokensFile c \<noteq> [] then LoadTokens (sh_envFuncs h) (sh_ReadFile h) (AuthTokensFile c) else Inr []) of
        Inl err \<Rightarrow> Inl err
      | Inr rawTokens \<Rightarrow>
          let tokens = serve_tokens 0 rawTokens in
          (case ValidateClientIDs (cfg_Routes c) (map ID tokens) of Some err \<Rightarrow> Inl (ConfigFailed err) | None \<Rightarrow> Inr tokens))"

text \<open>The build for the platform decides how the token is read.\<close>

definition protected_token :: "('x, 'o) serve_host \<Rightarrow> string \<Rightarrow> 'x \<Rightarrow> (go_error + string) \<times> 'x" where
  "protected_token h path x =
     (if sh_platform h = Windows then readProtectedToken_windows (sh_win h) (sh_readHandle h) path x
      else (readProtectedToken (sh_token h) path, x))"

text \<open>The store, when there are credentials: its specs (None without a store) and its cache.\<close>

definition open_store :: "('x, 'o) serve_host \<Rightarrow> Config \<Rightarrow> 'x \<Rightarrow> (go_error + op_specs option \<times> op_cache) \<times> 'x" where
  "open_store h c x =
     (if length (Credentials c) = 0 then (Inr (None, []), x)
      else (case NewSDK (protected_token h) (sh_newClient h) (OnePasswordTokenFile c) x of
              (Some err, x1) \<Rightarrow> (Inl err, x1)
            | (None, x1) \<Rightarrow>
                (case op_New (op_credentials_of c) of
                   Inl err \<Rightarrow> (Inl err, x1)
                 | Inr specs \<Rightarrow>
                     (case op_Preload_all (sh_op h) specs ([], x1) of
                        (Some err, (cache, x2)) \<Rightarrow> (Inl err, x2)
                      | (None, (cache, x2)) \<Rightarrow> (Inr (Some specs, cache), x2)))))"

text \<open>serve up to srv.Run: the server, the specs and the admin socket, if there is a store.\<close>

record 'x started =
  run_server :: "'x daemon Server"
  run_specs :: "op_specs option"
  run_socket :: "string option"
  run_cache :: op_cache

text \<open>admin.DefaultSocketPath and listen: a Unix socket, or on Windows a named pipe for the same user.\<close>

definition admin_address :: "('x, 'o) serve_host \<Rightarrow> go_error + string" where
  "admin_address h = (if sh_platform h = Windows then sh_adminPipe h else DefaultSocketPath (sh_client h))"

definition admin_bind :: "('x, 'o) serve_host \<Rightarrow> string \<Rightarrow> 'o \<Rightarrow> (go_error + string) \<times> os_call list \<times> 'o" where
  "admin_bind h socket o0 =
     (if sh_platform h = Windows
      then (if socket = [] then (Inl (PlainError ''admin named-pipe endpoint is empty''), [], o0)
            else (case os_listenPipe (sh_net h) socket [] o0 of
                    (Some err, o1) \<Rightarrow> (Inl err, [], o1)
                  | (None, o1) \<Rightarrow> (Inr socket, [], o1)))
      else (case admin_listen (sh_adminOS h) socket of (res, calls) \<Rightarrow> (res, calls, o0)))"

definition start_admin :: "('x, 'o) serve_host \<Rightarrow> op_specs option \<Rightarrow> 'o \<Rightarrow> (go_error + string option) \<times> os_call list \<times> 'o" where
  "start_admin h specs o0 =
     (case specs of
        None \<Rightarrow> (Inr None, [], o0)
      | Some ss \<Rightarrow>
          (case admin_address h of
             Inl err \<Rightarrow> (Inl err, [], o0)
           | Inr socket \<Rightarrow>
               (case admin_bind h socket o0 of
                  (Inl err, calls, o1) \<Rightarrow> (Inl (WrapError ''admin socket'' err), calls, o1)
                | (Inr s, calls, o1) \<Rightarrow> (Inr (Some s), calls, o1))))"

definition serve :: "('x, 'o) serve_host \<Rightarrow> string \<Rightarrow> 'x \<Rightarrow> 'o \<Rightarrow> (serve_error + 'x started) \<times> 'x \<times> 'o \<times> os_call list" where
  "serve h cfgPath x o0 =
     (case load_config h cfgPath of
        Inl err \<Rightarrow> (Inl err, x, o0, [])
      | Inr c \<Rightarrow>
     (case load_tokens h c of
        Inl err \<Rightarrow> (Inl err, x, o0, [])
      | Inr tokens \<Rightarrow>
     (case open_store h c x of
        (Inl err, x1) \<Rightarrow> (Inl (Failed err), x1, o0, [])
      | (Inr (specs, cache), x1) \<Rightarrow>
     (case New_server (sh_platform h) (sh_parse h) (sh_net h)
             (serve_config c tokens (buildRoutes (sh_hooks h) (sh_op h) (case specs of Some ss \<Rightarrow> ss | None \<Rightarrow> []) 0 (cfg_Routes c))) o0 of
        (Inl err, o1) \<Rightarrow> (Inl (Failed err), x1, o1, [])
      | (Inr None, o1) \<Rightarrow> (Inl Panicked, x1, o1, [])
      | (Inr (Some srv), o1) \<Rightarrow>
     (case start_admin h specs o1 of
        (Inl err, calls, o2) \<Rightarrow> (Inl (Failed err), x1, o2, calls)
      | (Inr socket, calls, o2) \<Rightarrow>
          (Inr \<lparr>run_server = srv, run_specs = specs, run_socket = socket, run_cache = cache\<rparr>, x1, o2, calls))))))"

section \<open>The end of a run\<close>

text \<open>
  Server.Run waits for the context or for a listener's failure. The admin server ends with an
  error, or with nil once the context is done or the server was closed. The goroutine of serve
  stores a failure of the admin server and then stops the context; serve looks for a stored
  failure after Run has returned nil.
\<close>

datatype admin_phase = AdminAbsent | AdminServing | AdminStored | AdminEnded

datatype main_phase = InRun | RunReturned "go_error option" | ServeReturned "go_error option"

record run_state =
  rn_signalled :: bool
  rn_ctxDone :: bool
  rn_admin :: admin_phase
  rn_adminFailure :: "go_error option"
  rn_errCh :: "go_error list"
  rn_main :: main_phase

definition run_start :: "bool \<Rightarrow> run_state" where
  "run_start hasStore =
     \<lparr>rn_signalled = False, rn_ctxDone = False, rn_admin = (if hasStore then AdminServing else AdminAbsent),
      rn_adminFailure = None, rn_errCh = [], rn_main = InRun\<rparr>"

text \<open>The result of admin.serve after server.Serve returned, and the tail of serve.\<close>

definition admin_serve_result :: "go_error option \<Rightarrow> bool \<Rightarrow> go_error option" where
  "admin_serve_result err ctxDone = (if err = None \<or> ctxDone then None else err)"

definition serve_result :: "go_error option \<Rightarrow> go_error option \<Rightarrow> go_error option" where
  "serve_result runErr adminFailure =
     (case runErr of
        Some err \<Rightarrow> Some (WrapError ''server'' err)
      | None \<Rightarrow> map_option (WrapError ''admin socket'') adminFailure)"

text \<open>In admin_ends the error None stands for http.ErrServerClosed; shut is what Shutdown returns.\<close>

inductive run_step :: "run_state \<Rightarrow> run_state \<Rightarrow> bool" where
  signal: "run_step s (s\<lparr>rn_signalled := True, rn_ctxDone := True\<rparr>)"
| admin_fails: "\<lbrakk>rn_admin s = AdminServing; admin_serve_result err (rn_ctxDone s) = Some e\<rbrakk> \<Longrightarrow>
     run_step s (s\<lparr>rn_adminFailure := Some e, rn_admin := AdminStored\<rparr>)"
| admin_stops_ctx: "rn_admin s = AdminStored \<Longrightarrow> run_step s (s\<lparr>rn_ctxDone := True, rn_admin := AdminEnded\<rparr>)"
| admin_ends: "\<lbrakk>rn_admin s = AdminServing; rn_ctxDone s; admin_serve_result err (rn_ctxDone s) = None\<rbrakk> \<Longrightarrow>
     run_step s (s\<lparr>rn_admin := AdminEnded\<rparr>)"
| listener_fails: "rn_main s = InRun \<Longrightarrow> run_step s (s\<lparr>rn_errCh := rn_errCh s @ [err]\<rparr>)"
| run_ctx: "\<lbrakk>rn_main s = InRun; rn_ctxDone s\<rbrakk> \<Longrightarrow> run_step s (s\<lparr>rn_main := RunReturned shut\<rparr>)"
| run_err: "\<lbrakk>rn_main s = InRun; rn_errCh s = err # errs\<rbrakk> \<Longrightarrow> run_step s (s\<lparr>rn_errCh := errs, rn_main := RunReturned (Some err)\<rparr>)"
| return: "rn_main s = RunReturned r \<Longrightarrow> run_step s (s\<lparr>rn_main := ServeReturned (serve_result r (rn_adminFailure s))\<rparr>)"

definition run_inv :: "run_state \<Rightarrow> bool" where
  "run_inv s \<longleftrightarrow>
     (rn_ctxDone s \<longrightarrow> rn_signalled s \<or> rn_adminFailure s \<noteq> None) \<and>
     (rn_admin s = AdminStored \<longrightarrow> rn_adminFailure s \<noteq> None) \<and>
     (rn_main s = RunReturned None \<longrightarrow> rn_ctxDone s) \<and>
     (rn_main s = ServeReturned None \<longrightarrow> rn_signalled s)"

lemma run_step_inv: "run_step s s' \<Longrightarrow> run_inv s \<Longrightarrow> run_inv s'"
  by (induction rule: run_step.induct) (auto simp: run_inv_def serve_result_def split: option.splits)

lemma run_reachable_inv: "run_step\<^sup>*\<^sup>* (run_start hasStore) s \<Longrightarrow> run_inv s"
proof (induction rule: rtranclp_induct)
  case base
  show ?case by (simp add: run_start_def run_inv_def)
next
  case (step y z)
  then show ?case by (blast intro: run_step_inv)
qed

section \<open>A host for the witnesses\<close>

definition demo_token_host :: token_host where
  "demo_token_host =
     \<lparr>th_Lstat = (\<lambda>p. Inr (if p = ''/op/p/token'' then \<lparr>st_isDir = False, st_isRegular = True, st_perm = 0x180, st_uid = 1000\<rparr>
                         else \<lparr>st_isDir = True, st_isRegular = False, st_perm = 0x1C0, st_uid = 1000\<rparr>)),
      th_ReadFile = (\<lambda>_. Inr '' tok ''), th_getuid = 1000\<rparr>"

lemma demo_token: "readProtectedToken demo_token_host ''/op/p/token'' = Inr ''tok''"
  by code_simp

definition demo_loaded :: Config where
  "demo_loaded =
     \<lparr>cfg_ListenTCP = [], cfg_ListenUnix = ''/run/c.sock'', cfg_ListenPipe = [], cfg_RequirePeerSID = [],
      LogLevel = ''info'', AuthTokensFile = [], OnePasswordTokenFile = ''/op/p/token'',
      Credentials = [\<lparr>CredName = ''k'', CredProvider = ''onepassword'', SecretRef = ''op://v/i/f'', Preload = True, TTLSec = 60\<rparr>],
      cfg_Routes = []\<rparr>"

text \<open>A host without the Windows calls.\<close>

definition demo_no_win :: "nat win_api" where
  "demo_no_win =
     (let none = PlainError ''not supported'' in
      \<lparr>win_TokenUser = \<lambda>x. Inl none, win_Abs = \<lambda>p x. Inl none, win_CreateFile = \<lambda>p a s fl x. (Inl none, x), win_CloseHandle = \<lambda>h x. (None, x),
       win_FileInformation = \<lambda>h x. Inl none, win_SecurityInfo = \<lambda>h x. Inl none\<rparr>)"

definition demo_serve_host :: "(nat, unit) serve_host" where
  "demo_serve_host =
     \<lparr>sh_platform = Linux, sh_decode = (\<lambda>_. Inr demo_loaded), sh_defaultPipe = Inr [],
      sh_envFuncs = \<lparr>getenv = (\<lambda>s. s), home = []\<rparr>, sh_ReadFile = (\<lambda>_. Inr []), sh_token = demo_token_host,
      sh_newClient = (\<lambda>_ x. (None, x)),
      sh_hooks = \<lparr>run_hook = (\<lambda>_ _ x. ((None, [], []), x)), time_Now = (\<lambda>_. 0), singleflight_Do = (\<lambda>_ fn. fn)\<rparr>,
      sh_op = demo_op, sh_parse = demo_parse, sh_net = demo_os,
      sh_client = \<lparr>RuntimeDir = ''/run/user/1'', HomeDir = [], Uid = 1, Goos = Linux\<rparr>,
      sh_adminOS = \<lparr>ans_error = (\<lambda>_. None), ans_lstat = IsSocket, ans_dial = ConnRefused\<rparr>,
      sh_win = demo_no_win, sh_readHandle = (\<lambda>_ x. (Inl (PlainError ''not supported''), x)), sh_adminPipe = Inl (PlainError ''not supported'')\<rparr>"

lemma demo_load: "\<exists>c. load_config demo_serve_host p = Inr c \<and> AuthTokensFile c = [] \<and> OnePasswordTokenFile c = ''/op/p/token'' \<and>
    Credentials c = Credentials (demo_loaded) \<and> cfg_Routes c = [] \<and> cfg_ListenTCP c = [] \<and> cfg_ListenUnix c = ''/run/c.sock'' \<and>
    cfg_ListenPipe c = [] \<and> cfg_RequirePeerSID c = []"
  by (simp add: load_config_def demo_serve_host_def demo_loaded_def Load_def Let_def expand_def expandPath_def validate_def
      valid_credential_def known_credential_def fill_ttl_def)

lemma demo_serve: "\<exists>st x calls. serve demo_serve_host p 0 () = (Inr st, x, (), calls)"
proof -
  obtain c where c: "load_config demo_serve_host p = Inr c" "AuthTokensFile c = []" "OnePasswordTokenFile c = ''/op/p/token''"
    "Credentials c = Credentials demo_loaded" "cfg_Routes c = []" "cfg_ListenTCP c = []" "cfg_ListenUnix c = ''/run/c.sock''"
    "cfg_ListenPipe c = []" "cfg_RequirePeerSID c = []"
    using demo_load by blast
  have t: "load_tokens demo_serve_host c = Inr []" using c ValidateClientIDs_iff [of "[]" "[]"] by (simp add: load_tokens_def Let_def)
  have s: "\<exists>ss cache x. open_store demo_serve_host c 0 = (Inr (Some ss, cache), x)"
    using c demo_token by (simp add: open_store_def NewSDK_def demo_serve_host_def demo_loaded_def op_credentials_of_def op_New_def op_spec_ok_def op_Preload_all_def demo_op_def protected_token_def)
  then obtain ss cache x where ss: "open_store demo_serve_host c 0 = (Inr (Some ss, cache), x)" by blast
  have n: "\<exists>srv. New_server Linux demo_parse demo_os (serve_config c [] ([] :: nat daemon Route list)) () = (Inr (Some srv), ())"
    using c by (simp add: New_server_def serve_config_def validatePeerListenerPolicy_def peerCredSupported_def route_conflict_def
        registerRoutes_def mux_Handle_def Let_def openListeners_def openUnixListener_def demo_os_def)
  have j: "filepath_Join ''/run/user/1'' ''credproxyd/admin.sock'' = ''/run/user/1/credproxyd/admin.sock''" by code_simp
  have a: "\<exists>so calls. start_admin demo_serve_host (Some ss) () = (Inr so, calls, ())"
    by (simp add: start_admin_def admin_address_def admin_bind_def demo_serve_host_def DefaultSocketPath_def admin_listen_def open_socket_def j clear_stale_def Let_def)
  have f: "sh_platform demo_serve_host = Linux" "sh_parse demo_serve_host = demo_parse" "sh_net demo_serve_host = demo_os"
    by (simp_all add: demo_serve_host_def)
  show ?thesis using c(1,5) t ss n a f by (auto simp: serve_def)
qed

section \<open>Properties\<close>

lemma check_dirs_None:
  "check_dirs h dirs = None \<longleftrightarrow>
     (\<forall>d \<in> set dirs. \<exists>info. th_Lstat h d = Inr info \<and> st_isDir info \<and> st_perm info = 0x1C0 \<and> st_uid info = th_getuid h)"
  by (induction dirs) (auto simp: ownedByUser_def split: sum.splits)

lemma nonempty_token_Inr: "nonempty_token raw = Inr token \<longleftrightarrow> token = TrimSpace raw \<and> token \<noteq> []"
  by (auto simp: nonempty_token_def Let_def)

text \<open>
  C29 (safety). The 1Password service account token is only taken from a protected file. On Unix
  the file, its directory and the directory above are no symbolic links, belong to the user and
  have exactly the modes 0600 and 0700; on Windows the file passed the confidentiality policy and
  is read through the held handle, and every handle is closed again on every path. The token is
  never empty.
\<close>

theorem token_file_protected:
  assumes "tracks_handles api held" "\<And>f y. held (snd (readAll f y)) = held y"
    and "readProtectedToken_windows api readAll path x = (r, x')"
  shows "held x' = held x \<and>
    (\<forall>token. r = Inr token \<longrightarrow> token \<noteq> [] \<and>
       (\<exists>f sid y raw z. win_Open api path x = (Inr (f, sid), y) \<and> readAll f y = (Inr raw, z) \<and> token = TrimSpace raw)) \<and>
    (\<forall>token. readProtectedToken h path = Inr token \<longrightarrow> token \<noteq> [] \<and>
       (\<exists>raw. th_ReadFile h path = Inr raw \<and> token = TrimSpace raw) \<and>
       (\<exists>info. th_Lstat h path = Inr info \<and> st_isRegular info \<and> st_perm info = 0x180 \<and> st_uid info = th_getuid h) \<and>
       (\<forall>d \<in> {filepath_Dir path, filepath_Dir (filepath_Dir path)}. \<exists>info.
          th_Lstat h d = Inr info \<and> st_isDir info \<and> st_perm info = 0x1C0 \<and> st_uid info = th_getuid h))"
proof (intro conjI)
  obtain ro y where op: "win_Open api path x = (ro, y)" by (rule prod.exhaust)
  note opens = open_protected_opens [OF assms(1) op [unfolded win_Open_def]]
  have closes: "held (snd (snd (File_Close api f z))) = held x" if "ro = Inr (f, sid)" "held z = held y" for f sid z
  proof -
    have "openPath api path x = (Inr f, y)" using secret_policy.admitted_path [OF op [unfolded win_Open_def that(1)]] by simp
    then have "\<not> file_closed f" using openPath_opens [OF assms(1), of x path] by (simp add: opens_file_def)
    from File_Close_held [OF assms(1) this, of z] opens that show ?thesis by auto
  qed
  have rd: "held z = held y" if "readAll f y = (raw, z)" for f raw z using assms(2) [of f y] that by simp
  show "held x' = held x"
    using assms(3) op opens closes rd
    by (auto simp: readProtectedToken_windows_def split: sum.splits prod.splits)
  show "\<forall>token. r = Inr token \<longrightarrow> token \<noteq> [] \<and>
       (\<exists>f sid y raw z. win_Open api path x = (Inr (f, sid), y) \<and> readAll f y = (Inr raw, z) \<and> token = TrimSpace raw)"
    using assms(3) op by (auto simp: readProtectedToken_windows_def nonempty_token_Inr split: sum.splits prod.splits)
  show "\<forall>token. readProtectedToken h path = Inr token \<longrightarrow> token \<noteq> [] \<and>
       (\<exists>raw. th_ReadFile h path = Inr raw \<and> token = TrimSpace raw) \<and>
       (\<exists>info. th_Lstat h path = Inr info \<and> st_isRegular info \<and> st_perm info = 0x180 \<and> st_uid info = th_getuid h) \<and>
       (\<forall>d \<in> {filepath_Dir path, filepath_Dir (filepath_Dir path)}. \<exists>info.
          th_Lstat h d = Inr info \<and> st_isDir info \<and> st_perm info = 0x1C0 \<and> st_uid info = th_getuid h)"
    by (auto simp: readProtectedToken_def check_dirs_None nonempty_token_Inr ownedByUser_def
        split: option.splits sum.splits if_splits)
qed

theorem token_file_protected_witness:
  "readProtectedToken_windows (demo_api 0) (\<lambda>f y. (Inr '' tok '', y)) demo_path [] = (Inr ''tok'', []) \<and>
   readProtectedToken demo_token_host ''/op/p/token'' = Inr ''tok'' \<and> th_ReadFile demo_token_host ''/op/p/token'' = Inr '' tok '' \<and>
   (\<exists>f sid y. win_Open (demo_api 0) demo_path [] = (Inr (f, sid), y))"
proof -
  have r: "readProtectedToken_windows (demo_api 0) (\<lambda>f y. (Inr '' tok '', y)) demo_path [] = (Inr ''tok'', [])" by code_simp
  from token_file_protected [OF demo_tracks _ r] r demo_token show ?thesis by (auto simp: demo_token_host_def)
qed

lemma open_store_Inr:
  assumes "open_store h c x = (Inr (specs, cache), x')"
  shows "(specs = None \<longleftrightarrow> Credentials c = []) \<and>
    (\<forall>ss. specs = Some ss \<longrightarrow> op_New (op_credentials_of c) = Inr ss \<and> (\<exists>x1. op_Preload_all (sh_op h) ss ([], x1) = (None, (cache, x'))))"
  using assms by (auto simp: open_store_def split: if_splits prod.splits option.splits sum.splits)

lemma load_tokens_ids:
  "load_tokens h c = Inr tokens \<Longrightarrow> r \<in> set (cfg_Routes c) \<Longrightarrow> set (rt_AllowedClientIDs r) \<subseteq> ID ` set tokens"
  by (auto simp: load_tokens_def Let_def ValidateClientIDs_iff split: sum.splits option.splits if_splits)

text \<open>
  C8 (safety). The daemon starts in an order that fails closed: before the first listener or the
  admin socket is touched, the configuration has been loaded and validated, the token file parsed,
  every client id of a route found among the tokens, and every pinned credential resolved to a
  nonempty value that is served from then on. A started daemon serves exactly that configuration
  and those tokens, has a listener, and has an admin socket exactly when it has a store.
\<close>

theorem startup_fails_closed:
  assumes "op_alone (sh_op h)" "serve h cfgPath x o0 = (res, x', o', calls)" "o' \<noteq> o0 \<or> calls \<noteq> [] \<or> (\<exists>st. res = Inr st)"
  shows "\<exists>c tokens specs cache. load_config h cfgPath = Inr c \<and> load_tokens h c = Inr tokens \<and> open_store h c x = (Inr (specs, cache), x') \<and>
    (\<forall>r \<in> set (cfg_Routes c). set (rt_AllowedClientIDs r) \<subseteq> ID ` set tokens) \<and>
    (specs = None \<longleftrightarrow> Credentials c = []) \<and>
    (\<forall>ss. specs = Some ss \<longrightarrow> (\<forall>(n, spec) \<in> set ss. op_Preload spec \<longrightarrow>
       (\<exists>v. v \<noteq> [] \<and> (\<forall>w. op_Get (sh_op h) ss n (cache, w) = (Inr v, (cache, w)))))) \<and>
    (\<forall>st. res = Inr st \<longrightarrow> run_specs st = specs \<and> run_cache st = cache \<and>
       srv_cfg (run_server st) =
         serve_config c tokens (buildRoutes (sh_hooks h) (sh_op h) (case specs of Some ss \<Rightarrow> ss | None \<Rightarrow> []) 0 (cfg_Routes c)) \<and>
       srv_tokens (run_server st) = token_entries tokens \<and> srv_listeners (run_server st) \<noteq> [] \<and>
       (run_socket st = None \<longleftrightarrow> specs = None))"
proof -
  from assms(2,3) obtain c tokens specs cache where l: "load_config h cfgPath = Inr c" "load_tokens h c = Inr tokens"
      "open_store h c x = (Inr (specs, cache), x')"
    by (auto simp: serve_def split: sum.splits prod.splits option.splits)
  have pinned: "\<exists>v. v \<noteq> [] \<and> (\<forall>w. op_Get (sh_op h) ss n (cache, w) = (Inr v, (cache, w)))"
    if "specs = Some ss" "(n, spec) \<in> set ss" "op_Preload spec" for ss n spec
  proof -
    from open_store_Inr [OF l(3)] that(1) obtain x1
      where s: "op_New (op_credentials_of c) = Inr ss" "op_Preload_all (sh_op h) ss ([], x1) = (None, (cache, x'))" by blast
    from preloaded_are_pinned [OF s(1) assms(1) s(2)] that show ?thesis by blast
  qed
  have started: "run_specs st = specs \<and> run_cache st = cache \<and>
       srv_cfg (run_server st) =
         serve_config c tokens (buildRoutes (sh_hooks h) (sh_op h) (case specs of Some ss \<Rightarrow> ss | None \<Rightarrow> []) 0 (cfg_Routes c)) \<and>
       srv_tokens (run_server st) = token_entries tokens \<and> srv_listeners (run_server st) \<noteq> [] \<and>
       (run_socket st = None \<longleftrightarrow> specs = None)" if "res = Inr st" for st
  proof -
    let ?cfg = "serve_config c tokens (buildRoutes (sh_hooks h) (sh_op h) (case specs of Some ss \<Rightarrow> ss | None \<Rightarrow> []) 0 (cfg_Routes c))"
    from assms(2) that l obtain srv socket o1 where n: "New_server (sh_platform h) (sh_parse h) (sh_net h) ?cfg o0 = (Inr (Some srv), o1)"
        "start_admin h specs o1 = (Inr socket, calls, o')" "st = \<lparr>run_server = srv, run_specs = specs, run_socket = socket, run_cache = cache\<rparr>"
      by (auto simp: serve_def split: sum.splits prod.splits option.splits)
    have "AuthTokens ?cfg = tokens" by (simp add: serve_config_def)
    with New_server_Some [OF n(1)] n(2,3) show ?thesis
      by (auto simp: start_admin_def split: option.splits sum.splits prod.splits)
  qed
  have ids: "\<forall>r \<in> set (cfg_Routes c). set (rt_AllowedClientIDs r) \<subseteq> ID ` set tokens" using load_tokens_ids [OF l(2)] by blast
  have pins: "\<forall>ss. specs = Some ss \<longrightarrow> (\<forall>(n, spec) \<in> set ss. op_Preload spec \<longrightarrow>
       (\<exists>v. v \<noteq> [] \<and> (\<forall>w. op_Get (sh_op h) ss n (cache, w) = (Inr v, (cache, w)))))" using pinned by blast
  note runs = allI [OF impI [OF started]]
  show ?thesis
    by (rule exI [of _ c], rule exI [of _ tokens], rule exI [of _ specs], rule exI [of _ cache])
      (intro conjI l ids pins runs open_store_Inr [OF l(3), THEN conjunct1])
qed

theorem startup_fails_closed_witness:
  "\<exists>st x calls c. serve demo_serve_host ''c.toml'' 0 () = (Inr st, x, (), calls) \<and> load_config demo_serve_host ''c.toml'' = Inr c \<and>
     srv_listeners (run_server st) \<noteq> []"
proof -
  obtain st x calls where s: "serve demo_serve_host ''c.toml'' 0 () = (Inr st, x, (), calls)" using demo_serve by blast
  have o: "op_alone (sh_op demo_serve_host)" using demo_op_alone by (simp add: demo_serve_host_def)
  show ?thesis using startup_fails_closed [OF o s] s by fastforce
qed

text \<open>
  C9 (safety). The daemon reports success only when it was told to stop: in every interleaving of
  signals, listener failures, the admin server's goroutine and Run, serve returns nil only after a
  signal; a failed listener, or an admin server that failed and thereby stopped the daemon, ends
  it with an error.
\<close>

theorem clean_exit_only_when_signalled:
  assumes "run_step\<^sup>*\<^sup>* (run_start hasStore) s" "rn_main s = ServeReturned r" "\<not> rn_signalled s"
  shows "\<exists>err. r = Some err"
  using run_reachable_inv [OF assms(1)] assms(2,3) by (cases r) (auto simp: run_inv_def)

theorem clean_exit_only_when_signalled_witness:
  "\<exists>s err. run_step\<^sup>*\<^sup>* (run_start True) s \<and> rn_main s = ServeReturned (Some err) \<and> \<not> rn_signalled s"
proof -
  let ?e = "PlainError ''accept''"
  let ?s1 = "(run_start True)\<lparr>rn_errCh := [?e]\<rparr>"
  let ?s2 = "?s1\<lparr>rn_errCh := [], rn_main := RunReturned (Some ?e)\<rparr>"
  let ?s3 = "?s2\<lparr>rn_main := ServeReturned (serve_result (Some ?e) (rn_adminFailure ?s2))\<rparr>"
  have "run_step (run_start True) ?s1" using listener_fails [of "run_start True" ?e] by (simp add: run_start_def)
  moreover have "run_step ?s1 ?s2" using run_err [of ?s1 ?e "[]"] by (simp add: run_start_def)
  moreover have "run_step ?s2 ?s3" using run_step.return [of ?s2 "Some ?e"] by (simp add: run_start_def)
  ultimately have r: "run_step\<^sup>*\<^sup>* (run_start True) ?s3" by (meson converse_rtranclp_into_rtranclp rtranclp.rtrancl_refl)
  have m: "\<exists>r. rn_main ?s3 = ServeReturned r" "\<not> rn_signalled ?s3" by (simp_all add: run_start_def)
  from clean_exit_only_when_signalled [OF r _ m(2)] m r show ?thesis by blast
qed

end
