(* ===== verification/Go_Time.thy ===== *)
theory Go_Time
  imports Go_Prelude "HOL-Library.Monad_Syntax"
begin

text \<open>
  The part of Go's package time that the sources use on calendar dates: time.Parse with the
  layout RFC 3339 (and with a literal Z for the zone) and Time.Format with RFC 3339 in UTC, over
  the proleptic Gregorian calendar, with the proof that the two agree. An \<^typ>\<open>instant\<close> counts nanoseconds from 1970; days count from
  the first of January of year 1.
\<close>

section \<open>The calendar\<close>

definition leap :: "int \<Rightarrow> bool" where
  "leap y \<longleftrightarrow> y mod 4 = 0 \<and> (y mod 100 \<noteq> 0 \<or> y mod 400 = 0)"

definition days_before_year :: "int \<Rightarrow> int" where
  "days_before_year y = 365 * (y - 1) + (y - 1) div 4 - (y - 1) div 100 + (y - 1) div 400"

definition days_in :: "int \<Rightarrow> nat \<Rightarrow> int" where
  "days_in y m = (if m = 2 then if leap y then 29 else 28 else if m \<in> {4, 6, 9, 11} then 30 else 31)"

fun days_before_month :: "int \<Rightarrow> nat \<Rightarrow> int" where
  "days_before_month y 0 = 0"
| "days_before_month y (Suc m) = (if m = 0 then 0 else days_before_month y m + days_in y m)"

definition date_days :: "int \<Rightarrow> nat \<Rightarrow> int \<Rightarrow> int" where
  "date_days y m d = days_before_year y + days_before_month y m + (d - 1)"

text \<open>The year of a day, by the 400, 100, 4 and 1 year cycles, and its month.\<close>

definition year_of :: "int \<Rightarrow> int" where
  "year_of n =
     (let d1 = n mod 146097; n100 = min 3 (d1 div 36524); d2 = d1 - 36524 * n100;
          d3 = d2 mod 1461; n1 = min 3 (d3 div 365)
      in 400 * (n div 146097) + 100 * n100 + 4 * (d2 div 1461) + n1 + 1)"

fun month_from :: "int \<Rightarrow> nat \<Rightarrow> nat \<Rightarrow> int \<Rightarrow> nat \<times> int" where
  "month_from y 0 m r = (m, r)"
| "month_from y (Suc n) m r = (if r < days_in y m then (m, r) else month_from y n (Suc m) (r - days_in y m))"

definition unix_days :: int where
  "unix_days = 719162"

section \<open>Format\<close>

definition pad :: "nat \<Rightarrow> nat \<Rightarrow> string" where
  "pad w n = replicate (w - length (decimal n)) (CHR ''0'') @ decimal n"

definition format_year :: "int \<Rightarrow> string" where
  "format_year y = (if y < 0 then CHR ''-'' # pad 4 (nat (- y)) else pad 4 (nat y))"

definition Format_RFC3339 :: "instant \<Rightarrow> string" where
  "Format_RFC3339 t =
     (let s = t div 1000000000; n = s div 86400 + unix_days; clock = s mod 86400; y = year_of n;
          (m, r) = month_from y 11 1 (n - days_before_year y)
      in format_year y @ ''-'' @ pad 2 m @ ''-'' @ pad 2 (nat (r + 1)) @ ''T'' @
         pad 2 (nat (clock div 3600)) @ '':'' @ pad 2 (nat (clock div 60 mod 60)) @ '':'' @ pad 2 (nat (clock mod 60)) @ ''Z'')"

section \<open>Parse\<close>

definition digit :: "char \<Rightarrow> nat" where
  "digit c = of_char c - 48"

fun getnum :: "bool \<Rightarrow> string \<Rightarrow> (nat \<times> string) option" where
  "getnum fixed [] = None"
| "getnum fixed (c # s) =
     (if \<not> is_digit c then None
      else case s of
             d # s' \<Rightarrow> if is_digit d then Some (10 * digit c + digit d, s') else if fixed then None else Some (digit c, s)
           | [] \<Rightarrow> if fixed then None else Some (digit c, []))"

definition getyear :: "string \<Rightarrow> (nat \<times> string) option" where
  "getyear s =
     (if 4 \<le> length s \<and> list_all (\<lambda>c. is_digit c) (take 4 s) then Some (numeral_value (take 4 s), drop 4 s) else None)"

definition literal :: "char \<Rightarrow> string \<Rightarrow> string option" where
  "literal c s = (case s of d # s' \<Rightarrow> if d = c then Some s' else None | [] \<Rightarrow> None)"

text \<open>A fraction of a second that the layout does not name: at most nine digits count.\<close>

definition getfrac :: "string \<Rightarrow> int \<times> string" where
  "getfrac s =
     (case s of
        c # d # s' \<Rightarrow>
          if (c = CHR ''.'' \<or> c = CHR '','') \<and> is_digit d
          then let ds = takeWhile (\<lambda>c. is_digit c) (d # s'); us = take 9 ds in
            (foldl (\<lambda>n c. 10 * n + int (digit c)) 0 us * 10 ^ (9 - length us), drop (length ds) (d # s'))
          else (0, s)
      | _ \<Rightarrow> (0, s))"

datatype zone_layout = ZoneOffset | ZoneLiteral

definition getzone :: "zone_layout \<Rightarrow> string \<Rightarrow> (int \<times> string) option" where
  "getzone layout s =
     (case literal (CHR ''Z'') s of
        Some s' \<Rightarrow> Some (0, s')
      | None \<Rightarrow>
          if layout = ZoneLiteral \<or> length s < 6 \<or> s ! 3 \<noteq> CHR '':'' then None
          else (case (getnum True (take 2 (drop 1 s)), getnum True (take 2 (drop 4 s))) of
                  (Some (hr, _), Some (mm, _)) \<Rightarrow>
                    if 24 < hr \<or> 60 < mm then None
                    else let offset = (int hr * 60 + int mm) * 60 in
                      if s ! 0 = CHR ''+'' then Some (offset, drop 6 s)
                      else if s ! 0 = CHR ''-'' then Some (- offset, drop 6 s)
                      else None
                | _ \<Rightarrow> None))"

definition date_instant :: "int \<Rightarrow> nat \<Rightarrow> nat \<Rightarrow> nat \<Rightarrow> nat \<Rightarrow> nat \<Rightarrow> int \<Rightarrow> int \<Rightarrow> instant" where
  "date_instant y m d hh mm ss ns offset =
     ((date_days y m (int d) - unix_days) * 86400 + (int hh * 3600 + int mm * 60 + int ss) - offset) * 1000000000 + ns"

definition clock_ok :: "int \<Rightarrow> nat \<Rightarrow> nat \<Rightarrow> nat \<Rightarrow> nat \<Rightarrow> nat \<Rightarrow> bool" where
  "clock_ok y m d hh mm ss \<longleftrightarrow> 1 \<le> m \<and> m \<le> 12 \<and> 1 \<le> d \<and> int d \<le> days_in y m \<and> hh < 24 \<and> mm < 60 \<and> ss < 60"

definition Parse_time :: "zone_layout \<Rightarrow> string \<Rightarrow> instant option" where
  "Parse_time layout s0 = do {
     (y, s) \<leftarrow> getyear s0;
     s \<leftarrow> literal (CHR ''-'') s;
     (m, s) \<leftarrow> getnum True s;
     s \<leftarrow> literal (CHR ''-'') s;
     (d, s) \<leftarrow> getnum True s;
     s \<leftarrow> literal (CHR ''T'') s;
     (hh, s) \<leftarrow> getnum False s;
     s \<leftarrow> literal (CHR '':'') s;
     (mm, s) \<leftarrow> getnum True s;
     s \<leftarrow> literal (CHR '':'') s;
     (ss, s) \<leftarrow> getnum True s;
     (ns, s) \<leftarrow> Some (getfrac s);
     (offset, s) \<leftarrow> getzone layout s;
     if s = [] \<and> clock_ok (int y) m d hh mm ss then Some (date_instant (int y) m d hh mm ss ns offset) else None }"

section \<open>The calendar is consistent\<close>

lemma div_pred: "0 < (k::int) \<Longrightarrow> y div k = (y - 1) div k + (if y mod k = 0 then 1 else 0)"
proof -
  assume k: "0 < k"
  define q r where "q = y div k" and "r = y mod k"
  have y: "y = k * q + r" "0 \<le> r" "r < k" using k by (simp_all add: q_def r_def)
  show ?thesis
  proof (cases "r = 0")
    case True
    have "(y - 1) div k = q - 1" by (rule int_div_pos_eq [of _ _ _ "k - 1"]) (use y True k in \<open>simp_all add: algebra_simps\<close>)
    then show ?thesis using True by (simp add: q_def r_def)
  next
    case False
    have "(y - 1) div k = q" by (rule int_div_pos_eq [of _ _ _ "r - 1"]) (use y False in \<open>simp_all\<close>)
    then show ?thesis using False by (simp add: q_def r_def)
  qed
qed

lemma mod_mult_zero: "y mod (a * b) = 0 \<Longrightarrow> y mod (a::int) = 0"
  by (metis dvd_triv_left mod_0_imp_dvd dvd_imp_mod_0 dvd_trans)

lemma days_before_year_step: "days_before_year (y + 1) = days_before_year y + (if leap y then 366 else 365)"
proof -
  define p q r where "p \<longleftrightarrow> y mod 4 = 0" and "q \<longleftrightarrow> y mod 100 = 0" and "r \<longleftrightarrow> y mod 400 = 0"
  have m: "r \<Longrightarrow> q" "q \<Longrightarrow> p"
    unfolding p_def q_def r_def using mod_mult_zero [of y 100 4] mod_mult_zero [of y 4 25] by simp_all
  have l: "leap y \<longleftrightarrow> p \<and> (\<not> q \<or> r)" by (simp add: leap_def p_def q_def r_def)
  have "days_before_year (y + 1) = 365 * y + y div 4 - y div 100 + y div 400" by (simp add: days_before_year_def)
  also have "\<dots> = 365 * y + ((y - 1) div 4 + (if p then 1 else 0)) - ((y - 1) div 100 + (if q then 1 else 0))
     + ((y - 1) div 400 + (if r then 1 else 0))"
    unfolding p_def q_def r_def div_pred [OF zero_less_numeral, of y] ..
  also have "\<dots> = days_before_year y + (if leap y then 366 else 365)"
    unfolding days_before_year_def l using m by (cases p; cases q; cases r) simp_all
  finally show ?thesis .
qed

lemma days_before_year_cycles:
  assumes "0 \<le> b" "b \<le> 3" "0 \<le> c" "c \<le> 24" "0 \<le> d" "d \<le> (3::int)"
  shows "days_before_year (400 * a + 100 * b + 4 * c + d + 1) = 146097 * a + 36524 * b + 1461 * c + 365 * d"
proof -
  let ?z = "100 * b + 4 * c + d"
  have z: "(400 * a + ?z) div 4 = 100 * a + 25 * b + c"
    by (rule int_div_pos_eq [of _ _ _ d]) (use assms in \<open>simp_all add: algebra_simps\<close>)
  have z2: "(400 * a + ?z) div 100 = 4 * a + b"
    by (rule int_div_pos_eq [of _ _ _ "4 * c + d"]) (use assms in \<open>simp_all add: algebra_simps\<close>)
  have z3: "(400 * a + ?z) div 400 = a"
    by (rule int_div_pos_eq [of _ _ _ ?z]) (use assms in \<open>simp_all add: algebra_simps\<close>)
  have "days_before_year (400 * a + 100 * b + 4 * c + d + 1) =
      365 * (400 * a + ?z) + (400 * a + ?z) div 4 - (400 * a + ?z) div 100 + (400 * a + ?z) div 400"
    unfolding days_before_year_def by (simp add: add.assoc)
  then show ?thesis unfolding z z2 z3 by simp
qed

lemma leap_cycles:
  assumes "0 \<le> b" "b \<le> 3" "0 \<le> c" "c \<le> 24" "c \<noteq> 24 \<or> b = (3::int)"
  shows "leap (400 * a + 100 * b + 4 * c + 4)"
proof -
  let ?y = "400 * a + 100 * b + 4 * c + 4"
  have m4: "?y mod 4 = 0"
    by (rule int_mod_pos_eq [of _ _ "100 * a + 25 * b + c + 1"]) simp_all
  show ?thesis
  proof (cases "c = 24")
    case True
    have "?y mod 400 = 0" by (rule int_mod_pos_eq [of _ _ "a + 1"]) (use True assms(5) in simp_all)
    then show ?thesis using m4 by (simp add: leap_def)
  next
    case False
    have "?y mod 100 = 4 * c + 4" by (rule int_mod_pos_eq [of _ _ "4 * a + b"]) (use False assms(3,4) in simp_all)
    then show ?thesis using m4 assms(3) by (simp add: leap_def)
  qed
qed

lemma year_of_bounds: "days_before_year (year_of n) \<le> n \<and> n < days_before_year (year_of n + 1)"
proof -
  define a where "a = n div 146097"
  define d1 where "d1 = n mod 146097"
  define b where "b = min 3 (d1 div 36524)"
  define d2 where "d2 = d1 - 36524 * b"
  define c where "c = d2 div 1461"
  define d3 where "d3 = d2 mod 1461"
  define d where "d = min 3 (d3 div 365)"
  have y: "year_of n = 400 * a + 100 * b + 4 * c + d + 1"
    by (simp add: year_of_def Let_def a_def d1_def b_def d2_def c_def d3_def d_def)
  have n: "n = 146097 * a + d1" "0 \<le> d1" "d1 < 146097" by (simp_all add: a_def d1_def)
  have h: "0 \<le> b" "b \<le> 3" "0 \<le> d2" "d2 < 36524 \<or> (b = 3 \<and> d2 \<le> 36524)" "d1 = d2 + 36524 * b"
    using n unfolding b_def d2_def by linarith+
  have q: "d2 = 1461 * c + d3" "0 \<le> d3" "d3 < 1461" "0 \<le> c" "c \<le> 24" using h by (auto simp: c_def d3_def)
  have o: "0 \<le> d" "d \<le> 3" "365 * d \<le> d3" "d3 < 365 * d + 365 \<or> (d = 3 \<and> d3 = 1460)"
    using q unfolding d_def by linarith+
  note start = days_before_year_cycles [OF h(1,2) q(4,5) o(1,2), of a, folded y]
  have "n = days_before_year (year_of n) + (d3 - 365 * d)" using start n h(5) q(1) by simp
  moreover have "d3 - 365 * d < (if leap (year_of n) then 366 else 365)"
  proof (cases "d3 < 365 * d + 365")
    case True
    then show ?thesis by auto
  next
    case False
    then have "d = 3" "d3 = 1460" using o(4) by auto
    moreover from this have "c \<noteq> 24 \<or> b = 3" using h(4) q(1) by auto
    ultimately show ?thesis using leap_cycles [OF h(1,2) q(4,5), of a] y by (simp add: algebra_simps)
  qed
  ultimately show ?thesis using o(3) days_before_year_step [of "year_of n"] by simp
qed

text \<open>The month of a day of the year.\<close>

lemma month_from_days:
  "\<lbrakk>month_from y k m r = (m', r'); 1 \<le> m; 0 \<le> r; r < days_before_month y (m + k + 1) - days_before_month y m\<rbrakk> \<Longrightarrow>
     m \<le> m' \<and> m' \<le> m + k \<and> 0 \<le> r' \<and> r' < days_in y m' \<and> days_before_month y m' + r' = days_before_month y m + r"
proof (induction k arbitrary: m r)
  case (Suc k)
  show ?case
  proof (cases "r < days_in y m")
    case False
    have s: "days_before_month y (Suc m) = days_before_month y m + days_in y m" using Suc.prems(2) by simp
    have "month_from y k (Suc m) (r - days_in y m) = (m', r')" using Suc.prems(1) False by simp
    from Suc.IH [OF this] show ?thesis using Suc.prems False s by simp
  qed (use Suc.prems in auto)
qed auto

lemma days_before_month_13: "days_before_month y 13 = (if leap y then 366 else 365)"
  by (simp add: numeral_eq_Suc days_in_def)

lemma date_days_of:
  assumes "year_of n = y" and "month_from y 11 1 (n - days_before_year y) = (m, r)"
  shows "1 \<le> m \<and> m \<le> 12 \<and> 0 \<le> r \<and> r < days_in y m \<and> date_days y m (r + 1) = n"
proof -
  have b: "0 \<le> n - days_before_year y" "n - days_before_year y < (if leap y then 366 else 365)"
    using year_of_bounds [of n] days_before_year_step [of y] assms(1) by auto
  have "days_before_month y (1 + 11 + 1) - days_before_month y 1 = (if leap y then 366 else 365)"
    using days_before_month_13 [of y] by simp
  with month_from_days [OF assms(2)] b show ?thesis by (simp add: date_days_def)
qed

section \<open>Parse and Format agree\<close>

lemma is_digit_char_of: "k < 10 \<Longrightarrow> is_digit (char_of (48 + k :: nat))"
  by (simp add: in_range_def)

lemma decimal_digits: "list_all (\<lambda>c. is_digit c) (decimal n)"
proof (induction n rule: decimal.induct)
  case (1 n)
  then show ?case by (subst decimal.simps) (simp add: is_digit_char_of)
qed

lemma decimal_length: "\<lbrakk>n < 10 ^ w; 0 < w\<rbrakk> \<Longrightarrow> length (decimal n) \<le> w"
proof (induction w arbitrary: n)
  case (Suc w)
  show ?case
  proof (cases "n < 10")
    case False
    then have "w \<noteq> 0" using Suc.prems by (cases w) auto
    moreover have "n div 10 < 10 ^ w" using Suc.prems(1) by (simp add: less_mult_imp_div_less mult.commute)
    ultimately show ?thesis using Suc.IH [of "n div 10"] False by (subst decimal.simps) simp
  qed (subst decimal.simps, simp)
qed simp

lemma numeral_value_zeros: "numeral_value (replicate k (CHR ''0'') @ ds) = numeral_value ds"
  by (induction k) (simp_all add: numeral_value_def)

lemma pad_props: "\<lbrakk>n < 10 ^ w; 0 < w\<rbrakk> \<Longrightarrow>
    length (pad w n) = w \<and> list_all (\<lambda>c. is_digit c) (pad w n) \<and> numeral_value (pad w n) = n"
proof -
  have z: "is_digit (CHR ''0'')" by code_simp
  show "\<lbrakk>n < 10 ^ w; 0 < w\<rbrakk> \<Longrightarrow> ?thesis"
    using decimal_length [of n w] decimal_digits [of n] z by (auto simp: pad_def numeral_value_zeros list_all_iff)
qed

lemma getyear_pad: "n < 10000 \<Longrightarrow> getyear (pad 4 n @ s) = Some (n, s)"
  using pad_props [of n 4] by (simp add: getyear_def)

lemma getnum_pad: "n < 100 \<Longrightarrow> getnum fixed (pad 2 n @ s) = Some (n, s)"
proof -
  assume "n < 100"
  then have p: "length (pad 2 n) = 2" "list_all (\<lambda>c. is_digit c) (pad 2 n)" "numeral_value (pad 2 n) = n"
    using pad_props [of n 2] by auto
  then obtain c d where cd: "pad 2 n = [c, d]" by (auto simp: length_Suc_conv numeral_2_eq_2)
  then show ?thesis using p by (simp add: numeral_value_def digit_def)
qed

lemma literal_hit [simp]: "literal c (c # s) = Some s"
  by (simp add: literal_def)

lemma Parse_Format:
  assumes "0 \<le> year_of (t div 1000000000 div 86400 + unix_days)" and "year_of (t div 1000000000 div 86400 + unix_days) \<le> 9999"
  shows "Parse_time layout (Format_RFC3339 t) = Some (t div 1000000000 * 1000000000)"
proof -
  define s where "s = t div 1000000000"
  define n where "n = s div 86400 + unix_days"
  define clock where "clock = s mod 86400"
  define y where "y = year_of n"
  obtain m r where mr: "month_from y 11 1 (n - days_before_year y) = (m, r)" by force
  note date = date_days_of [OF y_def [symmetric] mr]
  have y: "0 \<le> y" "y \<le> 9999" using assms by (simp_all add: y_def n_def s_def)
  define hh mm ss where "hh = nat (clock div 3600)" and "mm = nat (clock div 60 mod 60)" and "ss = nat (clock mod 60)"
  have c: "0 \<le> clock" "clock < 86400" by (simp_all add: clock_def)
  have k: "hh < 24" "mm < 60" "ss < 60" using c by (auto simp: hh_def mm_def ss_def)
  have sum: "int hh * 3600 + int mm * 60 + int ss = clock"
  proof -
    have "clock div 3600 = clock div 60 div 60" using zdiv_zmult2_eq [of 60 clock 60] by simp
    then have "int hh * 60 + int mm = clock div 60"
      using c div_mult_mod_eq [of "clock div 60" 60] by (simp add: hh_def mm_def)
    moreover have "int ss = clock mod 60" by (simp add: ss_def)
    moreover have "(int hh * 60 + int mm) * 60 + int ss = int hh * 3600 + int mm * 60 + int ss" by simp
    ultimately show ?thesis by (metis div_mult_mod_eq)
  qed
  have r: "days_in y m \<le> 31" by (simp add: days_in_def)
  have f: "Format_RFC3339 t = pad 4 (nat y) @ ''-'' @ pad 2 m @ ''-'' @ pad 2 (nat (r + 1)) @ ''T'' @
      pad 2 hh @ '':'' @ pad 2 mm @ '':'' @ pad 2 ss @ ''Z''"
    using y mr by (simp add: Format_RFC3339_def Let_def s_def n_def clock_def y_def format_year_def hh_def mm_def ss_def)
  have fr: "getfrac ''Z'' = (0, ''Z'')" "getzone layout ''Z'' = Some (0, [])" by (simp_all add: getfrac_def getzone_def)
  have b: "nat y < 10000" "int (nat y) = y" "m < 100" "nat (r + 1) < 100" "hh < 100" "mm < 100" "ss < 100"
    using y date r k by auto
  have ok: "clock_ok y m (nat (r + 1)) hh mm ss" using date k by (auto simp: clock_ok_def)
  have "Parse_time layout (Format_RFC3339 t) = Some (date_instant y m (nat (r + 1)) hh mm ss 0 0)"
    unfolding f Parse_time_def using ok b by (simp add: getyear_pad getnum_pad fr)
  also have "date_instant y m (nat (r + 1)) hh mm ss 0 0 = s * 1000000000"
  proof -
    have "int (nat (r + 1)) = r + 1" using date by simp
    moreover have "(n - unix_days) * 86400 + clock = s" by (simp add: n_def clock_def)
    ultimately show ?thesis unfolding date_instant_def sum using date by simp
  qed
  finally show ?thesis by (simp add: s_def)
qed

end
