(* ===== verification/Go_Flag.thy ===== *)
theory Go_Flag
  imports Go_Time
begin

text \<open>
  Go's flag package as the commands use it: FlagSet.Parse over string, boolean and integer flags,
  with strconv.ParseBool and strconv.ParseInt in base 0. The usage text that a failure prints is
  left out, and error messages carry values without the escapes of the verb %q.
\<close>

section \<open>Numbers and booleans\<close>

datatype num_error = SyntaxError | RangeError

definition lower_byte :: "char \<Rightarrow> nat" where
  "lower_byte c = (let n = of_char c in if 65 \<le> n \<and> n \<le> 90 then n + 32 else n)"

definition digit_value :: "char \<Rightarrow> nat option" where
  "digit_value c =
     (let n = lower_byte c in
      if 48 \<le> n \<and> n \<le> 57 then Some (n - 48) else if 97 \<le> n \<and> n \<le> 122 then Some (n - 97 + 10) else None)"

fun parse_digits :: "nat \<Rightarrow> nat \<Rightarrow> string \<Rightarrow> num_error + nat" where
  "parse_digits base n [] = Inr n"
| "parse_digits base n (c # cs) =
     (if c = CHR ''_'' then parse_digits base n cs
      else (case digit_value c of
              None \<Rightarrow> Inl SyntaxError
            | Some d \<Rightarrow>
                if base \<le> d then Inl SyntaxError
                else if 2 ^ 64 \<le> n * base + d then Inl RangeError
                else parse_digits base (n * base + d) cs))"

text \<open>underscoreOK: the state is what was seen last, a digit or base prefix, an underscore, the start or something else.\<close>

datatype seen = SeenStart | SeenDigit | SeenUnderscore | SeenOther

fun underscores_ok :: "bool \<Rightarrow> seen \<Rightarrow> string \<Rightarrow> bool" where
  "underscores_ok hex i [] = (i \<noteq> SeenUnderscore)"
| "underscores_ok hex i (c # cs) =
     (if is_digit c \<or> hex \<and> 97 \<le> lower_byte c \<and> lower_byte c \<le> 102 then underscores_ok hex SeenDigit cs
      else if c = CHR ''_'' then i = SeenDigit \<and> underscores_ok hex SeenUnderscore cs
      else i \<noteq> SeenUnderscore \<and> underscores_ok hex SeenOther cs)"

definition base_prefix :: "string \<Rightarrow> nat option" where
  "base_prefix s =
     (case s of
        z # c # _ \<Rightarrow>
          if z \<noteq> CHR ''0'' then None
          else if lower_byte c = 98 then Some 2 else if lower_byte c = 111 then Some 8 else if lower_byte c = 120 then Some 16 else None
      | _ \<Rightarrow> None)"

definition underscoreOK :: "string \<Rightarrow> bool" where
  "underscoreOK s =
     (case base_prefix s of
        Some base \<Rightarrow> underscores_ok (base = 16) SeenDigit (drop 2 s)
      | None \<Rightarrow> underscores_ok False SeenStart s)"

definition ParseUint0 :: "string \<Rightarrow> num_error + nat" where
  "ParseUint0 s =
     (if s = [] then Inl SyntaxError
      else
        let (base, digits) =
          (if hd s \<noteq> CHR ''0'' then (10, s)
           else (case (if 3 \<le> length s then base_prefix s else None) of
                   Some base \<Rightarrow> (base, drop 2 s)
                 | None \<Rightarrow> (8, drop 1 s)))
        in (case parse_digits base 0 digits of
              Inl err \<Rightarrow> Inl err
            | Inr n \<Rightarrow> if CHR ''_'' \<in> set digits \<and> \<not> underscoreOK s then Inl SyntaxError else Inr n))"

definition ParseInt0 :: "string \<Rightarrow> num_error + int" where
  "ParseInt0 s =
     (if s = [] then Inl SyntaxError
      else
        let neg = (hd s = CHR ''-''); digits = (if hd s = CHR ''-'' \<or> hd s = CHR ''+'' then drop 1 s else s)
        in (case ParseUint0 digits of
              Inl err \<Rightarrow> Inl err
            | Inr n \<Rightarrow>
                if \<not> neg \<and> 2 ^ 63 \<le> n \<or> neg \<and> 2 ^ 63 < n then Inl RangeError
                else Inr (if neg then - int n else int n)))"

definition ParseBool :: "string \<Rightarrow> bool option" where
  "ParseBool s =
     (if s \<in> set [''1'', ''t'', ''T'', ''TRUE'', ''true'', ''True''] then Some True
      else if s \<in> set [''0'', ''f'', ''F'', ''FALSE'', ''false'', ''False''] then Some False else None)"

section \<open>Parse\<close>

datatype flag_kind = StringFlag | BoolFlag | IntFlag

datatype flag_value = FString string | FBool bool | FInt int

definition flag_Set :: "flag_kind \<Rightarrow> string \<Rightarrow> string + flag_value" where
  "flag_Set k v =
     (case k of
        StringFlag \<Rightarrow> Inr (FString v)
      | BoolFlag \<Rightarrow> (case ParseBool v of Some b \<Rightarrow> Inr (FBool b) | None \<Rightarrow> Inl ''parse error'')
      | IntFlag \<Rightarrow>
          (case ParseInt0 v of
             Inr n \<Rightarrow> Inr (FInt n)
           | Inl SyntaxError \<Rightarrow> Inl ''parse error''
           | Inl RangeError \<Rightarrow> Inl ''value out of range''))"

text \<open>name=value, split at the first equals sign that is not the first character.\<close>

definition split_value :: "string \<Rightarrow> string \<times> string option" where
  "split_value name =
     (case IndexByte (drop 1 name) (CHR ''='') of
        Some i \<Rightarrow> (take (Suc i) name, Some (drop (Suc (Suc i)) name))
      | None \<Rightarrow> (name, None))"

text \<open>
  What parseOne makes of an argument: the end of the flags (with or without consuming it), bad
  syntax, or a flag with its name and value.
\<close>

datatype flag_token = EndBefore | EndAfter | BadSyntax | FlagToken string "string option"

definition flag_token :: "string \<Rightarrow> flag_token" where
  "flag_token s =
     (if length s < 2 \<or> hd s \<noteq> CHR ''-'' then EndBefore
      else if s = ''--'' then EndAfter
      else
        let name = (if s ! 1 = CHR ''-'' then drop 2 s else drop 1 s) in
        if name = [] \<or> hd name = CHR ''-'' \<or> hd name = CHR ''='' then BadSyntax
        else (case split_value name of (n, v) \<Rightarrow> FlagToken n v))"

type_synonym flag_set = "(string \<times> flag_kind) list"

text \<open>The value of a flag, and the arguments after it: a boolean flag never takes the next argument.\<close>

definition flag_argument :: "flag_kind \<Rightarrow> string option \<Rightarrow> string list \<Rightarrow> (string \<times> string list) option" where
  "flag_argument k given args =
     (case given of
        Some v \<Rightarrow> Some (v, args)
      | None \<Rightarrow>
          if k = BoolFlag then Some (''true'', args)
          else (case args of [] \<Rightarrow> None | v # args' \<Rightarrow> Some (v, args')))"

lemma flag_argument_length: "flag_argument k given args = Some (v, args') \<Longrightarrow> length args' \<le> length args"
  by (auto simp: flag_argument_def split: option.splits if_splits list.splits)

definition flag_cons ::
  "string \<Rightarrow> flag_value \<Rightarrow> go_error + (string \<times> flag_value) list \<times> string list \<Rightarrow> go_error + (string \<times> flag_value) list \<times> string list" where
  "flag_cons name x r = (case r of Inl err \<Rightarrow> Inl err | Inr (vs, rest) \<Rightarrow> Inr ((name, x) # vs, rest))"

lemma flag_cons_Inr [simp]:
  "flag_cons name x r = Inr (vs, rest) \<longleftrightarrow> (\<exists>vs'. vs = (name, x) # vs' \<and> r = Inr (vs', rest))"
  by (auto simp: flag_cons_def split: sum.splits)

lemma flag_cons_simps [simp]: "flag_cons name x (Inr (vs, rest)) = Inr ((name, x) # vs, rest)" "flag_cons name x (Inl err) = Inl err"
  by (simp_all add: flag_cons_def)

function flag_Parse :: "flag_set \<Rightarrow> string list \<Rightarrow> go_error + (string \<times> flag_value) list \<times> string list" where
  "flag_Parse formal [] = Inr ([], [])"
| "flag_Parse formal (s # args) =
     (case flag_token s of
        EndBefore \<Rightarrow> Inr ([], s # args)
      | EndAfter \<Rightarrow> Inr ([], args)
      | BadSyntax \<Rightarrow> Inl (PlainError (''bad flag syntax: '' @ s))
      | FlagToken name given \<Rightarrow>
          (case map_of formal name of
             None \<Rightarrow>
               if name = ''help'' \<or> name = ''h'' then Inl (PlainError ''flag: help requested'')
               else Inl (PlainError (''flag provided but not defined: -'' @ name))
           | Some k \<Rightarrow>
               (case flag_argument k given args of
                  None \<Rightarrow> Inl (PlainError (''flag needs an argument: -'' @ name))
                | Some (v, args') \<Rightarrow>
                    (case flag_Set k v of
                       Inl err \<Rightarrow>
                         Inl (PlainError ((if k = BoolFlag then ''invalid boolean value '' @ v @ '' for -'' else ''invalid value '' @ v @ '' for flag -'') @
                           name @ '': '' @ err))
                     | Inr x \<Rightarrow> flag_cons name x (flag_Parse formal args')))))"
  by pat_completeness auto
termination
  by (relation "measure (\<lambda>(formal, args). length args)") (auto dest: flag_argument_length)

text \<open>The value of a variable bound to a flag: the last one set, or its default; all of them for a list.\<close>

definition flag_values :: "(string \<times> flag_value) list \<Rightarrow> string \<Rightarrow> flag_value list" where
  "flag_values vs name = map snd (filter (\<lambda>(n, v). n = name) vs)"

definition flag_string :: "(string \<times> flag_value) list \<Rightarrow> string \<Rightarrow> string \<Rightarrow> string" where
  "flag_string vs name dflt =
     (case flag_values vs name of [] \<Rightarrow> dflt | ws \<Rightarrow> (case last ws of FString s \<Rightarrow> s | _ \<Rightarrow> dflt))"

definition flag_bool :: "(string \<times> flag_value) list \<Rightarrow> string \<Rightarrow> bool" where
  "flag_bool vs name = (case flag_values vs name of [] \<Rightarrow> False | ws \<Rightarrow> last ws = FBool True)"

definition flag_int :: "(string \<times> flag_value) list \<Rightarrow> string \<Rightarrow> int \<Rightarrow> int" where
  "flag_int vs name dflt =
     (case flag_values vs name of [] \<Rightarrow> dflt | ws \<Rightarrow> (case last ws of FInt n \<Rightarrow> n | _ \<Rightarrow> dflt))"

definition flag_list :: "(string \<times> flag_value) list \<Rightarrow> string \<Rightarrow> string list" where
  "flag_list vs name = concat (map (\<lambda>v. case v of FString s \<Rightarrow> [s] | _ \<Rightarrow> []) (flag_values vs name))"

section \<open>Reading back what was printed\<close>

lemma digit_value_digit: "is_digit c \<Longrightarrow> digit_value c = Some (of_char c - 48) \<and> of_char c - 48 < (10::nat) \<and> c \<noteq> CHR ''_''"
  by (auto simp: in_range_def digit_value_def lower_byte_def Let_def)

lemma numeral_ge: "(n::nat) \<le> foldl (\<lambda>n d. 10 * n + (of_char d - 48)) n ds"
proof (induction ds arbitrary: n)
  case (Cons d ds)
  have "n \<le> 10 * n + (of_char d - 48)" by simp
  also have "\<dots> \<le> foldl (\<lambda>n d. 10 * n + (of_char d - 48)) (10 * n + (of_char d - 48)) ds" by (rule Cons.IH)
  finally show ?case by simp
qed simp

lemma parse_digits_decimal:
  "\<lbrakk>list_all (\<lambda>c. is_digit c) ds; foldl (\<lambda>n d. 10 * n + (of_char d - 48)) n ds < 2 ^ 64\<rbrakk> \<Longrightarrow>
     parse_digits 10 n ds = Inr (foldl (\<lambda>n d. 10 * n + (of_char d - 48)) n ds)"
proof (induction ds arbitrary: n)
  case (Cons d ds)
  let ?m = "10 * n + (of_char d - 48) :: nat"
  have "?m < 2 ^ 64" using Cons.prems(2) numeral_ge [of ?m ds] by simp
  with Cons.IH [of ?m] Cons.prems digit_value_digit [of d] show ?case by (simp add: mult.commute)
qed simp

lemma decimal_hd: "decimal n \<noteq> [] \<and> (0 < n \<longrightarrow> hd (decimal n) \<noteq> CHR ''0'')"
proof (induction n rule: decimal.induct)
  case (1 n)
  show ?case
  proof (cases "n < 10")
    case True
    have "char_of (48 + n) \<noteq> CHR ''0''" if "0 < n"
    proof
      assume "char_of (48 + n) = CHR ''0''"
      then have "of_char (char_of (48 + n) :: char) = (48::nat)" by simp
      then show False using True that by simp
    qed
    then show ?thesis using True by (simp add: decimal.simps [of n])
  next
    case False
    with 1 have "decimal (n div 10) \<noteq> []" "hd (decimal (n div 10)) \<noteq> CHR ''0''" by auto
    with False show ?thesis by (simp add: decimal.simps [of n])
  qed
qed

lemma no_underscore: "list_all (\<lambda>c. is_digit c) ds \<Longrightarrow> CHR ''_'' \<notin> set ds"
  by (auto simp: list_all_iff in_range_def)

lemma ParseUint0_decimal: "n < 2 ^ 64 \<Longrightarrow> ParseUint0 (decimal n) = Inr n"
proof (cases "n = 0")
  case True
  have "decimal 0 = ''0''" by code_simp
  with True show ?thesis by (simp add: ParseUint0_def)
next
  case False
  assume "n < 2 ^ 64"
  then have "parse_digits 10 0 (decimal n) = Inr n"
    using parse_digits_decimal [OF decimal_digits, of 0 n] numeral_value_decimal [of n] by (simp add: numeral_value_def)
  with False decimal_hd [of n] no_underscore [OF decimal_digits, of n] show ?thesis by (simp add: ParseUint0_def)
qed

lemma decimal_no_sign: "hd (decimal n) \<noteq> CHR ''-'' \<and> hd (decimal n) \<noteq> CHR ''+''"
proof -
  have "is_digit (hd (decimal n))" using decimal_digits [of n] decimal_hd [of n] by (auto simp: list_all_iff)
  then show ?thesis by (auto simp: in_range_def)
qed

lemma ParseInt0_FormatInt:
  assumes "- (2 ^ 63) \<le> n" "n < 2 ^ 63"
  shows "ParseInt0 (FormatInt n) = Inr n"
proof (cases "n < 0")
  case True
  with assms have "ParseUint0 (decimal (nat (- n))) = Inr (nat (- n))" "\<not> 2 ^ 63 < nat (- n)"
    by (auto intro: ParseUint0_decimal)
  with True show ?thesis by (simp add: ParseInt0_def FormatInt_def)
next
  case False
  with assms have "ParseUint0 (decimal (nat n)) = Inr (nat n)" "\<not> 2 ^ 63 \<le> nat n"
    by (auto intro: ParseUint0_decimal)
  with False decimal_hd [of "nat n"] decimal_no_sign [of "nat n"] show ?thesis by (simp add: ParseInt0_def FormatInt_def)
qed

text \<open>A flag printed as two arguments is read back, whatever its value is.\<close>

definition plain_name :: "string \<Rightarrow> bool" where
  "plain_name n \<longleftrightarrow> n \<noteq> [] \<and> CHR ''='' \<notin> set n \<and> hd n \<noteq> CHR ''-''"

lemma flag_token_plain: "plain_name n \<Longrightarrow> flag_token (''--'' @ n) = FlagToken n None"
proof -
  assume n: "plain_name n"
  then have "CHR ''='' \<notin> set (drop 1 n)" by (auto simp: plain_name_def dest: in_set_dropD)
  then have "IndexByte (drop 1 n) (CHR ''='') = None" by (simp add: IndexByte_None)
  moreover have "hd n \<noteq> CHR ''=''" using n by (cases n) (auto simp: plain_name_def)
  ultimately show ?thesis using n by (simp add: flag_token_def plain_name_def split_value_def)
qed

lemma flag_Parse_string:
  assumes "plain_name n" "map_of formal n = Some StringFlag"
  shows "flag_Parse formal ((''--'' @ n) # v # args) =
    flag_cons n (FString v) (flag_Parse formal args)"
  using assms flag_token_plain [OF assms(1)] by (simp add: flag_Set_def flag_argument_def)

lemma flag_Parse_int:
  assumes "plain_name n" "map_of formal n = Some IntFlag" "- (2 ^ 63) \<le> i" "i < 2 ^ 63"
  shows "flag_Parse formal ((''--'' @ n) # FormatInt i # args) =
    flag_cons n (FInt i) (flag_Parse formal args)"
  using assms(1,2) flag_token_plain [OF assms(1)] ParseInt0_FormatInt [OF assms(3,4)] by (simp add: flag_Set_def flag_argument_def)

lemma flag_Parse_bool:
  assumes "plain_name n" "map_of formal n = Some BoolFlag"
  shows "flag_Parse formal ((''--'' @ n) # args) =
    flag_cons n (FBool True) (flag_Parse formal args)"
  using assms flag_token_plain [OF assms(1)] by (simp add: flag_Set_def flag_argument_def ParseBool_def)

text \<open>What Parse returns sets only flags of the set, each to a value of its kind.\<close>

fun value_kind :: "flag_value \<Rightarrow> flag_kind" where
  "value_kind (FString s) = StringFlag"
| "value_kind (FBool b) = BoolFlag"
| "value_kind (FInt n) = IntFlag"

lemma flag_Set_kind: "flag_Set k v = Inr x \<Longrightarrow> value_kind x = k"
  by (auto simp: flag_Set_def split: flag_kind.splits option.splits sum.splits num_error.splits)

lemma flag_Parse_typed:
  "flag_Parse formal args = Inr (vs, rest) \<Longrightarrow> (n, v) \<in> set vs \<Longrightarrow> map_of formal n = Some (value_kind v)"
proof (induction formal args arbitrary: vs rest rule: flag_Parse.induct)
  case (2 formal s args)
  show ?case
  proof (cases vs)
    case (Cons nx vs')
    with "2.prems"(1) obtain given k w args' x
      where t: "flag_token s = FlagToken (fst nx) given" "map_of formal (fst nx) = Some k" "flag_argument k given args = Some (w, args')"
        "flag_Set k w = Inr x" "snd nx = x" "flag_Parse formal args' = Inr (vs', rest)"
      by (auto split: flag_token.splits option.splits sum.splits if_splits)
    have "map_of formal n = Some (value_kind v)" if "(n, v) \<in> set vs'"
      using "2.IH" [OF t(1,2,3) refl t(4,6) that] .
    then show ?thesis using "2.prems"(2) Cons t(2,4,5) flag_Set_kind [OF t(4)] by (cases nx) auto
  qed (use "2.prems"(2) in simp)
qed simp

end
