(* ===== verification/File_Store.thy ===== *)
theory File_Store
  imports Daemon_Config
begin

text \<open>
  The file store, credproxy/store/file.go. The file system is a directory of names over inodes, so
  that an open file survives a rename; a Save is a sequence of system calls that can fail or be cut
  off anywhere, and several Saves can interleave.
\<close>

section \<open>The file system\<close>

record fs =
  fs_names :: "string \<Rightarrow> nat option"
  fs_data :: "nat \<Rightarrow> 32 word \<times> bytes"
  fs_next :: nat
  fs_umask :: "32 word"

definition contents :: "fs \<Rightarrow> string \<Rightarrow> bytes option" where
  "contents f p = map_option (\<lambda>i. snd (fs_data f i)) (fs_names f p)"

definition file_mode :: "fs \<Rightarrow> string \<Rightarrow> 32 word option" where
  "file_mode f p = map_option (\<lambda>i. fst (fs_data f i)) (fs_names f p)"

text \<open>open with O_WRONLY, O_CREATE and O_TRUNC: the mode counts only for a file that did not exist.\<close>

definition open_trunc :: "string \<Rightarrow> 32 word \<Rightarrow> fs \<Rightarrow> nat \<times> fs" where
  "open_trunc p mode f =
     (case fs_names f p of
        Some i \<Rightarrow> (i, f\<lparr>fs_data := (fs_data f)(i := (fst (fs_data f i), []))\<rparr>)
      | None \<Rightarrow>
          (fs_next f, f\<lparr>fs_names := (fs_names f)(p \<mapsto> fs_next f), fs_next := Suc (fs_next f),
             fs_data := (fs_data f)(fs_next f := (mode AND NOT (fs_umask f), []))\<rparr>))"

text \<open>write at an offset of an open file; a gap reads as zeros.\<close>

definition write_at :: "nat \<Rightarrow> nat \<Rightarrow> bytes \<Rightarrow> fs \<Rightarrow> fs" where
  "write_at i off chunk f =
     (let b = snd (fs_data f i) in
      f\<lparr>fs_data := (fs_data f)(i := (fst (fs_data f i),
          take off (b @ replicate (off - length b) (CHR 0x00)) @ chunk @ drop (off + length chunk) b))\<rparr>)"

definition os_Rename :: "string \<Rightarrow> string \<Rightarrow> fs \<Rightarrow> fs" where
  "os_Rename old new f = (if old = new then f else f\<lparr>fs_names := (fs_names f)(new := fs_names f old, old := None)\<rparr>)"

section \<open>The store\<close>

record FileStore =
  store_dir :: string
  store_mode :: "32 word"

definition NewFileStore :: "string \<Rightarrow> 32 word \<Rightarrow> FileStore" where
  "NewFileStore dir mode = \<lparr>store_dir = dir, store_mode = (if mode = 0 then 0x180 else mode)\<rparr>"

definition store_path :: "FileStore \<Rightarrow> string \<Rightarrow> string" where
  "store_path s key = filepath_Join (store_dir s) key"

definition store_tmp :: "FileStore \<Rightarrow> string \<Rightarrow> string" where
  "store_tmp s key = store_path s key @ ''.tmp''"

text \<open>ReadFile with what may keep it from reading an existing file.\<close>

definition store_Load :: "FileStore \<Rightarrow> go_error option \<Rightarrow> string \<Rightarrow> fs \<Rightarrow> go_error + bytes" where
  "store_Load s fault key f =
     (case contents f (store_path s key) of
        None \<Rightarrow> Inl (WrapError (''store: load '' @ key) (PlainError (''open '' @ store_path s key @ '': no such file or directory'')))
      | Some data \<Rightarrow> (case fault of Some err \<Rightarrow> Inl (WrapError (''store: load '' @ key) err) | None \<Rightarrow> Inr data))"

text \<open>
  Where a Save is: before MkdirAll, before WriteFile, in WriteFile with an inode and an offset,
  before Rename, and returned. In each place the next call can fail.
\<close>

datatype save_pc = SaveStart | DirMade | Writing nat nat | Written | Returned "go_error option"

inductive save_step :: "FileStore \<Rightarrow> string \<Rightarrow> bytes \<Rightarrow> save_pc \<times> fs \<Rightarrow> save_pc \<times> fs \<Rightarrow> bool"
  for s key data where
  mkdir: "save_step s key data (SaveStart, f) (DirMade, f)"
| mkdir_fails: "save_step s key data (SaveStart, f) (Returned (Some (WrapError (''store: mkdir '' @ store_dir s) err)), f)"
| opens: "open_trunc (store_tmp s key) (store_mode s) f = (i, f') \<Longrightarrow> save_step s key data (DirMade, f) (Writing i 0, f')"
| open_fails: "save_step s key data (DirMade, f) (Returned (Some (WrapError (''store: write '' @ store_tmp s key) err)), f)"
| writes: "\<lbrakk>0 < n; off + n \<le> length data\<rbrakk> \<Longrightarrow>
     save_step s key data (Writing i off, f) (Writing i (off + n), write_at i off (take n (drop off data)) f)"
| write_fails: "save_step s key data (Writing i off, f) (Returned (Some (WrapError (''store: write '' @ store_tmp s key) err)), f)"
| closes: "off = length data \<Longrightarrow> save_step s key data (Writing i off, f) (Written, f)"
| renames: "fs_names f (store_tmp s key) \<noteq> None \<Longrightarrow>
     save_step s key data (Written, f) (Returned None, os_Rename (store_tmp s key) (store_path s key) f)"
| rename_fails: "save_step s key data (Written, f) (Returned (Some (WrapError (''store: rename '' @ store_tmp s key) err)), f)"

text \<open>Two Saves at the same time.\<close>

inductive two_saves :: "FileStore \<Rightarrow> string \<times> bytes \<Rightarrow> string \<times> bytes \<Rightarrow> save_pc \<times> save_pc \<times> fs \<Rightarrow> save_pc \<times> save_pc \<times> fs \<Rightarrow> bool"
  for s a b where
  left: "save_step s (fst a) (snd a) (p, f) (p', f') \<Longrightarrow> two_saves s a b (p, q, f) (p', q, f')"
| right: "save_step s (fst b) (snd b) (q, f) (q', f') \<Longrightarrow> two_saves s a b (p, q, f) (p, q', f')"

section \<open>A single Save\<close>

text \<open>No two names share an inode, and every inode in use was allocated.\<close>

definition fs_ok :: "fs \<Rightarrow> bool" where
  "fs_ok f \<longleftrightarrow> (\<forall>p q i. fs_names f p = Some i \<longrightarrow> fs_names f q = Some i \<longrightarrow> p = q) \<and> (\<forall>p i. fs_names f p = Some i \<longrightarrow> i < fs_next f)"

definition same_at :: "fs \<Rightarrow> fs \<Rightarrow> string \<Rightarrow> bool" where
  "same_at f0 f p \<longleftrightarrow> fs_names f p = fs_names f0 p \<and> (\<forall>i. fs_names f0 p = Some i \<longrightarrow> fs_data f i = fs_data f0 i)"

lemma same_at_contents: "same_at f0 f p \<Longrightarrow> contents f p = contents f0 p \<and> file_mode f p = file_mode f0 p"
  by (cases "fs_names f0 p") (auto simp: same_at_def contents_def file_mode_def)

definition tmp_mode :: "FileStore \<Rightarrow> string \<Rightarrow> fs \<Rightarrow> 32 word" where
  "tmp_mode s key f0 = (case file_mode f0 (store_tmp s key) of Some m \<Rightarrow> m | None \<Rightarrow> store_mode s AND NOT (fs_umask f0))"

text \<open>The temporary file while it is written: its own inode, and the mode it got.\<close>

definition tmp_at :: "FileStore \<Rightarrow> string \<Rightarrow> fs \<Rightarrow> fs \<Rightarrow> nat \<Rightarrow> bytes \<Rightarrow> bool" where
  "tmp_at s key f0 f i b \<longleftrightarrow>
     fs_names f (store_tmp s key) = Some i \<and> fs_data f i = (tmp_mode s key f0, b) \<and> (\<forall>p. fs_names f0 p = Some i \<longrightarrow> p = store_tmp s key)"

definition save_inv :: "FileStore \<Rightarrow> string \<Rightarrow> bytes \<Rightarrow> fs \<Rightarrow> save_pc \<Rightarrow> fs \<Rightarrow> bool" where
  "save_inv s key data f0 pc f \<longleftrightarrow>
     (\<forall>p. p \<noteq> store_path s key \<longrightarrow> p \<noteq> store_tmp s key \<longrightarrow> same_at f0 f p) \<and>
     (pc \<noteq> Returned None \<longrightarrow> same_at f0 f (store_path s key)) \<and>
     (case pc of
        SaveStart \<Rightarrow> f = f0
      | DirMade \<Rightarrow> f = f0
      | Writing i off \<Rightarrow> off \<le> length data \<and> tmp_at s key f0 f i (take off data)
      | Written \<Rightarrow> (\<exists>i. tmp_at s key f0 f i data)
      | Returned (Some err) \<Rightarrow> True
      | Returned None \<Rightarrow> contents f (store_path s key) = Some data \<and> file_mode f (store_path s key) = Some (tmp_mode s key f0) \<and>
          contents f (store_tmp s key) = None)"

lemma tmp_neq: "store_tmp s key \<noteq> store_path s key"
  by (simp add: store_tmp_def)

lemma fs_ok_fresh: "fs_ok f \<Longrightarrow> fs_names f p \<noteq> Some (fs_next f)"
  by (auto simp: fs_ok_def)

lemma open_inv:
  assumes "fs_ok f0" "open_trunc (store_tmp s key) (store_mode s) f0 = (i, f')"
  shows "save_inv s key data f0 (Writing i 0) f'"
proof (cases "fs_names f0 (store_tmp s key)")
  case None
  with assms(2) show ?thesis using fs_ok_fresh [OF assms(1)]
    by (auto simp: save_inv_def open_trunc_def tmp_at_def tmp_mode_def file_mode_def same_at_def tmp_neq tmp_neq [symmetric])
next
  case (Some j)
  with assms(1) have u: "p \<noteq> store_tmp s key \<Longrightarrow> fs_names f0 p \<noteq> Some j" for p by (auto simp: fs_ok_def)
  have same: "same_at f0 f' p" if "p \<noteq> store_tmp s key" for p
    using Some assms(2) u [OF that] by (auto simp: open_trunc_def same_at_def)
  have "tmp_at s key f0 f' i []" using Some assms(2) u by (auto simp: open_trunc_def tmp_at_def tmp_mode_def file_mode_def)
  with same tmp_neq [of s key] show ?thesis by (simp add: save_inv_def)
qed

lemma write_same: "same_at f0 f p \<Longrightarrow> fs_names f0 p \<noteq> Some i \<Longrightarrow> same_at f0 (write_at i off chunk f) p"
  by (auto simp: same_at_def write_at_def Let_def)

lemma write_inv:
  assumes "save_inv s key data f0 (Writing i off) f" "off + n \<le> length data"
  shows "save_inv s key data f0 (Writing i (off + n)) (write_at i off (take n (drop off data)) f)"
proof -
  from assms(1) have t: "tmp_at s key f0 f i (take off data)" by (simp add: save_inv_def)
  then have other: "p \<noteq> store_tmp s key \<Longrightarrow> fs_names f0 p \<noteq> Some i" for p by (auto simp: tmp_at_def)
  have "tmp_at s key f0 (write_at i off (take n (drop off data)) f) i (take (off + n) data)"
    using t assms(2) by (simp add: tmp_at_def write_at_def Let_def take_add)
  with assms other tmp_neq [of s key] show ?thesis by (auto simp: save_inv_def intro!: write_same)
qed

lemma rename_inv:
  assumes "save_inv s key data f0 Written f"
  shows "save_inv s key data f0 (Returned None) (os_Rename (store_tmp s key) (store_path s key) f)"
  using assms tmp_neq [of s key]
  by (auto simp: save_inv_def os_Rename_def tmp_at_def contents_def file_mode_def same_at_def)

lemma fail_inv: "save_inv s key data f0 pc f \<Longrightarrow> pc \<noteq> Returned None \<Longrightarrow> save_inv s key data f0 (Returned (Some err)) f"
  by (simp add: save_inv_def)

lemma save_step_inv:
  assumes "save_step s key data (pc, f) (pc', f')" "fs_ok f0" "save_inv s key data f0 pc f"
  shows "save_inv s key data f0 pc' f'"
  using assms(1)
proof cases
  case (opens i)
  with assms(3) have "f = f0" by (simp add: save_inv_def)
  with opens open_inv [OF assms(2)] show ?thesis by simp
next
  case (writes n off i)
  with write_inv assms(3) show ?thesis by blast
next
  case renames
  with rename_inv assms(3) show ?thesis by blast
next
  case (closes off i)
  with assms(3) show ?thesis by (auto simp: save_inv_def)
next
  case mkdir
  with assms(3) show ?thesis by (auto simp: save_inv_def)
qed (use fail_inv [OF assms(3)] in auto)

lemma save_reachable_inv:
  assumes "(save_step s key data)\<^sup>*\<^sup>* (SaveStart, f0) (pc, f)" "fs_ok f0"
  shows "save_inv s key data f0 pc f"
proof -
  have "save_inv s key data f0 (fst z) (snd z)" if "(save_step s key data)\<^sup>*\<^sup>* (SaveStart, f0) z" for z
    using that
  proof (induction rule: rtranclp_induct)
    case base
    show ?case by (simp add: save_inv_def same_at_def)
  next
    case (step y z)
    then show ?case using save_step_inv [OF _ assms(2), of s key data "fst y" "snd y" "fst z" "snd z"] by simp
  qed
  from this [OF assms(1)] show ?thesis by simp
qed

section \<open>Properties\<close>

definition demo_store :: FileStore where
  "demo_store = NewFileStore ''/d'' 0"

definition demo_fs :: fs where
  "demo_fs = \<lparr>fs_names = Map.empty, fs_data = (\<lambda>_. (0, [])), fs_next = 0, fs_umask = 0x12\<rparr>"

lemma demo_store_names: "store_path demo_store ''k'' = ''/d/k''" "store_tmp demo_store ''k'' = ''/d/k.tmp''"
  "store_mode demo_store = 0x180"
  by code_simp+

lemma demo_mode: "(0x180 :: 32 word) AND NOT 0x12 = 0x180"
  by code_simp

definition demo_opened :: "bytes \<Rightarrow> fs" where
  "demo_opened b = demo_fs\<lparr>fs_names := [''/d/k.tmp'' \<mapsto> 0], fs_next := 1, fs_data := (\<lambda>_. (0, []))(0 := (0x180, b))\<rparr>"

lemma demo_open_trunc:
  "open_trunc ''/d/k.tmp'' 0x180 demo_fs = (0, demo_opened [])"
  "open_trunc ''/d/k.tmp'' 0x180 (demo_opened b) = (0, demo_opened [])"
  by (simp_all add: open_trunc_def demo_opened_def demo_fs_def demo_mode)

lemma demo_write: "write_at 0 0 b (demo_opened []) = demo_opened b"
  by (simp add: write_at_def demo_opened_def demo_fs_def)

lemma demo_rename: "contents (os_Rename ''/d/k.tmp'' ''/d/k'' (demo_opened b)) ''/d/k'' = Some b"
  by (simp add: os_Rename_def contents_def demo_opened_def)

lemma demo_tmp: "fs_names (demo_opened b) ''/d/k.tmp'' \<noteq> None"
  by (simp add: demo_opened_def)

lemma demo_save_steps:
  "save_step demo_store ''k'' d (SaveStart, f) (DirMade, f)"
  "save_step demo_store ''k'' d (DirMade, demo_fs) (Writing 0 0, demo_opened [])"
  "save_step demo_store ''k'' d (DirMade, demo_opened b) (Writing 0 0, demo_opened [])"
  "d \<noteq> [] \<Longrightarrow> save_step demo_store ''k'' d (Writing 0 0, demo_opened []) (Writing 0 (length d), demo_opened d)"
  "save_step demo_store ''k'' d (Writing 0 (length d), f) (Written, f)"
  "save_step demo_store ''k'' d (Written, demo_opened b) (Returned None, os_Rename ''/d/k.tmp'' ''/d/k'' (demo_opened b))"
  using save_step.mkdir [of demo_store "''k''" d f]
    save_step.opens [of demo_store "''k''" demo_fs _ _ d] save_step.opens [of demo_store "''k''" "demo_opened b" _ _ d]
    save_step.writes [of "length d" 0 d demo_store "''k''" 0 "demo_opened []"] save_step.closes [of "length d" d demo_store "''k''" 0 f]
    save_step.renames [of "demo_opened b" demo_store "''k''" d]
  by (simp_all add: demo_store_names demo_open_trunc demo_write demo_tmp)

lemma demo_save_run:
  assumes "d \<noteq> []"
  shows "(save_step demo_store ''k'' d)\<^sup>*\<^sup>* (SaveStart, demo_fs) (Returned None, os_Rename ''/d/k.tmp'' ''/d/k'' (demo_opened d))"
  using demo_save_steps(1) [of d demo_fs] demo_save_steps(2) [of d] demo_save_steps(4) [OF assms] demo_save_steps(5) [of d "demo_opened d"]
    demo_save_steps(6) [of d d]
  by (meson converse_rtranclp_into_rtranclp rtranclp.rtrancl_refl)

text \<open>
  C32 (safety). A Save that has the store to itself and finds no temporary file left over is atomic:
  wherever it fails or is cut off, the key's value is the old one, until Save returns nil, from when
  on Load returns the new one, no temporary file is left, and the file has the mode of the store
  less the umask: for the default store no more than the owner's read and write bits. No other key
  changes, unless its file is the temporary file.
\<close>

theorem file_store_atomic:
  assumes "fs_ok f0" "(save_step s key data)\<^sup>*\<^sup>* (SaveStart, f0) (pc, f)" "fs_names f0 (store_tmp s key) = None"
  shows "store_Load s None key f = (if pc = Returned None then Inr data else store_Load s None key f0) \<and>
    (pc = Returned None \<longrightarrow> file_mode f (store_path s key) = Some (store_mode s AND NOT (fs_umask f0)) \<and>
       fs_names f (store_tmp s key) = None) \<and>
    (s = NewFileStore dir 0 \<and> pc = Returned None \<longrightarrow>
       (\<exists>m. file_mode f (store_path s key) = Some m \<and> m AND NOT 0x180 = 0)) \<and>
    (\<forall>other. store_path s other \<noteq> store_path s key \<and> store_path s other \<noteq> store_tmp s key \<longrightarrow>
       store_Load s None other f = store_Load s None other f0)"
proof -
  note inv = save_reachable_inv [OF assms(2,1)]
  have mode: "tmp_mode s key f0 = store_mode s AND NOT (fs_umask f0)" using assms(3) by (simp add: tmp_mode_def file_mode_def)
  have saved: "file_mode f (store_path s key) = Some (store_mode s AND NOT (fs_umask f0)) \<and> fs_names f (store_tmp s key) = None" if "pc = Returned None"
    using inv that mode by (simp add: save_inv_def contents_def)
  have bits: "(0x180 AND NOT u) AND NOT 0x180 = 0" for u :: "32 word" by (rule bit_word_eqI) (auto simp: bit_simps)
  have "\<exists>m. file_mode f (store_path s key) = Some m \<and> m AND NOT 0x180 = 0" if "s = NewFileStore dir 0" "pc = Returned None"
    using saved [OF that(2)] bits that(1) by (simp add: NewFileStore_def)
  with saved inv same_at_contents [of f0 f] show ?thesis by (auto simp: save_inv_def store_Load_def)
qed

theorem file_store_atomic_witness:
  "\<exists>f. (save_step demo_store ''k'' ''v'')\<^sup>*\<^sup>* (SaveStart, demo_fs) (Returned None, f) \<and> store_Load demo_store None ''k'' f = Inr ''v'' \<and>
     file_mode f ''/d/k'' = Some 0x180 \<and> fs_names f ''/d/k.tmp'' = None"
proof -
  have ok: "fs_ok demo_fs" "fs_names demo_fs (store_tmp demo_store ''k'') = None" by (simp_all add: fs_ok_def demo_fs_def)
  have m: "fs_umask demo_fs = 0x12" by (simp add: demo_fs_def)
  note run = demo_save_run [of "''v''", simplified]
  from file_store_atomic [OF ok(1) run ok(2)] run show ?thesis by (auto simp: demo_store_names m demo_mode)
qed

text \<open>
  A temporary file that an interrupted Save left over keeps its own mode and becomes the value.
\<close>

theorem leftover_mode_kept:
  assumes "fs_ok f0" "(save_step s key data)\<^sup>*\<^sup>* (SaveStart, f0) (Returned None, f)" "file_mode f0 (store_tmp s key) = Some m"
  shows "file_mode f (store_path s key) = Some m"
  using save_reachable_inv [OF assms(2,1)] assms(3) by (simp add: save_inv_def tmp_mode_def)

text \<open>
  Two Saves of one key share the temporary file: the second can truncate what the first has
  written just before the first renames it, so that a Save that returned nil leaves an empty value
  that nobody saved.
\<close>

lemma concurrent_saves_tear:
  "\<exists>f. (two_saves demo_store (''k'', ''old'') (''k'', ''new''))\<^sup>*\<^sup>* (SaveStart, SaveStart, demo_fs) (Returned None, Writing 0 0, f) \<and>
     store_Load demo_store None ''k'' f = Inr []"
proof -
  let ?R = "two_saves demo_store (''k'', ''old'') (''k'', ''new'')"
  have l: "?R (p, q, f) (p', q, f')" if "save_step demo_store ''k'' ''old'' (p, f) (p', f')" for p q p' f f'
    using that by (auto intro: two_saves.left)
  have r: "?R (p, q, f) (p, q', f')" if "save_step demo_store ''k'' ''new'' (q, f) (q', f')" for p q q' f f'
    using that by (auto intro: two_saves.right)
  note o = demo_save_steps(4) [of "''old''", simplified] demo_save_steps(5) [of "''old''" "demo_opened ''old''", simplified]
  have "?R\<^sup>*\<^sup>* (SaveStart, SaveStart, demo_fs) (Written, SaveStart, demo_opened ''old'')"
    using l [OF demo_save_steps(1), of SaveStart demo_fs] l [OF demo_save_steps(2), of SaveStart] l [OF o(1), of SaveStart] l [OF o(2), of SaveStart]
    by (meson converse_rtranclp_into_rtranclp rtranclp.rtrancl_refl)
  moreover have "?R\<^sup>*\<^sup>* (Written, SaveStart, demo_opened ''old'') (Returned None, Writing 0 0, os_Rename ''/d/k.tmp'' ''/d/k'' (demo_opened []))"
    using r [OF demo_save_steps(1), of Written "demo_opened ''old''"] r [OF demo_save_steps(3), of Written] l [OF demo_save_steps(6), of "Writing 0 0"]
    by (meson converse_rtranclp_into_rtranclp rtranclp.rtrancl_refl)
  moreover have "store_Load demo_store None ''k'' (os_Rename ''/d/k.tmp'' ''/d/k'' (demo_opened [])) = Inr []"
    by (simp add: store_Load_def demo_store_names demo_rename)
  ultimately show ?thesis by (meson rtranclp_trans)
qed

end
