(* ===== verification/Daemon_Main.thy ===== *)
theory Daemon_Main
  imports Daemon_Serve Go_Flag File_Store
begin

text \<open>
  The daemon's command line and log file: run of cmd/credproxyd/main.go and logging.go. The file
  system is that of File_Store; the log records themselves are not modelled.
\<close>

section \<open>logging.go\<close>

definition maxLogBytes :: nat where
  "maxLogBytes = 10 * 1024 * 1024"

text \<open>What can go wrong: MkdirAll, Stat of an existing file, Rename and OpenFile.\<close>

record log_faults =
  lf_mkdir :: "go_error option"
  lf_stat :: "go_error option"
  lf_rename :: "go_error option"
  lf_open :: "go_error option"

text \<open>OpenFile with O_CREATE, O_WRONLY and O_APPEND keeps what is there.\<close>

definition open_append :: "string \<Rightarrow> 32 word \<Rightarrow> fs \<Rightarrow> nat \<times> fs" where
  "open_append p mode f =
     (case fs_names f p of
        Some i \<Rightarrow> (i, f)
      | None \<Rightarrow> open_trunc p mode f)"

definition rotate_log :: "log_faults \<Rightarrow> string \<Rightarrow> fs \<Rightarrow> go_error option \<times> fs" where
  "rotate_log faults path f =
     (case contents f path of
        None \<Rightarrow> (None, f)
      | Some data \<Rightarrow>
          if lf_stat faults = None \<and> maxLogBytes < length data
          then (case lf_rename faults of Some err \<Rightarrow> (Some err, f) | None \<Rightarrow> (None, os_Rename path (path @ ''.1'') f))
          else (None, f))"

definition openLogFile :: "log_faults \<Rightarrow> string \<Rightarrow> fs \<Rightarrow> (go_error + nat) \<times> fs" where
  "openLogFile faults path f =
     (case lf_mkdir faults of
        Some err \<Rightarrow> (Inl err, f)
      | None \<Rightarrow>
          (case rotate_log faults path f of
             (Some err, f') \<Rightarrow> (Inl err, f')
           | (None, f') \<Rightarrow>
               (case lf_open faults of
                  Some err \<Rightarrow> (Inl err, f')
                | None \<Rightarrow> (case open_append path 0x180 f' of (i, f2) \<Rightarrow> (Inr i, f2)))))"

datatype log_level = LevelDebug | LevelInfo | LevelWarn | LevelError

definition initLogger :: "string \<Rightarrow> log_level" where
  "initLogger level =
     (if level = ''debug'' then LevelDebug
      else if level = ''warn'' \<or> level = ''warning'' then LevelWarn
      else if level = ''error'' then LevelError
      else LevelInfo)"

section \<open>run\<close>

definition daemon_flags :: flag_set where
  "daemon_flags = [(''config'', StringFlag), (''log-file'', StringFlag)]"

text \<open>
  How the process starts: it exits in flag.Parse, run returns an error before serve, or serve runs
  up to the server, with the log going to standard error or to the inode of the log file.
\<close>

datatype 'x daemon_start = ExitStatus nat | RunFails go_error | Served "serve_error + 'x started" "nat option"

definition daemon_run ::
  "('x, 'o) serve_host \<Rightarrow> log_faults \<Rightarrow> string list \<Rightarrow> 'x \<Rightarrow> 'o \<Rightarrow> fs \<Rightarrow> 'x daemon_start \<times> 'x \<times> 'o \<times> os_call list \<times> fs" where
  "daemon_run h faults args x o0 f =
     (case flag_Parse daemon_flags args of
        Inl err \<Rightarrow> (ExitStatus (if err = PlainError ''flag: help requested'' then 0 else 2), x, o0, [], f)
      | Inr (vs, rest) \<Rightarrow>
          let cfgPath = flag_string vs ''config'' []; logFile = flag_string vs ''log-file'' [] in
          if cfgPath = [] then (RunFails (PlainError ''--config is required''), x, o0, [], f)
          else if logFile = [] then (case serve h cfgPath x o0 of (r, x', o', calls) \<Rightarrow> (Served r None, x', o', calls, f))
          else (case openLogFile faults logFile f of
                  (Inl err, f') \<Rightarrow> (RunFails (WrapError ''log file'' err), x, o0, [], f')
                | (Inr i, f') \<Rightarrow> (case serve h cfgPath x o0 of (r, x', o', calls) \<Rightarrow> (Served r (Some i), x', o', calls, f'))))"

section \<open>Lemmas\<close>

lemma rename_keeps:
  assumes "old \<noteq> new"
  shows "contents (os_Rename old new f) q = (if q = old then None else if q = new then contents f old else contents f q)"
  using assms by (auto simp: os_Rename_def contents_def)

lemma fs_ok_rename: "fs_ok f \<Longrightarrow> fs_ok (os_Rename old new f)"
  unfolding fs_ok_def os_Rename_def by (auto split: if_splits)

lemma open_append_keeps:
  assumes "fs_ok f" "open_append p mode f = (i, f')"
  shows "fs_names f' p = Some i \<and> contents f' p = Some (case contents f p of None \<Rightarrow> [] | Some b \<Rightarrow> b) \<and>
    (\<forall>q. q \<noteq> p \<longrightarrow> contents f' q = contents f q)"
proof (cases "fs_names f p")
  case None
  with assms(2) have f': "i = fs_next f" "f' = f\<lparr>fs_names := (fs_names f)(p \<mapsto> fs_next f), fs_next := Suc (fs_next f),
      fs_data := (fs_data f)(fs_next f := (mode AND NOT (fs_umask f), []))\<rparr>"
    by (auto simp: open_append_def open_trunc_def)
  have "contents f' q = contents f q" if "q \<noteq> p" for q
    using that fs_ok_fresh [OF assms(1), of q] by (cases "fs_names f q") (auto simp: f' contents_def)
  then show ?thesis using None by (simp add: f' contents_def)
next
  case (Some j)
  then show ?thesis using assms(2) by (auto simp: open_append_def contents_def)
qed

text \<open>The file system after the rotation: a large log is now the previous generation.\<close>

definition rotated :: "log_faults \<Rightarrow> string \<Rightarrow> fs \<Rightarrow> bool" where
  "rotated faults path f \<longleftrightarrow> (\<exists>data. contents f path = Some data \<and> lf_stat faults = None \<and> maxLogBytes < length data)"

lemma rotate_log_Some:
  "rotate_log faults path f = (e, f') \<Longrightarrow>
     f' = (if rotated faults path f \<and> e = None then os_Rename path (path @ ''.1'') f else f) \<and>
     (e \<noteq> None \<longrightarrow> lf_rename faults = e \<and> rotated faults path f)"
  by (auto simp: rotate_log_def rotated_def split: option.splits if_splits)

lemma daemon_run_effects:
  "daemon_run h faults args x o0 f = (d, x', o', calls, f') \<Longrightarrow> x' \<noteq> x \<or> o' \<noteq> o0 \<or> calls \<noteq> [] \<Longrightarrow>
     \<exists>r l cfgPath. d = Served r l \<and> cfgPath \<noteq> [] \<and> serve h cfgPath x o0 = (r, x', o', calls)"
  by (auto simp: daemon_run_def Let_def split: sum.splits prod.splits if_splits)

section \<open>Properties\<close>

text \<open>
  Opening the log file loses no log and bounds it: whatever fails, the log found at
  the path is still there or has become the previous generation, other files are untouched, and
  the previous generation is replaced only by a log of more than maxLogBytes. An opened log file
  goes on with what was there, or is empty after a rotation, and so begins with at most maxLogBytes
  bytes unless its size could not be read.
\<close>

theorem log_file_rotation:
  assumes "fs_ok f" "openLogFile faults path f = (r, f')"
  shows "(\<forall>q. q \<noteq> path \<and> q \<noteq> path @ ''.1'' \<longrightarrow> contents f' q = contents f q) \<and>
    (\<forall>data. contents f path = Some data \<longrightarrow> contents f' path = Some data \<or> contents f' (path @ ''.1'') = Some data) \<and>
    (contents f' (path @ ''.1'') \<noteq> contents f (path @ ''.1'') \<longrightarrow> (\<exists>data. contents f path = Some data \<and> maxLogBytes < length data)) \<and>
    (\<forall>i. r = Inr i \<longrightarrow> fs_names f' path = Some i \<and>
       (\<exists>b. contents f' path = Some b \<and> (b = [] \<or> contents f path = Some b) \<and> (lf_stat faults = None \<longrightarrow> length b \<le> maxLogBytes)))"
proof -
  have p: "path \<noteq> path @ ''.1''" by simp
  let ?g = "if rotated faults path f then os_Rename path (path @ ''.1'') f else f"
  consider (failed) err g where "r = Inl err" "f' = g" "g = f \<or> g = ?g"
    | (opened) i where "r = Inr i" "open_append path 0x180 ?g = (i, f')"
    using assms(2) rotate_log_Some [of faults path f]
    by (auto simp: openLogFile_def split: option.splits prod.splits)
  then show ?thesis
  proof cases
    case failed
    then consider "f' = f" | "rotated faults path f" "f' = os_Rename path (path @ ''.1'') f" by (auto split: if_splits)
    then show ?thesis
    proof cases
      case 1
      with failed(1) show ?thesis by simp
    next
      case 2
      with failed(1) rename_keeps [OF p, of f] show ?thesis by (auto simp: rotated_def)
    qed
  next
    case opened
    have "fs_ok ?g" using assms(1) fs_ok_rename by simp
    note k = open_append_keeps [OF this opened(2)]
    have c: "contents ?g q = (if rotated faults path f then (if q = path then None else if q = path @ ''.1'' then contents f path else contents f q)
        else contents f q)" for q
      using rename_keeps [OF p, of f q] by simp
    show ?thesis
    proof (cases "rotated faults path f")
      case True
      with k c opened(1) p show ?thesis by (auto simp: rotated_def)
    next
      case False
      with k c opened(1) p show ?thesis by (auto simp: rotated_def not_less split: option.splits)
    qed
  qed
qed

theorem log_file_rotation_witness:
  "\<exists>i f. openLogFile \<lparr>lf_mkdir = None, lf_stat = None, lf_rename = None, lf_open = None\<rparr> ''/l'' demo_fs = (Inr i, f) \<and>
     contents f ''/l'' = Some []"
proof -
  let ?faults = "\<lparr>lf_mkdir = None, lf_stat = None, lf_rename = None, lf_open = None\<rparr>"
  have n: "contents demo_fs ''/l'' = None" by (simp add: contents_def demo_fs_def)
  obtain i f where o: "openLogFile ?faults ''/l'' demo_fs = (Inr i, f)"
    by (cases "open_append ''/l'' 0x180 demo_fs") (simp add: openLogFile_def rotate_log_def n)
  have ok: "fs_ok demo_fs" by (simp add: fs_ok_def demo_fs_def)
  from log_file_rotation [OF ok o] o n show ?thesis by auto
qed

end
