(* ===== verification/Secret_Env.thy ===== *)
theory Secret_Env
  imports Client_Env Credential_Cache
begin

text \<open>
  Host-side secret references: package secretenv (envfile.go, resolver.go, scripthook.go) and the
  client commands run and resolve over it (cmd/credproxy/main.go, cmd/credproxy/config.go). The
  hook process, the clock, the singleflight group and the TOML decoder are parameters. The Hook
  interface is the locale secret_hook, which the script hook interprets. Error messages carry the
  reference as it is, without the quoting of the verb %q.
\<close>

section \<open>Definitions\<close>

text \<open>envfile.go.\<close>

record Entry =
  EntryName :: string
  EntryRef :: string

datatype opened = OpenError go_error | Opened body_stream

text \<open>
  bufio.Scanner with ScanLines: lines without their end of line, an empty last one left out. A line
  of 64 KiB or more does not fit the scanner's buffer and ends the scan with an error, as a
  failing reader does.
\<close>

definition maxScanLine :: nat where
  "maxScanLine = 65536"

definition drop_cr :: "string \<Rightarrow> string" where
  "drop_cr s = TrimSuffix s [CHR 0x0D]"

definition raw_lines :: "bytes \<Rightarrow> string list" where
  "raw_lines data = (let ls = Split data (CHR 0x0A) in if last ls = [] then butlast ls else ls)"

definition scan_lines :: "body_stream \<Rightarrow> string list option" where
  "scan_lines b =
     (if stream_fails b \<or> list_ex (\<lambda>l. maxScanLine \<le> length l) (raw_lines (stream_data b)) then None
      else Some (map drop_cr (raw_lines (stream_data b))))"

definition parse_entry :: "string \<Rightarrow> Entry option" where
  "parse_entry text =
     (let line = TrimSpace text in
      if line = [] \<or> HasPrefix line ''#'' then None
      else (case IndexByte line (CHR ''='') of
              None \<Rightarrow> None
            | Some idx \<Rightarrow>
                if idx = 0 then None
                else let name = TrimSpace (take idx line); ref = TrimSpace (drop (idx + 1) line) in
                  if name = [] \<or> ref = [] then None else Some \<lparr>EntryName = name, EntryRef = ref\<rparr>))"

definition ParseFile :: "(string \<Rightarrow> opened) \<Rightarrow> string \<Rightarrow> go_error + Entry list" where
  "ParseFile openFile path =
     (case openFile path of
        OpenError err \<Rightarrow> Inl (WrapError (''secretenv: open '' @ path) err)
      | Opened b \<Rightarrow>
          (case scan_lines b of
             None \<Rightarrow> Inl (WrapError (''secretenv: read '' @ path) (PlainError ''bufio.Scanner''))
           | Some ls \<Rightarrow> Inr (List.map_filter parse_entry ls)))"

text \<open>resolver.go.\<close>

type_synonym 's hook = "string \<Rightarrow> 's \<Rightarrow> (go_error + string) \<times> 's"

fun resolve_entries :: "'s hook \<Rightarrow> Entry list \<Rightarrow> string_map \<Rightarrow> 's \<Rightarrow> (go_error + string_map) \<times> 's" where
  "resolve_entries hook [] out s = (Inr out, s)"
| "resolve_entries hook (e # es) out s =
     (case hook (EntryRef e) s of
        (Inl err, s') \<Rightarrow>
          (Inl (WrapError (''secretenv: resolve '' @ EntryName e @ '' ('' @ EntryRef e @ '')'') err), s')
      | (Inr val, s') \<Rightarrow>
          if val = [] then
            (Inl (PlainError (''secretenv: resolve '' @ EntryName e @ '' ('' @ EntryRef e @ ''): hook returned empty value'')), s')
          else resolve_entries hook es (map_put out (EntryName e) val) s')"

definition ResolveFile :: "'s hook \<Rightarrow> (string \<Rightarrow> opened) \<Rightarrow> string \<Rightarrow> 's \<Rightarrow> (go_error + string_map) \<times> 's" where
  "ResolveFile hook openFile path s =
     (case ParseFile openFile path of
        Inl err \<Rightarrow> (Inl err, s)
      | Inr entries \<Rightarrow> resolve_entries hook entries [] s)"

text \<open>scripthook.go.\<close>

definition defaultHookSafety :: duration where
  "defaultHookSafety = 30 * second"

record hookCacheEntry =
  hc_value :: string
  hc_expires :: instant

type_synonym hook_cache = "(string \<times> hookCacheEntry) list"
type_synonym 'w hook_state = "hook_cache \<times> 'w"

record hookResp =
  resp_Value :: string
  resp_ExpiresInSec :: "64 word"

record 'w cmd_env =
  run_cmd :: "string list \<Rightarrow> duration \<Rightarrow> bytes \<Rightarrow> 'w \<Rightarrow> (go_error option \<times> bytes \<times> bytes) \<times> 'w"
  cmd_now :: "'w \<Rightarrow> instant"
  hook_Do :: "string \<Rightarrow> ('w hook_state \<Rightarrow> (go_error + string) \<times> 'w hook_state)
                \<Rightarrow> 'w hook_state \<Rightarrow> (go_error + string) \<times> 'w hook_state"

record ScriptHook =
  hook_cmd :: "string list"
  hook_timeout :: duration
  hook_safety :: duration

definition NewScriptHook :: "string list \<Rightarrow> duration \<Rightarrow> ScriptHook" where
  "NewScriptHook cmd timeout = \<lparr>hook_cmd = cmd, hook_timeout = timeout, hook_safety = defaultHookSafety\<rparr>"

definition cacheGet :: "hook_cache \<Rightarrow> string \<Rightarrow> instant \<Rightarrow> string option" where
  "cacheGet c ref now =
     (case map_of c ref of None \<Rightarrow> None | Some e \<Rightarrow> if \<not> now < hc_expires e then None else Some (hc_value e))"

definition cacheSet :: "hook_cache \<Rightarrow> string \<Rightarrow> string \<Rightarrow> instant \<Rightarrow> hook_cache" where
  "cacheSet c ref value expires = map_put c ref \<lparr>hc_value = value, hc_expires = expires\<rparr>"

fun resp_fields :: "(string \<times> string \<times> json) list \<Rightarrow> hookResp \<Rightarrow> hookResp option" where
  "resp_fields [] h = Some h"
| "resp_fields ((k, raw, v) # ms) h =
     (case field_for [''value'', ''expires_in_sec''] k of
        None \<Rightarrow> None
      | Some f \<Rightarrow>
          if f = ''value'' then
            (case into_string v (resp_Value h) of None \<Rightarrow> None | Some x \<Rightarrow> resp_fields ms (h\<lparr>resp_Value := x\<rparr>))
          else
            (case into_int v (resp_ExpiresInSec h) of None \<Rightarrow> None | Some x \<Rightarrow> resp_fields ms (h\<lparr>resp_ExpiresInSec := x\<rparr>)))"

definition decode_resp :: "bytes \<Rightarrow> go_error + hookResp" where
  "decode_resp out =
     (let zero = \<lparr>resp_Value = [], resp_ExpiresInSec = 0\<rparr> in
      case decode_stream out of
        Inl err \<Rightarrow> Inl err
      | Inr (None, rest) \<Rightarrow> Inr zero
      | Inr (Some ms, rest) \<Rightarrow> (case resp_fields ms zero of None \<Rightarrow> Inl json_error | Some h \<Rightarrow> Inr h))"

definition parseResp :: "ScriptHook \<Rightarrow> instant \<Rightarrow> bytes \<Rightarrow> string \<Rightarrow> go_error + string \<times> instant" where
  "parseResp h now out ref =
     (case decode_resp out of
        Inl err \<Rightarrow> Inl (WrapError (''scripthook: decode response for '' @ ref) err)
      | Inr resp \<Rightarrow>
          if resp_Value resp = [] then Inl (PlainError (''scripthook: empty value for ref '' @ ref))
          else let ttl = seconds_of (resp_ExpiresInSec resp) - hook_safety h in
            Inr (resp_Value resp, if 0 <s ttl then time_Add now ttl else zeroTime))"

definition hook_stdin :: "string \<Rightarrow> bytes" where
  "hook_stdin ref = json_encode (JObj [(''ref'', JStr ref)])"

definition hook_run :: "'w cmd_env \<Rightarrow> ScriptHook \<Rightarrow> string \<Rightarrow> 'w \<Rightarrow> (go_error + string \<times> instant) \<times> 'w" where
  "hook_run env h ref w =
     (if length (hook_cmd h) = 0 then (Inl (PlainError ''scripthook: hook command is not configured''), w)
      else case run_cmd env (hook_cmd h) (hook_timeout h) (hook_stdin ref) w of
             ((Some err, stdout, stderr), w') \<Rightarrow>
               (Inl (FormatError (''scripthook '' @ format_strings (hook_cmd h) @ '': '' @ error_string err @ '' (stderr: '' @ stderr @ '')'') err), w')
           | ((None, stdout, stderr), w') \<Rightarrow> (parseResp h (cmd_now env w') stdout ref, w'))"

definition hook_flight :: "'w cmd_env \<Rightarrow> ScriptHook \<Rightarrow> string \<Rightarrow> 'w hook_state \<Rightarrow> (go_error + string) \<times> 'w hook_state" where
  "hook_flight env h ref st =
     (case st of (c, w) \<Rightarrow>
        (case cacheGet c ref (cmd_now env w) of
           Some cached \<Rightarrow> (Inr cached, st)
         | None \<Rightarrow>
             (case hook_run env h ref w of
                (Inl err, w') \<Rightarrow> (Inl err, (c, w'))
              | (Inr (val, expires), w') \<Rightarrow>
                  (Inr val, (if expires \<noteq> zeroTime then cacheSet c ref val expires else c, w')))))"

definition hook_Resolve :: "'w cmd_env \<Rightarrow> ScriptHook \<Rightarrow> 'w hook_state hook" where
  "hook_Resolve env h ref st =
     (case cacheGet (fst st) ref (cmd_now env (snd st)) of
        Some v \<Rightarrow> (Inr v, st)
      | None \<Rightarrow> hook_Do env ref (hook_flight env h ref) st)"

text \<open>config.go and the commands of main.go.\<close>

record client_config =
  cc_Hook :: "string list"
  cc_HookTimeoutSec :: "64 word"

definition hookTimeout :: "client_config \<Rightarrow> duration" where
  "hookTimeout c = (if cc_HookTimeoutSec c \<le>s 0 then 10 * second else seconds_of (cc_HookTimeoutSec c))"

definition loadConfig :: "(string \<Rightarrow> go_error + client_config) \<Rightarrow> string \<Rightarrow> go_error + client_config" where
  "loadConfig decodeFile path =
     (case decodeFile path of
        Inl err \<Rightarrow> Inl (WrapError (''load config '' @ path) err)
      | Inr cfg \<Rightarrow>
          if length (cc_Hook cfg) = 0 then Inl (PlainError (''config '' @ path @ '': hook is required'')) else Inr cfg)"

definition defaultConfigPath :: "(string \<Rightarrow> string) \<Rightarrow> string \<Rightarrow> string" where
  "defaultConfigPath getenv' home' =
     (let p = getenv' ''CREDPROXY_CONFIG'' in
      if p \<noteq> [] then p else filepath_Join home' ''.config/credproxy/config.toml'')"

definition resolveEnvFile ::
  "'w cmd_env \<Rightarrow> (string \<Rightarrow> go_error + client_config) \<Rightarrow> (string \<Rightarrow> opened) \<Rightarrow> string \<Rightarrow> string \<Rightarrow> string \<Rightarrow> 'w
     \<Rightarrow> (go_error + string_map) \<times> 'w" where
  "resolveEnvFile env decodeFile openFile defaultPath configPath envFile w =
     (case loadConfig decodeFile (if configPath = [] then defaultPath else configPath) of
        Inl err \<Rightarrow> (Inl err, w)
      | Inr cfg \<Rightarrow>
          (case ResolveFile (hook_Resolve env (NewScriptHook (cc_Hook cfg) (hookTimeout cfg))) openFile envFile ([], w) of
             (res, (c, w')) \<Rightarrow> (res, w')))"

definition resolveCmd ::
  "'w cmd_env \<Rightarrow> (string \<Rightarrow> go_error + client_config) \<Rightarrow> (string \<Rightarrow> opened) \<Rightarrow> string \<Rightarrow> string \<Rightarrow> string \<Rightarrow> 'w
     \<Rightarrow> (go_error + string) \<times> 'w" where
  "resolveCmd env decodeFile openFile defaultPath configPath envFile w =
     (if envFile = [] then (Inl (PlainError ''--env-file is required''), w)
      else case resolveEnvFile env decodeFile openFile defaultPath configPath envFile w of
             (Inl err, w') \<Rightarrow> (Inl err, w')
           | (Inr resolved, w') \<Rightarrow> (Inr (json_line (JObj [(''env'', json_string_map resolved)])), w'))"

definition runCmd ::
  "'w cmd_env \<Rightarrow> (string \<Rightarrow> go_error + client_config) \<Rightarrow> (string \<Rightarrow> opened) \<Rightarrow> (string \<Rightarrow> go_error + string)
     \<Rightarrow> string list \<Rightarrow> string \<Rightarrow> string \<Rightarrow> string \<Rightarrow> string list \<Rightarrow> 'w
     \<Rightarrow> (go_error + string \<times> string list \<times> string list) \<times> 'w" where
  "runCmd env decodeFile openFile lookPath environ defaultPath configPath envFile cmdArgs w =
     (if envFile = [] then (Inl (PlainError ''--env-file is required''), w)
      else if length cmdArgs = 0 then (Inl (PlainError ''command is required after --''), w)
      else case resolveEnvFile env decodeFile openFile defaultPath configPath envFile w of
             (Inl err, w') \<Rightarrow> (Inl err, w')
           | (Inr resolved, w') \<Rightarrow>
               (case lookPath (hd cmdArgs) of
                  Inl err \<Rightarrow> (Inl (WrapError (''lookup '' @ hd cmdArgs) err), w')
                | Inr bin \<Rightarrow> (Inr (bin, cmdArgs, mergeEnv environ resolved), w')))"

section \<open>The env-file\<close>

text \<open>A line of an env-file that a writer produces, and the entries among such lines.\<close>

datatype env_line = EntryLine Entry | CommentLine string

fun render_line :: "env_line \<Rightarrow> string" where
  "render_line (EntryLine e) = EntryName e @ ''='' @ EntryRef e"
| "render_line (CommentLine t) = CHR ''#'' # t"

definition solid :: "string \<Rightarrow> bool" where
  "solid s \<longleftrightarrow> s \<noteq> [] \<and> \<not> space_byte (hd s) \<and> \<not> space_byte (last s)"

definition clean_line :: "env_line \<Rightarrow> bool" where
  "clean_line l \<longleftrightarrow> CHR 0x0A \<notin> set (render_line l) \<and> length (render_line l) < maxScanLine \<and>
     (case l of
        EntryLine e \<Rightarrow> solid (EntryName e) \<and> solid (EntryRef e) \<and> hd (EntryName e) \<noteq> CHR ''#'' \<and> CHR ''='' \<notin> set (EntryName e)
      | CommentLine t \<Rightarrow> t = [] \<or> \<not> space_byte (last t))"

fun line_entry :: "env_line \<Rightarrow> Entry option" where
  "line_entry (EntryLine e) = Some e"
| "line_entry (CommentLine t) = None"

lemma solid_trimmed: "solid s \<Longrightarrow> TrimSpace s = s"
  by (rule TrimSpace_id, rule trimmedI) (auto simp: solid_def)

lemma solid_drop_cr: "solid s \<Longrightarrow> drop_cr s = s"
proof -
  assume s: "solid s"
  have "space_byte (CHR 0x0D)" by code_simp
  then have "\<not> HasSuffix s [CHR 0x0D]" using s by (auto simp: solid_def HasSuffix_iff)
  then show ?thesis by (simp add: drop_cr_def TrimSuffix_id)
qed

lemma clean_line_solid: "clean_line l \<Longrightarrow> solid (render_line l)"
proof -
  have "\<not> space_byte (CHR ''#'')" by code_simp
  then show "clean_line l \<Longrightarrow> ?thesis" by (cases l) (auto simp: clean_line_def solid_def)
qed

lemma parse_entry_render: "clean_line l \<Longrightarrow> parse_entry (drop_cr (render_line l)) = line_entry l"
proof -
  assume c: "clean_line l"
  note t = solid_drop_cr [OF clean_line_solid [OF c]] solid_trimmed [OF clean_line_solid [OF c]]
  show ?thesis
  proof (cases l)
    case (EntryLine e)
    have s: "solid (EntryName e)" "solid (EntryRef e)" "CHR ''='' \<notin> set (EntryName e)" "hd (EntryName e) \<noteq> CHR ''#''"
      using c EntryLine by (simp_all add: clean_line_def)
    then have ne: "EntryName e \<noteq> []" "EntryRef e \<noteq> []" by (auto simp: solid_def)
    moreover have "IndexByte (render_line l) (CHR ''='') = Some (length (EntryName e))"
      using EntryLine IndexByte_assign [OF s(3)] by simp
    moreover have "\<not> HasPrefix (render_line l) ''#''" using s(4) ne EntryLine by (cases "EntryName e") auto
    ultimately show ?thesis using t EntryLine solid_trimmed [OF s(1)] solid_trimmed [OF s(2)]
      by (simp add: parse_entry_def Let_def)
  next
    case (CommentLine x)
    then show ?thesis using t by (simp add: parse_entry_def Let_def)
  qed
qed

lemma raw_lines_render:
  assumes "ls \<noteq> []" and "\<forall>l \<in> set ls. CHR 0x0A \<notin> set l"
  shows "raw_lines (Join ls [CHR 0x0A] @ [CHR 0x0A]) = ls"
proof -
  have "Join ls [CHR 0x0A] @ [CHR 0x0A] = Join (ls @ [[]]) [CHR 0x0A]" using assms(1) by (simp add: Join_append)
  moreover have "Split (Join (ls @ [[]]) [CHR 0x0A]) (CHR 0x0A) = ls @ [[]]" using assms(2) by (intro Split_Join) auto
  ultimately show ?thesis by (simp add: raw_lines_def)
qed

section \<open>Resolution\<close>

text \<open>The Hook interface: a state invariant is kept and a resolved secret is never empty.\<close>

locale secret_hook =
  fixes resolve :: "'s hook" and inv :: "'s \<Rightarrow> bool"
  assumes resolve_inv: "\<lbrakk>inv s; resolve ref s = (res, s')\<rbrakk> \<Longrightarrow> inv s'"
    and resolve_nonempty: "\<lbrakk>inv s; resolve ref s = (Inr v, s')\<rbrakk> \<Longrightarrow> v \<noteq> []"
begin

lemma resolve_entries_inv: "\<lbrakk>resolve_entries resolve es out s = (res, s'); inv s\<rbrakk> \<Longrightarrow> inv s'"
proof (induction es arbitrary: out s)
  case (Cons e es)
  obtain r s1 where "resolve (EntryRef e) s = (r, s1)" by force
  with Cons resolve_inv [of s "EntryRef e" r s1] show ?case by (auto split: sum.splits if_splits)
qed simp

text \<open>With such a hook the resolver's own check for an empty value never fires.\<close>

lemma resolve_entries_error:
  "\<lbrakk>resolve_entries resolve es out s = (Inl err, s'); inv s\<rbrakk> \<Longrightarrow>
     \<exists>e \<in> set es. \<exists>s1 cause. inv s1 \<and> resolve (EntryRef e) s1 = (Inl cause, s') \<and>
       err = WrapError (''secretenv: resolve '' @ EntryName e @ '' ('' @ EntryRef e @ '')'') cause"
proof (induction es arbitrary: out s)
  case (Cons e es)
  obtain r s1 where r: "resolve (EntryRef e) s = (r, s1)" by force
  show ?case
  proof (cases r)
    case (Inl cause)
    with r Cons.prems show ?thesis by auto
  next
    case (Inr v)
    then have "v \<noteq> []" "inv s1" using resolve_nonempty resolve_inv r Cons.prems(2) by blast+
    with Inr r Cons show ?thesis by force
  qed
qed simp

end

text \<open>The cache of the script hook.\<close>

interpretation hook_cache: expiring_map cacheGet cacheSet "[]" 0
  by unfold_locales (auto simp: cacheGet_def cacheSet_def)

definition hook_ok :: "hook_cache \<Rightarrow> bool" where
  "hook_ok c \<longleftrightarrow> (\<forall>ref t v. cacheGet c ref t = Some v \<longrightarrow> v \<noteq> [])"

lemma hook_ok_empty: "hook_ok []"
  by (simp add: hook_ok_def hook_cache.lookup_empty)

lemma hook_ok_set: "\<lbrakk>hook_ok c; v \<noteq> []\<rbrakk> \<Longrightarrow> hook_ok (cacheSet c ref v e)"
  unfolding hook_ok_def by (auto simp: hook_cache.lookup_store split: if_splits)

text \<open>The script hook is a Hook, for calls that run one at a time.\<close>

definition solo :: "'w cmd_env \<Rightarrow> 'w cmd_env" where
  "solo env = env\<lparr>hook_Do := (\<lambda>_ fn. fn)\<rparr>"

definition cmd_alone :: "'w cmd_env \<Rightarrow> bool" where
  "cmd_alone env \<longleftrightarrow> (\<forall>key fn st. hook_Do env key fn st = fn st)"

lemma solo_id: "cmd_alone env \<Longrightarrow> solo env = env"
proof -
  assume "cmd_alone env"
  then have "hook_Do env = (\<lambda>_ fn. fn)" unfolding cmd_alone_def by blast
  then show ?thesis by (cases env) (simp add: solo_def)
qed

lemma solo_now [simp]: "cmd_now (solo env) = cmd_now env" "hook_Do (solo env) key fn = fn"
  by (simp_all add: solo_def)

lemma parseResp_nonempty: "parseResp h now out ref = Inr (v, e) \<Longrightarrow> v \<noteq> []"
  by (auto simp: parseResp_def Let_def split: sum.splits if_splits)

lemma hook_run_nonempty: "hook_run env h ref w = (Inr (v, e), w') \<Longrightarrow> v \<noteq> []"
  by (auto simp: hook_run_def split: if_splits prod.splits option.splits dest!: parseResp_nonempty)

lemma hook_Resolve_ok:
  assumes "hook_Resolve (solo env) h ref (c, w) = (res, (c', w'))" and "hook_ok c"
  shows "hook_ok c' \<and> (\<forall>v. res = Inr v \<longrightarrow> v \<noteq> [])"
proof (cases "cacheGet c ref (cmd_now env w)")
  case (Some v)
  then have "c' = c" "res = Inr v" using assms(1) by (simp_all add: hook_Resolve_def)
  with assms(2) Some show ?thesis unfolding hook_ok_def by blast
next
  case None
  obtain r w1 where r: "hook_run (solo env) h ref w = (r, w1)" by force
  have fl: "hook_flight (solo env) h ref (c, w) = (res, (c', w'))" using assms(1) None by (simp add: hook_Resolve_def)
  show ?thesis
  proof (cases r)
    case (Inl err)
    then have "c' = c" "res = Inl err" using fl None r by (simp_all add: hook_flight_def)
    with assms(2) show ?thesis by simp
  next
    case (Inr ve)
    then obtain v e where ve: "r = Inr (v, e)" by (cases ve) simp
    have "v \<noteq> []" using hook_run_nonempty [OF r [unfolded ve]] .
    moreover have "hook_flight (solo env) h ref (c, w) = (Inr v, (if e \<noteq> zeroTime then cacheSet c ref v e else c, w1))"
      using None r ve by (simp add: hook_flight_def)
    ultimately have "res = Inr v" "c' = c \<or> c' = cacheSet c ref v e" "v \<noteq> []" using fl by simp_all
    then show ?thesis using assms(2) hook_ok_set [of c v ref e] by auto
  qed
qed

interpretation script_hook: secret_hook "hook_Resolve (solo env) h" "\<lambda>st. hook_ok (fst st)" for env :: "'w cmd_env" and h
proof
  fix s s' :: "'w hook_state" and ref res
  assume "hook_ok (fst s)" "hook_Resolve (solo env) h ref s = (res, s')"
  then show "hook_ok (fst s')" using hook_Resolve_ok by (metis prod.collapse)
next
  fix s s' :: "'w hook_state" and ref v
  assume "hook_ok (fst s)" "hook_Resolve (solo env) h ref s = (Inr v, s')"
  then show "v \<noteq> []" using hook_Resolve_ok by (metis prod.collapse)
qed

lemma resolve_entries_ok:
  "\<lbrakk>resolve_entries hook es out s = (Inr out', s'); distinct (map fst out); \<forall>(k, v) \<in> set out. v \<noteq> []\<rbrakk> \<Longrightarrow>
     distinct (map fst out') \<and> fst ` set out' = fst ` set out \<union> EntryName ` set es \<and> (\<forall>(k, v) \<in> set out'. v \<noteq> [])"
proof (induction es arbitrary: out s)
  case (Cons e es)
  then obtain v s1 where "v \<noteq> []" and rec: "resolve_entries hook es (map_put out (EntryName e) v) s1 = (Inr out', s')"
    by (auto split: prod.splits sum.splits if_splits)
  moreover have "\<forall>(k, v) \<in> set (map_put out (EntryName e) v). v \<noteq> []"
    using \<open>v \<noteq> []\<close> Cons.prems(3) by (auto dest!: map_put_set)
  ultimately show ?case using Cons.IH [OF rec] Cons.prems(2) by (simp add: keys_map_put distinct_map_put)
qed simp

text \<open>
  The values of a run, in terms of the hook command: each is an answer the command already gave for
  the same reference, or the answer of a new run of the command on this reference, in the world
  the run before it left.
\<close>

fun answered :: "'w cmd_env \<Rightarrow> ScriptHook \<Rightarrow> (string \<times> string) list \<Rightarrow> Entry list \<Rightarrow> string list \<Rightarrow> 'w \<Rightarrow> 'w \<Rightarrow> bool" where
  "answered env h known [] [] w w' \<longleftrightarrow> w' = w"
| "answered env h known (e # es) (v # vs) w w' \<longleftrightarrow>
     (EntryRef e, v) \<in> set known \<and> answered env h known es vs w w' \<or>
     (\<exists>stdout stderr ttl w1.
        run_cmd env (hook_cmd h) (hook_timeout h) (hook_stdin (EntryRef e)) w = ((None, stdout, stderr), w1) \<and>
        decode_resp stdout = Inr \<lparr>resp_Value = v, resp_ExpiresInSec = ttl\<rparr> \<and> v \<noteq> [] \<and>
        answered env h ((EntryRef e, v) # known) es vs w1 w')"
| "answered env h known es vs w w' \<longleftrightarrow> False"

definition cache_from :: "(string \<times> string) list \<Rightarrow> hook_cache \<Rightarrow> bool" where
  "cache_from known c \<longleftrightarrow> (\<forall>ref t v. cacheGet c ref t = Some v \<longrightarrow> (ref, v) \<in> set known)"

lemma cache_from_empty: "cache_from known []"
  by (simp add: cache_from_def hook_cache.lookup_empty)

lemma cache_from_more: "cache_from known c \<Longrightarrow> cache_from (x # known) c"
  by (auto simp: cache_from_def)

lemma cache_from_set: "cache_from known c \<Longrightarrow> cache_from ((ref, v) # known) (cacheSet c ref v e)"
  unfolding cache_from_def by (auto simp: hook_cache.lookup_store split: if_splits)

lemma hook_run_answer:
  assumes "hook_run env h ref w = (Inr (v, e), w')"
  shows "\<exists>stdout stderr ttl. run_cmd env (hook_cmd h) (hook_timeout h) (hook_stdin ref) w = ((None, stdout, stderr), w') \<and>
    decode_resp stdout = Inr \<lparr>resp_Value = v, resp_ExpiresInSec = ttl\<rparr> \<and> v \<noteq> []"
proof -
  obtain stdout stderr where r: "run_cmd env (hook_cmd h) (hook_timeout h) (hook_stdin ref) w = ((None, stdout, stderr), w')"
    "parseResp h (cmd_now env w') stdout ref = Inr (v, e)"
    using assms by (auto simp: hook_run_def split: if_splits prod.splits option.splits)
  then obtain resp where "decode_resp stdout = Inr resp" "resp_Value resp = v" "v \<noteq> []"
    by (auto simp: parseResp_def Let_def split: sum.splits if_splits)
  with r(1) show ?thesis by (cases resp) auto
qed

lemma hook_Resolve_answer:
  assumes "cmd_alone env" and "cache_from known c" and "hook_Resolve env h ref (c, w) = (res, (c', w'))"
  shows "case res of
      Inl cause \<Rightarrow> hook_run env h ref w = (Inl cause, w')
    | Inr v \<Rightarrow> (ref, v) \<in> set known \<and> c' = c \<and> w' = w \<or>
        (\<exists>e. hook_run env h ref w = (Inr (v, e), w')) \<and> cache_from ((ref, v) # known) c'"
proof (cases "cacheGet c ref (cmd_now env w)")
  case (Some v)
  then have "res = Inr v" "c' = c" "w' = w" using assms(3) by (simp_all add: hook_Resolve_def)
  moreover have "(ref, v) \<in> set known" using assms(2) Some unfolding cache_from_def by blast
  ultimately show ?thesis by simp
next
  case None
  then have fl: "hook_flight env h ref (c, w) = (res, (c', w'))"
    using assms(1,3) by (simp add: hook_Resolve_def cmd_alone_def)
  obtain r w1 where r: "hook_run env h ref w = (r, w1)" by force
  show ?thesis
  proof (cases r)
    case (Inl err)
    with fl r None show ?thesis by (auto simp: hook_flight_def)
  next
    case (Inr ve)
    obtain v e where ve: "ve = (v, e)" by force
    have "res = Inr v" "w' = w1" "c' = (if e \<noteq> zeroTime then cacheSet c ref v e else c)"
      using fl r None Inr ve by (simp_all add: hook_flight_def)
    moreover have "cache_from ((ref, v) # known) (cacheSet c ref v e)" "cache_from ((ref, v) # known) c"
      using cache_from_set [OF assms(2)] cache_from_more [OF assms(2)] by blast+
    ultimately show ?thesis using r Inr ve by simp
  qed
qed

lemma resolve_entries_answered:
  assumes "cmd_alone env"
  shows "\<lbrakk>resolve_entries (hook_Resolve env h) es out (c, w) = (res, (c', w')); cache_from known c; \<forall>(r, v) \<in> set known. v \<noteq> []\<rbrakk> \<Longrightarrow>
    (case res of
       Inr m \<Rightarrow> (\<exists>vs. length vs = length es \<and> answered env h known es vs w w' \<and>
         m = foldl (\<lambda>m (k, v). map_put m k v) out (zip (map EntryName es) vs))
     | Inl err \<Rightarrow> (\<exists>pre e post vs w1 cause. es = pre @ e # post \<and> answered env h known pre vs w w1 \<and>
         hook_run env h (EntryRef e) w1 = (Inl cause, w') \<and>
         err = WrapError (''secretenv: resolve '' @ EntryName e @ '' ('' @ EntryRef e @ '')'') cause))"
proof (induction es arbitrary: out c w known)
  case Nil
  then show ?case by auto
next
  case (Cons e es)
  obtain r c1 w1 where r: "hook_Resolve env h (EntryRef e) (c, w) = (r, (c1, w1))" by (metis prod_cases3)
  note step = hook_Resolve_answer [OF assms Cons.prems(2) r]
  show ?case
  proof (cases r)
    case (Inl cause)
    then have "res = Inl (WrapError (''secretenv: resolve '' @ EntryName e @ '' ('' @ EntryRef e @ '')'') cause)" "w' = w1"
      using Cons.prems(1) r by simp_all
    moreover have "hook_run env h (EntryRef e) w = (Inl cause, w1)" using step Inl by simp
    ultimately have "\<exists>pre e' post vs w2 cause'. e # es = pre @ e' # post \<and> answered env h known pre vs w w2 \<and>
         hook_run env h (EntryRef e') w2 = (Inl cause', w') \<and>
         WrapError (''secretenv: resolve '' @ EntryName e @ '' ('' @ EntryRef e @ '')'') cause =
           WrapError (''secretenv: resolve '' @ EntryName e' @ '' ('' @ EntryRef e' @ '')'') cause'"
      by (intro exI [of _ "[]"] exI [of _ e] exI [of _ es] exI [of _ w] exI [of _ cause]) simp
    then show ?thesis using \<open>res = _\<close> by simp
  next
    case (Inr v)
    from step Inr consider (known) "(EntryRef e, v) \<in> set known" "c1 = c" "w1 = w"
      | (run) x where "hook_run env h (EntryRef e) w = (Inr (v, x), w1)" "cache_from ((EntryRef e, v) # known) c1" by auto
    then obtain known' where k: "cache_from known' c1" "\<forall>(r, v) \<in> set known'. v \<noteq> []" "v \<noteq> []"
      "\<And>es' vs w2. answered env h known' es' vs w1 w2 \<Longrightarrow> answered env h known (e # es') (v # vs) w w2"
    proof cases
      case known
      with Cons.prems(2,3) show ?thesis by (intro that [of known]) auto
    next
      case run
      note a = hook_run_answer [OF run(1)]
      show ?thesis
      proof (rule that [of "(EntryRef e, v) # known"])
        show "cache_from ((EntryRef e, v) # known) c1" by (rule run(2))
        show "answered env h known (e # es') (v # vs) w w2" if "answered env h ((EntryRef e, v) # known) es' vs w1 w2" for es' vs w2
          using a that by auto
      qed (use a Cons.prems(3) in auto)
    qed
    have rec: "resolve_entries (hook_Resolve env h) es (map_put out (EntryName e) v) (c1, w1) = (res, (c', w'))"
      using Cons.prems(1) r Inr k(3) by simp
    note IH = Cons.IH [OF rec k(1,2)]
    show ?thesis
    proof (cases res)
      case (Inr m)
      with IH obtain vs where "length vs = length es" "answered env h known' es vs w1 w'"
        "m = foldl (\<lambda>m (k, v). map_put m k v) (map_put out (EntryName e) v) (zip (map EntryName es) vs)" by auto
      with k(4) have "length (v # vs) = length (e # es)" "answered env h known (e # es) (v # vs) w w'"
        "m = foldl (\<lambda>m (k, v). map_put m k v) out (zip (map EntryName (e # es)) (v # vs))" by simp_all
      with Inr show ?thesis unfolding Inr sum.case by blast
    next
      case (Inl err)
      with IH obtain pre e' post vs w2 cause where i: "es = pre @ e' # post" "answered env h known' pre vs w1 w2"
         "hook_run env h (EntryRef e') w2 = (Inl cause, w')"
         "err = WrapError (''secretenv: resolve '' @ EntryName e' @ '' ('' @ EntryRef e' @ '')'') cause" by auto
      show ?thesis unfolding Inl sum.case
        by (rule exI [of _ "e # pre"], rule exI [of _ e'], rule exI [of _ post], rule exI [of _ "v # vs"], rule exI [of _ w2], rule exI [of _ cause])
          (intro conjI k(4) i; simp add: i(1))
    qed
  qed
qed

lemma map_of_foldl_put_rev: "map_of (foldl (\<lambda>m (k, v). map_put m k v) out kvs) = map_of out ++ map_of (rev kvs)"
proof (induction kvs arbitrary: out)
  case (Cons x kvs)
  obtain k v where "x = (k, v)" by force
  with Cons show ?case by (auto simp: map_add_def map_of_map_put split: option.splits)
qed simp

lemma decode_env_line:
  assumes "distinct (map fst vals)" and "list_all (\<lambda>(k, v). ascii k \<and> ascii v) vals"
    and "length (json_line (JObj [(''env'', json_string_map vals)])) \<le> maxEnvResponse"
  shows "decode_env (json_line (JObj [(''env'', json_string_map vals)])) = Inr (Some (sort_key fst vals))"
proof -
  have p: "json_plain (JObj [(''env'', json_string_map vals)])"
    using assms(2) by (auto simp: json_string_map_def list_all_iff)
  obtain rest raw where d: "decode_stream (json_line (JObj [(''env'', json_string_map vals)])) =
      Inr (Some [(''env'', raw, json_string_map vals)], rest)"
    using decode_document_line [OF p] decode_document_stream by fastforce
  have "distinct (map fst (sort_key fst vals))" using assms(1) by (simp add: distinct_map)
  then have "into_string_map (json_string_map vals) [] = Some (sort_key fst vals)"
    using into_map_entries_fresh [of "sort_key fst vals" "[]"] by (simp add: into_string_map_def json_string_map_def)
  moreover have "json_string_map vals \<noteq> JNull" by (simp add: json_string_map_def)
  ultimately show ?thesis using d assms(3) by (simp add: decode_env_def field_for_def)
qed

section \<open>A hook for the witnesses\<close>

text \<open>A hook that answers the fixed value s and a lifetime of 90 seconds.\<close>

definition demo_cmd :: "nat cmd_env" where
  "demo_cmd = \<lparr>run_cmd = (\<lambda>_ _ _ n. ((None, ''{\"value\":\"s\",\"expires_in_sec\":90}'', []), Suc n)),
     cmd_now = (\<lambda>_. 0), hook_Do = (\<lambda>_ fn. fn)\<rparr>"

definition demo_env_file :: "string \<Rightarrow> opened" where
  "demo_env_file path = Opened \<lparr>stream_data = ''#x'' @ [CHR 0x0A] @ ''A=op://v/i/f'' @ [CHR 0x0A], stream_fails = False\<rparr>"

lemma demo_cmd_alone: "cmd_alone demo_cmd"
  by (simp add: cmd_alone_def demo_cmd_def)

lemma demo_ParseFile: "ParseFile demo_env_file path = Inr [\<lparr>EntryName = ''A'', EntryRef = ''op://v/i/f''\<rparr>]"
proof -
  have r: "raw_lines (''#x'' @ [CHR 0x0A] @ ''A=op://v/i/f'' @ [CHR 0x0A]) = [''#x'', ''A=op://v/i/f'']" by code_simp
  have e: "parse_entry (drop_cr ''#x'') = None"
    "parse_entry (drop_cr ''A=op://v/i/f'') = Some \<lparr>EntryName = ''A'', EntryRef = ''op://v/i/f''\<rparr>"
    by code_simp+
  show ?thesis
    unfolding ParseFile_def demo_env_file_def opened.case scan_lines_def body_stream.simps r
    by (simp add: maxScanLine_def e)
qed

section \<open>Properties\<close>

text \<open>
  An env-file that is written one entry or comment per line parses back to exactly
  its entries, in order: names and references begin and end with a visible character, names
  have no equals sign and no leading hash, and lines are shorter than 64 KiB.
\<close>

theorem envfile_roundtrip:
  assumes "list_all clean_line ls" and "ls \<noteq> []"
    and "openFile path = Opened \<lparr>stream_data = Join (map render_line ls) [CHR 0x0A] @ [CHR 0x0A], stream_fails = False\<rparr>"
  shows "ParseFile openFile path = Inr (List.map_filter line_entry ls)"
proof -
  have raw: "raw_lines (Join (map render_line ls) [CHR 0x0A] @ [CHR 0x0A]) = map render_line ls"
    using assms(1,2) by (intro raw_lines_render) (auto simp: list_all_iff clean_line_def)
  have short: "\<not> list_ex (\<lambda>l. maxScanLine \<le> length l) (map render_line ls)"
    using assms(1) by (auto simp: list_all_iff list_ex_iff clean_line_def)
  have "List.map_filter parse_entry (map drop_cr (map render_line ls)) = List.map_filter line_entry ls"
    using assms(1) by (induction ls) (auto simp: parse_entry_render split: option.splits)
  then show ?thesis using assms(3) raw short by (simp add: ParseFile_def scan_lines_def)
qed

theorem envfile_roundtrip_witness:
  "ParseFile demo_env_file ''f'' = Inr [\<lparr>EntryName = ''A'', EntryRef = ''op://v/i/f''\<rparr>]"
proof -
  let ?ls = "[CommentLine ''x'', EntryLine \<lparr>EntryName = ''A'', EntryRef = ''op://v/i/f''\<rparr>]"
  have "\<not> space_byte (CHR ''x'')" "\<not> space_byte (CHR ''A'')" "\<not> space_byte (CHR ''o'')" "\<not> space_byte (CHR ''f'')" by code_simp+
  then have "list_all clean_line ?ls" by (simp add: clean_line_def solid_def maxScanLine_def)
  moreover have "demo_env_file ''f'' = Opened \<lparr>stream_data = Join (map render_line ?ls) [CHR 0x0A] @ [CHR 0x0A], stream_fails = False\<rparr>"
    by (simp add: demo_env_file_def)
  ultimately show ?thesis using envfile_roundtrip [of ?ls demo_env_file "''f''"] by simp
qed

text \<open>
  C37 (functional). Only declared secrets cross, with the values the hook gave for them: whatever
  resolve prints is one JSON document whose variables are exactly the names the env-file declares.
  Each entry has a non-empty value, which is the answer of the configured hook command for the
  entry's own reference, run in this call one entry after the other or given earlier in this call
  for the same reference; a later entry of the same name wins. A reader of the broker's schema
  decodes the document to these variables (ASCII names and values within the size limit). When a
  reference cannot be resolved nothing is printed, and the error names the first such entry and
  wraps the error of the hook's run on its reference.
\<close>

theorem resolve_prints_declared:
  assumes "cmd_alone env" and "resolveCmd env decodeFile openFile defaultPath configPath envFile w = (res, w')"
    and "ParseFile openFile envFile = Inr entries" and "envFile \<noteq> []"
    and "loadConfig decodeFile (if configPath = [] then defaultPath else configPath) = Inr cfg"
  defines "h \<equiv> NewScriptHook (cc_Hook cfg) (hookTimeout cfg)"
  shows "case res of
     Inr out \<Rightarrow> (\<exists>vals vs. out = json_line (JObj [(''env'', json_string_map vals)]) \<and> distinct (map fst vals) \<and>
       fst ` set vals = EntryName ` set entries \<and> length vs = length entries \<and> answered env h [] entries vs w w' \<and>
       map_of vals = map_of (rev (zip (map EntryName entries) vs)) \<and> (\<forall>(k, v) \<in> set vals. v \<noteq> []) \<and>
       (list_all (\<lambda>(k, v). ascii k \<and> ascii v) vals \<and> length out \<le> maxEnvResponse \<longrightarrow>
          decode_env out = Inr (Some (sort_key fst vals))))
   | Inl err \<Rightarrow> (\<exists>pre e post vs w1 cause. entries = pre @ e # post \<and> answered env h [] pre vs w w1 \<and>
       hook_run env h (EntryRef e) w1 = (Inl cause, w') \<and>
       err = WrapError (''secretenv: resolve '' @ EntryName e @ '' ('' @ EntryRef e @ '')'') cause)"
proof -
  obtain r c' w2 where run: "resolve_entries (hook_Resolve env h) entries [] ([], w) = (r, (c', w2))" by (metis prod_cases3)
  have res: "res = (case r of Inr m \<Rightarrow> Inr (json_line (JObj [(''env'', json_string_map m)])) | Inl err \<Rightarrow> Inl err)" "w' = w2"
    using assms(2-5) run unfolding h_def by (cases r; auto simp: resolveCmd_def resolveEnvFile_def ResolveFile_def)+
  note ans = resolve_entries_answered [OF assms(1) run cache_from_empty, of "[]"]
  show ?thesis
  proof (cases r)
    case (Inr m)
    with ans obtain vs where vs: "length vs = length entries" "answered env h [] entries vs w w2"
      "m = foldl (\<lambda>m (k, v). map_put m k v) [] (zip (map EntryName entries) vs)" by auto
    have m: "map_of m = map_of (rev (zip (map EntryName entries) vs))" by (simp add: vs(3) map_of_foldl_put_rev)
    have k: "distinct (map fst m)" "fst ` set m = EntryName ` set entries" "\<forall>(k, v) \<in> set m. v \<noteq> []"
      using resolve_entries_ok [OF run [unfolded Inr]] by simp_all
    have out: "res = Inr (json_line (JObj [(''env'', json_string_map m)]))" using res(1) Inr by simp
    show ?thesis unfolding out sum.case
      by (rule exI [of _ m], rule exI [of _ vs]) (use vs(1,2) m k res(2) decode_env_line [OF k(1)] in simp)
  next
    case (Inl err)
    then show ?thesis using ans res by simp
  qed
qed

theorem resolve_prints_declared_witness:
  "\<exists>out vals. resolveCmd demo_cmd (\<lambda>_. Inr \<lparr>cc_Hook = [''hook''], cc_HookTimeoutSec = 0\<rparr>) demo_env_file ''c'' [] ''f'' 0 = (Inr out, 1) \<and>
     out = json_line (JObj [(''env'', json_string_map vals)]) \<and> map_of vals = [''A'' \<mapsto> ''s'']"
  (is "\<exists>out vals. resolveCmd demo_cmd ?dec demo_env_file ''c'' [] ''f'' 0 = _ \<and> _")
proof -
  let ?cfg = "\<lparr>cc_Hook = [''hook''], cc_HookTimeoutSec = 0\<rparr>"
  have l: "loadConfig ?dec (if [] = [] then ''c'' else []) = Inr ?cfg" by (simp add: loadConfig_def)
  have d: "decode_resp ''{\"value\":\"s\",\"expires_in_sec\":90}'' = Inr \<lparr>resp_Value = ''s'', resp_ExpiresInSec = 90\<rparr>" by code_simp
  have "hook_Resolve demo_cmd (NewScriptHook [''hook''] t) ''op://v/i/f'' ([], 0) =
      (Inr ''s'', ([(''op://v/i/f'', \<lparr>hc_value = ''s'', hc_expires = 60000000000\<rparr>)], 1))" for t
    by (simp add: hook_Resolve_def hook_cache.lookup_empty demo_cmd_def hook_flight_def hook_run_def NewScriptHook_def parseResp_def d
        seconds_of_def second_def defaultHookSafety_def time_Add_def word_sless_alt zeroTime_def cacheSet_def Let_def)
  then obtain out where run: "resolveCmd demo_cmd ?dec demo_env_file ''c'' [] ''f'' 0 = (Inr out, 1)"
    by (simp add: resolveCmd_def resolveEnvFile_def loadConfig_def ResolveFile_def demo_ParseFile)
  from resolve_prints_declared [OF demo_cmd_alone run demo_ParseFile _ l] obtain vals vs where
    v: "out = json_line (JObj [(''env'', json_string_map vals)])" "length vs = 1"
      "answered demo_cmd (NewScriptHook (cc_Hook ?cfg) (hookTimeout ?cfg)) [] [\<lparr>EntryName = ''A'', EntryRef = ''op://v/i/f''\<rparr>] vs 0 1"
      "map_of vals = map_of (rev (zip (map EntryName [\<lparr>EntryName = ''A'', EntryRef = ''op://v/i/f''\<rparr>]) vs))"
    by auto
  then obtain x where x: "vs = [x]" by (cases vs) auto
  have "x = ''s''" using v(3) d by (auto simp: x demo_cmd_def)
  with v x run show ?thesis by auto
qed

end
