(* ===== verification/Native_Pipe.thy ===== *)
theory Native_Pipe
  imports Win_Secure_File
begin

text \<open>
  Windows named pipes, internal/nativeipc: identities (identity.go), the listening pipe
  (pipe_windows.go), the server's check of a client (peer_windows.go) and the client's check of
  the server before anything is sent (client_windows.go). The Windows calls, go-winio and a
  connection's bytes (io.ReadFull on it and its Write) are parameters.
\<close>

section \<open>identity.go\<close>

definition validSIDText :: "string \<Rightarrow> bool" where
  "validSIDText sid =
     (if length sid < 5 \<or> \<not> EqualFold (take 2 sid) ''S-'' then False
      else list_all (\<lambda>r. is_digit r \<or> r = CHR ''-'') (drop 2 sid))"

definition pipe_prefix :: string where
  "pipe_prefix = [separator, separator] @ ''.'' @ [separator] @ ''pipe'' @ [separator]"

definition PipePath :: "string \<Rightarrow> string \<Rightarrow> go_error + string" where
  "PipePath kind sid =
     (if kind \<noteq> ''broker'' \<and> kind \<noteq> ''admin'' then Inl (PlainError (''unsupported pipe kind '' @ kind))
      else if \<not> validSIDText sid then Inl (PlainError ''invalid SID'')
      else Inr (pipe_prefix @ ''credproxyd-'' @ kind @ ''-'' @ sid))"

definition SIDMatches :: "string \<Rightarrow> string \<Rightarrow> bool" where
  "SIDMatches actual expected \<longleftrightarrow> actual \<noteq> [] \<and> expected \<noteq> [] \<and> EqualFold actual expected"

definition verifyServerSID :: "string \<Rightarrow> string \<Rightarrow> go_error option" where
  "verifyServerSID serverSID currentSID =
     (if \<not> SIDMatches serverSID currentSID
      then Some (PlainError ''named pipe server process SID does not match the current user'') else None)"

section \<open>The system\<close>

text \<open>
  Connections are of type 'c, the system's state of type 'x. ImpersonateNamedPipeClient returns
  whether its result was nonzero and the error of the call, None for ERROR_SUCCESS. Tokens and
  processes are handles.
\<close>

record ('c, 'x) pipe_api =
  pipe_win :: "'x win_api"
  pipe_now :: "'x \<Rightarrow> instant"
  pipe_StringToSid :: "string \<Rightarrow> go_error + string"
  pipe_Listen :: "string \<Rightarrow> string \<Rightarrow> 'x \<Rightarrow> go_error option \<times> 'x"
  pipe_Accept :: "'x \<Rightarrow> (go_error + 'c) \<times> 'x"
  pipe_Dial :: "string \<Rightarrow> 'x \<Rightarrow> (go_error + 'c) \<times> 'x"
  conn_Close :: "'c \<Rightarrow> 'x \<Rightarrow> 'x"
  conn_Fd :: "'c \<Rightarrow> win_handle option"
  conn_SetDeadline :: "'c \<Rightarrow> instant \<Rightarrow> 'x \<Rightarrow> go_error option \<times> 'x"
  conn_ReadFull :: "'c \<Rightarrow> nat \<Rightarrow> 'x \<Rightarrow> (go_error + bytes) \<times> 'x"
  conn_Write :: "'c \<Rightarrow> bytes \<Rightarrow> 'x \<Rightarrow> (nat \<times> go_error option) \<times> 'x"
  pipe_ServerProcessId :: "win_handle \<Rightarrow> 'x \<Rightarrow> go_error + 32 word"
  pipe_OpenProcess :: "32 word \<Rightarrow> 'x \<Rightarrow> (go_error + win_handle) \<times> 'x"
  pipe_OpenProcessToken :: "win_handle \<Rightarrow> 'x \<Rightarrow> (go_error + win_handle) \<times> 'x"
  pipe_TokenUser :: "win_handle \<Rightarrow> 'x \<Rightarrow> go_error + string"
  pipe_ImageName :: "win_handle \<Rightarrow> 'x \<Rightarrow> go_error + string"
  pipe_Impersonate :: "win_handle \<Rightarrow> 'x \<Rightarrow> (bool \<times> go_error option) \<times> 'x"
  pipe_CurrentThread :: "'x \<Rightarrow> go_error + win_handle"
  pipe_OpenThreadToken :: "win_handle \<Rightarrow> 'x \<Rightarrow> (go_error + win_handle) \<times> 'x"
  pipe_RevertToSelf :: "'x \<Rightarrow> go_error option \<times> 'x"

abbreviation close_handle :: "('c, 'x) pipe_api \<Rightarrow> win_handle \<Rightarrow> 'x \<Rightarrow> 'x" where
  "close_handle api h x \<equiv> snd (win_CloseHandle (pipe_win api) h x)"

section \<open>pipe_windows.go\<close>

definition CurrentUserSID :: "('c, 'x) pipe_api \<Rightarrow> 'x \<Rightarrow> go_error + string" where
  "CurrentUserSID api x =
     (case win_TokenUser (pipe_win api) x of Inl err \<Rightarrow> Inl (WrapError ''read process user SID'' err) | Inr sid \<Rightarrow> Inr sid)"

definition DefaultPipePath :: "('c, 'x) pipe_api \<Rightarrow> string \<Rightarrow> 'x \<Rightarrow> go_error + string" where
  "DefaultPipePath api kind x = (case CurrentUserSID api x of Inl err \<Rightarrow> Inl err | Inr sid \<Rightarrow> PipePath kind sid)"

definition canonicalSID :: "('c, 'x) pipe_api \<Rightarrow> string \<Rightarrow> string \<Rightarrow> go_error + string" where
  "canonicalSID api configured fallback =
     (let configured = (if configured = [] then fallback else configured) in
      case pipe_StringToSid api configured of Inl err \<Rightarrow> Inl (WrapError ''invalid peer SID'' err) | Inr sid \<Rightarrow> Inr sid)"

definition pipeDescriptor :: "string \<Rightarrow> string \<Rightarrow> string" where
  "pipeDescriptor owner peer =
     (let entries = ''(A;;GA;;;'' @ owner @ '')(A;;GA;;;SY)'';
          entries = (if \<not> SIDMatches owner peer then ''(A;;GA;;;'' @ peer @ '')'' @ entries else entries)
      in ''O:'' @ owner @ ''G:SYD:P'' @ entries)"

text \<open>
  strings.ToLower as far as a prefix of ASCII characters can tell: two other characters become
  ASCII letters, the dotted capital I and the Kelvin sign.
\<close>

fun lower_bytes :: "string \<Rightarrow> string" where
  "lower_bytes [] = []"
| "lower_bytes (c # s) =
     (case s of
        d # s' \<Rightarrow>
          if c = CHR 0xC4 \<and> d = CHR 0xB0 then CHR ''i'' # lower_bytes s'
          else (case s' of
              e # s'' \<Rightarrow>
                if c = CHR 0xE2 \<and> d = CHR 0x84 \<and> e = CHR 0xAA then CHR ''k'' # lower_bytes s''
                else byte_lower c # lower_bytes s
            | [] \<Rightarrow> byte_lower c # lower_bytes s)
      | [] \<Rightarrow> [byte_lower c])"

fun has_dotdot :: "string \<Rightarrow> bool" where
  "has_dotdot [] = False"
| "has_dotdot (c # s) = (HasPrefix (c # s) ''..'' \<or> has_dotdot s)"

definition validatePipePath :: "string \<Rightarrow> go_error option" where
  "validatePipePath path =
     (if \<not> HasPrefix (lower_bytes path) pipe_prefix \<or> has_dotdot path
      then Some (PlainError (''named pipe path must be a local '' @ butlast pipe_prefix @ '' endpoint'')) else None)"

text \<open>ListenPipe returns the expected peer of its listener, sidListener.expected.\<close>

definition nativeipc_ListenPipe :: "('c, 'x) pipe_api \<Rightarrow> string \<Rightarrow> string \<Rightarrow> 'x \<Rightarrow> (go_error + string) \<times> 'x" where
  "nativeipc_ListenPipe api path expectedPeerSID x =
     (case validatePipePath path of
        Some err \<Rightarrow> (Inl err, x)
      | None \<Rightarrow>
          (case CurrentUserSID api x of
             Inl err \<Rightarrow> (Inl err, x)
           | Inr ownerSID \<Rightarrow>
               (case canonicalSID api expectedPeerSID ownerSID of
                  Inl err \<Rightarrow> (Inl err, x)
                | Inr peerSID \<Rightarrow>
                    (case pipe_Listen api path (pipeDescriptor ownerSID peerSID) x of
                       (Some err, x') \<Rightarrow> (Inl (WrapError ''listen named pipe'' err), x')
                     | (None, x') \<Rightarrow> (Inr peerSID, x')))))"

section \<open>peer_windows.go\<close>

definition pipeClientPreface :: bytes where
  "pipeClientPreface = ''credproxy-native-v1'' @ [CHR 0x0A]"

definition pipeServerAck :: bytes where
  "pipeServerAck = ''credproxy-ready-v1'' @ [CHR 0x0A]"

definition pipeHandshakeTimeout :: duration where
  "pipeHandshakeTimeout = 5 * second"

function writeAll :: "('c, 'x) pipe_api \<Rightarrow> 'c \<Rightarrow> bytes \<Rightarrow> 'x \<Rightarrow> go_error option \<times> 'x" where
  "writeAll api c data x =
     (if data = [] then (None, x)
      else (case conn_Write api c data x of
              ((written, Some err), x') \<Rightarrow> (Some err, x')
            | ((written, None), x') \<Rightarrow>
                if written = 0 then (Some (PlainError ''named pipe write made no progress''), x')
                else writeAll api c (drop written data) x'))"
  by pat_completeness auto
termination
  by (relation "measure (\<lambda>(api, c, data, x). length data)") auto

declare writeAll.simps [simp del]

definition callImpersonatePipeClient :: "('c, 'x) pipe_api \<Rightarrow> win_handle \<Rightarrow> 'x \<Rightarrow> go_error option \<times> 'x" where
  "callImpersonatePipeClient api pipe x =
     (case pipe_Impersonate api pipe x of
        ((result, callErr), x') \<Rightarrow>
          (if result then None
           else (case callErr of Some err \<Rightarrow> Some err | None \<Rightarrow> Some (PlainError ''Access is denied.'')), x'))"

text \<open>
  impersonatedSIDOnThread: the body between impersonation and the deferred calls, then
  RevertToSelf, whose failure replaces the error and clears the third result.
\<close>

definition thread_token_sid :: "('c, 'x) pipe_api \<Rightarrow> 'x \<Rightarrow> (string \<times> go_error option) \<times> 'x" where
  "thread_token_sid api x =
     (case pipe_CurrentThread api x of
        Inl err \<Rightarrow> (([], Some err), x)
      | Inr thread \<Rightarrow>
          (case pipe_OpenThreadToken api thread x of
             (Inl err, x1) \<Rightarrow> (([], Some (WrapError ''open impersonated pipe token'' err)), x1)
           | (Inr token, x1) \<Rightarrow>
               (case pipe_TokenUser api token x1 of
                  Inl err \<Rightarrow> (([], Some (WrapError ''read impersonated pipe SID'' err)), close_handle api token x1)
                | Inr sid \<Rightarrow> ((sid, None), close_handle api token x1))))"

definition impersonatedSIDOnThread :: "('c, 'x) pipe_api \<Rightarrow> 'c \<Rightarrow> 'x \<Rightarrow> (string \<times> go_error option \<times> bool) \<times> 'x" where
  "impersonatedSIDOnThread api c x =
     (case conn_Fd api c of
        None \<Rightarrow> (([], Some (PlainError ''named pipe connection has no native handle''), True), x)
      | Some fd \<Rightarrow>
          (case callImpersonatePipeClient api fd x of
             (Some err, x1) \<Rightarrow> (([], Some err, True), x1)
           | (None, x1) \<Rightarrow>
               (case thread_token_sid api x1 of
                  ((sid, err), x2) \<Rightarrow>
                    (case pipe_RevertToSelf api x2 of
                       (Some e, x3) \<Rightarrow> ((sid, Some (WrapError ''revert named pipe impersonation'' e), False), x3)
                     | (None, x3) \<Rightarrow> ((sid, err, True), x3)))))"

text \<open>A thread that could not revert ends with its goroutine; its SID is not passed on.\<close>

definition impersonatedSID :: "('c, 'x) pipe_api \<Rightarrow> 'c \<Rightarrow> 'x \<Rightarrow> (string \<times> go_error option) \<times> 'x" where
  "impersonatedSID api c x =
     (case impersonatedSIDOnThread api c x of
        ((sid, err, reverted), x') \<Rightarrow> (if \<not> reverted then ([], err) else (sid, err), x'))"

definition authenticatePipeClient :: "('c, 'x) pipe_api \<Rightarrow> 'c \<Rightarrow> string \<Rightarrow> duration \<Rightarrow> 'x \<Rightarrow> (go_error + string) \<times> 'x" where
  "authenticatePipeClient api c expected timeout x =
     (case conn_SetDeadline api c (time_Add (pipe_now api x) timeout) x of
        (Some err, x1) \<Rightarrow> (Inl (WrapError ''set named pipe handshake deadline'' err), x1)
      | (None, x1) \<Rightarrow>
     (case conn_ReadFull api c (length pipeClientPreface) x1 of
        (Inl err, x2) \<Rightarrow> (Inl (WrapError ''read named pipe client preface'' err), x2)
      | (Inr preface, x2) \<Rightarrow>
     (if preface \<noteq> pipeClientPreface then (Inl (PlainError ''invalid named pipe client preface''), x2)
      else
     (case conn_SetDeadline api c zeroTime x2 of
        (Some err, x3) \<Rightarrow> (Inl (WrapError ''clear named pipe handshake deadline'' err), x3)
      | (None, x3) \<Rightarrow>
     (case impersonatedSID api c x3 of
        ((sid, err), x4) \<Rightarrow>
     (if err \<noteq> None \<or> \<not> SIDMatches sid expected then (Inl (PlainError ''named pipe client SID verification failed''), x4)
      else
     (case conn_SetDeadline api c (time_Add (pipe_now api x4) timeout) x4 of
        (Some err, x5) \<Rightarrow> (Inl (WrapError ''set named pipe acknowledgement deadline'' err), x5)
      | (None, x5) \<Rightarrow>
     (case writeAll api c pipeServerAck x5 of
        (Some err, x6) \<Rightarrow> (Inl (WrapError ''write named pipe acknowledgement'' err), x6)
      | (None, x6) \<Rightarrow>
     (case conn_SetDeadline api c zeroTime x6 of
        (Some err, x7) \<Rightarrow> (Inl (WrapError ''clear named pipe acknowledgement deadline'' err), x7)
      | (None, x7) \<Rightarrow> (Inr sid, x7))))))))))"

text \<open>One round of Accept's loop, and the loop, which goes on while clients are refused.\<close>

definition accept_round :: "('c, 'x) pipe_api \<Rightarrow> string \<Rightarrow> 'x \<Rightarrow> (go_error + 'c \<times> string) option \<times> 'x" where
  "accept_round api expected x =
     (case pipe_Accept api x of
        (Inl err, x1) \<Rightarrow> (Some (Inl err), x1)
      | (Inr c, x1) \<Rightarrow>
          (case authenticatePipeClient api c expected pipeHandshakeTimeout x1 of
             (Inl err, x2) \<Rightarrow> (None, conn_Close api c x2)
           | (Inr sid, x2) \<Rightarrow> if \<not> SIDMatches sid expected then (None, conn_Close api c x2) else (Some (Inr (c, sid)), x2)))"

partial_function (option) sidListener_Accept ::
  "('c, 'x) pipe_api \<Rightarrow> string \<Rightarrow> 'x \<Rightarrow> ((go_error + 'c \<times> string) \<times> 'x) option" where
  "sidListener_Accept api expected x =
     (case accept_round api expected x of
        (Some r, x') \<Rightarrow> Some (r, x')
      | (None, x') \<Rightarrow> sidListener_Accept api expected x')"

declare sidListener_Accept.simps [code]

section \<open>client_windows.go\<close>

definition clientPipeHandshake :: "('c, 'x) pipe_api \<Rightarrow> instant option \<Rightarrow> 'c \<Rightarrow> 'x \<Rightarrow> go_error option \<times> 'x" where
  "clientPipeHandshake api ctxDeadline c x =
     (let deadline = time_Add (pipe_now api x) pipeHandshakeTimeout;
          deadline = (case ctxDeadline of Some d \<Rightarrow> if d < deadline then d else deadline | None \<Rightarrow> deadline) in
     (case conn_SetDeadline api c deadline x of
        (Some err, x1) \<Rightarrow> (Some (WrapError ''set named pipe handshake deadline'' err), x1)
      | (None, x1) \<Rightarrow>
     (case writeAll api c pipeClientPreface x1 of
        (Some err, x2) \<Rightarrow> (Some (WrapError ''write named pipe client preface'' err), x2)
      | (None, x2) \<Rightarrow>
     (case conn_ReadFull api c (length pipeServerAck) x2 of
        (Inl err, x3) \<Rightarrow> (Some (WrapError ''read named pipe acknowledgement'' err), x3)
      | (Inr ack, x3) \<Rightarrow>
     (if ack \<noteq> pipeServerAck then (Some (PlainError ''invalid named pipe acknowledgement''), x3)
      else
     (case conn_SetDeadline api c zeroTime x3 of
        (Some err, x4) \<Rightarrow> (Some (WrapError ''clear named pipe handshake deadline'' err), x4)
      | (None, x4) \<Rightarrow> (None, x4)))))))"

definition processUserSID :: "('c, 'x) pipe_api \<Rightarrow> win_handle \<Rightarrow> 'x \<Rightarrow> (go_error + string) \<times> 'x" where
  "processUserSID api process x =
     (case pipe_OpenProcessToken api process x of
        (Inl err, x1) \<Rightarrow> (Inl err, x1)
      | (Inr token, x1) \<Rightarrow> (pipe_TokenUser api token x1, close_handle api token x1))"

abbreviation close_file :: "('c, 'x) pipe_api \<Rightarrow> File \<Rightarrow> 'x \<Rightarrow> 'x" where
  "close_file api f x \<equiv> snd (snd (File_Close (pipe_win api) f x))"

text \<open>The part of verifyProcessImage under the deferred Close of the expected file.\<close>

definition compare_image :: "('c, 'x) pipe_api \<Rightarrow> win_handle \<Rightarrow> File \<Rightarrow> 'x \<Rightarrow> go_error option \<times> 'x" where
  "compare_image api process expected x =
     (case pipe_ImageName api process x of
        Inl err \<Rightarrow> (Some (WrapError ''read named pipe server executable'' err), x)
      | Inr imagePath \<Rightarrow>
          (case OpenImage (pipe_win api) imagePath x of
             (Inl err, x1) \<Rightarrow> (Some (WrapError ''validate named pipe server executable'' err), x1)
           | (Inr actual, x1) \<Rightarrow>
               (if SameFile (pipe_win api) expected actual x1 = Inr True then None
                else Some (PlainError ''named pipe server is not running the expected managed executable''),
                close_file api actual x1)))"

definition verifyProcessImage :: "('c, 'x) pipe_api \<Rightarrow> win_handle \<Rightarrow> string \<Rightarrow> 'x \<Rightarrow> go_error option \<times> 'x" where
  "verifyProcessImage api process expectedPath x =
     (case processUserSID api process x of
        (Inl err, x1) \<Rightarrow> (Some (WrapError ''read named pipe server process SID'' err), x1)
      | (Inr serverSID, x1) \<Rightarrow>
          (case CurrentUserSID api x1 of
             Inl err \<Rightarrow> (Some err, x1)
           | Inr currentSID \<Rightarrow>
               (case verifyServerSID serverSID currentSID of
                  Some err \<Rightarrow> (Some err, x1)
                | None \<Rightarrow>
                    (case OpenManagedImage (pipe_win api) expectedPath x1 of
                       (Inl err, x2) \<Rightarrow> (Some (WrapError ''validate expected managed server executable'' err), x2)
                     | (Inr expected, x2) \<Rightarrow>
                         (case compare_image api process expected x2 of (err, x3) \<Rightarrow> (err, close_file api expected x3))))))"

definition verifyPipeServer :: "('c, 'x) pipe_api \<Rightarrow> 'c \<Rightarrow> string \<Rightarrow> 'x \<Rightarrow> go_error option \<times> 'x" where
  "verifyPipeServer api c expectedExecutable x =
     (case conn_Fd api c of
        None \<Rightarrow> (Some (PlainError ''named pipe connection has no native handle''), x)
      | Some fd \<Rightarrow>
          (case pipe_ServerProcessId api fd x of
             Inl err \<Rightarrow> (Some (WrapError ''read named pipe server process identity'' err), x)
           | Inr processID \<Rightarrow>
               if processID = 0 then (Some (PlainError ''named pipe server process identity is missing''), x)
               else (case pipe_OpenProcess api processID x of
                       (Inl err, x1) \<Rightarrow> (Some (WrapError ''open named pipe server process'' err), x1)
                     | (Inr process, x1) \<Rightarrow>
                         (case verifyProcessImage api process expectedExecutable x1 of
                            (err, x2) \<Rightarrow> (err, close_handle api process x2)))))"

definition DialPipe :: "('c, 'x) pipe_api \<Rightarrow> instant option \<Rightarrow> string \<Rightarrow> string \<Rightarrow> 'x \<Rightarrow> (go_error + 'c) \<times> 'x" where
  "DialPipe api ctxDeadline path expectedExecutable x =
     (case validatePipePath path of
        Some err \<Rightarrow> (Inl err, x)
      | None \<Rightarrow>
          if TrimSpace expectedExecutable = [] then (Inl (PlainError ''expected managed server executable is required''), x)
          else (case pipe_Dial api path x of
                  (Inl err, x1) \<Rightarrow> (Inl err, x1)
                | (Inr c, x1) \<Rightarrow>
                    (case verifyPipeServer api c expectedExecutable x1 of
                       (Some err, x2) \<Rightarrow> (Inl err, conn_Close api c x2)
                     | (None, x2) \<Rightarrow>
                         (case clientPipeHandshake api ctxDeadline c x2 of
                            (Some err, x3) \<Rightarrow> (Inl err, conn_Close api c x3)
                          | (None, x3) \<Rightarrow> (Inr c, x3)))))"

section \<open>Pipe names\<close>

lemma no_dot_no_dotdot: "CHR ''.'' \<notin> set s \<Longrightarrow> \<not> has_dotdot s"
  by (induction s) auto

lemma pipe_kind_cases: "PipePath kind sid = Inr p \<Longrightarrow>
    (kind = ''broker'' \<or> kind = ''admin'') \<and> validSIDText sid \<and> p = pipe_prefix @ ''credproxyd-'' @ kind @ ''-'' @ sid"
  by (auto simp: PipePath_def split: if_splits)

lemma byte_lower_dash: "byte_lower c = CHR ''-'' \<Longrightarrow> c = CHR ''-''"
  by (auto simp: byte_lower_def in_range_def split: if_splits dest!: arg_cong [where f = "of_char :: char \<Rightarrow> nat"])

lemma byte_lower_s: "byte_lower c = CHR ''s'' \<Longrightarrow> c \<noteq> CHR ''.''"
  by (auto simp: byte_lower_def in_range_def)

lemma fold_S: "fold_bytes [a, b] = fold_bytes ''S-'' \<Longrightarrow> a \<noteq> CHR ''.'' \<and> b = CHR ''-''"
proof -
  have "byte_lower (CHR ''S'') = CHR ''s''" "byte_lower (CHR ''-'') = CHR ''-''" by code_simp+
  then show "fold_bytes [a, b] = fold_bytes ''S-'' \<Longrightarrow> ?thesis"
    by (auto split: if_splits dest: byte_lower_dash byte_lower_s)
qed

lemma validSIDText_no_dot:
  assumes "validSIDText sid"
  shows "CHR ''.'' \<notin> set sid"
proof -
  have l: "5 \<le> length sid" "EqualFold (take 2 sid) ''S-''" "list_all (\<lambda>r. is_digit r \<or> r = CHR ''-'') (drop 2 sid)"
    using assms by (simp_all add: validSIDText_def split: if_splits)
  then obtain a b r where "sid = a # b # r" by (cases sid; cases "tl sid") auto
  with l fold_S [of a b] show ?thesis by (auto simp: EqualFold_def list_all_iff in_range_def)
qed

text \<open>
  Each pipe name belongs to one role and one user: PipePath gives different names to
  different kinds and SIDs, and every name it gives is a local pipe that the dialer accepts.
\<close>

theorem PipePath_scoped:
  assumes "PipePath kind sid = Inr p" "PipePath kind' sid' = Inr p"
  shows "kind = kind' \<and> sid = sid' \<and> validatePipePath p = None"
proof -
  note k = pipe_kind_cases [OF assms(1)] pipe_kind_cases [OF assms(2)]
  then have "CHR ''.'' \<notin> set sid" by (simp add: validSIDText_no_dot)
  then have "\<not> has_dotdot sid" by (rule no_dot_no_dotdot)
  then show ?thesis
    using k by (auto simp: pipe_prefix_def separator_def validatePipePath_def byte_lower_def in_range_def HasPrefix_def)
qed

theorem PipePath_scoped_witness: "PipePath ''admin'' ''S-1-5-21-7'' = PipePath ''admin'' ''S-1-5-21-7'' \<and>
    validatePipePath (pipe_prefix @ ''credproxyd-admin-S-1-5-21-7'') = None"
proof -
  have "PipePath ''admin'' ''S-1-5-21-7'' = Inr (pipe_prefix @ ''credproxyd-admin-S-1-5-21-7'')" by code_simp
  from PipePath_scoped [OF this this] show ?thesis by simp
qed

section \<open>Accept\<close>

inductive client_refused :: "('c, 'x) pipe_api \<Rightarrow> string \<Rightarrow> 'x \<Rightarrow> 'x \<Rightarrow> bool" for api expected where
  refuse: "accept_round api expected x = (None, x') \<Longrightarrow> client_refused api expected x x'"

inductive_simps client_refused_iff: "client_refused api expected x x'"

lemma Accept_sound:
  assumes "sidListener_Accept api expected x = Some (r, x')"
  shows "\<exists>y. (client_refused api expected)\<^sup>*\<^sup>* x y \<and> accept_round api expected y = (Some r, x')"
proof -
  let ?P = "\<lambda>api expected x res. \<exists>y. (client_refused api expected)\<^sup>*\<^sup>* x y \<and> accept_round api expected y = (Some (fst res), snd res)"
  have "(case ((api, expected), x) of (p, x) \<Rightarrow> (case p of (api, expected) \<Rightarrow> ?P api expected) x) (r, x')"
  proof (rule sidListener_Accept.raw_induct [where P = ?P])
    fix Acc api expected x and res :: "(go_error + 'a \<times> string) \<times> 'b"
    assume IH: "\<And>api expected x res. Acc api expected x = Some res \<Longrightarrow> ?P api expected x res"
      and eq: "(case accept_round api expected x of (None, x') \<Rightarrow> Acc api expected x' | (Some r, x') \<Rightarrow> Some (r, x')) = Some res"
    obtain o1 x1 where a: "accept_round api expected x = (o1, x1)" by (rule prod.exhaust)
    show "?P api expected x res"
    proof (cases o1)
      case None
      with eq a IH [of api expected x1 res] obtain y
        where "(client_refused api expected)\<^sup>*\<^sup>* x1 y \<and> accept_round api expected y = (Some (fst res), snd res)" by auto
      with None a show ?thesis by (meson converse_rtranclp_into_rtranclp refuse)
    qed (use eq a in auto)
  qed (use assms in simp)
  then show ?thesis by simp
qed

lemma Accept_complete:
  assumes "(client_refused api expected)\<^sup>*\<^sup>* x y" "accept_round api expected y = (Some r, x')"
  shows "sidListener_Accept api expected x = Some (r, x')"
  using assms(1)
proof (induction rule: converse_rtranclp_induct)
  case base
  with assms(2) show ?case by (simp add: sidListener_Accept.simps)
next
  case (step x z)
  then show ?case by (subst sidListener_Accept.simps) (simp add: client_refused_iff)
qed

text \<open>
  The accept loop returns r exactly when, after finitely many clients that were
  refused and closed, the listener fails or a client authenticates with result r; it runs on only
  while refused clients arrive.
\<close>

theorem Accept_returns_iff:
  "sidListener_Accept api expected x = Some (r, x') \<longleftrightarrow>
     (\<exists>y. (client_refused api expected)\<^sup>*\<^sup>* x y \<and> accept_round api expected y = (Some r, x'))"
  by (rule iffI) (erule Accept_sound, elim exE conjE, erule Accept_complete)




section \<open>Impersonation\<close>

text \<open>What Windows documents of impersonation; imp tells whether the thread impersonates.\<close>

definition tracks_impersonation :: "('c, 'x) pipe_api \<Rightarrow> ('x \<Rightarrow> bool) \<Rightarrow> bool" where
  "tracks_impersonation api imp \<longleftrightarrow>
     (\<forall>h x. case pipe_Impersonate api h x of ((ok, e), x') \<Rightarrow> imp x' = (ok \<or> imp x)) \<and>
     (\<forall>t x. imp (snd (pipe_OpenThreadToken api t x)) = imp x) \<and>
     (\<forall>h x. imp (close_handle api h x) = imp x) \<and>
     (\<forall>x. case pipe_RevertToSelf api x of (None, x') \<Rightarrow> \<not> imp x' | (Some e, x') \<Rightarrow> imp x' = imp x)"

text \<open>
  The server never goes on under a client's identity: after a client's SID is read,
  the thread has stopped impersonating, or no SID is returned but an error, which refuses the
  client.
\<close>

theorem impersonation_ends:
  assumes "tracks_impersonation api imp" "\<not> imp x" "impersonatedSID api c x = ((sid, err), x')"
  shows "\<not> imp x' \<or> sid = [] \<and> err \<noteq> None"
proof -
  have r: "pipe_RevertToSelf api y = (None, y') \<Longrightarrow> \<not> imp y'" for y y'
    using assms(1) by (auto simp: tracks_impersonation_def dest: spec [of _ y])
  have i: "callImpersonatePipeClient api fd x = (Some e, y) \<Longrightarrow> \<not> imp y" for fd e y
    using assms(1,2) by (auto simp: tracks_impersonation_def callImpersonatePipeClient_def split: prod.splits if_splits)
  show ?thesis
    using assms(2,3) r i
    by (auto simp: impersonatedSID_def impersonatedSIDOnThread_def split: prod.splits option.splits if_splits)
qed

section \<open>Dialling\<close>

text \<open>
  An observation that file handles do not touch is kept by everything winsecurefile does.
\<close>

definition keeps_files :: "'x win_api \<Rightarrow> ('x \<Rightarrow> 'o) \<Rightarrow> bool" where
  "keeps_files api g \<longleftrightarrow>
     (\<forall>p a s fl x. g (snd (win_CreateFile api p a s fl x)) = g x) \<and> (\<forall>h x. g (snd (win_CloseHandle api h x)) = g x)"

lemma keeps_create: "keeps_files api g \<Longrightarrow> win_CreateFile api p a s fl x = (r, x') \<Longrightarrow> g x' = g x"
  unfolding keeps_files_def by (metis snd_conv)

lemma keeps_close: "keeps_files api g \<Longrightarrow> g (snd (win_CloseHandle api h x)) = g x"
  by (simp add: keeps_files_def)

lemma keeps_close_all: "keeps_files api g \<Longrightarrow> g (snd (close_all api hs err x)) = g x"
  by (induction hs arbitrary: err x) (auto simp: case_prod_beta keeps_close)

lemma keeps_File_Close: "keeps_files api g \<Longrightarrow> g (snd (snd (File_Close api f x))) = g x"
  by (simp add: File_Close_def case_prod_beta keeps_close_all keeps_close)

lemma keeps_openComponent: "keeps_files api g \<Longrightarrow> g (snd (openComponent api path isFile x)) = g x"
  by (simp add: openComponent_def Let_def keeps_files_def)

lemma keeps_openDirectory: "keeps_files api g \<Longrightarrow> g (snd (openDirectory api path x)) = g x"
  using keeps_openComponent [of api g path False x]
  by (auto simp: openDirectory_def keeps_close split: prod.splits sum.splits option.splits)

lemma keeps_openFinalFile: "keeps_files api g \<Longrightarrow> g (snd (openFinalFile api path x)) = g x"
  using keeps_openComponent [of api g path True x]
  by (auto simp: openFinalFile_def keeps_close split: prod.splits sum.splits option.splits)

lemma keeps_open_parts:
  assumes "keeps_files api g"
  shows "g (snd (open_parts api path ancs comps parts x)) = g x"
proof (induction parts arbitrary: path ancs comps x)
  case (Cons part parts)
  obtain r x1 where d: "openDirectory api (win_Join path part) x = (r, x1)" by (rule prod.exhaust)
  obtain r' x2 where f: "openFinalFile api (win_Join path part) x = (r', x2)" by (rule prod.exhaust)
  from keeps_openDirectory [OF assms, of "win_Join path part" x] keeps_openFinalFile [OF assms, of "win_Join path part" x] d f
  have "g x1 = g x" "g x2 = g x" by simp_all
  with Cons.IH show ?case
    by (simp add: Let_def d f closeHandles_def keeps_close_all [OF assms] split: sum.splits)
qed (simp add: closeHandles_def keeps_close_all [OF assms])

lemma keeps_openPath:
  assumes "keeps_files api g"
  shows "g (snd (openPath api path x)) = g x"
proof (cases "pathParts api path x")
  case (Inr rp)
  obtain root parts where rp: "rp = (root, parts)" by (rule prod.exhaust)
  obtain r x1 where d: "openDirectory api root x = (r, x1)" by (rule prod.exhaust)
  with keeps_openDirectory [OF assms, of root x] have "g x1 = g x" by simp
  with Inr rp d show ?thesis
    by (simp add: openPath_def keeps_open_parts [OF assms] split: sum.splits)
qed (simp add: openPath_def)

lemma keeps_OpenManagedImage:
  assumes "keeps_files api g"
  shows "g (snd (OpenManagedImage api path x)) = g x"
proof -
  obtain r x1 where o: "openPath api path x = (r, x1)" by (rule prod.exhaust)
  with keeps_openPath [OF assms, of path x] have "g x1 = g x" by simp
  with o show ?thesis
    by (simp add: OpenManagedImage_def open_protected_def keeps_File_Close [OF assms] split: sum.splits option.splits)
qed

text \<open>
  The contract of the system calls: held is the set of open handles of files, processes and
  tokens, conns the set of open connections, sent what was written on each connection.
\<close>

definition pipe_laws :: "('c, 'x) pipe_api \<Rightarrow> ('x \<Rightarrow> win_handle set) \<Rightarrow> ('x \<Rightarrow> 'c set) \<Rightarrow> ('x \<Rightarrow> 'c \<Rightarrow> bytes) \<Rightarrow> bool" where
  "pipe_laws api held conns sent \<longleftrightarrow>
     tracks_handles (pipe_win api) held \<and> keeps_files (pipe_win api) (\<lambda>x. (conns x, sent x)) \<and>
     (\<forall>i x. opens_one held x (pipe_OpenProcess api i x) \<and>
        conns (snd (pipe_OpenProcess api i x)) = conns x \<and> sent (snd (pipe_OpenProcess api i x)) = sent x) \<and>
     (\<forall>h x. opens_one held x (pipe_OpenProcessToken api h x) \<and>
        conns (snd (pipe_OpenProcessToken api h x)) = conns x \<and> sent (snd (pipe_OpenProcessToken api h x)) = sent x) \<and>
     (\<forall>p x e x'. pipe_Dial api p x = (Inl e, x') \<longrightarrow> held x' = held x \<and> conns x' = conns x \<and> sent x' = sent x) \<and>
     (\<forall>p x c x'. pipe_Dial api p x = (Inr c, x') \<longrightarrow>
        held x' = held x \<and> c \<notin> conns x \<and> conns x' = insert c (conns x) \<and> sent x' = sent x) \<and>
     (\<forall>c x. held (conn_Close api c x) = held x \<and> conns (conn_Close api c x) = conns x - {c} \<and> sent (conn_Close api c x) = sent x) \<and>
     (\<forall>c d x e x'. conn_SetDeadline api c d x = (e, x') \<longrightarrow> held x' = held x \<and> conns x' = conns x \<and> sent x' = sent x) \<and>
     (\<forall>c n x r x'. conn_ReadFull api c n x = (r, x') \<longrightarrow> held x' = held x \<and> conns x' = conns x \<and> sent x' = sent x) \<and>
     (\<forall>c d x w e x'. conn_Write api c d x = ((w, e), x') \<longrightarrow>
        held x' = held x \<and> conns x' = conns x \<and> w \<le> length d \<and> sent x' = (sent x)(c := sent x c @ take w d))"

lemma pipe_files:
  assumes "pipe_laws api held conns sent"
  shows "tracks_handles (pipe_win api) held" "keeps_files (pipe_win api) (\<lambda>x. (conns x, sent x))"
  using assms by (simp_all add: pipe_laws_def)

lemma pipe_deadline:
  "pipe_laws api held conns sent \<Longrightarrow> conn_SetDeadline api c d x = (e, x') \<Longrightarrow> held x' = held x \<and> conns x' = conns x \<and> sent x' = sent x"
  unfolding pipe_laws_def by blast

lemma pipe_read:
  "pipe_laws api held conns sent \<Longrightarrow> conn_ReadFull api c n x = (r, x') \<Longrightarrow> held x' = held x \<and> conns x' = conns x \<and> sent x' = sent x"
  unfolding pipe_laws_def by blast

lemma pipe_write:
  "pipe_laws api held conns sent \<Longrightarrow> conn_Write api c d x = ((w, e), x') \<Longrightarrow>
     held x' = held x \<and> conns x' = conns x \<and> w \<le> length d \<and> sent x' = (sent x)(c := sent x c @ take w d)"
  unfolding pipe_laws_def by blast

lemma pipe_close:
  assumes "pipe_laws api held conns sent"
  shows "held (close_handle api h x) = held x - {h} \<and> conns (close_handle api h x) = conns x \<and> sent (close_handle api h x) = sent x"
  using pipe_files [OF assms] by (simp add: tracks_handles_def keeps_files_def)

lemma writeAll_sent:
  assumes "pipe_laws api held conns sent"
  shows "writeAll api c data x = (r, x') \<Longrightarrow>
    held x' = held x \<and> conns x' = conns x \<and>
    (\<exists>k \<le> length data. sent x' = (sent x)(c := sent x c @ take k data) \<and> (r = None \<longrightarrow> k = length data))"
proof (induction data arbitrary: x rule: length_induct)
  case (1 data)
  show ?case
  proof (cases "data = []")
    case True
    with 1 show ?thesis by (simp add: writeAll.simps)
  next
    case False
    obtain w e x1 where w: "conn_Write api c data x = ((w, e), x1)" by (metis prod.exhaust)
    note p = pipe_write [OF assms w]
    show ?thesis
    proof (cases "e = None \<and> w \<noteq> 0")
      case True
      with 1(2) False w have rec: "writeAll api c (drop w data) x1 = (r, x')"
        by (simp add: writeAll.simps [of api c data])
      have "length (drop w data) < length data" using True False by simp
      from 1(1) [rule_format, OF this rec] obtain k where k: "k \<le> length data - w" "held x' = held x1" "conns x' = conns x1"
          "sent x' = (sent x1)(c := sent x1 c @ take k (drop w data))" "r = None \<longrightarrow> k = length data - w"
        unfolding length_drop by blast
      with p have "sent x' = (sent x)(c := sent x c @ take (w + k) data)" by (simp add: take_add)
      moreover have "w + k \<le> length data" "r = None \<longrightarrow> w + k = length data" using k p by auto
      ultimately show ?thesis using k p by metis
    next
      case stop: False
      with 1(2) False w have "x' = x1" "r \<noteq> None"
        by (auto simp: writeAll.simps [of api c data] split: option.splits if_splits)
      with p show ?thesis by blast
    qed
  qed
qed

definition untouched :: "('x \<Rightarrow> win_handle set) \<Rightarrow> ('x \<Rightarrow> 'c set) \<Rightarrow> ('x \<Rightarrow> 'c \<Rightarrow> bytes) \<Rightarrow> 'x \<Rightarrow> 'x \<Rightarrow> bool" where
  "untouched held conns sent x x' \<longleftrightarrow> held x' = held x \<and> conns x' = conns x \<and> sent x' = sent x"

lemma processUserSID_untouched:
  assumes "pipe_laws api held conns sent" "processUserSID api process x = (r, x')"
  shows "untouched held conns sent x x'"
proof -
  obtain t x1 where t: "pipe_OpenProcessToken api process x = (t, x1)" by (rule prod.exhaust)
  have "opens_one held x (pipe_OpenProcessToken api process x)" "conns x1 = conns x" "sent x1 = sent x"
    using assms(1) t unfolding pipe_laws_def by (metis snd_conv)+
  then show ?thesis
    using assms(2) t pipe_close [OF assms(1), of _ x1]
    by (auto simp: processUserSID_def untouched_def opens_one_def split: sum.splits)
qed

lemma compare_image_untouched:
  assumes "pipe_laws api held conns sent" "compare_image api process expected x = (r, x')"
  shows "untouched held conns sent x x'"
proof (cases "pipe_ImageName api process x")
  case (Inr imagePath)
  obtain f x1 where o: "openPath (pipe_win api) imagePath x = (f, x1)" by (rule prod.exhaust)
  note l = pipe_files [OF assms(1)]
  have k: "conns x1 = conns x" "sent x1 = sent x" using keeps_openPath [OF l(2), of imagePath x] o by simp_all
  have h: "opens_file held [] x (f, x1)" using openPath_opens [OF l(1), of x imagePath] o by simp
  show ?thesis
  proof (cases f)
    case (Inr actual)
    with h have "held (close_file api actual x1) = held x"
      using File_Close_held [OF l(1), of actual x1] by (auto simp: opens_file_def)
    moreover have "conns (close_file api actual x1) = conns x" "sent (close_file api actual x1) = sent x"
      using keeps_File_Close [OF l(2), of actual x1] k by simp_all
    ultimately show ?thesis
      using assms(2) \<open>pipe_ImageName api process x = Inr imagePath\<close> o Inr
      by (auto simp: compare_image_def OpenImage_def untouched_def)
  qed (use assms(2) Inr o k h in \<open>auto simp: compare_image_def OpenImage_def untouched_def opens_file_def\<close>)
qed (use assms(2) in \<open>auto simp: compare_image_def untouched_def\<close>)

lemma OpenManagedImage_file:
  assumes "tracks_handles api held" "OpenManagedImage api path x = (r, x')"
  shows "case r of Inl err \<Rightarrow> held x' = held x
    | Inr f \<Rightarrow> \<not> file_closed f \<and> held x' = held x \<union> file_handles f \<and> file_handles f \<inter> held x = {}"
proof -
  obtain r' z where op: "open_protected validateManagedImageHandle api path x = (r', z)" by (rule prod.exhaust)
  with assms(2) have eq: "r = map_sum id fst r'" "x' = z" by (simp_all add: OpenManagedImage_def)
  show ?thesis
  proof (cases r')
    case (Inl err)
    with open_protected_opens [OF assms(1) op] eq show ?thesis by simp
  next
    case (Inr fs)
    obtain f sid where fs: "fs = (f, sid)" by (rule prod.exhaust)
    with Inr op image_policy.admitted_path have "openPath api path x = (Inr f, z)" by metis
    with openPath_opens [OF assms(1), of x path] Inr fs eq show ?thesis by (simp add: opens_file_def)
  qed
qed

lemma verifyProcessImage_untouched:
  assumes "pipe_laws api held conns sent" "verifyProcessImage api process path x = (r, x')"
  shows "untouched held conns sent x x'"
proof -
  obtain s x1 where p: "processUserSID api process x = (s, x1)" by (rule prod.exhaust)
  obtain e x2 where m: "OpenManagedImage (pipe_win api) path x1 = (e, x2)" by (rule prod.exhaust)
  note l = pipe_files [OF assms(1)]
  have u: "untouched held conns sent x x1" by (rule processUserSID_untouched [OF assms(1) p])
  have k: "conns x2 = conns x1" "sent x2 = sent x1" using keeps_OpenManagedImage [OF l(2), of path x1] m by simp_all
  note f = OpenManagedImage_file [OF l(1) m]
  have closing: "untouched held conns sent x (close_file api expected x3)"
    if "e = Inr expected" "compare_image api process expected x2 = (err, x3)" for expected err x3
  proof -
    have "untouched held conns sent x2 x3" by (rule compare_image_untouched [OF assms(1) that(2)])
    moreover have "held (close_file api expected x3) = held x3 - file_handles expected"
      using f that(1) by (intro File_Close_held [OF l(1)]) simp
    ultimately show ?thesis
      using f that(1) u k keeps_File_Close [OF l(2), of expected x3] by (auto simp: untouched_def)
  qed
  show ?thesis
    using assms(2) p u m k f closing
    by (auto simp: verifyProcessImage_def untouched_def split: sum.splits option.splits prod.splits)
qed

lemma verifyPipeServer_untouched:
  assumes "pipe_laws api held conns sent" "verifyPipeServer api c exe x = (r, x')"
  shows "untouched held conns sent x x'"
proof -
  have opened: "opens_one held x (p, x1) \<and> conns x1 = conns x \<and> sent x1 = sent x" if "pipe_OpenProcess api i x = (p, x1)" for i p x1
    using assms(1) that unfolding pipe_laws_def by (metis snd_conv)
  have "untouched held conns sent x (close_handle api process x2)"
    if "pipe_OpenProcess api i x = (Inr process, x1)" "verifyProcessImage api process exe x1 = (e, x2)" for i process x1 e x2
    using opened [OF that(1)] verifyProcessImage_untouched [OF assms(1) that(2)] pipe_close [OF assms(1), of process x2]
    by (auto simp: untouched_def opens_one_def)
  moreover have "untouched held conns sent x x1" if "pipe_OpenProcess api i x = (Inl e, x1)" for i e x1
    using opened [OF that] by (simp add: untouched_def opens_one_def)
  moreover have "untouched held conns sent x x" by (simp add: untouched_def)
  ultimately show ?thesis
    using assms(2) by (auto simp: verifyPipeServer_def split: option.splits sum.splits prod.splits if_splits)
qed

text \<open>What the client has established when verifyPipeServer succeeds on a connection.\<close>

definition verified_server :: "('c, 'x) pipe_api \<Rightarrow> 'c \<Rightarrow> string \<Rightarrow> 'x \<Rightarrow> bool" where
  "verified_server api c exe x \<longleftrightarrow>
     (\<exists>fd pid process x1 serverSID x2 currentSID expected x3 imagePath actual x4.
        conn_Fd api c = Some fd \<and> pipe_ServerProcessId api fd x = Inr pid \<and> pid \<noteq> 0 \<and>
        pipe_OpenProcess api pid x = (Inr process, x1) \<and>
        processUserSID api process x1 = (Inr serverSID, x2) \<and> CurrentUserSID api x2 = Inr currentSID \<and>
        SIDMatches serverSID currentSID \<and>
        OpenManagedImage (pipe_win api) exe x2 = (Inr expected, x3) \<and>
        pipe_ImageName api process x3 = Inr imagePath \<and> openPath (pipe_win api) imagePath x3 = (Inr actual, x4) \<and>
        SameFile (pipe_win api) expected actual x4 = Inr True)"

lemma verifyPipeServer_verifies:
  assumes "verifyPipeServer api c exe x = (None, x')"
  shows "verified_server api c exe x"
proof -
  from assms obtain fd pid process x1 x2 where a: "conn_Fd api c = Some fd" "pipe_ServerProcessId api fd x = Inr pid" "pid \<noteq> 0"
      "pipe_OpenProcess api pid x = (Inr process, x1)" "verifyProcessImage api process exe x1 = (None, x2)"
    by (auto simp: verifyPipeServer_def split: option.splits sum.splits prod.splits if_splits)
  from a(5) obtain serverSID y2 currentSID expected x3 y4
    where b: "processUserSID api process x1 = (Inr serverSID, y2)" "CurrentUserSID api y2 = Inr currentSID"
      "SIDMatches serverSID currentSID" "OpenManagedImage (pipe_win api) exe y2 = (Inr expected, x3)"
      "compare_image api process expected x3 = (None, y4)"
    by (auto simp: verifyProcessImage_def verifyServerSID_def split: option.splits sum.splits prod.splits if_splits)
  from b(5) obtain imagePath actual x4 where "pipe_ImageName api process x3 = Inr imagePath"
      "openPath (pipe_win api) imagePath x3 = (Inr actual, x4)" "SameFile (pipe_win api) expected actual x4 = Inr True"
    by (auto simp: compare_image_def OpenImage_def split: sum.splits prod.splits if_splits)
  with a b show ?thesis unfolding verified_server_def by blast
qed

lemma clientPipeHandshake_effect:
  assumes "pipe_laws api held conns sent" "clientPipeHandshake api dl c x = (r, x')"
  shows "held x' = held x \<and> conns x' = conns x \<and>
    (\<exists>k \<le> length pipeClientPreface. sent x' = (sent x)(c := sent x c @ take k pipeClientPreface) \<and> (r = None \<longrightarrow> k = length pipeClientPreface))"
proof -
  define d where "d = (case dl of Some d \<Rightarrow> if d < time_Add (pipe_now api x) pipeHandshakeTimeout then d else time_Add (pipe_now api x) pipeHandshakeTimeout
     | None \<Rightarrow> time_Add (pipe_now api x) pipeHandshakeTimeout)"
  obtain e1 x1 where s: "conn_SetDeadline api c d x = (e1, x1)" by (rule prod.exhaust)
  obtain e2 x2 where w: "writeAll api c pipeClientPreface x1 = (e2, x2)" by (rule prod.exhaust)
  obtain e3 x3 where t: "conn_ReadFull api c (length pipeServerAck) x2 = (e3, x3)" by (rule prod.exhaust)
  obtain e4 x4 where u: "conn_SetDeadline api c zeroTime x3 = (e4, x4)" by (rule prod.exhaust)
  note facts = pipe_deadline [OF assms(1) s] pipe_read [OF assms(1) t] pipe_deadline [OF assms(1) u]
  have res: "e1 \<noteq> None \<and> r \<noteq> None \<and> x' = x1 \<or> e1 = None \<and> (e2 \<noteq> None \<and> r \<noteq> None \<and> x' = x2 \<or> e2 = None \<and> (x' = x3 \<or> x' = x4))"
    using assms(2) unfolding clientPipeHandshake_def Let_def d_def [symmetric]
    by (auto simp: s w t u split: option.splits sum.splits if_splits)
  from writeAll_sent [OF assms(1) w] obtain k where k: "k \<le> length pipeClientPreface" "held x2 = held x1" "conns x2 = conns x1"
      "sent x2 = (sent x1)(c := sent x1 c @ take k pipeClientPreface)" "e2 = None \<longrightarrow> k = length pipeClientPreface" by blast
  show ?thesis
  proof (cases "e1 = None")
    case True
    with res have "e2 \<noteq> None \<and> r \<noteq> None \<and> x' = x2 \<or> e2 = None \<and> (x' = x3 \<or> x' = x4)" by blast
    with k facts show ?thesis by (intro conjI exI [of _ k]) auto
  next
    case False
    with res facts show ?thesis by (intro conjI exI [of _ 0]) auto
  qed
qed

text \<open>
  C20 (safety). The client of a named pipe authenticates the server before it sends a byte: unless
  the server's process runs as the current user and from the very file that passed the policy for
  managed executables, nothing is written to the pipe and no connection is returned. Whatever
  happens, no handle stays open, a refused connection is closed, and at most the fixed preface is
  written to the new connection.
\<close>

theorem dial_verifies_server:
  assumes "pipe_laws api held conns sent" "DialPipe api dl path exe x = (r, x')"
  shows "held x' = held x \<and>
    (case r of Inl err \<Rightarrow> conns x' = conns x | Inr c \<Rightarrow> c \<notin> conns x \<and> conns x' = insert c (conns x)) \<and>
    (sent x' = sent x \<and> isl r \<or>
     (\<exists>c y k. pipe_Dial api path x = (Inr c, y) \<and> verified_server api c exe y \<and> validatePipePath path = None \<and> TrimSpace exe \<noteq> [] \<and>
        sent x' = (sent x)(c := sent x c @ take k pipeClientPreface) \<and> (r = Inr c \<or> isl r)))"
proof (cases "validatePipePath path = None \<and> TrimSpace exe \<noteq> []")
  case False
  with assms(2) show ?thesis by (auto simp: DialPipe_def split: option.splits if_splits)
next
  case ok: True
  obtain d x1 where d: "pipe_Dial api path x = (d, x1)" by (rule prod.exhaust)
  have failed: "pipe_Dial api path x = (Inl e, z) \<Longrightarrow> held z = held x \<and> conns z = conns x \<and> sent z = sent x" for e z
    using assms(1) by (simp add: pipe_laws_def)
  have dialled: "pipe_Dial api path x = (Inr c, z) \<Longrightarrow> held z = held x \<and> c \<notin> conns x \<and> conns z = insert c (conns x) \<and> sent z = sent x" for c z
    using assms(1) by (simp add: pipe_laws_def)
  have close: "held (conn_Close api c z) = held z \<and> conns (conn_Close api c z) = conns z - {c} \<and> sent (conn_Close api c z) = sent z" for c z
    using assms(1) by (simp add: pipe_laws_def)
  show ?thesis
  proof (cases d)
    case (Inl err)
    with d failed have "held x1 = held x \<and> conns x1 = conns x \<and> sent x1 = sent x" by simp
    with assms(2) d Inl ok show ?thesis by (auto simp: DialPipe_def)
  next
    case (Inr c)
    with d dialled have laws: "held x1 = held x \<and> c \<notin> conns x \<and> conns x1 = insert c (conns x) \<and> sent x1 = sent x" by simp
    obtain v x2 where v: "verifyPipeServer api c exe x1 = (v, x2)" by (rule prod.exhaust)
    note u = verifyPipeServer_untouched [OF assms(1) v]
    show ?thesis
    proof (cases v)
      case (Some err)
      with assms(2) d Inr ok v u laws close [of c x2] show ?thesis by (auto simp: DialPipe_def untouched_def)
    next
      case None
      obtain e x3 where h: "clientPipeHandshake api dl c x2 = (e, x3)" by (rule prod.exhaust)
      from clientPipeHandshake_effect [OF assms(1) h] obtain k
        where k: "held x3 = held x2" "conns x3 = conns x2" "sent x3 = (sent x2)(c := sent x2 c @ take k pipeClientPreface)" by blast
      have vs: "verified_server api c exe x1" using v None by (intro verifyPipeServer_verifies) simp
      have res: "(r, x') = (case e of Some err \<Rightarrow> (Inl err, conn_Close api c x3) | None \<Rightarrow> (Inr c, x3))"
        using assms(2) d Inr ok v None h by (auto simp: DialPipe_def split: option.splits)
      show ?thesis
        using res k u laws close [of c x3] vs ok d Inr by (cases e) (auto simp: untouched_def)
    qed
  qed
qed

section \<open>A system for the witnesses\<close>

text \<open>
  The world: open handles, open connections, a log of writes, and whether the thread impersonates.
  Connection 1 is to a server whose image is the file behind handles 5 and 9; clients of
  connection 7 have the SID of the user.
\<close>

type_synonym demo_world = "win_handle list \<times> nat list \<times> (nat \<times> bytes) list \<times> bool"

definition pd_create :: "demo_world \<Rightarrow> (go_error + win_handle) \<times> demo_world" where
  "pd_create w =
     (case w of (hs, rest) \<Rightarrow>
        (case find (\<lambda>h. h \<notin> set hs) [1, 2, 3, 4, 5, 6, 7, 8, 9, 10, 11, 12] of
           None \<Rightarrow> (Inl (PlainError ''too many handles''), w)
         | Some h \<Rightarrow> (Inr h, (h # hs, rest))))"

definition pd_win :: "demo_world win_api" where
  "pd_win =
     \<lparr>win_TokenUser = \<lambda>x. Inr ''S-1-5-21-7'', win_Abs = \<lambda>p x. Inr p,
      win_CreateFile = \<lambda>p a s fl x. pd_create x,
      win_CloseHandle = \<lambda>h x. (None, apfst (filter (\<lambda>k. k \<noteq> h)) x),
      win_FileInformation = \<lambda>h x. Inr \<lparr>FileAttributes = (if h = 5 \<or> h = 9 then 0x20 else 0x10), VolumeSerialNumber = 9,
        FileIndexHigh = 0, FileIndexLow = (if h = 5 \<or> h = 9 then 77 else ucast h)\<rparr>,
      win_SecurityInfo = \<lambda>h x. Inr \<lparr>sd_Owner = Inr (Some ''S-1-5-18''),
        sd_DACL = Inr (Some [Inr \<lparr>AceType = 0, AceFlags = 0, AceMask = 0x1200A9, AceTrustee = ''S-1-1-0''\<rparr>])\<rparr>\<rparr>"

definition pd_api :: "(nat, demo_world) pipe_api" where
  "pd_api =
     \<lparr>pipe_win = pd_win, pipe_now = \<lambda>x. 0, pipe_StringToSid = Inr, pipe_Listen = \<lambda>p d x. (None, x),
      pipe_Accept = \<lambda>x. (Inr 7, x),
      pipe_Dial = \<lambda>p x. (case x of (hs, cs, rest) \<Rightarrow>
        if 1 \<in> set cs then (Inl (PlainError ''busy''), x) else (Inr 1, (hs, 1 # cs, rest))),
      conn_Close = \<lambda>c x. (case x of (hs, cs, rest) \<Rightarrow> (hs, filter (\<lambda>k. k \<noteq> c) cs, rest)),
      conn_Fd = \<lambda>c. Some 99, conn_SetDeadline = \<lambda>c d x. (None, x),
      conn_ReadFull = \<lambda>c n x. (Inr (if c = 7 then pipeClientPreface else pipeServerAck), x),
      conn_Write = \<lambda>c d x. (case x of (hs, cs, log, i) \<Rightarrow> ((length d, None), (hs, cs, log @ [(c, d)], i))),
      pipe_ServerProcessId = \<lambda>h x. Inr 42, pipe_OpenProcess = \<lambda>i x. pd_create x, pipe_OpenProcessToken = \<lambda>h x. pd_create x,
      pipe_TokenUser = \<lambda>t x. Inr ''S-1-5-21-7'', pipe_ImageName = \<lambda>h x. Inr demo_path,
      pipe_Impersonate = \<lambda>h x. (case x of (hs, cs, log, i) \<Rightarrow> ((True, None), (hs, cs, log, True))),
      pipe_CurrentThread = \<lambda>x. Inr 50, pipe_OpenThreadToken = \<lambda>t x. (Inr 51, x),
      pipe_RevertToSelf = \<lambda>x. (case x of (hs, cs, log, i) \<Rightarrow> (None, (hs, cs, log, False)))\<rparr>"

definition pd_sent :: "demo_world \<Rightarrow> nat \<Rightarrow> bytes" where
  "pd_sent w c = (case w of (hs, cs, log, i) \<Rightarrow> concat (map snd (filter (\<lambda>(k, d). k = c) log)))"

lemma pd_laws: "pipe_laws pd_api (\<lambda>w. set (fst w)) (\<lambda>w. set (fst (snd w))) pd_sent"
proof -
  have c: "opens_one (\<lambda>w. set (fst w)) x (pd_create x) \<and> snd (snd (pd_create x)) = snd x" for x
    by (auto simp: opens_one_def pd_create_def find_Some_iff split: option.splits prod.splits)
  have s: "snd w = snd v \<Longrightarrow> pd_sent w = pd_sent v" for w v :: demo_world
    by (auto simp: pd_sent_def fun_eq_iff split: prod.splits)
  have "tracks_handles pd_win (\<lambda>w. set (fst w))"
    using c by (auto simp: tracks_handles_def pd_win_def opens_one_def)
  moreover have k: "pd_sent (snd (pd_create x)) = pd_sent x" for x using c s by blast
  moreover have "pd_sent (apfst f x) = pd_sent x" for f x by (rule s) simp
  ultimately have files: "tracks_handles pd_win (\<lambda>w. set (fst w))" "keeps_files pd_win (\<lambda>w. (set (fst (snd w)), pd_sent w))"
    using c by (simp_all add: keeps_files_def pd_win_def)
  show ?thesis
    unfolding pipe_laws_def using files c k
    by (auto simp: pd_api_def pd_sent_def fun_eq_iff split: prod.splits if_splits)
qed

lemma pd_dial: "DialPipe pd_api None (pipe_prefix @ ''p'') demo_path ([], [], [], False) =
    (Inr 1, ([], [1], [(1, pipeClientPreface)], False))"
  by code_simp



lemma pd_impersonation: "tracks_impersonation pd_api (\<lambda>w. snd (snd (snd w)))"
  by (auto simp: tracks_impersonation_def pd_api_def pd_win_def)

theorem impersonation_ends_witness:
  "impersonatedSID pd_api 7 ([], [], [], False) = ((''S-1-5-21-7'', None), ([], [], [], False)) \<and>
   \<not> snd (snd (snd ([] :: win_handle list, [] :: nat list, [] :: (nat \<times> bytes) list, False)))"
proof -
  have eq: "impersonatedSID pd_api 7 ([], [], [], False) = ((''S-1-5-21-7'', None), ([], [], [], False))" by code_simp
  with impersonation_ends [OF pd_impersonation _ eq] show ?thesis by simp
qed

theorem dial_verifies_server_witness:
  "set (fst ([] :: win_handle list, [1 :: nat])) = {} \<and> (1 :: nat) \<notin> set [] \<and>
   (\<exists>c y k. pipe_Dial pd_api (pipe_prefix @ ''p'') ([], [], [], False) = (Inr c, y) \<and> verified_server pd_api c demo_path y)"
  using dial_verifies_server [OF pd_laws pd_dial] by auto

end
