(* ===== verification/Relay.thy ===== *)
theory Relay
  imports Proxy_Types "HOL-Library.Sublist"
begin

text \<open>
  The byte relay of the connect command, cmd/credproxy/connect.go: two copying goroutines, the
  result channel between them and relayStdio's loop, as a step relation over all interleavings.
\<close>

section \<open>The relay\<close>

text \<open>
  What a stream still has to deliver: chunks of bytes, then its end or an error. When nothing is
  left before the end of the list is reached, the reader waits.
\<close>

datatype read_event = Chunk bytes | ReadEOF | ReadFail go_error

record relayResult =
  res_output :: bool
  res_err :: "go_error option"

record relay_state =
  rs_stdin :: "read_event list"
  rs_incoming :: "read_event list"
  rs_sent :: bytes
  rs_out :: bytes
  rs_halfClosed :: bool
  rs_connClosed :: bool
  rs_ctx :: "go_error option"
  rs_up :: bool
  rs_down :: bool
  rs_results :: "relayResult list"
  rs_returned :: "go_error option option"

text \<open>relayStdio's start: both copiers run, the channel is empty.\<close>

definition relay_start :: "read_event list \<Rightarrow> read_event list \<Rightarrow> relay_state" where
  "relay_start input incoming =
     \<lparr>rs_stdin = input, rs_incoming = incoming, rs_sent = [], rs_out = [], rs_halfClosed = False, rs_connClosed = False,
      rs_ctx = None, rs_up = True, rs_down = True, rs_results = [], rs_returned = None\<rparr>"

text \<open>
  The end of copyToConnection and of copyFromConnection: the goroutine sends its result and ends.
\<close>

definition up_done :: "go_error option \<Rightarrow> relay_state \<Rightarrow> relay_state" where
  "up_done err s = s\<lparr>rs_up := False, rs_results := rs_results s @ [\<lparr>res_output = False, res_err = err\<rparr>]\<rparr>"

definition down_done :: "go_error option \<Rightarrow> relay_state \<Rightarrow> relay_state" where
  "down_done err s = s\<lparr>rs_down := False, rs_results := rs_results s @ [\<lparr>res_output = True, res_err = err\<rparr>]\<rparr>"

text \<open>One result taken from the channel by relayStdio's loop.\<close>

definition relay_receive :: "relay_state \<Rightarrow> relay_state" where
  "relay_receive s =
     (case rs_results s of
        [] \<Rightarrow> s
      | result # rest \<Rightarrow>
          let s' = s\<lparr>rs_results := rest\<rparr> in
          if res_output result
          then s'\<lparr>rs_connClosed := True,
                  rs_returned := Some (map_option (WrapError ''copy broker stream to stdout'') (res_err result))\<rparr>
          else (case res_err result of
                  Some err \<Rightarrow> s'\<lparr>rs_connClosed := True, rs_returned := Some (Some (WrapError ''copy stdin to broker stream'' err))\<rparr>
                | None \<Rightarrow> s'))"

text \<open>
  The steps. io.Copy reads a chunk and writes it; a write may fail after some bytes, and a closed
  connection fails every read and write. half tells whether the connection has CloseWrite, which
  may fail. The context may be cancelled at any time.
\<close>

inductive relay_step :: "bool \<Rightarrow> relay_state \<Rightarrow> relay_state \<Rightarrow> bool" for half where
  up_copy: "\<lbrakk>rs_up s; rs_stdin s = Chunk b # rest; \<not> rs_connClosed s\<rbrakk> \<Longrightarrow>
     relay_step half s (s\<lparr>rs_stdin := rest, rs_sent := rs_sent s @ b\<rparr>)"
| up_write_fails: "\<lbrakk>rs_up s; rs_stdin s = Chunk b # rest; k \<le> length b; rs_connClosed s \<longrightarrow> k = 0\<rbrakk> \<Longrightarrow>
     relay_step half s (up_done (Some err) (s\<lparr>rs_stdin := rest, rs_sent := rs_sent s @ take k b\<rparr>))"
| up_read_fails: "\<lbrakk>rs_up s; rs_stdin s = ReadFail err # rest\<rbrakk> \<Longrightarrow> relay_step half s (up_done (Some err) (s\<lparr>rs_stdin := rest\<rparr>))"
| up_eof: "\<lbrakk>rs_up s; rs_stdin s = ReadEOF # rest; half \<longrightarrow> \<not> rs_connClosed s\<rbrakk> \<Longrightarrow>
     relay_step half s (up_done None (s\<lparr>rs_stdin := rest, rs_halfClosed := half\<rparr>))"
| up_eof_close_fails: "\<lbrakk>rs_up s; rs_stdin s = ReadEOF # rest; half\<rbrakk> \<Longrightarrow> relay_step half s (up_done (Some err) (s\<lparr>rs_stdin := rest\<rparr>))"
| down_copy: "\<lbrakk>rs_down s; rs_incoming s = Chunk b # rest; \<not> rs_connClosed s\<rbrakk> \<Longrightarrow>
     relay_step half s (s\<lparr>rs_incoming := rest, rs_out := rs_out s @ b\<rparr>)"
| down_write_fails: "\<lbrakk>rs_down s; rs_incoming s = Chunk b # rest; \<not> rs_connClosed s; k \<le> length b\<rbrakk> \<Longrightarrow>
     relay_step half s (down_done (Some err) (s\<lparr>rs_incoming := rest, rs_out := rs_out s @ take k b\<rparr>))"
| down_read_fails: "\<lbrakk>rs_down s; rs_incoming s = ReadFail err # rest; \<not> rs_connClosed s\<rbrakk> \<Longrightarrow>
     relay_step half s (down_done (Some err) (s\<lparr>rs_incoming := rest\<rparr>))"
| down_eof: "\<lbrakk>rs_down s; rs_incoming s = ReadEOF # rest; \<not> rs_connClosed s\<rbrakk> \<Longrightarrow> relay_step half s (down_done None (s\<lparr>rs_incoming := rest\<rparr>))"
| down_closed: "\<lbrakk>rs_down s; rs_connClosed s\<rbrakk> \<Longrightarrow> relay_step half s (down_done (Some err) s)"
| receive: "\<lbrakk>rs_returned s = None; rs_results s \<noteq> []\<rbrakk> \<Longrightarrow> relay_step half s (relay_receive s)"
| done_ctx: "\<lbrakk>rs_returned s = None; rs_ctx s = Some err\<rbrakk> \<Longrightarrow> relay_step half s (s\<lparr>rs_connClosed := True, rs_returned := Some (Some err)\<rparr>)"
| cancel: "rs_ctx s = None \<Longrightarrow> relay_step half s (s\<lparr>rs_ctx := Some (PlainError ''context canceled'')\<rparr>)"

section \<open>What is delivered\<close>

text \<open>The bytes a stream delivers before its end, and whether it ends with EOF.\<close>

fun payload :: "read_event list \<Rightarrow> bytes" where
  "payload (Chunk b # evs) = b @ payload evs"
| "payload _ = []"

fun ends :: "read_event list \<Rightarrow> bool" where
  "ends (Chunk b # evs) = ends evs"
| "ends (ReadEOF # evs) = True"
| "ends _ = False"

text \<open>
  The invariant of the relay of input and incoming, in four parts. While a copier runs, what it
  has written and what is left make up its stream; a nil result means that the whole stream was
  written and ended; relayStdio has closed the connection when it returned, and the channel never
  holds more than its two places.
\<close>

definition up_inv :: "read_event list \<Rightarrow> relay_state \<Rightarrow> bool" where
  "up_inv input s \<longleftrightarrow>
     prefix (rs_sent s) (payload input) \<and>
     (rs_up s \<longrightarrow> rs_sent s @ payload (rs_stdin s) = payload input \<and> ends (rs_stdin s) = ends input) \<and>
     (\<forall>r \<in> set (rs_results s). \<not> res_output r \<longrightarrow> res_err r = None \<longrightarrow> rs_sent s = payload input \<and> ends input) \<and>
     (rs_halfClosed s \<longrightarrow> \<not> rs_up s \<and> rs_sent s = payload input \<and> ends input)"

definition down_inv :: "read_event list \<Rightarrow> relay_state \<Rightarrow> bool" where
  "down_inv incoming s \<longleftrightarrow>
     prefix (rs_out s) (payload incoming) \<and>
     (rs_down s \<longrightarrow> rs_out s @ payload (rs_incoming s) = payload incoming \<and> ends (rs_incoming s) = ends incoming) \<and>
     (\<forall>r \<in> set (rs_results s). res_output r \<longrightarrow> res_err r = None \<longrightarrow> rs_out s = payload incoming \<and> ends incoming) \<and>
     (\<forall>r \<in> set (rs_results s). res_output r \<longrightarrow> \<not> rs_down s) \<and>
     (rs_returned s = Some None \<longrightarrow> \<not> rs_down s \<and> rs_out s = payload incoming \<and> ends incoming)"

definition control_inv :: "relay_state \<Rightarrow> bool" where
  "control_inv s \<longleftrightarrow>
     (rs_returned s \<noteq> None \<longrightarrow> rs_connClosed s) \<and> (rs_returned s = None \<longrightarrow> \<not> rs_connClosed s) \<and>
     (\<not> rs_down s \<longrightarrow> rs_returned s = None \<longrightarrow> (\<exists>r \<in> set (rs_results s). res_output r)) \<and>
     length (rs_results s) + (if rs_up s then 1 else 0) + (if rs_down s then 1 else 0) \<le> 2"

definition relay_inv :: "read_event list \<Rightarrow> read_event list \<Rightarrow> relay_state \<Rightarrow> bool" where
  "relay_inv input incoming s \<longleftrightarrow> up_inv input s \<and> down_inv incoming s \<and> control_inv s"

lemmas relay_inv_defs = relay_inv_def up_inv_def down_inv_def control_inv_def

lemma relay_inv_start: "relay_inv input incoming (relay_start input incoming)"
  by (simp add: relay_inv_defs relay_start_def)

lemma prefix_part: "a @ b @ c = d \<Longrightarrow> prefix (a @ take k b) d"
  by (metis append.assoc append_take_drop_id prefixI)

lemma relay_step_up_inv: "relay_step half s s' \<Longrightarrow> up_inv input s \<Longrightarrow> up_inv input s'"
proof (induction rule: relay_step.induct)
  case (up_write_fails s b rest k err)
  then have "prefix (rs_sent s @ take k b) (payload input)" by (intro prefix_part [of _ _ "payload rest"]) (simp add: up_inv_def)
  moreover have "\<forall>r \<in> set (rs_results s). \<not> res_output r \<longrightarrow> res_err r = None \<longrightarrow> b = []"
    using up_write_fails by (auto simp: up_inv_def)
  ultimately show ?case using up_write_fails by (auto simp: up_inv_def up_done_def)
next
  case (receive s)
  then show ?case by (auto simp: up_inv_def relay_receive_def Let_def split: list.splits option.splits)
qed (auto simp: up_inv_def up_done_def down_done_def prefix_def)

lemma relay_step_down_inv: "relay_step half s s' \<Longrightarrow> down_inv incoming s \<Longrightarrow> down_inv incoming s'"
proof (induction rule: relay_step.induct)
  case (down_copy s b rest)
  then show ?case by (auto simp: down_inv_def prefix_def)
next
  case (down_write_fails s b rest k err)
  then have "prefix (rs_out s @ take k b) (payload incoming)" by (intro prefix_part [of _ _ "payload rest"]) (simp add: down_inv_def)
  then show ?case using down_write_fails by (auto simp: down_inv_def down_done_def)
next
  case (receive s)
  then show ?case by (auto simp: down_inv_def relay_receive_def Let_def split: list.splits option.splits)
qed (auto simp: down_inv_def up_done_def down_done_def)

lemma relay_step_control_inv: "relay_step half s s' \<Longrightarrow> control_inv s \<Longrightarrow> control_inv s'"
proof (induction rule: relay_step.induct)
  case (receive s)
  then show ?case by (auto simp: control_inv_def relay_receive_def Let_def split: list.splits option.splits if_splits)
qed (auto simp: control_inv_def up_done_def down_done_def)

lemma relay_reachable_inv: "(relay_step half)\<^sup>*\<^sup>* (relay_start input incoming) s \<Longrightarrow> relay_inv input incoming s"
proof (induction rule: rtranclp_induct)
  case base
  show ?case by (rule relay_inv_start)
next
  case (step y z)
  then show ?case
    by (auto simp: relay_inv_def intro: relay_step_up_inv relay_step_down_inv relay_step_control_inv)
qed

text \<open>
  C26 (safety). Whatever the interleaving, the relay never reorders, duplicates or invents bytes:
  what reached the connection is a prefix of standard input and what reached standard output is a
  prefix of the connection's stream. The write side is closed only after standard input ended and
  all of it was sent. The result channel never overflows its two places. When relayStdio returns,
  the connection is closed, and only then; when it returns nil, the connection's stream has ended
  and all of it was written to standard output (of standard input, what was read by then was sent).
\<close>

theorem relay_delivers:
  assumes "(relay_step half)\<^sup>*\<^sup>* (relay_start input incoming) s"
  shows "prefix (rs_sent s) (payload input) \<and> prefix (rs_out s) (payload incoming) \<and> length (rs_results s) \<le> 2 \<and>
    (rs_halfClosed s \<longrightarrow> rs_sent s = payload input \<and> ends input) \<and>
    (rs_returned s \<noteq> None \<longleftrightarrow> rs_connClosed s) \<and>
    (rs_returned s = Some None \<longrightarrow> rs_out s = payload incoming \<and> ends incoming)"
  using relay_reachable_inv [OF assms] by (auto simp: relay_inv_defs)

section \<open>Termination and progress\<close>

definition relay_measure :: "relay_state \<Rightarrow> nat" where
  "relay_measure s =
     2 * length (rs_stdin s) + 2 * length (rs_incoming s) + 2 * (if rs_up s then 1 else 0) + 2 * (if rs_down s then 1 else 0) +
     length (rs_results s) + (if rs_returned s = None then 1 else 0) + (if rs_ctx s = None then 1 else 0)"

lemma relay_step_measure: "relay_step half s s' \<Longrightarrow> relay_measure s' < relay_measure s"
proof (induction rule: relay_step.induct)
  case (receive s)
  then show ?case by (auto simp: relay_measure_def relay_receive_def Let_def split: list.splits option.splits)
qed (auto simp: relay_measure_def up_done_def down_done_def)

lemma relay_terminates: "wfp (\<lambda>s' s. relay_step half s s')"
  by (rule wfp_if_convertible_to_nat [where f = relay_measure]) (rule relay_step_measure)




section \<open>Witnesses\<close>

definition rd_input :: "read_event list" where
  "rd_input = [Chunk ''GET'', ReadEOF]"

definition rd_incoming :: "read_event list" where
  "rd_incoming = [Chunk ''ok'', ReadEOF]"

definition rd_end :: relay_state where
  "rd_end =
     \<lparr>rs_stdin = [], rs_incoming = [], rs_sent = ''GET'', rs_out = ''ok'', rs_halfClosed = True, rs_connClosed = True,
      rs_ctx = None, rs_up = False, rs_down = False, rs_results = [], rs_returned = Some None\<rparr>"

lemma rd_run: "(relay_step True ^^ 6) (relay_start rd_input rd_incoming) rd_end"
proof -
  let ?s0 = "relay_start rd_input rd_incoming"
  let ?s1 = "?s0\<lparr>rs_stdin := [ReadEOF], rs_sent := ''GET''\<rparr>"
  let ?s2 = "up_done None (?s1\<lparr>rs_stdin := [], rs_halfClosed := True\<rparr>)"
  let ?s3 = "?s2\<lparr>rs_results := []\<rparr>"
  let ?s4 = "?s3\<lparr>rs_incoming := [ReadEOF], rs_out := ''ok''\<rparr>"
  let ?s5 = "down_done None (?s4\<lparr>rs_incoming := []\<rparr>)"
  have 1: "relay_step True ?s0 ?s1"
    using up_copy [of ?s0 "''GET''" "[ReadEOF]" True] by (simp add: relay_start_def rd_input_def)
  have 2: "relay_step True ?s1 ?s2"
    using up_eof [of ?s1 "[]" True] by (simp add: relay_start_def)
  have 3: "relay_step True ?s2 ?s3"
    using receive [of ?s2 True] by (simp add: relay_start_def relay_receive_def up_done_def)
  have 4: "relay_step True ?s3 ?s4"
    using down_copy [of ?s3 "''ok''" "[ReadEOF]" True] by (simp add: relay_start_def rd_incoming_def up_done_def)
  have 5: "relay_step True ?s4 ?s5"
    using down_eof [of ?s4 "[]" True] by (simp add: relay_start_def up_done_def)
  have 6: "relay_step True ?s5 rd_end"
    using receive [of ?s5 True] by (simp add: relay_start_def rd_end_def relay_receive_def up_done_def down_done_def)
  have "(relay_step True ^^ Suc (Suc (Suc (Suc (Suc (Suc 0)))))) ?s0 rd_end"
    using 1 2 3 4 5 6 by (meson relpowp_0_I relpowp_Suc_I)
  then show ?thesis by (simp add: eval_nat_numeral)
qed

theorem relay_delivers_witness:
  "(relay_step True)\<^sup>*\<^sup>* (relay_start rd_input rd_incoming) rd_end \<and> rs_returned rd_end = Some None \<and>
   rs_out rd_end = payload rd_incoming \<and> rs_sent rd_end = payload rd_input \<and> rs_connClosed rd_end"
proof -
  note run = relpowp_imp_rtranclp [OF rd_run]
  have "rs_returned rd_end = Some None" "rs_halfClosed rd_end" by (simp_all add: rd_end_def)
  with relay_delivers [OF run] run show ?thesis by auto
qed


end
