(* ===== verification/Client_Cli.thy ===== *)
theory Client_Cli
  imports Admin Secret_Env Go_Flag Native_Pipe Relay
begin

text \<open>
  The command line of the client, cmd/credproxy/main.go run: the flags of every command, with Go's
  flag package, and the dispatch to the commands. The commands themselves are in Client_Env, Admin,
  Secret_Env and Relay. Timeouts are parsed, but the time a request takes is not modelled.
\<close>

section \<open>Flags\<close>

definition env_flags :: flag_set where
  "env_flags =
     [(''socket'', StringFlag), (''server-executable'', StringFlag), (''token-file'', StringFlag), (''format'', StringFlag),
      (''strict'', BoolFlag), (''timeout-sec'', IntFlag), (''route'', StringFlag)]"

definition timeout_of :: "(string \<times> flag_value) list \<Rightarrow> duration" where
  "timeout_of vs = seconds_of (word_of_int (flag_int vs ''timeout-sec'' 10))"

text \<open>parseEnvOptions; positional arguments are not looked at.\<close>

definition parseEnvOptions_args :: "string list \<Rightarrow> go_error + envOptions \<times> duration" where
  "parseEnvOptions_args args =
     (case flag_Parse env_flags args of
        Inl err \<Rightarrow> Inl err
      | Inr (vs, rest) \<Rightarrow>
          let opts = \<lparr>en_socket = flag_string vs ''socket'' [], en_serverExecutable = flag_string vs ''server-executable'' [],
                en_tokenFile = flag_string vs ''token-file'' [], en_format = flag_string vs ''format'' ''sh'',
                en_strict = flag_bool vs ''strict'', en_routes = flag_list vs ''route''\<rparr>
          in (case parseEnvOptions opts of Some err \<Rightarrow> Inl err | None \<Rightarrow> Inr (opts, timeout_of vs)))"

definition exec_flags :: flag_set where
  "exec_flags =
     [(''socket'', StringFlag), (''server-executable'', StringFlag), (''route'', StringFlag), (''token-file'', StringFlag),
      (''timeout-sec'', IntFlag)]"

definition parseExecOptions_args :: "string list \<Rightarrow> go_error + execOptions \<times> duration \<times> string list" where
  "parseExecOptions_args args =
     (case splitAtDashDash args of (flagArgs, cmdArgs) \<Rightarrow>
       (case flag_Parse exec_flags flagArgs of
          Inl err \<Rightarrow> Inl err
        | Inr (vs, rest) \<Rightarrow>
            let opts = \<lparr>ex_socket = flag_string vs ''socket'' [], ex_serverExecutable = flag_string vs ''server-executable'' [],
                  ex_route = flag_string vs ''route'' [], ex_tokenFile = flag_string vs ''token-file'' []\<rparr>
            in (case parseExecOptions opts cmdArgs of Some err \<Rightarrow> Inl err | None \<Rightarrow> Inr (opts, timeout_of vs, cmdArgs))))"

definition refresh_flags :: flag_set where
  "refresh_flags =
     [(''credential'', StringFlag), (''all-preloaded'', BoolFlag), (''socket'', StringFlag), (''server-executable'', StringFlag)]"

definition parseRefreshOptions_args :: "string list \<Rightarrow> go_error + refreshOptions" where
  "parseRefreshOptions_args args =
     (case flag_Parse refresh_flags args of
        Inl err \<Rightarrow> Inl err
      | Inr (vs, rest) \<Rightarrow>
          let opts = \<lparr>ro_credential = flag_string vs ''credential'' [], ro_all = flag_bool vs ''all-preloaded'',
                ro_socket = flag_string vs ''socket'' [], ro_serverExecutable = flag_string vs ''server-executable'' []\<rparr>
          in (case parseRefreshOptions opts rest of Some err \<Rightarrow> Inl err | None \<Rightarrow> Inr opts))"

text \<open>The flags of run and resolve: the configuration file and the env-file.\<close>

definition file_flags :: flag_set where
  "file_flags = [(''config'', StringFlag), (''env-file'', StringFlag)]"

definition parse_file_flags :: "string list \<Rightarrow> go_error + string \<times> string" where
  "parse_file_flags args =
     (case flag_Parse file_flags args of
        Inl err \<Rightarrow> Inl err
      | Inr (vs, rest) \<Rightarrow> Inr (flag_string vs ''config'' [], flag_string vs ''env-file'' []))"

definition connect_flags :: flag_set where
  "connect_flags = [(''socket'', StringFlag), (''server-executable'', StringFlag)]"

definition parse_connect :: "string list \<Rightarrow> go_error + string \<times> string" where
  "parse_connect args =
     (case flag_Parse connect_flags args of
        Inl err \<Rightarrow> Inl err
      | Inr (vs, rest) \<Rightarrow>
          if length rest \<noteq> 0 then Inl (PlainError ''connect takes no positional arguments'')
          else Inr (flag_string vs ''socket'' [], flag_string vs ''server-executable'' []))"

section \<open>run\<close>

text \<open>What the commands use of the system; cl_connect is brokerDialer.\<close>

record ('c, 'w) client_sys =
  cl_dial :: "'w dialer"
  cl_admin :: "'w admin_dialer"
  cl_connect :: "string \<Rightarrow> string \<Rightarrow> 'w \<Rightarrow> (go_error + 'c) \<times> 'w"
  cl_host :: client_host
  cl_readFile :: "string \<Rightarrow> file_read"
  cl_stat :: "string \<Rightarrow> go_error option"
  cl_lookPath :: "string \<Rightarrow> go_error + string"
  cl_environ :: "string list"
  cl_cmd :: "'w cmd_env"
  cl_decodeFile :: "string \<Rightarrow> go_error + client_config"
  cl_openFile :: "string \<Rightarrow> opened"
  cl_getenv :: "string \<Rightarrow> string"

text \<open>
  How a command ends: with an error or nil, what it printed and its diagnostics; as another
  program, with its arguments and environment; or relaying standard input and output over a
  connection (Relay).
\<close>

datatype 'c outcome =
  Finished "go_error option" string "string list"
| Execs string "string list" "string list"
| Relays 'c

definition fails :: "go_error \<Rightarrow> 'c outcome" where
  "fails err = Finished (Some err) [] []"

definition exec_outcome :: "go_error + string \<times> string list \<times> string list \<Rightarrow> 'c outcome" where
  "exec_outcome r = (case r of Inl err \<Rightarrow> fails err | Inr (bin, argv, environ) \<Rightarrow> Execs bin argv environ)"

definition run_command :: "('c, 'w) client_sys \<Rightarrow> string list \<Rightarrow> 'w \<Rightarrow> 'c outcome \<times> 'w" where
  "run_command sys args w =
     (case splitAtDashDash args of (flagArgs, cmdArgs) \<Rightarrow>
       (case parse_file_flags flagArgs of
          Inl err \<Rightarrow> (fails err, w)
        | Inr (configPath, envFile) \<Rightarrow>
            (case runCmd (cl_cmd sys) (cl_decodeFile sys) (cl_openFile sys) (cl_lookPath sys) (cl_environ sys)
                    (defaultConfigPath (cl_getenv sys) (HomeDir (cl_host sys))) configPath envFile cmdArgs w of
               (r, w') \<Rightarrow> (exec_outcome r, w'))))"

definition resolve_command :: "('c, 'w) client_sys \<Rightarrow> string list \<Rightarrow> 'w \<Rightarrow> 'c outcome \<times> 'w" where
  "resolve_command sys args w =
     (case parse_file_flags args of
        Inl err \<Rightarrow> (fails err, w)
      | Inr (configPath, envFile) \<Rightarrow>
          (case resolveCmd (cl_cmd sys) (cl_decodeFile sys) (cl_openFile sys)
                  (defaultConfigPath (cl_getenv sys) (HomeDir (cl_host sys))) configPath envFile w of
             (Inl err, w') \<Rightarrow> (fails err, w')
           | (Inr out, w') \<Rightarrow> (Finished None out [], w')))"

definition connectCmd :: "('c, 'w) client_sys \<Rightarrow> string list \<Rightarrow> 'w \<Rightarrow> 'c outcome \<times> 'w" where
  "connectCmd sys args w =
     (case parse_connect args of
        Inl err \<Rightarrow> (fails err, w)
      | Inr (socket, serverExecutable) \<Rightarrow>
          (case brokerTarget (defaultBrokerEndpoint (cl_host sys)) socket serverExecutable of
             Inl err \<Rightarrow> (fails err, w)
           | Inr (endpoint, expected) \<Rightarrow>
               (case cl_connect sys endpoint expected w of
                  (Inl err, w') \<Rightarrow> (fails (WrapError ''broker connection'' err), w')
                | (Inr conn, w') \<Rightarrow> (Relays conn, w'))))"

definition exec_command :: "('c, 'w) client_sys \<Rightarrow> string list \<Rightarrow> 'w \<Rightarrow> 'c outcome \<times> 'w" where
  "exec_command sys args w =
     (case parseExecOptions_args args of
        Inl err \<Rightarrow> (fails err, w)
      | Inr (opts, timeout, cmdArgs) \<Rightarrow>
          (case execCmd (cl_dial sys) (cl_readFile sys) (cl_lookPath sys) (cl_environ sys) opts cmdArgs w of
             (r, w') \<Rightarrow> (exec_outcome r, w')))"

definition envCmd :: "('c, 'w) client_sys \<Rightarrow> string list \<Rightarrow> 'w \<Rightarrow> 'c outcome \<times> 'w" where
  "envCmd sys args w =
     (case parseEnvOptions_args args of
        Inl err \<Rightarrow> (fails err, w)
      | Inr (opts, timeout) \<Rightarrow>
          (case runEnvCmd (cl_dial sys) (cl_readFile sys) (cl_stat sys) (cl_host sys) opts w of
             (err, out, diag, w') \<Rightarrow> (Finished err out diag, w')))"

definition refresh_command :: "('c, 'w) client_sys \<Rightarrow> string list \<Rightarrow> 'w \<Rightarrow> 'c outcome \<times> 'w" where
  "refresh_command sys args w =
     (case parseRefreshOptions_args args of
        Inl err \<Rightarrow> (fails err, w)
      | Inr opts \<Rightarrow>
          (case refreshCmd (cl_admin sys) (cl_host sys) opts [] w of (err, out, w') \<Rightarrow> (Finished err out [], w')))"

definition usage :: string where
  "usage =
     ''usage: credproxy <command>'' @ [CHR 0x0A] @ ''commands:'' @ [CHR 0x0A] @
     ''  run      resolve env-file refs and exec a command'' @ [CHR 0x0A] @
     ''  resolve  resolve env-file refs and print JSON env'' @ [CHR 0x0A] @
     ''  connect  open one authenticated broker byte stream over stdio'' @ [CHR 0x0A] @
     ''  exec     fetch env for a broker route and exec a command'' @ [CHR 0x0A] @
     ''  env      fetch env for every broker route and print shell exports'' @ [CHR 0x0A] @
     ''  refresh  refresh one or all preloaded credentials in the daemon''"

fun client_run :: "('c, 'w) client_sys \<Rightarrow> string list \<Rightarrow> 'w \<Rightarrow> 'c outcome \<times> 'w" where
  "client_run sys [] w = (fails (PlainError usage), w)"
| "client_run sys (cmd # args) w =
     (if cmd = ''run'' then run_command sys args w
      else if cmd = ''resolve'' then resolve_command sys args w
      else if cmd = ''connect'' then connectCmd sys args w
      else if cmd = ''exec'' then exec_command sys args w
      else if cmd = ''env'' then envCmd sys args w
      else if cmd = ''refresh'' then refresh_command sys args w
      else (fails (PlainError (''unknown command '' @ cmd)), w))"

section \<open>The Windows transport\<close>

text \<open>
  broker_transport_windows.go, admin/listen_windows.go and config/default_pipe_windows.go: the
  default endpoints are named pipes of the current user.
\<close>

definition defaultBrokerEndpoint_windows :: "('c, 'x) pipe_api \<Rightarrow> 'x \<Rightarrow> go_error + string" where
  "defaultBrokerEndpoint_windows api x = DefaultPipePath api ''broker'' x"

definition defaultExecEndpoint_windows :: "('c, 'x) pipe_api \<Rightarrow> 'x \<Rightarrow> string" where
  "defaultExecEndpoint_windows api x = (case defaultBrokerEndpoint_windows api x of Inl err \<Rightarrow> [] | Inr endpoint \<Rightarrow> endpoint)"

definition DefaultSocketPath_windows :: "('c, 'x) pipe_api \<Rightarrow> 'x \<Rightarrow> go_error + string" where
  "DefaultSocketPath_windows api x = DefaultPipePath api ''admin'' x"

definition admin_listen_windows :: "('c, 'x) pipe_api \<Rightarrow> string \<Rightarrow> 'x \<Rightarrow> (go_error + string) \<times> 'x" where
  "admin_listen_windows api endpoint x =
     (if endpoint = [] then (Inl (PlainError ''admin named-pipe endpoint is empty''), x)
      else nativeipc_ListenPipe api endpoint [] x)"

definition defaultListenPipe_windows :: "('c, 'x) pipe_api \<Rightarrow> 'x \<Rightarrow> go_error + string" where
  "defaultListenPipe_windows api x = DefaultPipePath api ''broker'' x"

section \<open>Lemmas\<close>

lemma flag_tokens:
  "flag_token ''--socket'' = FlagToken ''socket'' None" "flag_token ''--server-executable'' = FlagToken ''server-executable'' None"
  "flag_token ''--route'' = FlagToken ''route'' None" "flag_token ''--token-file'' = FlagToken ''token-file'' None"
  "flag_token ''--timeout-sec'' = FlagToken ''timeout-sec'' None" "flag_token ''--format'' = FlagToken ''format'' None"
  "flag_token ''--strict'' = FlagToken ''strict'' None" "flag_token ''--credential'' = FlagToken ''credential'' None"
  "flag_token ''--all-preloaded'' = FlagToken ''all-preloaded'' None"
  by code_simp+

lemma flag_Set_simps:
  "flag_Set StringFlag v = Inr (FString v)" "flag_Set BoolFlag ''true'' = Inr (FBool True)"
  "- (2 ^ 63) \<le> n \<Longrightarrow> n < 2 ^ 63 \<Longrightarrow> flag_Set IntFlag (FormatInt n) = Inr (FInt n)"
  by (simp_all add: flag_Set_def ParseBool_def ParseInt0_FormatInt)

lemmas flag_parse_simps = flag_tokens flag_Set_simps flag_argument_def

lemmas flag_value_simps = flag_string_def flag_bool_def flag_int_def flag_list_def flag_values_def timeout_of_def

lemma env_routes_parse:
  "flag_Parse env_flags (concat (map (\<lambda>r. [''--route'', r]) rs)) = Inr (map (\<lambda>r. (''route'', FString r)) rs, [])"
proof (induction rs)
  case (Cons r rs)
  have "map_of env_flags ''route'' = Some StringFlag" by (simp add: env_flags_def)
  with Cons show ?case by (simp add: flag_parse_simps)
qed simp

lemma splitAtDashDash_split: "''--'' \<notin> set before \<Longrightarrow> splitAtDashDash (before @ ''--'' # after) = (before, after)"
  by (induction before) auto

lemma splitAtDashDash_after:
  "splitAtDashDash args = (before, after) \<Longrightarrow> after \<noteq> [] \<Longrightarrow> args = before @ ''--'' # after \<and> ''--'' \<notin> set before"
  by (induction args arbitrary: before) (auto split: if_splits prod.splits)

lemma FormatInt_no_dashdash: "FormatInt n \<noteq> ''--''"
proof
  assume "FormatInt n = ''--''"
  then have "(if n < 0 then decimal (nat (- n)) else decimal (nat n)) \<in> {[CHR ''-''], ''--''}"
    by (auto simp: FormatInt_def split: if_splits)
  then show False using decimal_no_sign [of "nat (- n)"] decimal_no_sign [of "nat n"] by (auto split: if_splits)
qed

text \<open>The command lines of given options.\<close>

definition exec_line :: "execOptions \<Rightarrow> int \<Rightarrow> string list \<Rightarrow> string list" where
  "exec_line opts t cmdArgs =
     [''--socket'', ex_socket opts, ''--server-executable'', ex_serverExecutable opts, ''--route'', ex_route opts,
      ''--token-file'', ex_tokenFile opts, ''--timeout-sec'', FormatInt t] @ ''--'' # cmdArgs"

definition env_line :: "envOptions \<Rightarrow> int \<Rightarrow> string list" where
  "env_line opts t =
     [''--socket'', en_socket opts, ''--server-executable'', en_serverExecutable opts, ''--token-file'', en_tokenFile opts,
      ''--format'', en_format opts, ''--timeout-sec'', FormatInt t] @ (if en_strict opts then [''--strict''] else []) @
     concat (map (\<lambda>r. [''--route'', r]) (en_routes opts))"

definition refresh_line :: "refreshOptions \<Rightarrow> string list" where
  "refresh_line opts =
     (if ro_all opts then [''--all-preloaded''] else []) @
     [''--credential'', ro_credential opts, ''--socket'', ro_socket opts, ''--server-executable'', ro_serverExecutable opts]"

lemma exec_line_parses:
  assumes "parseExecOptions opts cmdArgs = None" "''--'' \<notin> {ex_socket opts, ex_serverExecutable opts, ex_route opts, ex_tokenFile opts}"
    and "- (2 ^ 63) \<le> t" "t < 2 ^ 63"
  shows "parseExecOptions_args (exec_line opts t cmdArgs) = Inr (opts, seconds_of (word_of_int t), cmdArgs)"
proof -
  let ?flags = "[''--socket'', ex_socket opts, ''--server-executable'', ex_serverExecutable opts, ''--route'', ex_route opts,
      ''--token-file'', ex_tokenFile opts, ''--timeout-sec'', FormatInt t]"
  have n: "''--'' \<notin> set ?flags" using assms(2) FormatInt_no_dashdash [of t] by auto
  have s: "splitAtDashDash (exec_line opts t cmdArgs) = (?flags, cmdArgs)"
    by (simp only: exec_line_def splitAtDashDash_split [OF n])
  have p: "flag_Parse exec_flags ?flags = Inr ([(''socket'', FString (ex_socket opts)), (''server-executable'', FString (ex_serverExecutable opts)),
      (''route'', FString (ex_route opts)), (''token-file'', FString (ex_tokenFile opts)), (''timeout-sec'', FInt t)], [])"
    using assms(3,4) by (simp add: flag_parse_simps exec_flags_def)
  show ?thesis using assms(1) s p by (cases opts) (simp add: parseExecOptions_args_def Let_def flag_value_simps del: flag_Parse.simps)
qed

lemma env_line_parses:
  assumes "parseEnvOptions opts = None" "- (2 ^ 63) \<le> t" "t < 2 ^ 63"
  shows "parseEnvOptions_args (env_line opts t) = Inr (opts, seconds_of (word_of_int t))"
proof -
  let ?vs = "[(''socket'', FString (en_socket opts)), (''server-executable'', FString (en_serverExecutable opts)),
      (''token-file'', FString (en_tokenFile opts)), (''format'', FString (en_format opts)), (''timeout-sec'', FInt t)] @
      (if en_strict opts then [(''strict'', FBool True)] else []) @ map (\<lambda>r. (''route'', FString r)) (en_routes opts)"
  have m: "map_of env_flags ''socket'' = Some StringFlag" "map_of env_flags ''server-executable'' = Some StringFlag"
    "map_of env_flags ''token-file'' = Some StringFlag" "map_of env_flags ''format'' = Some StringFlag"
    "map_of env_flags ''timeout-sec'' = Some IntFlag" "map_of env_flags ''strict'' = Some BoolFlag"
    by (simp_all add: env_flags_def)
  have p: "flag_Parse env_flags (env_line opts t) = Inr (?vs, [])"
    using assms(2,3) by (simp add: env_line_def flag_parse_simps m env_routes_parse)
  have f: "filter (\<lambda>(n, v). n = name) (map (\<lambda>r. (''route'', FString r)) rs) =
      (if name = ''route'' then map (\<lambda>r. (''route'', FString r)) rs else [])" for name rs
    by (induction rs) auto
  have c: "concat (map (\<lambda>v. case v of FString s \<Rightarrow> [s] | _ \<Rightarrow> []) (map snd (map (\<lambda>r. (''route'', FString r)) rs))) = rs" for rs
    by (induction rs) auto
  have "(let opts' = \<lparr>en_socket = flag_string ?vs ''socket'' [], en_serverExecutable = flag_string ?vs ''server-executable'' [],
                en_tokenFile = flag_string ?vs ''token-file'' [], en_format = flag_string ?vs ''format'' ''sh'',
                en_strict = flag_bool ?vs ''strict'', en_routes = flag_list ?vs ''route''\<rparr> in opts') = opts"
    using c [of "en_routes opts"] by (simp add: flag_value_simps f)
  moreover have "timeout_of ?vs = seconds_of (word_of_int t)" by (simp add: flag_value_simps f)
  ultimately show ?thesis using assms(1) by (simp add: parseEnvOptions_args_def p)
qed

lemma refresh_line_parses:
  assumes "parseRefreshOptions opts [] = None"
  shows "parseRefreshOptions_args (refresh_line opts) = Inr opts"
  using assms by (cases opts; cases "ro_all opts")
    (simp_all add: Let_def parseRefreshOptions_args_def refresh_line_def flag_parse_simps refresh_flags_def flag_value_simps)

section \<open>Properties\<close>

text \<open>
  Every valid set of options can be given on the command line and is read back as
  it was meant: for exec, whose arguments are first split at the separator, when no value is the
  separator itself, and then everything after it, further separators and flags included, becomes
  the program's arguments unchanged; for env with any number of routes; and for refresh.
\<close>

theorem command_lines_read_back:
  assumes "- (2 ^ 63) \<le> t" "t < 2 ^ 63"
  shows "(\<forall>opts cmdArgs. parseExecOptions opts cmdArgs = None \<and>
       ''--'' \<notin> {ex_socket opts, ex_serverExecutable opts, ex_route opts, ex_tokenFile opts} \<longrightarrow>
       parseExecOptions_args (exec_line opts t cmdArgs) = Inr (opts, seconds_of (word_of_int t), cmdArgs)) \<and>
    (\<forall>opts. parseEnvOptions opts = None \<longrightarrow> parseEnvOptions_args (env_line opts t) = Inr (opts, seconds_of (word_of_int t))) \<and>
    (\<forall>opts. parseRefreshOptions opts [] = None \<longrightarrow> parseRefreshOptions_args (refresh_line opts) = Inr opts)"
  using exec_line_parses [OF _ _ assms] env_line_parses [OF _ assms] refresh_line_parses by blast

theorem command_lines_read_back_witness:
  "parseExecOptions_args [''--socket'', ''/s'', ''--server-executable'', [], ''--route'', ''aws'', ''--token-file'', [], ''--timeout-sec'', ''5'', ''--'', ''cmd'', ''--'', ''--route''] =
     Inr (\<lparr>ex_socket = ''/s'', ex_serverExecutable = [], ex_route = ''aws'', ex_tokenFile = []\<rparr>, seconds_of 5, [''cmd'', ''--'', ''--route''])"
proof -
  let ?o = "\<lparr>ex_socket = ''/s'', ex_serverExecutable = [], ex_route = ''aws'', ex_tokenFile = []\<rparr>"
  have v: "parseExecOptions ?o [''cmd'', ''--'', ''--route''] = None" by code_simp
  have f: "FormatInt 5 = ''5''" by code_simp
  show ?thesis
    using command_lines_read_back [of 5, THEN conjunct1, rule_format, of ?o "[''cmd'', ''--'', ''--route'']"] v f
    by (simp add: exec_line_def)
qed

lemma runCmd_Inr:
  "runCmd env decodeFile openFile lookPath environ d c f cmdArgs w = (Inr (bin, argv, vars), w') \<Longrightarrow>
     argv = cmdArgs \<and> cmdArgs \<noteq> [] \<and> lookPath (hd cmdArgs) = Inr bin \<and> (\<exists>resolved. vars = mergeEnv environ resolved)"
  by (auto simp: runCmd_def split: if_splits prod.splits sum.splits)

lemma execCmd_Inr:
  "execCmd dial readFile lookPath environ opts cmdArgs w = (Inr (bin, argv, vars), w') \<Longrightarrow>
     argv = cmdArgs \<and> cmdArgs \<noteq> [] \<and> lookPath (hd cmdArgs) = Inr bin \<and> (\<exists>env. vars = mergeEnv environ env)"
  by (auto simp: execCmd_def parseExecOptions_def Let_def split: if_splits option.splits prod.splits sum.splits)

lemma parseExecOptions_args_Inr:
  "parseExecOptions_args args = Inr (opts, t, cmdArgs) \<Longrightarrow>
     validRouteName (ex_route opts) \<and> cmdArgs \<noteq> [] \<and> (\<exists>before. args = before @ ''--'' # cmdArgs \<and> ''--'' \<notin> set before)"
  using splitAtDashDash_after
  by (fastforce simp: parseExecOptions_args_def parseExecOptions_def Let_def split: prod.splits sum.splits option.splits if_splits)

lemma world_kept:
  "runCmd env decodeFile openFile lookPath environ d c [] cmdArgs w = (r, w') \<Longrightarrow> w' = w"
  "runCmd env decodeFile openFile lookPath environ d c f [] w = (r, w') \<Longrightarrow> w' = w"
  "resolveCmd env decodeFile openFile d c [] w = (r', w') \<Longrightarrow> w' = w"
  by (auto simp: runCmd_def resolveCmd_def split: if_splits)

lemma parseEnvOptions_args_Inr: "parseEnvOptions_args args = Inr (opts, t) \<Longrightarrow> list_all validRouteName (en_routes opts)"
  by (auto simp: parseEnvOptions_args_def parseEnvOptions_def Let_def list_all_iff list_ex_iff
      split: sum.splits option.splits if_splits)

lemma parseRefreshOptions_args_Inr: "parseRefreshOptions_args args = Inr opts \<Longrightarrow> ro_all opts \<noteq> (ro_credential opts \<noteq> [])"
  by (auto simp: parseRefreshOptions_args_def parseRefreshOptions_def Let_def split: sum.splits option.splits if_splits)

text \<open>What a command line may do: the program it starts, the stream it relays, and whether it has an effect.\<close>

definition starts_only :: "('c, 'w) client_sys \<Rightarrow> string list \<Rightarrow> 'c outcome \<Rightarrow> bool" where
  "starts_only sys args out \<longleftrightarrow>
     (\<forall>bin argv environ. out = Execs bin argv environ \<longrightarrow>
       (\<exists>before vars. args = before @ ''--'' # argv \<and> ''--'' \<notin> set before \<and> argv \<noteq> [] \<and>
          cl_lookPath sys (hd argv) = Inr bin \<and> environ = mergeEnv (cl_environ sys) vars))"

lemma exec_outcome_cases [simp]:
  "exec_outcome r = Execs bin argv environ \<longleftrightarrow> r = Inr (bin, argv, environ)" "exec_outcome r \<noteq> Relays conn"
  "fails err \<noteq> Execs bin argv environ" "fails err \<noteq> Relays conn"
  by (auto simp: exec_outcome_def fails_def split: sum.splits)

lemma run_command_wf:
  assumes "run_command sys args w = (out, w')"
  shows "starts_only sys args out" "out \<noteq> Relays conn"
    and "w' \<noteq> w \<Longrightarrow> \<exists>c f. parse_file_flags (fst (splitAtDashDash args)) = Inr (c, f) \<and> f \<noteq> [] \<and> snd (splitAtDashDash args) \<noteq> []"
proof -
  obtain before after where s: "splitAtDashDash args = (before, after)" by (rule prod.exhaust)
  consider err where "parse_file_flags before = Inl err" "out = fails err" "w' = w"
    | c f r where "parse_file_flags before = Inr (c, f)" "out = exec_outcome r"
        "runCmd (cl_cmd sys) (cl_decodeFile sys) (cl_openFile sys) (cl_lookPath sys) (cl_environ sys)
           (defaultConfigPath (cl_getenv sys) (HomeDir (cl_host sys))) c f after w = (r, w')"
    using assms s by (auto simp: run_command_def split: sum.splits prod.splits)
  note c = this
  show "starts_only sys args out"
    using c by cases (auto simp: starts_only_def dest!: runCmd_Inr dest: splitAtDashDash_after [OF s])
  show "out \<noteq> Relays conn" using c by cases auto
  show "\<exists>c f. parse_file_flags (fst (splitAtDashDash args)) = Inr (c, f) \<and> f \<noteq> [] \<and> snd (splitAtDashDash args) \<noteq> []" if "w' \<noteq> w"
    using c that s by cases (auto dest: world_kept)
qed

lemma exec_command_wf:
  assumes "exec_command sys args w = (out, w')"
  shows "starts_only sys args out" "out \<noteq> Relays conn"
    and "w' \<noteq> w \<Longrightarrow> \<exists>opts t c. parseExecOptions_args args = Inr (opts, t, c) \<and> validRouteName (ex_route opts) \<and> c \<noteq> []"
proof -
  consider err where "out = fails err" "w' = w"
    | opts t after r where "parseExecOptions_args args = Inr (opts, t, after)" "out = exec_outcome r"
        "execCmd (cl_dial sys) (cl_readFile sys) (cl_lookPath sys) (cl_environ sys) opts after w = (r, w')"
    using assms by (auto simp: exec_command_def split: sum.splits prod.splits)
  note c = this
  show "starts_only sys args out"
    using c by cases (auto simp: starts_only_def dest!: execCmd_Inr dest: parseExecOptions_args_Inr)
  show "out \<noteq> Relays conn" using c by cases auto
  show "\<exists>opts t c. parseExecOptions_args args = Inr (opts, t, c) \<and> validRouteName (ex_route opts) \<and> c \<noteq> []" if "w' \<noteq> w"
    using c that by cases (auto dest: parseExecOptions_args_Inr)
qed

lemma other_commands_wf:
  "resolve_command sys args w = (out, w') \<Longrightarrow> (\<exists>e o' d. out = Finished e o' d) \<and>
     (w' \<noteq> w \<longrightarrow> (\<exists>c f. parse_file_flags args = Inr (c, f) \<and> f \<noteq> []))"
  "envCmd sys args w = (out, w') \<Longrightarrow> (\<exists>e o' d. out = Finished e o' d) \<and>
     (w' \<noteq> w \<longrightarrow> (\<exists>opts t. parseEnvOptions_args args = Inr (opts, t) \<and> list_all validRouteName (en_routes opts)))"
  "refresh_command sys args w = (out, w') \<Longrightarrow> (\<exists>e o' d. out = Finished e o' d) \<and>
     (w' \<noteq> w \<longrightarrow> (\<exists>opts. parseRefreshOptions_args args = Inr opts \<and> ro_all opts \<noteq> (ro_credential opts \<noteq> [])))"
  "connectCmd sys args w = (out, w') \<Longrightarrow> (\<forall>bin argv environ. out \<noteq> Execs bin argv environ) \<and>
     (w' \<noteq> w \<or> out = Relays conn \<longrightarrow> (\<exists>ts. parse_connect args = Inr ts))"
  subgoal by (auto simp: resolve_command_def fails_def split: sum.splits prod.splits dest: world_kept)
  subgoal by (auto simp: envCmd_def fails_def split: sum.splits prod.splits dest: parseEnvOptions_args_Inr)
  subgoal by (auto simp: refresh_command_def fails_def split: sum.splits prod.splits dest: parseRefreshOptions_args_Inr)
  subgoal by (auto simp: connectCmd_def fails_def split: sum.splits prod.splits)
  done

text \<open>
  C28 (type). Only a well-formed command line has an effect. The client changes the world, that is,
  asks the daemon or runs a hook, only for one of its six commands with flags that parse and
  options that are valid: a route name, exactly one of a credential and all preloaded ones, an
  env-file. It becomes another program only for run and exec, and then with exactly the arguments
  after the first separator, found by the first of them, and its own environment merged with the
  fetched variables; and it relays its standard streams only for connect.
\<close>

theorem client_run_well_formed:
  assumes "client_run sys args w = (out, w')"
  shows "(\<forall>bin argv environ. out = Execs bin argv environ \<longrightarrow>
       (\<exists>cmd before vars. args = cmd # before @ ''--'' # argv \<and> cmd \<in> {''run'', ''exec''} \<and> ''--'' \<notin> set before \<and> argv \<noteq> [] \<and>
          cl_lookPath sys (hd argv) = Inr bin \<and> environ = mergeEnv (cl_environ sys) vars)) \<and>
    (\<forall>conn. out = Relays conn \<longrightarrow> (\<exists>rest ts. args = ''connect'' # rest \<and> parse_connect rest = Inr ts)) \<and>
    (w' \<noteq> w \<longrightarrow> (\<exists>cmd rest. args = cmd # rest \<and>
       (cmd = ''run'' \<and> (\<exists>c f. parse_file_flags (fst (splitAtDashDash rest)) = Inr (c, f) \<and> f \<noteq> [] \<and> snd (splitAtDashDash rest) \<noteq> []) \<or>
        cmd = ''resolve'' \<and> (\<exists>c f. parse_file_flags rest = Inr (c, f) \<and> f \<noteq> []) \<or>
        cmd = ''connect'' \<and> (\<exists>ts. parse_connect rest = Inr ts) \<or>
        cmd = ''exec'' \<and> (\<exists>opts t c. parseExecOptions_args rest = Inr (opts, t, c) \<and> validRouteName (ex_route opts) \<and> c \<noteq> []) \<or>
        cmd = ''env'' \<and> (\<exists>opts t. parseEnvOptions_args rest = Inr (opts, t) \<and> list_all validRouteName (en_routes opts)) \<or>
        cmd = ''refresh'' \<and> (\<exists>opts. parseRefreshOptions_args rest = Inr opts \<and> ro_all opts \<noteq> (ro_credential opts \<noteq> [])))))"
proof (cases args)
  case Nil
  with assms show ?thesis by (auto simp: fails_def)
next
  case (Cons cmd rest)
  consider "cmd = ''run''" "run_command sys rest w = (out, w')" | "cmd = ''exec''" "exec_command sys rest w = (out, w')"
    | "cmd = ''resolve''" "resolve_command sys rest w = (out, w')" | "cmd = ''env''" "envCmd sys rest w = (out, w')"
    | "cmd = ''refresh''" "refresh_command sys rest w = (out, w')" | "cmd = ''connect''" "connectCmd sys rest w = (out, w')"
    | "out = fails (PlainError (''unknown command '' @ cmd))" "w' = w"
    using assms Cons by (auto split: if_splits)
  then show ?thesis
  proof cases
    case 1
    note wf = run_command_wf [OF 1(2)]
    show ?thesis using wf 1(1) Cons by (auto simp: starts_only_def)
  next
    case 2
    note wf = exec_command_wf [OF 2(2)]
    show ?thesis using wf 2(1) Cons by (auto simp: starts_only_def)
  next
    case 3
    show ?thesis using other_commands_wf(1) [OF 3(2)] 3(1) Cons by auto
  next
    case 4
    show ?thesis using other_commands_wf(2) [OF 4(2)] 4(1) Cons by auto
  next
    case 5
    show ?thesis using other_commands_wf(3) [OF 5(2)] 5(1) Cons by auto
  next
    case 6
    show ?thesis using other_commands_wf(4) [OF 6(2)] 6(1) Cons by auto
  qed (auto simp: fails_def)
qed

definition demo_sys :: "(string, nat) client_sys" where
  "demo_sys =
     \<lparr>cl_dial = (\<lambda>_ _ _ _ w. (Inl (PlainError ''refused''), Suc w)), cl_admin = (\<lambda>_ _ _ w. (Inl (PlainError ''refused''), Suc w)),
      cl_connect = (\<lambda>endpoint exe w. (Inr endpoint, Suc w)),
      cl_host = \<lparr>RuntimeDir = ''/run/user/7'', HomeDir = ''/home/u'', Uid = 7, Goos = Linux\<rparr>,
      cl_readFile = (\<lambda>_. FileMissing), cl_stat = (\<lambda>_. None), cl_lookPath = (\<lambda>p. Inr (''/bin/'' @ p)), cl_environ = [''A=1''],
      cl_cmd = demo_cmd, cl_decodeFile = (\<lambda>_. Inl (PlainError ''no file'')), cl_openFile = demo_env_file, cl_getenv = (\<lambda>_. [])\<rparr>"

theorem client_run_well_formed_witness:
  "\<exists>ts. client_run demo_sys [''connect''] 0 = (Relays ''/run/user/7/credproxyd/broker.sock'', 1) \<and> parse_connect [] = Inr ts"
proof -
  have r: "client_run demo_sys [''connect''] 0 = (Relays ''/run/user/7/credproxyd/broker.sock'', 1)" by code_simp
  from client_run_well_formed [OF r] r show ?thesis by auto
qed

end
