(* ===== verification/Credential_Flow.thy ===== *)
theory Credential_Flow
  imports Daemon_Main Client_Cli
begin

text \<open>
  The path of a secret through the whole program: from the 1Password reference of the configuration
  through the store, a delivery route, the server and the client into the environment of the
  program that exec starts. The lemmas connect the components; the properties are in the root
  theory.
\<close>

section \<open>Where the values of the store come from\<close>

text \<open>What 1Password answered, at some moment, for the reference of the credential.\<close>

definition answered :: "'w op_env \<Rightarrow> op_specs \<Rightarrow> string \<Rightarrow> string \<Rightarrow> bool" where
  "answered env specs n v \<longleftrightarrow> (\<exists>spec w w'. map_of specs n = Some spec \<and> op_Resolve env (op_Ref spec) w = (Inr v, w'))"

definition all_answered :: "'w op_env \<Rightarrow> op_specs \<Rightarrow> (string \<times> op_entry) list \<Rightarrow> bool" where
  "all_answered env specs m \<longleftrightarrow> (\<forall>n e. map_of m n = Some e \<longrightarrow> answered env specs n (op_value e))"

lemma all_answered_put:
  "all_answered env specs m \<Longrightarrow> answered env specs n (op_value e) \<Longrightarrow> all_answered env specs (map_put m n e)"
  by (simp add: all_answered_def)

lemma all_answered_put_all:
  "all_answered env specs m \<Longrightarrow> all_answered env specs c \<Longrightarrow> distinct (map fst m) \<Longrightarrow> all_answered env specs (cache_put_all c m)"
proof (induction m arbitrary: c)
  case (Cons ne m)
  obtain n e where ne: "ne = (n, e)" by (rule prod.exhaust)
  have "answered env specs n (op_value e)" using Cons.prems(1) by (simp add: all_answered_def ne)
  moreover have "all_answered env specs m"
    unfolding all_answered_def
  proof (intro allI impI)
    fix n' e'
    assume m: "map_of m n' = Some e'"
    then have "n' \<noteq> n" using Cons.prems(3) by (auto simp: ne dest!: map_of_SomeD) (metis fst_conv image_eqI)
    then show "answered env specs n' (op_value e')" using Cons.prems(1) m by (simp add: all_answered_def ne)
  qed
  ultimately show ?case using Cons.IH [of "map_put c n e"] Cons.prems(2,3) by (simp add: ne cache_put_all_def all_answered_put)
qed (simp add: cache_put_all_def)

lemma preload_values_answered:
  "\<lbrakk>preload_values env ss vals w = (Inr vals', w'); set ss \<subseteq> set specs; distinct (map fst specs); all_answered env specs vals;
    distinct (map fst vals)\<rbrakk> \<Longrightarrow> all_answered env specs vals' \<and> distinct (map fst vals')"
proof (induction env ss vals w rule: preload_values.induct)
  case (2 env name spec ss vals w)
  show ?case
  proof (cases "op_Preload spec")
    case True
    with "2.prems"(1) obtain v w1 where r: "op_Resolve env (op_Ref spec) w = (Inr v, w1)" "v \<noteq> []"
      "preload_values env ss (map_put vals name \<lparr>op_value = v, op_expires = zeroTime, op_valid = True\<rparr>) w1 = (Inr vals', w')"
      by (auto split: prod.splits sum.splits if_splits)
    have "map_of specs name = Some spec" using "2.prems"(2,3) by simp
    then have "answered env specs name v" using r(1) by (auto simp: answered_def)
    then have "all_answered env specs (map_put vals name \<lparr>op_value = v, op_expires = zeroTime, op_valid = True\<rparr>)"
      using "2.prems"(4) by (simp add: all_answered_put)
    with "2.IH"(2) [OF _ r(1) [symmetric] refl] True r(2,3) "2.prems"(2,3,5) show ?thesis by (simp add: distinct_map_put)
  next
    case False
    with "2.IH"(1) "2.prems" show ?thesis by simp
  qed
qed simp

lemma resolveSelected_answered:
  "\<lbrakk>resolveSelected env specs ns next w = (Inr next', w'); all_answered env specs next; distinct (map fst next)\<rbrakk> \<Longrightarrow>
     all_answered env specs next' \<and> distinct (map fst next')"
proof (induction env specs ns "next" w rule: resolveSelected.induct)
  case (2 env specs name ns "next" w)
  from "2.prems"(1) obtain spec v w1 where r: "map_of specs name = Some spec" "op_Resolve env (op_Ref spec) w = (Inr v, w1)" "v \<noteq> []"
    by (auto split: option.splits prod.splits sum.splits if_splits)
  define e where "e = \<lparr>op_value = v,
      op_expires = (if op_Preload spec then zeroTime else time_Add (op_now env w1) (op_TTL spec)), op_valid = True\<rparr>"
  have rec: "resolveSelected env specs ns (map_put next name e) w1 = (Inr next', w')"
    using "2.prems"(1) r by (simp add: e_def)
  have "answered env specs name (op_value e)" using r(1,2) by (auto simp: answered_def e_def)
  then have "all_answered env specs (map_put next name e)" using "2.prems"(2) by (rule all_answered_put [rotated])
  with "2.IH" [OF r(1) r(2) [symmetric] refl r(3)] rec "2.prems"(3) show ?case by (simp add: e_def distinct_map_put)
qed simp

lemma cache_answered:
  "all_answered env specs c \<Longrightarrow> op_valid (cache_entry c n) \<Longrightarrow> answered env specs n (op_value (cache_entry c n))"
  by (auto simp: all_answered_def cache_entry_def zero_entry_def split: option.splits)

lemma Preload_answered:
  assumes "op_Preload_all env specs ([], w) = (None, (c, w'))" "distinct (map fst specs)"
  shows "all_answered env specs c"
proof -
  obtain vals where v: "preload_values env specs [] w = (Inr vals, w')" "c = cache_put_all [] vals"
    using assms(1) by (auto simp: op_Preload_all_def split: prod.splits sum.splits)
  have "all_answered env specs []" by (simp add: all_answered_def)
  with preload_values_answered [OF v(1) subset_refl assms(2)] v(2) show ?thesis by (simp add: all_answered_put_all)
qed

lemma RefreshMany_answered:
  assumes "op_RefreshMany env specs names allPreloaded (c, w) = (None, (c', w'))" "all_answered env specs c"
  shows "all_answered env specs c'"
proof -
  obtain sel vals where v: "resolveSelected env specs sel [] w = (Inr vals, w')" "c' = cache_put_all c vals"
    using assms(1) by (auto simp: op_RefreshMany_def split: prod.splits sum.splits)
  have "all_answered env specs []" by (simp add: all_answered_def)
  with resolveSelected_answered [OF v(1)] v(2) assms(2) show ?thesis by (simp add: all_answered_put_all)
qed

section \<open>From the store to the program\<close>

lemma read_env_fixed:
  assumes "\<forall>(k, n) \<in> set env. rd n s = (Inr (val n), s)" "distinct (map fst vals @ map fst env)"
  shows "read_env rd env vals s = (Inr (vals @ map (\<lambda>(k, n). (k, val n)) env), s)"
  using assms
proof (induction env arbitrary: vals)
  case (Cons kn env)
  obtain k n where kn: "kn = (k, n)" by (rule prod.exhaust)
  have put: "map_put vals k (val n) = vals @ [(k, val n)]" using Cons.prems(2) by (simp add: kn map_put_fresh)
  show ?case using Cons.IH [of "vals @ [(k, val n)]"] Cons.prems by (simp add: kn put)
qed simp

lemma buildRoutes_member:
  "r \<in> set rs \<Longrightarrow> Delivery r \<noteq> [] \<Longrightarrow>
     \<exists>rt \<in> set (buildRoutes henv oenv specs i rs). RoutePath rt = rt_Path r \<and> Upstream rt = rt_Upstream r \<and>
       AllowedClientIDs rt = rt_AllowedClientIDs r \<and> RouteProvider rt = op_route_provider oenv specs (op_route_of r)"
  by (induction rs arbitrary: i) fastforce+

text \<open>
  exec against a server over the routes of a configuration, for an environment route whose
  credentials the store can read without changing: the program gets the store's values.
\<close>

lemma exec_env_route:
  assumes "reachable_server p parse os cfg s" "Routes cfg = buildRoutes henv oenv specs 0 routes"
    and "r \<in> set routes" "Delivery r = ''env''" "rt_Upstream r = []" "rt_Path r = CHR ''/'' # ex_route opts"
    and "distinct (map fst (Env r))" "\<forall>(k, n) \<in> set (Env r). CHR ''='' \<notin> set k"
    and "\<forall>(k, n) \<in> set (Env r). op_Get oenv specs n (d_op d, d_ext d) = (Inr (val n), (d_op d, d_ext d))"
    and "\<forall>(k, n) \<in> set (Env r). ascii k \<and> ascii (val n)"
    and "length (env_body (map (\<lambda>(k, n). (k, val n)) (Env r))) \<le> maxEnvResponse"
    and "parseExecOptions opts cmdArgs = None" "ex_socket opts \<noteq> []" "readExecToken readFile (ex_tokenFile opts) = Inr token"
    and "authMiddleware p getuid cfg (srv_tokens s) (conn_ctx p c) (ReqHeader (client_request (ex_route opts @ ''/'') token)) = Inr ctx"
    and "rt_AllowedClientIDs r = [] \<or> clientAllowed (rt_AllowedClientIDs r) (ctx_tokenID ctx)"
    and "lookPath (hd cmdArgs) = Inr bin"
  shows "\<exists>environ'. execCmd (\<lambda>_ _. server_broker p getuid tr s c) readFile lookPath environ opts cmdArgs d = (Inr (bin, cmdArgs, environ'), d) \<and>
    (\<forall>k. CHR ''='' \<notin> set k \<longrightarrow> filter (assigns k) environ' =
       (case map_of (Env r) k of Some n \<Rightarrow> [k @ ''='' @ val n] | None \<Rightarrow> filter (assigns k) environ))"
proof -
  let ?vals = "map (\<lambda>(k, n). (k, val n)) (Env r)"
  obtain rt where rt: "rt \<in> set (Routes cfg)" "RoutePath rt = CHR ''/'' # ex_route opts" "Upstream rt = []"
    "AllowedClientIDs rt = rt_AllowedClientIDs r" "RouteProvider rt = op_route_provider oenv specs (op_route_of r)"
    using buildRoutes_member [OF assms(3), of henv oenv specs 0] assms(2,4,5,6) by auto
  have fixed: "\<forall>(k, n) \<in> set (Env r). op_store_read oenv specs False n (d_op d, d_ext d) = (Inr (val n), (d_op d, d_ext d))"
    using assms(9) by (simp add: op_store_read_def)
  have "read_env (op_store_read oenv specs False) (Env r) [] (d_op d, d_ext d) = (Inr ?vals, (d_op d, d_ext d))"
    using read_env_fixed [where vals = "[]" and val = val and rd = "op_store_read oenv specs False" and s = "(d_op d, d_ext d)", OF fixed] assms(7) by simp
  then have get: "ProviderGet (RouteProvider rt) req d = (Inr (empty_injection\<lparr>BodyReplace := env_body ?vals\<rparr>), d)" for req
    by (simp add: rt(5) op_route_provider_def on_store_def op_inject_def op_route_of_def assms(4))
  have "map fst ?vals = map fst (Env r)" by (simp add: case_prod_beta)
  then have k: "distinct (map fst ?vals)" using assms(7) by (simp only:)
  have a: "list_all (\<lambda>(k, v). ascii k \<and> ascii v) ?vals" "\<forall>(k, v) \<in> set ?vals. CHR ''='' \<notin> set k"
    using assms(8,10) by (fastforce simp: list_all_iff)+
  have m: "map_of ?vals key = map_option val (map_of (Env r) key)" for key using map_of_map [of val "Env r"] by simp
  have l: "listed (ctx_tokenID ctx) rt" using rt(3,4) assms(16) by (auto simp: listed_def)
  have "\<exists>environ'. execCmd (\<lambda>_ _. server_broker p getuid tr s c) readFile lookPath environ opts cmdArgs d = (Inr (bin, cmdArgs, environ'), d) \<and>
    (\<forall>k. CHR ''='' \<notin> set k \<longrightarrow> filter (assigns k) environ' =
       (case map_of ?vals k of Some v \<Rightarrow> [k @ ''='' @ v] | None \<Rightarrow> filter (assigns k) environ))"
    by (rule exec_delivers_route_env [where vals = ?vals and lookPath = lookPath and cmdArgs = cmdArgs, OF assms(1) rt(1,2) assms(12,13,14,15) l get _ assms(11) k a assms(17)]) simp
  then show ?thesis by (simp add: m case_map_option) (auto simp: option.case_eq_if)
qed

lemma buildRoutes_paths: "map RoutePath (buildRoutes henv oenv specs i rs) = map rt_Path rs"
  by (induction rs arbitrary: i) auto

lemma buildRoutes_length: "length (buildRoutes henv oenv specs i rs) = length rs"
  by (induction rs arbitrary: i) auto

lemma buildRoutes_allowed:
  "r \<in> set rs \<Longrightarrow> \<exists>rt \<in> set (buildRoutes henv oenv specs i rs). RoutePath rt = rt_Path r \<and> AllowedClientIDs rt = rt_AllowedClientIDs r"
  by (induction rs arbitrary: i) fastforce+

section \<open>The started daemon\<close>

lemma serve_Inr:
  assumes "serve h cfgPath x o0 = (Inr st, x', o', calls)"
  shows "\<exists>c tokens specs cache o1. load_config h cfgPath = Inr c \<and> load_tokens h c = Inr tokens \<and> open_store h c x = (Inr (specs, cache), x') \<and>
    run_specs st = specs \<and> run_cache st = cache \<and>
    New_server (sh_platform h) (sh_parse h) (sh_net h)
      (serve_config c tokens (buildRoutes (sh_hooks h) (sh_op h) (case specs of Some ss \<Rightarrow> ss | None \<Rightarrow> []) 0 (cfg_Routes c))) o0 =
      (Inr (Some (run_server st)), o1)"
  using assms by (auto simp: serve_def split: sum.splits prod.splits option.splits)

lemma load_config_valid: "load_config h cfgPath = Inr c \<Longrightarrow> validate c = None"
  by (auto simp: load_config_def Load_def Let_def split: sum.splits option.splits if_splits)

lemma env_route_valid:
  assumes "validate c = None" "r \<in> set (cfg_Routes c)" "Delivery r = ''env''"
  shows "rt_Upstream r = [] \<and> (\<forall>(k, n) \<in> set (Env r). CHR ''='' \<notin> set k)"
proof -
  have "route_ok (Credentials c) r" using validate_ok [OF assms(1)] assms(2) by blast
  with assms(3) show ?thesis by (auto simp: route_ok_def)
qed

lemma op_add_specs_list: "op_add_specs m ss = Inr m' \<Longrightarrow> m' = m @ map (\<lambda>s. (op_Name s, s)) ss"
proof (induction m ss rule: op_add_specs.induct)
  case (2 m spec ss)
  then have "map_of m (op_Name spec) = None" "op_add_specs (map_put m (op_Name spec) spec) ss = Inr m'" by (auto split: if_splits)
  moreover from this(1) have "map_put m (op_Name spec) spec = m @ [(op_Name spec, spec)]"
    by (simp add: map_put_fresh map_of_eq_None_iff)
  ultimately show ?case using 2 by (auto split: if_splits)
qed simp

lemma op_New_list: "op_New ss = Inr specs \<Longrightarrow> specs = map (\<lambda>s. (op_Name s, s)) ss \<and> distinct (map fst specs)"
  using op_add_specs_list [of "[]" ss specs] op_add_specs_ok [of "[]" ss specs] by (simp add: op_New_def)

text \<open>The spec the store has for a credential of the configuration.\<close>

lemma credential_spec:
  assumes "op_New (op_credentials_of c) = Inr specs" "cr \<in> set (Credentials c)"
  shows "\<exists>spec. map_of specs (CredName cr) = Some spec \<and> op_Ref spec = SecretRef cr \<and> op_Preload spec = Preload cr"
proof -
  let ?spec = "\<lparr>op_Name = CredName cr, op_Ref = SecretRef cr, op_Preload = Preload cr, op_TTL = seconds_of (TTLSec cr)\<rparr>"
  have "(CredName cr, ?spec) \<in> set specs"
    using op_New_list [OF assms(1)] assms(2) by (force simp: op_credentials_of_def)
  then have "map_of specs (CredName cr) = Some ?spec" using op_New_list [OF assms(1)] by (blast intro: map_of_is_SomeI)
  then show ?thesis by simp
qed

lemma pinned_Get:
  assumes "map_of specs n = Some spec" "op_Preload spec" "op_valid (cache_entry c n)"
  shows "op_Get env specs n (c, w) = (Inr (op_value (cache_entry c n)), (c, w))"
  using assms by (simp add: op_Get_def op_usable_def Let_def)

text \<open>After startup every pinned credential is in the cache, with an answer for its reference.\<close>

lemma started_pins:
  assumes "open_store h c x = (Inr (specs, cache), x')" "cr \<in> set (Credentials c)" "Preload cr"
  shows "\<exists>ss spec. specs = Some ss \<and> op_New (op_credentials_of c) = Inr ss \<and> map_of ss (CredName cr) = Some spec \<and> op_Preload spec \<and>
    op_Ref spec = SecretRef cr \<and>
    op_valid (cache_entry cache (CredName cr)) \<and> op_value (cache_entry cache (CredName cr)) \<noteq> [] \<and> all_answered (sh_op h) ss cache"
proof -
  obtain ss x1 where s: "specs = Some ss" "op_New (op_credentials_of c) = Inr ss" "op_Preload_all (sh_op h) ss ([], x1) = (None, (cache, x'))"
    using open_store_Inr [OF assms(1)] assms(2) by (cases specs) auto
  obtain spec where spec: "map_of ss (CredName cr) = Some spec" "op_Preload spec" "op_Ref spec = SecretRef cr"
    using credential_spec [OF s(2) assms(2)] assms(3) by auto
  obtain vals where v: "preload_values (sh_op h) ss [] x1 = (Inr vals, x')" "cache = cache_put_all [] vals"
    using s(3) by (auto simp: op_Preload_all_def split: prod.splits sum.splits)
  have "CredName cr \<in> fst ` {(n, spec). (n, spec) \<in> set ss \<and> op_Preload spec}"
    using map_of_SomeD [OF spec(1)] spec(2) by force
  then have "CredName cr \<in> fst ` set vals" using preload_values_keys [OF v(1)] by simp
  then obtain e where e: "map_of vals (CredName cr) = Some e" by (metis map_of_eq_None_iff not_Some_eq)
  moreover have "op_valid e" "op_value e \<noteq> []" using preload_values_ok [OF v(1)] map_of_SomeD [OF e] by auto
  ultimately have "op_valid (cache_entry cache (CredName cr))" "op_value (cache_entry cache (CredName cr)) \<noteq> []"
    using v(2) preload_values_keys [OF v(1)] by (simp_all add: cache_put_all_entry)
  with s spec Preload_answered [OF s(3)] op_New_list [OF s(2)] show ?thesis by blast
qed

text \<open>With a 1Password that stays as it is during the refresh, the cache holds its answers afterwards.\<close>

lemma resolveSelected_now:
  "\<lbrakk>resolveSelected env specs ns next w = (Inr next', w'); \<forall>ref. op_Resolve env ref w = (Inr (sec ref), w)\<rbrakk> \<Longrightarrow>
     w' = w \<and> (\<forall>n. if n \<in> set ns then \<exists>spec e. map_of specs n = Some spec \<and> map_of next' n = Some e \<and> op_valid e \<and> op_value e = sec (op_Ref spec)
              else map_of next' n = map_of next n)"
proof (induction env specs ns "next" w rule: resolveSelected.induct)
  case (2 env specs name ns "next" w)
  from "2.prems" obtain spec where r: "map_of specs name = Some spec" "op_Resolve env (op_Ref spec) w = (Inr (sec (op_Ref spec)), w)" "sec (op_Ref spec) \<noteq> []"
    by (auto split: option.splits if_splits)
  define e where "e = \<lparr>op_value = sec (op_Ref spec),
      op_expires = (if op_Preload spec then zeroTime else time_Add (op_now env w) (op_TTL spec)), op_valid = True\<rparr>"
  have rec: "resolveSelected env specs ns (map_put next name e) w = (Inr next', w')"
    using "2.prems"(1) r by (simp add: e_def)
  note ih = "2.IH" [OF r(1) r(2) [symmetric] refl r(3), folded e_def, OF rec "2.prems"(2)]
  then have "\<exists>e. map_of next' name = Some e \<and> op_valid e \<and> op_value e = sec (op_Ref spec)"
    using r(1) by (cases "name \<in> set ns") (auto simp: e_def dest!: spec [of _ name])
  with ih r(1) show ?case by (auto split: if_splits)
qed simp

lemma RefreshMany_now:
  assumes "op_RefreshMany env specs names True (c, w) = (None, (c', w'))" "\<forall>ref. op_Resolve env ref w = (Inr (sec ref), w)"
    and "map_of specs n = Some spec" "op_Preload spec"
  shows "w' = w \<and> op_valid (cache_entry c' n) \<and> op_value (cache_entry c' n) = sec (op_Ref spec)"
proof -
  obtain sel vals where v: "selectedNames specs names True = Inr sel" "resolveSelected env specs sel [] w = (Inr vals, w')" "c' = cache_put_all c vals"
    using assms(1) by (auto simp: op_RefreshMany_def split: prod.splits sum.splits)
  have "set sel = fst ` {(n, spec). (n, spec) \<in> set specs \<and> op_Preload spec}"
    using RefreshMany_effect [OF assms(1)] v(1) by auto
  then have "n \<in> set sel" using map_of_SomeD [OF assms(3)] assms(4) by force
  with resolveSelected_now [OF v(2) assms(2)] assms(3) obtain e where "w' = w" "map_of vals n = Some e" "op_valid e" "op_value e = sec (op_Ref spec)"
    by (auto dest!: spec [of _ n])
  moreover have "distinct (map fst vals)" using resolveSelected_answered [OF v(2)] by (simp add: all_answered_def)
  ultimately show ?thesis using v(3) by (simp add: cache_put_all_entry)
qed

lemma serve_config_fields [simp]:
  "AuthTokens (serve_config c tokens rs) = tokens" "Routes (serve_config c tokens rs) = rs"
  "AllowUnauthenticated (serve_config c tokens rs) \<longleftrightarrow> cfg_ListenTCP c = [] \<and> tokens = []"
  by (simp_all add: serve_config_def)

text \<open>The server of a started daemon is a server of the configuration it loaded.\<close>

lemma started_server:
  assumes "serve h cfgPath x o0 = (Inr st, x', o', calls)" "load_config h cfgPath = Inr c"
  shows "\<exists>tokens specs. load_tokens h c = Inr tokens \<and> run_specs st = specs \<and> open_store h c x = (Inr (specs, run_cache st), x') \<and>
    (let cfg = serve_config c tokens (buildRoutes (sh_hooks h) (sh_op h) (case specs of Some ss \<Rightarrow> ss | None \<Rightarrow> []) 0 (cfg_Routes c)) in
     srv_cfg (run_server st) = cfg \<and> srv_tokens (run_server st) = token_entries tokens \<and>
     reachable_server (sh_platform h) (sh_parse h) (sh_net h) cfg (run_server st))"
proof -
  obtain tokens specs cache o1 where s: "load_tokens h c = Inr tokens" "open_store h c x = (Inr (specs, cache), x')"
    "run_specs st = specs" "run_cache st = cache"
    "New_server (sh_platform h) (sh_parse h) (sh_net h)
      (serve_config c tokens (buildRoutes (sh_hooks h) (sh_op h) (case specs of Some ss \<Rightarrow> ss | None \<Rightarrow> []) 0 (cfg_Routes c))) o0 =
      (Inr (Some (run_server st)), o1)"
    using serve_Inr [OF assms(1)] assms(2) by auto
  from New_server_Some [OF s(5)] reachable_server.created [OF s(5)] s(1-4) show ?thesis by (simp add: Let_def)
qed

text \<open>
  exec against a started daemon, for an environment route whose credentials are all pinned, in any
  state of the daemon whose cache has them.
\<close>

lemma exec_started_daemon:
  assumes "serve h cfgPath x o0 = (Inr st, x', o', calls)" "load_config h cfgPath = Inr c"
    and "r \<in> set (cfg_Routes c)" "Delivery r = ''env''" "rt_Path r = CHR ''/'' # ex_route opts" "distinct (map fst (Env r))"
    and pins: "\<forall>(k, n) \<in> set (Env r). \<exists>cr \<in> set (Credentials c). CredName cr = n \<and> Preload cr"
    and "\<forall>(k, n) \<in> set (Env r). op_valid (cache_entry (d_op d) n)"
    and "\<forall>(k, n) \<in> set (Env r). ascii k \<and> ascii (op_value (cache_entry (d_op d) n))"
    and "length (env_body (map (\<lambda>(k, n). (k, op_value (cache_entry (d_op d) n))) (Env r))) \<le> maxEnvResponse"
    and "parseExecOptions opts cmdArgs = None" "ex_socket opts \<noteq> []" "readExecToken readFile (ex_tokenFile opts) = Inr token"
    and "authMiddleware (sh_platform h) getuid (srv_cfg (run_server st)) (srv_tokens (run_server st)) (conn_ctx (sh_platform h) conn)
       (ReqHeader (client_request (ex_route opts @ ''/'') token)) = Inr ctx"
    and "rt_AllowedClientIDs r = [] \<or> clientAllowed (rt_AllowedClientIDs r) (ctx_tokenID ctx)"
    and "lookPath (hd cmdArgs) = Inr bin"
  shows "\<exists>environ'. execCmd (\<lambda>_ _. server_broker (sh_platform h) getuid tr (run_server st) conn) readFile lookPath environ opts cmdArgs d =
      (Inr (bin, cmdArgs, environ'), d) \<and>
    (\<forall>k. CHR ''='' \<notin> set k \<longrightarrow> filter (assigns k) environ' =
       (case map_of (Env r) k of Some n \<Rightarrow> [k @ ''='' @ op_value (cache_entry (d_op d) n)] | None \<Rightarrow> filter (assigns k) environ))"
proof -
  obtain tokens specs where s: "load_tokens h c = Inr tokens" "run_specs st = specs" "open_store h c x = (Inr (specs, run_cache st), x')"
    "srv_cfg (run_server st) = serve_config c tokens (buildRoutes (sh_hooks h) (sh_op h) (case specs of Some ss \<Rightarrow> ss | None \<Rightarrow> []) 0 (cfg_Routes c))"
    "reachable_server (sh_platform h) (sh_parse h) (sh_net h) (srv_cfg (run_server st)) (run_server st)"
    using started_server [OF assms(1,2)] by (auto simp: Let_def)
  let ?ss = "case specs of Some ss \<Rightarrow> ss | None \<Rightarrow> []"
  note valid = env_route_valid [OF load_config_valid [OF assms(2)] assms(3,4)]
  have gets: "\<forall>(k, n) \<in> set (Env r). op_Get (sh_op h) ?ss n (d_op d, d_ext d) = (Inr (op_value (cache_entry (d_op d) n)), (d_op d, d_ext d))"
  proof (clarify)
    fix k n
    assume kn: "(k, n) \<in> set (Env r)"
    from bspec [OF pins kn] obtain cr where cr: "cr \<in> set (Credentials c)" "CredName cr = n" "Preload cr" by auto
    from started_pins [OF s(3) cr(1,3)] cr(2) obtain spec where "map_of ?ss n = Some spec" "op_Preload spec" by auto
    moreover have "op_valid (cache_entry (d_op d) n)" using bspec [OF assms(8) kn] by simp
    ultimately show "op_Get (sh_op h) ?ss n (d_op d, d_ext d) = (Inr (op_value (cache_entry (d_op d) n)), (d_op d, d_ext d))"
      by (rule pinned_Get)
  qed
  have routes: "Routes (srv_cfg (run_server st)) = buildRoutes (sh_hooks h) (sh_op h) ?ss 0 (cfg_Routes c)" by (simp add: s(4) serve_config_def)
  note run = exec_env_route [where val = "\<lambda>n. op_value (cache_entry (d_op d) n)" and d = d and lookPath = lookPath and cmdArgs = cmdArgs,
      OF s(5) routes assms(3,4) conjunct1 [OF valid] assms(5,6) conjunct2 [OF valid] gets assms(9-16)]
  show ?thesis by (rule run)
qed

text \<open>What the program sees of the route and of the rest of the environment.\<close>

lemma route_env_delivered:
  assumes "load_config h cfgPath = Inr c" "r \<in> set (cfg_Routes c)" "Delivery r = ''env''" "distinct (map fst (Env r))"
    and "\<forall>k. CHR ''='' \<notin> set k \<longrightarrow> filter (assigns k) environ' =
       (case map_of (Env r) k of Some n \<Rightarrow> [k @ ''='' @ val n] | None \<Rightarrow> filter (assigns k) environ)"
  shows "(k, n) \<in> set (Env r) \<Longrightarrow> filter (assigns k) environ' = [k @ ''='' @ val n]"
    and "CHR ''='' \<notin> set k \<Longrightarrow> k \<notin> fst ` set (Env r) \<Longrightarrow> filter (assigns k) environ' = filter (assigns k) environ"
proof -
  assume kn: "(k, n) \<in> set (Env r)"
  have "\<forall>(k, n) \<in> set (Env r). CHR ''='' \<notin> set k" using env_route_valid [OF load_config_valid [OF assms(1)] assms(2,3)] by blast
  from bspec [OF this kn] have "CHR ''='' \<notin> set k" by simp
  moreover have "map_of (Env r) k = Some n" using assms(4) kn by (rule map_of_is_SomeI)
  ultimately show "filter (assigns k) environ' = [k @ ''='' @ val n]" using assms(5) by simp
next
  assume "CHR ''='' \<notin> set k" "k \<notin> fst ` set (Env r)"
  moreover from this(2) have "map_of (Env r) k = None" by (simp add: map_of_eq_None_iff)
  ultimately show "filter (assigns k) environ' = filter (assigns k) environ" using assms(5) by simp
qed

text \<open>A successful refresh --all over the admin socket is a successful RefreshMany of all pinned credentials.\<close>

lemma refresh_all_RefreshMany:
  assumes "parseRefreshOptions opts [] = None" "ro_all opts" "adminTarget host (ro_socket opts) (ro_serverExecutable opts) = Inr target"
    and "refreshCmd (admin_endpoint (adminRefresher env specs)) host opts [] st = (None, out, st')"
  shows "op_RefreshMany env specs [] True st = (None, st')"
proof -
  have c: "ro_credential opts = []" using assms(1,2) by (auto simp: parseRefreshOptions_def split: if_splits)
  have e: "ascii []" "TrimSpace [] = []" "length (json_encode (refreshPayload [] True)) \<le> 4096" by code_simp+
  show ?thesis
    using refreshCmd_RefreshMany [OF assms(1,3), of env specs st] assms(2,4) c e by (auto split: prod.splits option.splits)
qed

section \<open>A daemon for the witnesses\<close>

text \<open>A 1Password whose secret changes with the world, and a host with one environment route for one client.\<close>

definition flow_op :: "nat op_env" where
  "flow_op = \<lparr>op_Resolve = (\<lambda>ref w. (Inr (if w = 0 then ''old'' else ''new''), w)), op_now = (\<lambda>_. 0), op_Do = (\<lambda>_ fn. fn)\<rparr>"

definition flow_route :: cfg_route where
  "flow_route =
     \<lparr>rt_Path = ''/env'', rt_Upstream = [], CredentialCommand = [], RefreshCommand = [], rt_RefreshOnStatus = [], HookTimeoutSec = 10,
      rt_StripInboundAuth = False, rt_AllowedClientIDs = [''ci''], rt_Credential = [], Delivery = ''env'', rt_Header = [], Prefix = [],
      Env = [(''API_KEY'', ''k'')]\<rparr>"

definition flow_config :: Config where
  "flow_config = demo_loaded\<lparr>AuthTokensFile := ''/tokens'', cfg_Routes := [flow_route]\<rparr>"

definition flow_host :: "(nat, unit) serve_host" where
  "flow_host = demo_serve_host\<lparr>sh_decode := (\<lambda>_. Inr flow_config), sh_ReadFile := (\<lambda>_. Inr ''ci=s3cret''), sh_op := flow_op\<rparr>"

definition flow_specs :: op_specs where
  "flow_specs = [(''k'', \<lparr>op_Name = ''k'', op_Ref = ''op://v/i/f'', op_Preload = True, op_TTL = seconds_of 60\<rparr>)]"

definition flow_cache :: "string \<Rightarrow> op_cache" where
  "flow_cache v = [(''k'', \<lparr>op_value = v, op_expires = zeroTime, op_valid = True\<rparr>)]"

lemma flow_load: "load_config flow_host p = Inr flow_config"
proof -
  have k: "\<not> bad_env_key ''API_KEY''" by code_simp
  show ?thesis
    by (simp add: load_config_def flow_host_def demo_serve_host_def flow_config_def demo_loaded_def Load_def Let_def expand_def expandPath_def
        validate_def valid_credential_def known_credential_def fill_ttl_def validate_route_def expand_route_def flow_route_def k)
qed

lemma flow_tokens: "load_tokens flow_host flow_config = Inr [\<lparr>Token = ''s3cret'', ID = ''ci''\<rparr>]"
proof -
  have "parseTokens ''ci=s3cret'' = Inr [\<lparr>tok_ID = ''ci'', tok_Value = ''s3cret''\<rparr>]" by code_simp
  then show ?thesis
    by (simp add: load_tokens_def flow_host_def flow_config_def demo_serve_host_def LoadTokens_def expandPath_def ValidateClientIDs_def flow_route_def)
qed

lemma flow_store: "open_store flow_host flow_config 0 = (Inr (Some flow_specs, flow_cache ''old''), 0)"
  using demo_token by (simp add: open_store_def NewSDK_def flow_host_def demo_serve_host_def flow_config_def demo_loaded_def op_credentials_of_def
      op_New_def op_spec_ok_def op_Preload_all_def flow_op_def flow_specs_def flow_cache_def cache_put_all_def protected_token_def)

lemma flow_server:
  "\<exists>srv. New_server Linux demo_parse demo_os
     (serve_config flow_config [\<lparr>Token = ''s3cret'', ID = ''ci''\<rparr>] (buildRoutes (sh_hooks flow_host) flow_op flow_specs 0 [flow_route])) () = (Inr (Some srv), ())"
  (is "\<exists>srv. New_server Linux demo_parse demo_os ?cfg () = _")
proof -
  obtain rt where rt: "Routes ?cfg = [rt]" "RoutePath rt = ''/env''" "Upstream rt = []"
    by (simp add: serve_config_def flow_route_def)
  have l: "literal_pattern ''/env''" "literal_pattern ''/env/''" "\<not> HasSuffix ''/env'' ''/''" "TrimSuffix ''/env'' ''/'' \<notin> set reservedPaths"
    by code_simp+
  have r: "\<exists>m. registerRoutes demo_parse ?cfg = Inr (Some m)"
    by (simp only: registerRoutes_def rt) (simp add: registerRoute_def newRouteHandler_def rt l mux_Handle_def Let_def)
  have "openListeners Linux demo_os ?cfg () = (Inr ([], [UnixListener ''/run/c.sock'']), ())"
    "validatePeerListenerPolicy Linux ?cfg = None" "route_conflict ?cfg = None"
    by (simp_all add: openListeners_def openUnixListener_def demo_os_def validatePeerListenerPolicy_def route_conflict_def serve_config_def
        flow_config_def demo_loaded_def peerCredSupported_def)
  with r show ?thesis by (auto simp: New_server_def)
qed

lemma flow_serve:
  "\<exists>st calls. serve flow_host p 0 () = (Inr st, 0, (), calls) \<and> run_specs st = Some flow_specs \<and> run_cache st = flow_cache ''old''"
proof -
  have j: "filepath_Join ''/run/user/1'' ''credproxyd/admin.sock'' = ''/run/user/1/credproxyd/admin.sock''" by code_simp
  have a: "\<exists>so calls. start_admin flow_host (Some flow_specs) () = (Inr so, calls, ())"
    by (simp add: start_admin_def admin_address_def admin_bind_def flow_host_def demo_serve_host_def DefaultSocketPath_def admin_listen_def open_socket_def j clear_stale_def Let_def)
  have f: "sh_platform flow_host = Linux" "sh_parse flow_host = demo_parse" "sh_net flow_host = demo_os" "sh_op flow_host = flow_op" "cfg_Routes flow_config = [flow_route]"
    by (simp_all add: flow_host_def demo_serve_host_def flow_config_def)
  obtain srv where s: "New_server Linux demo_parse demo_os
     (serve_config flow_config [\<lparr>Token = ''s3cret'', ID = ''ci''\<rparr>] (buildRoutes (sh_hooks flow_host) flow_op flow_specs 0 [flow_route])) () = (Inr (Some srv), ())"
    using flow_server by blast
  obtain so calls where "start_admin flow_host (Some flow_specs) () = (Inr so, calls, ())" using a by blast
  then show ?thesis by (simp add: serve_def flow_load flow_tokens flow_store f s del: buildRoutes.simps)
qed

definition flow_options :: execOptions where
  "flow_options = \<lparr>ex_socket = ''/run/c.sock'', ex_serverExecutable = [], ex_route = ''env'', ex_tokenFile = ''/t''\<rparr>"

definition flow_daemon :: "string \<Rightarrow> nat \<Rightarrow> nat daemon" where
  "flow_daemon v x = \<lparr>d_caches = (\<lambda>_. None), d_op = flow_cache v, d_ext = x\<rparr>"

lemma flow_entry [simp]: "op_value (cache_entry (flow_cache v) ''k'') = v" "op_valid (cache_entry (flow_cache v) ''k'')"
  "d_op (flow_daemon v x) = flow_cache v" "d_ext (flow_daemon v x) = x"
  by (simp_all add: flow_daemon_def flow_cache_def cache_entry_def)

lemma flow_route_ok:
  "flow_route \<in> set (cfg_Routes flow_config)" "Delivery flow_route = ''env''" "rt_Path flow_route = CHR ''/'' # ex_route flow_options"
  "distinct (map fst (Env flow_route))" "\<forall>(k, n) \<in> set (Env flow_route). \<exists>cr \<in> set (Credentials flow_config). CredName cr = n \<and> Preload cr"
  by (simp_all add: flow_config_def flow_route_def flow_options_def demo_loaded_def)

lemma flow_exec_ok:
  "parseExecOptions flow_options [''tool''] = None" "ex_socket flow_options \<noteq> []"
  "readExecToken (\<lambda>_. FileData ''s3cret'') (ex_tokenFile flow_options) = Inr ''s3cret''"
  by code_simp+

lemma flow_gate:
  assumes "serve flow_host p 0 () = (Inr st, x', o', calls)"
  shows "authMiddleware (sh_platform flow_host) 1000 (srv_cfg (run_server st)) (srv_tokens (run_server st)) (conn_ctx (sh_platform flow_host) demo_conn)
     (ReqHeader (client_request path ''s3cret'')) = Inr ((conn_ctx (sh_platform flow_host) demo_conn)\<lparr>tokenIDKey := Some ''ci''\<rparr>)"
proof -
  have v: "Header_Values (ReqHeader (client_request path ''s3cret'')) ''Authorization'' = [''Bearer s3cret'']"
    by (simp add: client_request_def)
  have b: "extractBearer [''Bearer s3cret''] = Some ''s3cret''" "matchTokenEntries [\<lparr>entry_token = ''s3cret'', entry_id = ''ci''\<rparr>] ''s3cret'' = Some ''ci''"
    by code_simp+
  have c: "cfg_ListenTCP flow_config = []" "cfg_RequirePeerSID flow_config = []" by (simp_all add: flow_config_def demo_loaded_def)
  obtain rs where "srv_cfg (run_server st) = serve_config flow_config [\<lparr>Token = ''s3cret'', ID = ''ci''\<rparr>] rs"
    "srv_tokens (run_server st) = token_entries [\<lparr>Token = ''s3cret'', ID = ''ci''\<rparr>]"
    using started_server [OF assms flow_load] by (auto simp: flow_tokens Let_def)
  then show ?thesis using b(2) by (simp add: authMiddleware_def serve_config_def c token_entries_def v b(1) del: matchTokenEntries.simps)
qed

lemma flow_permits:
  "rt_AllowedClientIDs flow_route = [] \<or> clientAllowed (rt_AllowedClientIDs flow_route) (ctx_tokenID (ctx\<lparr>tokenIDKey := Some ''ci''\<rparr>))"
  by (simp add: flow_route_def ctx_tokenID_def clientAllowed_def)

lemma flow_values:
  assumes "v = ''old'' \<or> v = ''new''"
  shows "\<forall>(k, n) \<in> set (Env flow_route). ascii k \<and> ascii (op_value (cache_entry (flow_cache v) n))"
    and "length (env_body (map (\<lambda>(k, n). (k, op_value (cache_entry (flow_cache v) n))) (Env flow_route))) \<le> maxEnvResponse"
proof -
  have "length (env_body [(''API_KEY'', ''old'')]) = 25" "length (env_body [(''API_KEY'', ''new'')]) = 25" by code_simp+
  then show "length (env_body (map (\<lambda>(k, n). (k, op_value (cache_entry (flow_cache v) n))) (Env flow_route))) \<le> maxEnvResponse"
    using assms by (auto simp: flow_route_def maxEnvResponse_def)
  show "\<forall>(k, n) \<in> set (Env flow_route). ascii k \<and> ascii (op_value (cache_entry (flow_cache v) n))"
    using assms by (auto simp: flow_route_def)
qed

definition flow_refresh :: refreshOptions where
  "flow_refresh = \<lparr>ro_credential = [], ro_all = True, ro_socket = ''/a.sock'', ro_serverExecutable = []\<rparr>"

lemma flow_refresh_ok:
  "parseRefreshOptions flow_refresh [] = None" "ro_all flow_refresh"
  "adminTarget (sh_client flow_host) (ro_socket flow_refresh) (ro_serverExecutable flow_refresh) = Inr (''/a.sock'', [])"
  by (simp_all add: parseRefreshOptions_def flow_refresh_def adminTarget_def expectedServerExecutable_def flow_host_def demo_serve_host_def)

lemma flow_refreshed:
  "refreshCmd (admin_endpoint (adminRefresher flow_op flow_specs)) (sh_client flow_host) flow_refresh [] (flow_cache v, 7) =
     (None, ''credential refreshed'' @ [CHR 0x0A], (flow_cache ''new'', 7))"
proof -
  have e: "ascii []" "TrimSpace [] = []" "length (json_encode (refreshPayload [] True)) \<le> 4096" by code_simp+
  have "selectedNames flow_specs [] True = Inr [''k'']" by code_simp
  then have "op_RefreshMany flow_op flow_specs [] True (flow_cache v, 7) = (None, (flow_cache ''new'', 7))"
    by (simp add: op_RefreshMany_def flow_specs_def flow_op_def flow_cache_def cache_put_all_def)
  then show ?thesis
    using refreshCmd_RefreshMany [OF flow_refresh_ok(1,3), of flow_op flow_specs "(flow_cache v, 7)"] e by (simp add: flow_refresh_def)
qed

lemma flow_request:
  assumes "serve flow_host p 0 () = (Inr st, x', o', calls)"
  shows "\<exists>rep evs d'. server_request (sh_platform flow_host) 1000 tr (run_server st) demo_conn (client_request ''env/'' ''s3cret'') d = (rep, evs, d') \<and> evs \<noteq> []"
proof -
  let ?cfg = "srv_cfg (run_server st)" and ?r = "client_request ''env/'' ''s3cret''"
  let ?ctx = "(conn_ctx (sh_platform flow_host) demo_conn)\<lparr>tokenIDKey := Some ''ci''\<rparr>"
  obtain rt where rt: "rt \<in> set (Routes ?cfg)" "RoutePath rt = ''/env''" "AllowedClientIDs rt = [''ci'']"
    and ok: "server_ok (sh_parse flow_host) ?cfg (run_server st)"
    using started_server [OF assms flow_load] reachable_server_ok by (fastforce simp: Let_def flow_config_def flow_route_def)
  have l: "\<not> HasSuffix ''/env'' ''/''" "plain_path ''/env/''" "cleanPath ''/env/'' = ''/env/''" by code_simp+
  have "ctx_tokenID ?ctx = ''ci''" by (simp add: ctx_tokenID_def)
  moreover obtain h where h: "newRouteHandler (sh_parse flow_host) rt = Inr h"
    "mux_ServeHTTP (sh_platform flow_host) 1000 tr (run_server st) (conn_ctx (sh_platform flow_host) demo_conn) ?r d =
      (case serveHTTP tr h ?ctx (?r\<lparr>URL := (URL ?r)\<lparr>Path := ''/''\<rparr>\<rparr>) d of (resp, evs, w') \<Rightarrow> (Replied resp, evs, w'))"
    using route_request [OF ok rt(1) _ _ _ _ _ flow_gate [OF assms, of "''env/''"], of tr d] rt(2) l by auto
  moreover have "buffer_body (handlerCfg h) (?r\<lparr>URL := (URL ?r)\<lparr>Path := ''/''\<rparr>\<rparr>) \<noteq> None"
    by (auto simp: buffer_body_def read_limited_def no_body_def)
  ultimately show ?thesis
    using rt(3) newRouteHandler_keeps [OF h(1)]
    by (auto simp: server_request_def serveHTTP_def clientAllowed_def Let_def log_event_def split: prod.splits)
qed

end
