(* ===== verification/Admin_Serve.thy ===== *)
theory Admin_Serve
  imports Daemon_Serve
begin

text \<open>
  The life of the admin socket: Start, Serve and serve of cmd/credproxyd/admin/server.go with the
  endpoint's cleanup of listen_unix.go. serve runs beside a goroutine that
  closes the HTTP server when the context ends; both are one step relation over all interleavings.
  The HTTP server itself closes the listener, and a Unix listener unlinks its path when it is
  closed, as net and net/http document.
\<close>

section \<open>The endpoint and its server\<close>

definition cleanupEndpoint :: "string \<Rightarrow> os_call list" where
  "cleanupEndpoint socket = [RemoveFile socket]"

datatype serve_end = ErrServerClosed | ServeError go_error

text \<open>
  The phases of serve: in server.Serve before it has registered the listener, accepting, leaving
  through its deferred close, after it, after close(done), and the deferred calls of serve in the
  reverse order of their defer statements.
\<close>

datatype admin_serve_phase =
    Entering
  | InServe
  | Leaving serve_end
  | ServeEnded serve_end
  | DoneClosed serve_end
  | Cleaning "go_error option"
  | Closing "go_error option"
  | AdminReturned "go_error option"

datatype closer_phase = Watching | CloserEnded

text \<open>Whose socket is at the path: nobody's, this listener's, or one that another process bound there.\<close>

datatype path_owner = PathFree | PathOurs | PathOther

record admin_run =
  ar_ctxDone :: bool
  ar_serverClosed :: bool
  ar_doneClosed :: bool
  ar_phase :: admin_serve_phase
  ar_closer :: closer_phase
  ar_listening :: bool
  ar_path :: path_owner
  ar_calls :: "os_call list"

definition admin_begin :: admin_run where
  "admin_begin =
     \<lparr>ar_ctxDone = False, ar_serverClosed = False, ar_doneClosed = False, ar_phase = Entering, ar_closer = Watching,
      ar_listening = True, ar_path = PathOurs, ar_calls = []\<rparr>"

definition admin_result :: "serve_end \<Rightarrow> bool \<Rightarrow> go_error option" where
  "admin_result e ctxDone = (case e of ErrServerClosed \<Rightarrow> None | ServeError err \<Rightarrow> if ctxDone then None else Some err)"

text \<open>os.Remove of the path takes away whatever is there, unless it fails.\<close>

definition remove_path :: "os_answers \<Rightarrow> string \<Rightarrow> admin_run \<Rightarrow> admin_run" where
  "remove_path os socket s = (if ans_error os (RemoveFile socket) = None then s\<lparr>ar_path := PathFree\<rparr> else s)"

text \<open>Close of a Unix listener unlinks the path and closes the socket, the first time; later it does nothing.\<close>

definition listener_Close :: "os_answers \<Rightarrow> string \<Rightarrow> admin_run \<Rightarrow> admin_run" where
  "listener_Close os socket s =
     (if ar_listening s
      then (remove_path os socket s)\<lparr>ar_listening := False, ar_calls := ar_calls s @ unix_Close socket\<rparr>
      else s)"

text \<open>
  The steps of the two goroutines. server.Serve refuses a server that was closed; server.Close
  closes the listener that Serve has registered, after which Serve ends with ErrServerClosed; Serve
  closes the listener whenever it returns.
\<close>

inductive admin_step :: "os_answers \<Rightarrow> string \<Rightarrow> admin_run \<Rightarrow> admin_run \<Rightarrow> bool" for os socket where
  close_server: "\<lbrakk>ar_closer s = Watching; ar_ctxDone s\<rbrakk> \<Longrightarrow>
     admin_step os socket s ((if ar_phase s = InServe then listener_Close os socket s else s)\<lparr>ar_serverClosed := True, ar_closer := CloserEnded\<rparr>)"
| see_done: "\<lbrakk>ar_closer s = Watching; ar_doneClosed s\<rbrakk> \<Longrightarrow> admin_step os socket s (s\<lparr>ar_closer := CloserEnded\<rparr>)"
| track: "\<lbrakk>ar_phase s = Entering; \<not> ar_serverClosed s\<rbrakk> \<Longrightarrow> admin_step os socket s (s\<lparr>ar_phase := InServe\<rparr>)"
| track_refused: "\<lbrakk>ar_phase s = Entering; ar_serverClosed s\<rbrakk> \<Longrightarrow> admin_step os socket s (s\<lparr>ar_phase := Leaving ErrServerClosed\<rparr>)"
| serve_closed: "\<lbrakk>ar_phase s = InServe; ar_serverClosed s\<rbrakk> \<Longrightarrow> admin_step os socket s (s\<lparr>ar_phase := Leaving ErrServerClosed\<rparr>)"
| leave: "ar_phase s = Leaving e \<Longrightarrow> admin_step os socket s ((listener_Close os socket s)\<lparr>ar_phase := ServeEnded e\<rparr>)"
| close_done: "ar_phase s = ServeEnded e \<Longrightarrow> admin_step os socket s (s\<lparr>ar_doneClosed := True, ar_phase := DoneClosed e\<rparr>)"
| decide: "ar_phase s = DoneClosed e \<Longrightarrow> admin_step os socket s (s\<lparr>ar_phase := Cleaning (admin_result e (ar_ctxDone s))\<rparr>)"
| cleanup: "ar_phase s = Cleaning r \<Longrightarrow>
     admin_step os socket s ((remove_path os socket s)\<lparr>ar_calls := ar_calls s @ cleanupEndpoint socket, ar_phase := Closing r\<rparr>)"
| close_listener: "ar_phase s = Closing r \<Longrightarrow> admin_step os socket s ((listener_Close os socket s)\<lparr>ar_phase := AdminReturned r\<rparr>)"

text \<open>
  From outside, the context ends at any moment, the listener fails while it is served, and another
  process may bind the path while it is free and give it up again.
\<close>

inductive admin_env_step :: "os_answers \<Rightarrow> string \<Rightarrow> admin_run \<Rightarrow> admin_run \<Rightarrow> bool" for os socket where
  ctx: "admin_env_step os socket s (s\<lparr>ar_ctxDone := True\<rparr>)"
| serve_fails: "\<lbrakk>ar_phase s = InServe; \<not> ar_serverClosed s\<rbrakk> \<Longrightarrow> admin_env_step os socket s (s\<lparr>ar_phase := Leaving (ServeError err)\<rparr>)"
| other_binds: "ar_path s = PathFree \<Longrightarrow> admin_env_step os socket s (s\<lparr>ar_path := PathOther\<rparr>)"
| other_leaves: "ar_path s = PathOther \<Longrightarrow> admin_env_step os socket s (s\<lparr>ar_path := PathFree\<rparr>)"
| prog: "admin_step os socket s s' \<Longrightarrow> admin_env_step os socket s s'"

text \<open>
  Start listens before it returns and runs serve in a goroutine, whose result is the only value of
  the channel; Serve runs it itself. Its outcome is the error and all calls, for any run of serve.
\<close>

definition admin_Start :: "os_answers \<Rightarrow> string \<Rightarrow> (go_error + admin_run) \<times> os_call list" where
  "admin_Start os socket =
     (case admin_listen os socket of (Inl err, calls) \<Rightarrow> (Inl err, calls) | (Inr l, calls) \<Rightarrow> (Inr admin_begin, calls))"

inductive admin_Serve :: "os_answers \<Rightarrow> string \<Rightarrow> go_error option \<Rightarrow> os_call list \<Rightarrow> bool" where
  listen_fails: "admin_Start os socket = (Inl err, calls) \<Longrightarrow> admin_Serve os socket (Some err) calls"
| served: "\<lbrakk>admin_Start os socket = (Inr s0, calls); (admin_env_step os socket)\<^sup>*\<^sup>* s0 s; ar_phase s = AdminReturned r\<rbrakk> \<Longrightarrow>
     admin_Serve os socket r (calls @ ar_calls s)"

section \<open>Invariant\<close>

text \<open>How far serve is: whether server.Serve has returned, and whether the endpoint was cleaned up.\<close>

definition left_serve :: "admin_serve_phase \<Rightarrow> bool" where
  "left_serve ph = (case ph of Entering \<Rightarrow> False | InServe \<Rightarrow> False | Leaving e \<Rightarrow> False | _ \<Rightarrow> True)"

definition cleaned :: "admin_serve_phase \<Rightarrow> bool" where
  "cleaned ph = (case ph of Closing r \<Rightarrow> True | AdminReturned r \<Rightarrow> True | _ \<Rightarrow> False)"

text \<open>The calls so far and what they did to the listener and its path.\<close>

definition calls_inv :: "os_answers \<Rightarrow> string \<Rightarrow> admin_run \<Rightarrow> bool" where
  "calls_inv os socket s \<longleftrightarrow>
     ar_calls s = (if ar_listening s then [] else [RemoveFile socket, CloseListener socket]) @
       (if cleaned (ar_phase s) then cleanupEndpoint socket else []) \<and>
     (left_serve (ar_phase s) \<longrightarrow> \<not> ar_listening s) \<and>
     (\<not> ar_listening s \<longrightarrow> ans_error os (RemoveFile socket) = None \<longrightarrow> ar_path s \<noteq> PathOurs)"

definition phase_inv :: "admin_run \<Rightarrow> bool" where
  "phase_inv s \<longleftrightarrow>
     (ar_serverClosed s \<longrightarrow> ar_ctxDone s) \<and>
     (ar_doneClosed s \<longleftrightarrow> left_serve (ar_phase s) \<and> (\<forall>e. ar_phase s \<noteq> ServeEnded e)) \<and>
     (ar_closer s = CloserEnded \<longrightarrow> ar_serverClosed s \<or> ar_doneClosed s) \<and>
     (case ar_phase s of
        Entering \<Rightarrow> True
      | InServe \<Rightarrow> True
      | Leaving e \<Rightarrow> e = ErrServerClosed \<longrightarrow> ar_ctxDone s
      | ServeEnded e \<Rightarrow> e = ErrServerClosed \<longrightarrow> ar_ctxDone s
      | DoneClosed e \<Rightarrow> e = ErrServerClosed \<longrightarrow> ar_ctxDone s
      | Cleaning r \<Rightarrow> r = None \<longrightarrow> ar_ctxDone s
      | Closing r \<Rightarrow> r = None \<longrightarrow> ar_ctxDone s
      | AdminReturned r \<Rightarrow> r = None \<longrightarrow> ar_ctxDone s)"

lemma listener_Close_frame [simp]:
  "ar_phase (listener_Close os socket s) = ar_phase s" "ar_ctxDone (listener_Close os socket s) = ar_ctxDone s"
  "ar_serverClosed (listener_Close os socket s) = ar_serverClosed s" "ar_doneClosed (listener_Close os socket s) = ar_doneClosed s"
  "ar_closer (listener_Close os socket s) = ar_closer s" "\<not> ar_listening (listener_Close os socket s)"
  by (simp_all add: listener_Close_def remove_path_def)

lemma remove_path_frame [simp]:
  "ar_phase (remove_path os socket s) = ar_phase s" "ar_ctxDone (remove_path os socket s) = ar_ctxDone s"
  "ar_serverClosed (remove_path os socket s) = ar_serverClosed s" "ar_doneClosed (remove_path os socket s) = ar_doneClosed s"
  "ar_closer (remove_path os socket s) = ar_closer s" "ar_listening (remove_path os socket s) = ar_listening s"
  "ar_calls (remove_path os socket s) = ar_calls s"
  by (simp_all add: remove_path_def)

lemma listener_Close_inv: "calls_inv os socket s \<Longrightarrow> calls_inv os socket (listener_Close os socket s)"
  by (auto simp: calls_inv_def listener_Close_def remove_path_def cleaned_def left_serve_def split: admin_serve_phase.splits)

lemma calls_inv_next:
  "\<lbrakk>calls_inv os socket s; cleaned ph = cleaned (ar_phase s); left_serve ph \<longrightarrow> \<not> ar_listening s\<rbrakk> \<Longrightarrow> calls_inv os socket (s\<lparr>ar_phase := ph\<rparr>)"
  by (simp add: calls_inv_def)

lemma admin_step_calls: "admin_step os socket s s' \<Longrightarrow> calls_inv os socket s \<Longrightarrow> calls_inv os socket s'"
proof (induction rule: admin_step.induct)
  case (close_server s)
  have "calls_inv os socket (s'\<lparr>ar_serverClosed := True, ar_closer := CloserEnded\<rparr>) = calls_inv os socket s'" for s' by (simp add: calls_inv_def)
  with close_server listener_Close_inv show ?case by simp
next
  case (leave s e)
  show ?case by (rule calls_inv_next [OF listener_Close_inv [OF leave(2)]]) (simp_all add: leave(1) cleaned_def)
next
  case (close_listener s r)
  show ?case by (rule calls_inv_next [OF listener_Close_inv [OF close_listener(2)]]) (simp_all add: close_listener(1) cleaned_def)
next
  case (cleanup s r)
  then show ?case by (auto simp: calls_inv_def cleaned_def left_serve_def remove_path_def)
qed (auto simp: calls_inv_def cleaned_def left_serve_def)

lemma admin_step_phase: "admin_step os socket s s' \<Longrightarrow> phase_inv s \<Longrightarrow> phase_inv s'"
  by (induction rule: admin_step.induct)
    (auto simp: phase_inv_def left_serve_def admin_result_def split: admin_serve_phase.splits serve_end.splits if_splits)

lemma admin_env_step_inv:
  assumes "admin_env_step os socket s s'" "calls_inv os socket s" "phase_inv s"
  shows "calls_inv os socket s' \<and> phase_inv s'"
  using assms
proof (induction rule: admin_env_step.induct)
  case (ctx s)
  then show ?case by (cases "ar_phase s") (auto simp: calls_inv_def phase_inv_def)
next
  case (serve_fails s err)
  then show ?case by (auto simp: calls_inv_def phase_inv_def cleaned_def left_serve_def)
next
  case (prog s s')
  then show ?case using admin_step_calls admin_step_phase by blast
qed (auto simp: calls_inv_def phase_inv_def split: admin_serve_phase.splits)

lemma admin_reachable_inv:
  "(admin_env_step os socket)\<^sup>*\<^sup>* admin_begin s \<Longrightarrow> calls_inv os socket s \<and> phase_inv s"
proof (induction rule: rtranclp_induct)
  case base
  show ?case by (simp add: calls_inv_def phase_inv_def admin_begin_def cleaned_def left_serve_def)
next
  case (step s s')
  then show ?case using admin_env_step_inv by blast
qed

text \<open>Every step of the program uses up work.\<close>

definition admin_work :: "admin_run \<Rightarrow> nat" where
  "admin_work s =
     (case ar_phase s of Entering \<Rightarrow> 7 | InServe \<Rightarrow> 6 | Leaving _ \<Rightarrow> 5 | ServeEnded _ \<Rightarrow> 4 | DoneClosed _ \<Rightarrow> 3 | Cleaning _ \<Rightarrow> 2 | Closing _ \<Rightarrow> 1
        | AdminReturned _ \<Rightarrow> 0) +
     (case ar_closer s of Watching \<Rightarrow> 1 | CloserEnded \<Rightarrow> 0)"

lemma admin_step_work: "admin_step os socket s s' \<Longrightarrow> admin_work s' < admin_work s"
  by (induction rule: admin_step.induct) (auto simp: admin_work_def split: closer_phase.splits)

lemma admin_steps_bounded: "(admin_step os socket ^^ n) s s' \<Longrightarrow> n + admin_work s' \<le> admin_work s"
proof (induction n arbitrary: s')
  case (Suc n)
  then obtain t where "(admin_step os socket ^^ n) s t" "admin_step os socket t s'" by auto
  with Suc.IH admin_step_work show ?case by fastforce
qed simp

text \<open>When neither goroutine can move, both have ended, or the server waits for clients with the context alive.\<close>

lemma admin_stuck:
  assumes "phase_inv s" "\<nexists>s'. admin_step os socket s s'"
  shows "ar_closer s = CloserEnded \<and> (\<exists>r. ar_phase s = AdminReturned r) \<or> ar_phase s = InServe \<and> \<not> ar_ctxDone s"
proof -
  have n: "\<not> admin_step os socket s s'" for s' using assms(2) by blast
  have c: "ar_closer s = CloserEnded" if "ar_ctxDone s \<or> ar_doneClosed s"
    using that close_server [of s os socket] see_done [of s os socket] n by (cases "ar_closer s") auto
  show ?thesis
  proof (cases "ar_phase s")
    case Entering
    then show ?thesis using track [of s os socket] track_refused [of s os socket] n by blast
  next
    case InServe
    then have "\<not> ar_serverClosed s" "\<not> ar_doneClosed s"
      using serve_closed [of s os socket] n assms(1) by (auto simp: phase_inv_def left_serve_def)
    then have "ar_closer s \<noteq> CloserEnded" using assms(1) by (simp add: phase_inv_def)
    with c InServe show ?thesis by blast
  next
    case (Leaving e)
    from leave [OF this] n show ?thesis by blast
  next
    case (ServeEnded e)
    from close_done [OF this] n show ?thesis by blast
  next
    case (DoneClosed e)
    from decide [OF this] n show ?thesis by blast
  next
    case (Cleaning r)
    from cleanup [OF this] n show ?thesis by blast
  next
    case (Closing r)
    from close_listener [OF this] n show ?thesis by blast
  next
    case (AdminReturned r)
    with assms(1) have "ar_doneClosed s" by (simp add: phase_inv_def left_serve_def)
    with c AdminReturned show ?thesis by blast
  qed
qed

lemma admin_listen_socket: "admin_listen os socket = (Inr l, calls) \<Longrightarrow> l = socket"
  by (auto simp: admin_listen_def open_socket_def Let_def split: if_splits option.splits prod.splits)

text \<open>serve returns what Daemon_Serve takes for its result, and nil only once the context is done.\<close>

lemma admin_result_serve_result:
  "admin_result e ctxDone = admin_serve_result (case e of ErrServerClosed \<Rightarrow> None | ServeError err \<Rightarrow> Some err) ctxDone"
  by (auto simp: admin_result_def admin_serve_result_def split: serve_end.splits)

section \<open>A run for the witnesses\<close>

definition demo_answers :: os_answers where
  "demo_answers = \<lparr>ans_error = (\<lambda>_. None), ans_lstat = NotExist, ans_dial = ConnRefused\<rparr>"

text \<open>The context has ended and the goroutine has closed the server and with it the listener.\<close>

definition demo_stage :: "bool \<Rightarrow> path_owner \<Rightarrow> admin_serve_phase \<Rightarrow> os_call list \<Rightarrow> admin_run" where
  "demo_stage fin path ph calls =
     \<lparr>ar_ctxDone = True, ar_serverClosed = True, ar_doneClosed = fin, ar_phase = ph, ar_closer = CloserEnded,
      ar_listening = False, ar_path = path, ar_calls = [RemoveFile ''/a'', CloseListener ''/a''] @ calls\<rparr>"

abbreviation demo_run_step :: "admin_run \<Rightarrow> admin_run \<Rightarrow> bool" where
  "demo_run_step \<equiv> admin_env_step demo_answers ''/a''"

lemma demo_stopped: "demo_run_step\<^sup>*\<^sup>* admin_begin (demo_stage False PathFree InServe [])"
proof -
  let ?s = "admin_begin\<lparr>ar_phase := InServe\<rparr>" and ?t = "admin_begin\<lparr>ar_phase := InServe, ar_ctxDone := True\<rparr>"
  have "demo_run_step admin_begin ?s"
    using admin_env_step.prog [OF track [of admin_begin demo_answers "''/a''"]] by (simp add: admin_begin_def)
  moreover have "demo_run_step ?s ?t" using admin_env_step.ctx [of demo_answers "''/a''" ?s] by simp
  moreover have "demo_run_step ?t (demo_stage False PathFree InServe [])"
    using admin_env_step.prog [OF close_server [of ?t demo_answers "''/a''"]]
    by (simp add: admin_begin_def demo_stage_def listener_Close_def remove_path_def demo_answers_def)
  ultimately show ?thesis by simp
qed

lemma demo_cleaning: "demo_run_step\<^sup>*\<^sup>* admin_begin (demo_stage True PathFree (Cleaning None) [])"
proof -
  note demo_stopped
  also have "demo_run_step (demo_stage False PathFree InServe []) (demo_stage False PathFree (Leaving ErrServerClosed) [])"
    using admin_env_step.prog [OF serve_closed [of "demo_stage False PathFree InServe []" demo_answers "''/a''"]] by (simp add: demo_stage_def)
  also have "demo_run_step (demo_stage False PathFree (Leaving ErrServerClosed) []) (demo_stage False PathFree (ServeEnded ErrServerClosed) [])"
    using admin_env_step.prog [OF leave [of "demo_stage False PathFree (Leaving ErrServerClosed) []" _ demo_answers "''/a''"]]
    by (simp add: demo_stage_def listener_Close_def)
  also have "demo_run_step (demo_stage False PathFree (ServeEnded ErrServerClosed) []) (demo_stage True PathFree (DoneClosed ErrServerClosed) [])"
    using admin_env_step.prog [OF close_done [of "demo_stage False PathFree (ServeEnded ErrServerClosed) []" _ demo_answers "''/a''"]] by (simp add: demo_stage_def)
  also have "demo_run_step (demo_stage True PathFree (DoneClosed ErrServerClosed) []) (demo_stage True PathFree (Cleaning None) [])"
    using admin_env_step.prog [OF decide [of "demo_stage True PathFree (DoneClosed ErrServerClosed) []" _ demo_answers "''/a''"]]
    by (simp add: demo_stage_def admin_result_def)
  finally show ?thesis .
qed

lemma demo_cleanup: "demo_run_step (demo_stage True path (Cleaning None) []) (demo_stage True PathFree (Closing None) [RemoveFile ''/a''])"
  using admin_env_step.prog [OF cleanup [of "demo_stage True path (Cleaning None) []" _ demo_answers "''/a''"]]
  by (simp add: demo_stage_def cleanupEndpoint_def remove_path_def demo_answers_def)

lemma demo_returned: "demo_run_step\<^sup>*\<^sup>* admin_begin (demo_stage True PathFree (AdminReturned None) [RemoveFile ''/a''])"
proof -
  note demo_cleaning
  also note demo_cleanup
  also have "demo_run_step (demo_stage True PathFree (Closing None) [RemoveFile ''/a'']) (demo_stage True PathFree (AdminReturned None) [RemoveFile ''/a''])"
    using admin_env_step.prog [OF close_listener [of "demo_stage True PathFree (Closing None) [RemoveFile ''/a'']" _ demo_answers "''/a''"]]
    by (simp add: demo_stage_def listener_Close_def)
  finally show ?thesis .
qed

lemma demo_admin_listen: "\<exists>calls. admin_listen demo_answers ''/a'' = (Inr ''/a'', calls)"
  by (simp add: admin_listen_def clear_stale_def open_socket_def demo_answers_def Let_def)

section \<open>Properties\<close>

text \<open>
  C18 (safety). The admin socket is taken away again: when Serve returns after it could listen, in
  every interleaving of the context, the listener's failures and the goroutine that closes the
  server, the listener was closed exactly once, by the HTTP server, which unlinked its socket and
  closed it; the path was then removed once more by cleanupEndpoint, and nothing else was called.
  The listener is closed, and its own socket is not at the path any more if files there can be
  removed. Serve returns nil only when the context has ended, and an error of the listener
  otherwise. When it could not listen it returns that error and no server ran.
\<close>

theorem admin_serve_cleans_up:
  assumes "admin_Serve os socket r calls"
  shows "(\<exists>err. admin_listen os socket = (Inl err, calls) \<and> r = Some err) \<or>
    (\<exists>before s. admin_listen os socket = (Inr socket, before) \<and>
       calls = before @ [RemoveFile socket, CloseListener socket] @ [RemoveFile socket] \<and>
       (admin_env_step os socket)\<^sup>*\<^sup>* admin_begin s \<and> ar_phase s = AdminReturned r \<and> \<not> ar_listening s \<and>
       (ans_error os (RemoveFile socket) = None \<longrightarrow> ar_path s \<noteq> PathOurs) \<and> (r = None \<longrightarrow> ar_ctxDone s))"
  using assms
proof (cases rule: admin_Serve.cases)
  case (listen_fails err)
  then show ?thesis by (auto simp: admin_Start_def split: prod.splits sum.splits)
next
  case (served s0 before s)
  have listen: "s0 = admin_begin" "admin_listen os socket = (Inr socket, before)"
    using served(2) admin_listen_socket by (auto simp: admin_Start_def split: prod.splits sum.splits)
  have inv: "calls_inv os socket s" "phase_inv s" using admin_reachable_inv served(3) unfolding listen(1) by blast+
  have fin: "left_serve (ar_phase s)" "cleaned (ar_phase s)" using served(4) by (simp_all add: left_serve_def cleaned_def)
  have "\<not> ar_listening s" "ar_calls s = [RemoveFile socket, CloseListener socket] @ [RemoveFile socket]"
    "ans_error os (RemoveFile socket) = None \<longrightarrow> ar_path s \<noteq> PathOurs"
    using inv(1) fin by (auto simp: calls_inv_def cleanupEndpoint_def)
  moreover have "r = None \<longrightarrow> ar_ctxDone s" using inv(2) served(4) by (simp add: phase_inv_def)
  ultimately show ?thesis
    using served listen by (intro disjI2 exI [of _ before] exI [of _ s]) simp
qed

theorem admin_serve_cleans_up_witness:
  "\<exists>before s. admin_listen demo_answers ''/a'' = (Inr ''/a'', before) \<and>
     admin_Serve demo_answers ''/a'' None (before @ [RemoveFile ''/a'', CloseListener ''/a'', RemoveFile ''/a'']) \<and>
     (admin_env_step demo_answers ''/a'')\<^sup>*\<^sup>* admin_begin s \<and> ar_phase s = AdminReturned None \<and> ar_ctxDone s \<and> ar_path s \<noteq> PathOurs"
proof -
  obtain before where l: "admin_listen demo_answers ''/a'' = (Inr ''/a'', before)" using demo_admin_listen by blast
  have serve: "admin_Serve demo_answers ''/a'' None (before @ [RemoveFile ''/a'', CloseListener ''/a'', RemoveFile ''/a''])"
    using served [of demo_answers "''/a''" admin_begin before, OF _ demo_returned] l by (simp add: admin_Start_def demo_stage_def)
  have "ans_error demo_answers (RemoveFile ''/a'') = None" by (simp add: demo_answers_def)
  with admin_serve_cleans_up [OF serve] serve l show ?thesis by auto
qed

text \<open>
  The removal by cleanupEndpoint comes after the listener has given up the path: a socket that
  another process has bound there meanwhile is the one that it removes.
\<close>

theorem cleanup_removes_foreign_socket:
  "\<exists>s s'. (admin_env_step demo_answers ''/a'')\<^sup>*\<^sup>* admin_begin s \<and> ar_path s = PathOther \<and>
     admin_step demo_answers ''/a'' s s' \<and> ar_path s' = PathFree"
proof -
  let ?s = "demo_stage True PathOther (Cleaning None) []"
  have "demo_run_step (demo_stage True PathFree (Cleaning None) []) ?s"
    using admin_env_step.other_binds [of "demo_stage True PathFree (Cleaning None) []" demo_answers "''/a''"] by (simp add: demo_stage_def)
  with demo_cleaning have "demo_run_step\<^sup>*\<^sup>* admin_begin ?s" by (rule rtranclp.rtrancl_into_rtrancl)
  moreover have "admin_step demo_answers ''/a'' ?s (demo_stage True PathFree (Closing None) [RemoveFile ''/a''])"
    using cleanup [of ?s None demo_answers "''/a''"] by (simp add: demo_stage_def cleanupEndpoint_def remove_path_def demo_answers_def)
  moreover have "ar_path ?s = PathOther" "ar_path (demo_stage True PathFree (Closing None) [RemoveFile ''/a'']) = PathFree"
    by (simp_all add: demo_stage_def)
  ultimately show ?thesis by blast
qed

text \<open>
  Shutting the admin server down ends: from every reachable state its two
  goroutines together make at most eight more steps, and when they can make none, both have ended,
  or the server is waiting for clients and the context is alive. So once the context is done, serve
  returns and its helper goroutine is gone.
\<close>

theorem admin_shutdown_ends:
  assumes "(admin_env_step os socket)\<^sup>*\<^sup>* admin_begin s"
  shows "(\<forall>n s'. (admin_step os socket ^^ n) s s' \<longrightarrow> n \<le> 8) \<and>
    ((\<nexists>s'. admin_step os socket s s') \<longrightarrow>
       ar_closer s = CloserEnded \<and> (\<exists>r. ar_phase s = AdminReturned r) \<or> ar_phase s = InServe \<and> \<not> ar_ctxDone s)"
proof -
  have "admin_work s \<le> 8" by (simp add: admin_work_def split: admin_serve_phase.splits closer_phase.splits)
  then have "n \<le> 8" if "(admin_step os socket ^^ n) s s'" for n s' using admin_steps_bounded [OF that] by simp
  with admin_stuck admin_reachable_inv [OF assms] show ?thesis by blast
qed

theorem admin_shutdown_ends_witness:
  "(admin_env_step demo_answers ''/a'')\<^sup>*\<^sup>* admin_begin (demo_stage False PathFree InServe []) \<and>
   (\<exists>s'. admin_step demo_answers ''/a'' (demo_stage False PathFree InServe []) s')"
proof -
  have "ar_ctxDone (demo_stage False PathFree InServe [])" "ar_phase (demo_stage False PathFree InServe []) = InServe" by (simp_all add: demo_stage_def)
  with admin_shutdown_ends [OF demo_stopped] demo_stopped show ?thesis by auto
qed

end
