(* ===== verification/Aws_Sso.thy ===== *)
theory Aws_Sso
  imports Credential_Cache Script_Provider Daemon_Config Go_Time
begin

text \<open>
  The AWS SSO provider, providers/awssso: the credential provider with its cache and its profile
  allowlist per project (provider.go), the container configuration it renders (config.go) and the
  container spec builder (spec.go) with container.Spec. The aws command, the clock, the home
  directory, the file system and SHA-256 are parameters. Error messages carry names as they are,
  without the quoting of the verb %q.
\<close>

section \<open>The provider\<close>

definition aws_RoutePath :: string where
  "aws_RoutePath = ''/aws-credentials''"

record processCredentials =
  pc_AccessKeyId :: string
  pc_SecretAccessKey :: string
  pc_SessionToken :: string
  pc_Expiration :: string

record cachedCreds =
  cc_body :: bytes
  cc_expires :: instant

record awssso =
  aws_cache :: "(string \<times> cachedCreds) list"
  aws_allowed :: "(string \<times> string list) list"

type_synonym 'x aws_state = "awssso \<times> 'x"

text \<open>
  What the provider asks the system: one run of the aws command (its error or its stdout), the
  clock, the home directory, the entries of a directory in the order of os.ReadDir with whether
  each is a directory, and the contents of a file.
\<close>

record 'x aws_env =
  run_aws :: "string list \<Rightarrow> 'x \<Rightarrow> (go_error + bytes) \<times> 'x"
  aws_now :: "'x \<Rightarrow> instant"
  aws_home :: string
  aws_ReadDir :: "string \<Rightarrow> 'x \<Rightarrow> go_error + (string \<times> bool) list"
  aws_ReadFile :: "string \<Rightarrow> 'x \<Rightarrow> go_error + bytes"

definition refreshMargin :: int where
  "refreshMargin = 60 * 1000000000"

definition aws_New :: awssso where
  "aws_New = \<lparr>aws_cache = [], aws_allowed = []\<rparr>"

definition allowKey :: "string \<Rightarrow> string" where
  "allowKey profile = (if profile = [] then ''default'' else profile)"

definition SetAllowedProfiles :: "string \<Rightarrow> string list \<Rightarrow> awssso \<Rightarrow> awssso" where
  "SetAllowedProfiles projectID profiles p =
     p\<lparr>aws_allowed := map_put (aws_allowed p) projectID (remdups (map allowKey profiles))\<rparr>"

definition profileFromPath :: "string \<Rightarrow> string" where
  "profileFromPath path = (let p = TrimPrefix path ''/'' in if p = ''default'' then [] else p)"

text \<open>Struct fields that are strings, by name; other members are ignored. None is a type error.\<close>

fun string_fields :: "string list \<Rightarrow> (string \<times> json) list \<Rightarrow> string_map \<Rightarrow> string_map option" where
  "string_fields names [] m = Some m"
| "string_fields names ((k, v) # kvs) m =
     (case field_for names k of
        None \<Rightarrow> string_fields names kvs m
      | Some f \<Rightarrow> (case into_string v (meta_get m f) of None \<Rightarrow> None | Some s \<Rightarrow> string_fields names kvs (map_put m f s)))"

definition members_of :: "(string \<times> string \<times> json) list option \<Rightarrow> (string \<times> json) list" where
  "members_of ms = (case ms of None \<Rightarrow> [] | Some kvs \<Rightarrow> map (\<lambda>(k, raw, v). (k, v)) kvs)"

definition decode_strings :: "string list \<Rightarrow> bytes \<Rightarrow> go_error + string_map" where
  "decode_strings names data =
     (case decode_document data of
        Inl err \<Rightarrow> Inl err
      | Inr ms \<Rightarrow> (case string_fields names (members_of ms) [] of None \<Rightarrow> Inl json_error | Some m \<Rightarrow> Inr m))"

definition parseExpiration :: "string \<Rightarrow> instant" where
  "parseExpiration s =
     (if s = [] then zeroTime
      else case Parse_time ZoneOffset s of
             Some t \<Rightarrow> t
           | None \<Rightarrow> (case Parse_time ZoneLiteral s of Some t \<Rightarrow> t | None \<Rightarrow> zeroTime))"

definition export_args :: "string \<Rightarrow> string list" where
  "export_args profile =
     [''configure'', ''export-credentials'', ''--format'', ''process''] @ (if profile \<noteq> [] then [''--profile'', profile] else [])"

definition exportCredentials :: "'x aws_env \<Rightarrow> string \<Rightarrow> 'x \<Rightarrow> (go_error + processCredentials \<times> instant) \<times> 'x" where
  "exportCredentials env profile x =
     (case run_aws env (export_args profile) x of
        (Inl err, x') \<Rightarrow> (Inl err, x')
      | (Inr stdout, x') \<Rightarrow>
          (case decode_strings [''AccessKeyId'', ''SecretAccessKey'', ''SessionToken'', ''Expiration''] stdout of
             Inl err \<Rightarrow> (Inl err, x')
           | Inr raw \<Rightarrow>
               if meta_get raw ''AccessKeyId'' = [] then (Inl (PlainError ''export-credentials: no AccessKeyId''), x')
               else (Inr (\<lparr>pc_AccessKeyId = meta_get raw ''AccessKeyId'', pc_SecretAccessKey = meta_get raw ''SecretAccessKey'',
                           pc_SessionToken = meta_get raw ''SessionToken'', pc_Expiration = meta_get raw ''Expiration''\<rparr>,
                          parseExpiration (meta_get raw ''Expiration'')), x')))"

text \<open>The roleCredentials object: its string fields and the expiration, a 64-bit integer.\<close>

fun role_fields :: "(string \<times> json) list \<Rightarrow> string_map \<times> 64 word \<Rightarrow> (string_map \<times> 64 word) option" where
  "role_fields [] acc = Some acc"
| "role_fields ((k, v) # kvs) (m, e) =
     (case field_for [''accessKeyId'', ''secretAccessKey'', ''sessionToken'', ''expiration''] k of
        None \<Rightarrow> role_fields kvs (m, e)
      | Some f \<Rightarrow>
          if f = ''expiration'' then (case into_int v e of None \<Rightarrow> None | Some e' \<Rightarrow> role_fields kvs (m, e'))
          else (case into_string v (meta_get m f) of None \<Rightarrow> None | Some s \<Rightarrow> role_fields kvs (map_put m f s, e)))"

fun result_fields :: "(string \<times> json) list \<Rightarrow> string_map \<times> 64 word \<Rightarrow> (string_map \<times> 64 word) option" where
  "result_fields [] acc = Some acc"
| "result_fields ((k, v) # kvs) acc =
     (case field_for [''roleCredentials''] k of
        None \<Rightarrow> result_fields kvs acc
      | Some f \<Rightarrow>
          (case v of
             JObj rc \<Rightarrow> (case role_fields rc acc of None \<Rightarrow> None | Some acc' \<Rightarrow> result_fields kvs acc')
           | JNull \<Rightarrow> result_fields kvs acc
           | _ \<Rightarrow> None))"

definition UnixMilli :: "64 word \<Rightarrow> instant" where
  "UnixMilli ms = sint ms * 1000000"

definition getRoleCredentials ::
  "'x aws_env \<Rightarrow> string \<Rightarrow> string \<Rightarrow> string \<Rightarrow> 'x \<Rightarrow> (go_error + processCredentials \<times> instant) \<times> 'x" where
  "getRoleCredentials env accountID roleName accessToken x =
     (case run_aws env [''sso'', ''get-role-credentials'', ''--account-id'', accountID, ''--role-name'', roleName,
                        ''--access-token'', accessToken, ''--output'', ''json''] x of
        (Inl err, x') \<Rightarrow> (Inl err, x')
      | (Inr stdout, x') \<Rightarrow>
          (case decode_document stdout of
             Inl err \<Rightarrow> (Inl err, x')
           | Inr ms \<Rightarrow>
               (case result_fields (members_of ms) ([], 0) of
                  None \<Rightarrow> (Inl json_error, x')
                | Some (rc, expiration) \<Rightarrow>
                    if meta_get rc ''accessKeyId'' = [] then (Inl (PlainError ''get-role-credentials: no AccessKeyId''), x')
                    else let (expires, expStr) =
                           (if 0 <s expiration then (UnixMilli expiration, Format_RFC3339 (UnixMilli expiration)) else (zeroTime, []))
                      in (Inr (\<lparr>pc_AccessKeyId = meta_get rc ''accessKeyId'', pc_SecretAccessKey = meta_get rc ''secretAccessKey'',
                                pc_SessionToken = meta_get rc ''sessionToken'', pc_Expiration = expStr\<rparr>, expires), x'))))"

definition sso_cache_dir :: "'x aws_env \<Rightarrow> string" where
  "sso_cache_dir env = filepath_Join (aws_home env) ''.aws/sso/cache''"

definition filepath_Ext :: "string \<Rightarrow> string" where
  "filepath_Ext p =
     (let base = rev (takeWhile (\<lambda>c. c \<noteq> CHR ''/'') (rev p))
      in if CHR ''.'' \<in> set base then CHR ''.'' # rev (takeWhile (\<lambda>c. c \<noteq> CHR ''.'') (rev base)) else [])"

text \<open>The SSO token of a cache entry: None where the loop continues with the next one.\<close>

definition sso_token :: "'x aws_env \<Rightarrow> instant \<Rightarrow> string \<times> bool \<Rightarrow> 'x \<Rightarrow> string_map option" where
  "sso_token env now entry x =
     (case entry of (name, isDir) \<Rightarrow>
        if isDir \<or> filepath_Ext name \<noteq> ''.json'' then None
        else (case aws_ReadFile env (filepath_Join (sso_cache_dir env) name) x of
                Inl err \<Rightarrow> None
              | Inr data \<Rightarrow>
                  (case decode_strings [''accessToken'', ''expiresAt'', ''accountId'', ''roleName''] data of
                     Inl err \<Rightarrow> None
                   | Inr token \<Rightarrow>
                       if meta_get token ''accessToken'' = [] \<or> meta_get token ''accountId'' = [] \<or> meta_get token ''roleName'' = [] then None
                       else let exp = parseExpiration (meta_get token ''expiresAt'') in
                         if exp \<noteq> zeroTime \<and> exp < now then None else Some token)))"

fun sso_loop :: "'x aws_env \<Rightarrow> instant \<Rightarrow> (string \<times> bool) list \<Rightarrow> 'x \<Rightarrow> (go_error + processCredentials \<times> instant) \<times> 'x" where
  "sso_loop env now [] x = (Inl (PlainError ''no valid SSO session found; run `aws sso login`''), x)"
| "sso_loop env now (e # es) x =
     (case sso_token env now e x of
        None \<Rightarrow> sso_loop env now es x
      | Some token \<Rightarrow>
          (case getRoleCredentials env (meta_get token ''accountId'') (meta_get token ''roleName'') (meta_get token ''accessToken'') x of
             (Inl err, x') \<Rightarrow> sso_loop env now es x'
           | (Inr creds, x') \<Rightarrow> (Inr creds, x')))"

definition ssoCredentials :: "'x aws_env \<Rightarrow> 'x \<Rightarrow> (go_error + processCredentials \<times> instant) \<times> 'x" where
  "ssoCredentials env x =
     (case aws_ReadDir env (sso_cache_dir env) x of
        Inl err \<Rightarrow> (Inl (WrapError ''sso cache dir'' err), x)
      | Inr entries \<Rightarrow> sso_loop env (aws_now env x) entries x)"

definition obtainCredentials :: "'x aws_env \<Rightarrow> string \<Rightarrow> 'x \<Rightarrow> (go_error + processCredentials \<times> instant) \<times> 'x" where
  "obtainCredentials env profile x =
     (case exportCredentials env profile x of
        (Inr creds, x') \<Rightarrow> (Inr creds, x')
      | (Inl err, x') \<Rightarrow> ssoCredentials env x')"

definition creds_json :: "processCredentials \<Rightarrow> json" where
  "creds_json c =
     JObj ([(''Version'', JNum ''1''), (''AccessKeyId'', JStr (pc_AccessKeyId c)), (''SecretAccessKey'', JStr (pc_SecretAccessKey c))] @
           omitempty ''SessionToken'' (pc_SessionToken c) @ omitempty ''Expiration'' (pc_Expiration c))"

definition aws_fetch :: "'x aws_env \<Rightarrow> string \<Rightarrow> 'x aws_state \<Rightarrow> (go_error + Injection) \<times> 'x aws_state" where
  "aws_fetch env profile st =
     (case st of (p, x) \<Rightarrow>
        (case obtainCredentials env profile x of
           (Inl err, x') \<Rightarrow> (Inl (WrapError ''awssso'' err), (p, x'))
         | (Inr (creds, expires), x') \<Rightarrow>
             let body = json_encode (creds_json creds) in
             (Inr (empty_injection\<lparr>BodyReplace := body, ExpiresAt := expires\<rparr>),
              (p\<lparr>aws_cache := map_put (aws_cache p) profile \<lparr>cc_body = body, cc_expires = expires\<rparr>\<rparr>, x'))))"

definition no_allowlist :: "string \<Rightarrow> go_error" where
  "no_allowlist projectID = PlainError (''awssso: no allowlist for project '' @ projectID)"

definition not_allowed :: "string \<Rightarrow> string \<Rightarrow> go_error" where
  "not_allowed key projectID = PlainError (''awssso: profile '' @ key @ '' not allowed for project '' @ projectID)"

definition aws_Get :: "'x aws_env \<Rightarrow> Request \<Rightarrow> 'x aws_state \<Rightarrow> (go_error + Injection) \<times> 'x aws_state" where
  "aws_Get env req st =
     (case st of (p, x) \<Rightarrow>
        let projectID = meta_get (Metadata req) ''token_id''; profile = profileFromPath (RequestPath req); key = allowKey profile in
        (case map_of (aws_allowed p) projectID of
          None \<Rightarrow> (Inl (no_allowlist projectID), st)
        | Some set' \<Rightarrow>
            let ok = key \<in> set set' in
            (case (if ok then map_of (aws_cache p) profile else None) of
               Some c \<Rightarrow>
                 if aws_now env x + refreshMargin < cc_expires c
                 then (Inr (empty_injection\<lparr>BodyReplace := cc_body c\<rparr>), st)
                 else aws_fetch env profile st
             | None \<Rightarrow> if \<not> ok then (Inl (not_allowed key projectID), st) else aws_fetch env profile st)))"

definition aws_Refresh :: "'x aws_env \<Rightarrow> Request \<Rightarrow> 'x aws_state \<Rightarrow> (go_error + Injection) \<times> 'x aws_state" where
  "aws_Refresh env req st =
     (case st of (p, x) \<Rightarrow>
        let projectID = meta_get (Metadata req) ''token_id''; profile = profileFromPath (RequestPath req); key = allowKey profile in
        (case map_of (aws_allowed p) projectID of
          None \<Rightarrow> (Inl (no_allowlist projectID), st)
        | Some set' \<Rightarrow>
            if key \<notin> set set' then (Inl (not_allowed key projectID), st)
            else aws_fetch env profile (p\<lparr>aws_cache := filter (\<lambda>(k, c). k \<noteq> profile) (aws_cache p)\<rparr>, x)))"

definition aws_Provider :: "'x aws_env \<Rightarrow> 'x aws_state Provider" where
  "aws_Provider env = \<lparr>ProviderGet = aws_Get env, ProviderRefresh = aws_Refresh env\<rparr>"

section \<open>The container side\<close>

definition EnvKeyToken :: string where
  "EnvKeyToken = ''CREDPROXY_TOKEN''"

definition EnvKeySock :: string where
  "EnvKeySock = ''CREDPROXY_SOCK''"

definition helperScript :: bytes where
  "helperScript =
     ''#!/bin/sh'' @ [CHR 0x0A] @
     ''exec curl -fsSL --unix-socket \"$CREDPROXY_SOCK\" '' @ [CHR 0x5C, CHR 0x0A] @
     ''  -H \"Authorization: Bearer $CREDPROXY_TOKEN\" '' @ [CHR 0x5C, CHR 0x0A] @
     ''  \"http://localhost/aws-credentials/$1\"'' @ [CHR 0x0A]"

definition ContainerEnv :: "string \<Rightarrow> string \<Rightarrow> string_map" where
  "ContainerEnv token sockPath = [(EnvKeyToken, token), (EnvKeySock, sockPath)]"

definition validateProfileName :: "string \<Rightarrow> go_error option" where
  "validateProfileName name =
     (if name = [] then Some (PlainError ''awssso: profile name must not be empty'')
      else if list_ex (\<lambda>ch. ch = CHR '']'' \<or> ch = CHR 0x0A \<or> ch = CHR 0x0D \<or> ch = CHR 0x00) name
      then Some (PlainError (''awssso: profile name '' @ name @ '' contains invalid character''))
      else if ContainsAny name [CHR 0x20, CHR 0x09, CHR 0x5C, CHR 0x27, CHR 0x22] \<or> CHR 0x60 \<in> set name
      then Some (PlainError (''awssso: profile name '' @ name @ '' contains shell-unsafe character''))
      else None)"

definition profile_section :: "string \<Rightarrow> string \<Rightarrow> string" where
  "profile_section scriptPath name =
     (if name = ''default'' then ''[default]'' else ''[profile '' @ name @ '']'') @ [CHR 0x0A] @
     ''credential_process = '' @ scriptPath @ '' '' @ name @ [CHR 0x0A, CHR 0x0A]"

fun RenderConfig :: "string list \<Rightarrow> string \<Rightarrow> go_error option \<times> bytes" where
  "RenderConfig [] scriptPath = (None, [])"
| "RenderConfig (name # names) scriptPath =
     (case validateProfileName name of
        Some err \<Rightarrow> (Some err, [])
      | None \<Rightarrow> (case RenderConfig names scriptPath of (err, out) \<Rightarrow> (err, profile_section scriptPath name @ out)))"

text \<open>spec.go and container.Spec.\<close>

record BridgeSpec =
  ListenAddr :: string
  ContainerSocketPath :: string

record Spec =
  SpecEnv :: string_map
  Mounts :: "string list"
  BridgeSpecs :: "BridgeSpec list"

record aws_config =
  HostRunBase :: string
  HostSockPath :: string
  ContainerRunDir :: string
  ContainerSockPath :: string

record 'x aws_host =
  tokenFor :: "string \<Rightarrow> 'x \<Rightarrow> (go_error + string) \<times> 'x"
  profilesFor :: "string \<Rightarrow> string list"
  os_MkdirAll :: "string \<Rightarrow> 'x \<Rightarrow> go_error option \<times> 'x"
  os_WriteFile :: "string \<Rightarrow> bytes \<Rightarrow> nat \<Rightarrow> 'x \<Rightarrow> go_error option \<times> 'x"
  sha256 :: "bytes \<Rightarrow> bytes"

definition hex_bytes :: "bytes \<Rightarrow> string" where
  "hex_bytes b = concat (map (\<lambda>c. [hex_lower (of_char c div 16), hex_lower (of_char c mod 16)]) b)"

definition ProjectRunHash :: "(bytes \<Rightarrow> bytes) \<Rightarrow> string \<Rightarrow> string" where
  "ProjectRunHash sha projectPath = hex_bytes (take 6 (sha projectPath))"

definition aws_Init :: "'x aws_host \<Rightarrow> aws_config \<Rightarrow> 'x \<Rightarrow> go_error option \<times> 'x" where
  "aws_Init host cfg x =
     (case os_MkdirAll host (HostRunBase cfg) x of
        (Some err, x') \<Rightarrow> (Some (WrapError ''awssso: mkdir'' err), x')
      | (None, x') \<Rightarrow> (None, x'))"

definition aws_Routes :: "'x aws_env \<Rightarrow> 'x aws_state Route list" where
  "aws_Routes env =
     [\<lparr>RoutePath = aws_RoutePath, Upstream = [], RouteProvider = aws_Provider env, RefreshOnStatus = [],
       StripInboundAuth = False, AllowedClientIDs = []\<rparr>]"

definition aws_ContainerSpec ::
  "'x aws_host \<Rightarrow> aws_config \<Rightarrow> string \<Rightarrow> 'x aws_state \<Rightarrow> (go_error + Spec) \<times> 'x aws_state" where
  "aws_ContainerSpec host cfg projectPath st =
     (case st of (p, x) \<Rightarrow>
        let profiles = profilesFor host projectPath in
        if length profiles = 0 then (Inr \<lparr>SpecEnv = [], Mounts = [], BridgeSpecs = []\<rparr>, st)
        else
          let projectID = ProjectRunHash (sha256 host) projectPath;
              p' = SetAllowedProfiles projectID profiles p;
              projectRunDir = filepath_Join (HostRunBase cfg) projectID
          in (case tokenFor host projectPath x of
                (Inl err, x1) \<Rightarrow> (Inl (WrapError (''awssso: get token for '' @ projectPath) err), (p', x1))
              | (Inr token, x1) \<Rightarrow>
                (case os_MkdirAll host projectRunDir x1 of
                   (Some err, x2) \<Rightarrow> (Inl (WrapError ''awssso: mkdir run dir'' err), (p', x2))
                 | (None, x2) \<Rightarrow>
                   (case os_WriteFile host (filepath_Join projectRunDir ''aws-creds.sh'') helperScript 493 x2 of
                      (Some err, x3) \<Rightarrow> (Inl (WrapError ''awssso: write helper'' err), (p', x3))
                    | (None, x3) \<Rightarrow>
                      (case RenderConfig profiles (ContainerRunDir cfg @ ''/aws-creds.sh'') of
                         (Some err, out) \<Rightarrow> (Inl (WrapError (''awssso: render config for '' @ projectPath) err), (p', x3))
                       | (None, out) \<Rightarrow>
                         (case os_WriteFile host (filepath_Join projectRunDir ''aws-config'') out 420 x3 of
                            (Some err, x4) \<Rightarrow> (Inl (WrapError (''awssso: write config for '' @ projectPath) err), (p', x4))
                          | (None, x4) \<Rightarrow>
                              (Inr \<lparr>SpecEnv = ContainerEnv token (ContainerSockPath cfg) @
                                      [(''AWS_CONFIG_FILE'', ContainerRunDir cfg @ ''/aws-config'')],
                                    Mounts = [''type=bind,source='' @ HostSockPath cfg @ '',target='' @ ContainerSockPath cfg], BridgeSpecs = []\<rparr>,
                               (p', x4))))))))"

section \<open>Lemmas\<close>

definition aws_lookup :: "(string \<times> cachedCreds) list \<Rightarrow> string \<Rightarrow> instant \<Rightarrow> bytes option" where
  "aws_lookup cache profile now =
     (case map_of cache profile of
        Some c \<Rightarrow> if now + refreshMargin < cc_expires c then Some (cc_body c) else None
      | None \<Rightarrow> None)"

lemma map_of_filter_key: "map_of (filter (\<lambda>(k, c). k \<noteq> j) m) i = (if i = j then None else map_of m i)"
  by (induction m) auto

interpretation aws_profiles: ttl_cache aws_lookup
    "\<lambda>cache profile body e. map_put cache profile \<lparr>cc_body = body, cc_expires = e\<rparr>" "[]" refreshMargin
    "\<lambda>cache profile. filter (\<lambda>(k, c). k \<noteq> profile) cache"
  by unfold_locales (auto simp: aws_lookup_def map_of_filter_key)

definition aws_permitted :: "awssso \<Rightarrow> Request \<Rightarrow> bool" where
  "aws_permitted p req \<longleftrightarrow>
     (\<exists>set'. map_of (aws_allowed p) (meta_get (Metadata req) ''token_id'') = Some set' \<and>
        allowKey (profileFromPath (RequestPath req)) \<in> set set')"

lemma aws_Get_permitted:
  assumes "aws_permitted p req"
  shows "aws_Get env req (p, x) =
     (case aws_lookup (aws_cache p) (profileFromPath (RequestPath req)) (aws_now env x) of
        Some body \<Rightarrow> (Inr (empty_injection\<lparr>BodyReplace := body\<rparr>), (p, x))
      | None \<Rightarrow> aws_fetch env (profileFromPath (RequestPath req)) (p, x))"
  using assms by (auto simp: aws_permitted_def aws_Get_def aws_lookup_def Let_def split: option.splits)

lemma aws_Refresh_permitted:
  "aws_permitted p req \<Longrightarrow> aws_Refresh env req (p, x) =
     aws_fetch env (profileFromPath (RequestPath req))
       (p\<lparr>aws_cache := filter (\<lambda>(k, c). k \<noteq> profileFromPath (RequestPath req)) (aws_cache p)\<rparr>, x)"
  by (auto simp: aws_permitted_def aws_Refresh_def Let_def)

lemma aws_refused:
  "\<not> aws_permitted p req \<Longrightarrow> \<exists>err. aws_Get env req (p, x) = (Inl err, (p, x)) \<and> aws_Refresh env req (p, x) = (Inl err, (p, x)) \<and>
     as_ReasonError err = None"
  by (cases "map_of (aws_allowed p) (meta_get (Metadata req) ''token_id'')")
    (auto simp: aws_permitted_def aws_Get_def aws_Refresh_def Let_def no_allowlist_def not_allowed_def)

lemma aws_fetch_frame: "aws_fetch env profile (p, x) = (res, (p', x')) \<Longrightarrow> aws_allowed p' = aws_allowed p"
  by (auto simp: aws_fetch_def Let_def split: prod.splits sum.splits)

text \<open>An INI reader for the rendered configuration: section headers and the settings below each.\<close>

fun ini_sections :: "string list \<Rightarrow> (string \<times> string list) list" where
  "ini_sections [] = []"
| "ini_sections (l # ls) =
     (if HasPrefix l ''['' \<and> HasSuffix l '']'' then
        (take (length l - 2) (tl l), takeWhile (\<lambda>l. \<not> HasPrefix l ''['' \<and> l \<noteq> []) ls) # ini_sections ls
      else ini_sections ls)"

definition section_of :: "string \<Rightarrow> string" where
  "section_of name = (if name = ''default'' then name else ''profile '' @ name)"

lemma validateProfileName_chars:
  "validateProfileName name = None \<Longrightarrow>
     name \<noteq> [] \<and> set name \<inter> {CHR '']'', CHR 0x0A, CHR 0x0D, CHR 0x00, CHR 0x20, CHR 0x09, CHR 0x5C, CHR 0x27, CHR 0x22, CHR 0x60} = {}"
  by (auto simp: validateProfileName_def list_ex_iff ContainsAny_iff split: if_splits)

text \<open>The check leaves other shell syntax in a name alone.\<close>

lemma profile_name_shell_syntax: "validateProfileName ''a;b$(c)|d&e>f'' = None"
  by code_simp

lemma profile_section_lines:
  assumes "CHR 0x0A \<notin> set scriptPath" and "CHR 0x0A \<notin> set name"
  shows "Split (profile_section scriptPath name @ rest) (CHR 0x0A) =
     [''['' @ section_of name @ '']'', ''credential_process = '' @ scriptPath @ '' '' @ name, []] @ Split rest (CHR 0x0A)"
proof -
  have a: "CHR 0x0A \<notin> set (''['' @ section_of name @ '']'')" using assms(2) by (auto simp: section_of_def)
  have b: "CHR 0x0A \<notin> set (''credential_process = '' @ scriptPath @ '' '' @ name)" using assms by auto
  have "profile_section scriptPath name @ rest = (''['' @ section_of name @ '']'') @ [CHR 0x0A] @
      (''credential_process = '' @ scriptPath @ '' '' @ name) @ [CHR 0x0A] @ [] @ [CHR 0x0A] @ rest"
    by (simp add: profile_section_def section_of_def)
  then show ?thesis
    using Split_append_sep [OF a] Split_append_sep [OF b] Split_append_sep [of "CHR 0x0A" "[]" rest] by simp
qed

lemma ini_sections_render:
  assumes "RenderConfig profiles scriptPath = (None, out)" and "CHR 0x0A \<notin> set scriptPath"
  shows "ini_sections (Split out (CHR 0x0A)) = map (\<lambda>n. (section_of n, [''credential_process = '' @ scriptPath @ '' '' @ n])) profiles"
  using assms(1)
proof (induction profiles arbitrary: out)
  case (Cons n ns)
  then obtain out' where v: "validateProfileName n = None" and r: "RenderConfig ns scriptPath = (None, out')"
    "out = profile_section scriptPath n @ out'"
    by (auto split: option.splits prod.splits)
  have "CHR 0x0A \<notin> set n" using validateProfileName_chars [OF v] by auto
  note lines = profile_section_lines [OF assms(2) this, of out']
  have "HasSuffix (CHR ''['' # section_of n @ '']'') '']''" unfolding HasSuffix_iff by (rule exI [of _ "CHR ''['' # section_of n"]) simp
  then show ?case using Cons.IH [OF r(1)] lines r(2) by simp
qed simp

lemma provider_request_sel [simp]:
  "RequestPath (provider_request ctx r) = Path (URL r)"
  "meta_get (Metadata (provider_request ctx r)) ''token_id'' = ctx_tokenID ctx"
  by (auto simp: provider_request_def Let_def meta_get_def split: option.splits)

lemma aws_serve:
  assumes "handlerCfg h \<in> set (aws_Routes env)"
    and "ProviderGet (aws_Provider env) (provider_request ctx r) st = (res, st')"
  shows "serveHTTP tr h ctx r st =
     (Some (case res of
        Inl err \<Rightarrow> writeCredentialError (routeLog h) err ''credential error''
      | Inr injection \<Rightarrow>
          if BodyReplace injection \<noteq> [] then ok_response ''application/json'' (BodyReplace injection)
          else http_Error ''no upstream configured for route'' 502), [EvGet (provider_request ctx r)], st')"
  using assms
  by (auto simp: aws_Routes_def serveHTTP_def buffer_body_def Let_def log_event_def decideAction_def split: sum.splits)

lemma aws_fetch_outcome:
  assumes "aws_fetch env profile (p, x) = (res, (p', x'))"
  shows "aws_allowed p' = aws_allowed p \<and>
    (case obtainCredentials env profile x of
       (Inl err, x1) \<Rightarrow> res = Inl (WrapError ''awssso'' err) \<and> p' = p \<and> x' = x1
     | (Inr (creds, e), x1) \<Rightarrow>
         res = Inr (empty_injection\<lparr>BodyReplace := json_encode (creds_json creds), ExpiresAt := e\<rparr>) \<and> x' = x1 \<and>
         (\<forall>j t. aws_lookup (aws_cache p') j t =
           (if j = profile then if t + refreshMargin < e then Some (json_encode (creds_json creds)) else None
            else aws_lookup (aws_cache p) j t)))"
  using assms aws_fetch_frame [OF assms] aws_profiles.lookup_store
  by (auto simp: aws_fetch_def Let_def split: prod.splits sum.splits)

lemma getRoleCredentials_expiration:
  "getRoleCredentials env a r t x = (Inr (creds, e), x') \<Longrightarrow>
     (e = zeroTime \<and> pc_Expiration creds = []) \<or> pc_Expiration creds = Format_RFC3339 e"
  by (auto simp: getRoleCredentials_def Let_def split: sum.splits prod.splits option.splits if_splits)

lemma sso_loop_expiration:
  "sso_loop env now es x = (Inr (creds, e), x') \<Longrightarrow>
     (e = zeroTime \<and> pc_Expiration creds = []) \<or> pc_Expiration creds = Format_RFC3339 e"
  by (induction env now es x rule: sso_loop.induct)
    (auto split: option.splits prod.splits sum.splits dest: getRoleCredentials_expiration)

section \<open>A provider for the witnesses\<close>

text \<open>An aws command that always fails; the cached credentials of the profile dev are good for two minutes.\<close>

definition demo_aws :: "nat aws_env" where
  "demo_aws = \<lparr>run_aws = (\<lambda>_ n. (Inl (PlainError ''exit status 255''), Suc n)), aws_now = (\<lambda>_. 0), aws_home = ''/home/u'',
     aws_ReadDir = (\<lambda>_ _. Inr []), aws_ReadFile = (\<lambda>_ _. Inl (PlainError ''no such file''))\<rparr>"

definition demo_sso :: awssso where
  "demo_sso = \<lparr>aws_cache = [(''dev'', \<lparr>cc_body = ''{}'', cc_expires = 120000000000\<rparr>)], aws_allowed = [(''ci'', [''dev''])]\<rparr>"

definition demo_aws_handler :: "nat aws_state routeHandler" where
  "demo_aws_handler = \<lparr>handlerCfg = hd (aws_Routes demo_aws), routeLog = ''aws-credentials'', proxyTarget = None\<rparr>"

text \<open>A host where no profile can be exported and one SSO session is left.\<close>

definition demo_sso_env :: "nat aws_env" where
  "demo_sso_env = demo_aws\<lparr>
     run_aws := (\<lambda>args n. (if hd args = ''sso'' then Inr ''{\"roleCredentials\":{\"accessKeyId\":\"A\",\"expiration\":1700000000500}}''
        else Inl (PlainError ''exit status 255''), Suc n)),
     aws_ReadDir := (\<lambda>_ _. Inr [(''a.json'', False)]),
     aws_ReadFile := (\<lambda>_ _. Inr ''{\"accessToken\":\"t\",\"accountId\":\"1\",\"roleName\":\"r\"}'')\<rparr>"

lemma demo_sso_obtain: "\<exists>creds x. obtainCredentials demo_sso_env ''dev'' 0 = (Inr (creds, 1700000000500000000), x)"
proof -
  have t: "decode_strings [''accessToken'', ''expiresAt'', ''accountId'', ''roleName''] ''{\"accessToken\":\"t\",\"accountId\":\"1\",\"roleName\":\"r\"}'' =
      Inr [(''accessToken'', ''t''), (''accountId'', ''1''), (''roleName'', ''r'')]" by code_simp
  have x: "filepath_Ext ''a.json'' = ''.json''" by code_simp
  have d: "map_sum (\<lambda>_. ()) members_of (decode_document ''{\"roleCredentials\":{\"accessKeyId\":\"A\",\"expiration\":1700000000500}}'') =
      Inr [(''roleCredentials'', JObj [(''accessKeyId'', JStr ''A''), (''expiration'', JNum ''1700000000500'')])]" by code_simp
  then obtain ms where ms: "decode_document ''{\"roleCredentials\":{\"accessKeyId\":\"A\",\"expiration\":1700000000500}}'' = Inr ms"
    "members_of ms = [(''roleCredentials'', JObj [(''accessKeyId'', JStr ''A''), (''expiration'', JNum ''1700000000500'')])]"
    by (cases "decode_document ''{\"roleCredentials\":{\"accessKeyId\":\"A\",\"expiration\":1700000000500}}''") auto
  have f: "into_int (JNum ''1700000000500'') 0 = Some 1700000000500"
    by (simp add: into_int_def numeral_value_def in_range_def)
  have "sint (1700000000500 :: 64 word) = 1700000000500" "0 <s (1700000000500 :: 64 word)" by code_simp+
  then show ?thesis
    by (simp add: obtainCredentials_def exportCredentials_def export_args_def demo_sso_env_def demo_aws_def ssoCredentials_def
        sso_token_def x t meta_get_def parseExpiration_def getRoleCredentials_def ms field_for_def into_string_def f UnixMilli_def Let_def)
qed

section \<open>Properties\<close>

text \<open>What one request on the AWS route does, in any state of the provider.\<close>

lemma aws_route_answer:
  assumes "handlerCfg h \<in> set (aws_Routes env)" and "serveHTTP tr h ctx r (p, x) = (Some resp, evs, (p', x'))"
  shows "aws_allowed p' = aws_allowed p \<and>
    (let profile = profileFromPath (Path (URL r)) in
     if \<not> (\<exists>profiles. map_of (aws_allowed p) (ctx_tokenID ctx) = Some profiles \<and> allowKey profile \<in> set profiles)
     then resp = http_Error ''credential error'' 502 \<and> p' = p \<and> x' = x
     else case aws_lookup (aws_cache p) profile (aws_now env x) of
       Some body \<Rightarrow> p' = p \<and> x' = x \<and> (body \<noteq> [] \<longrightarrow> resp = ok_response ''application/json'' body)
     | None \<Rightarrow>
         (case obtainCredentials env profile x of
            (Inl err, x1) \<Rightarrow> StatusCode resp = 502 \<and> p' = p \<and> x' = x1
          | (Inr (creds, e), x1) \<Rightarrow>
              resp = ok_response ''application/json'' (json_encode (creds_json creds)) \<and> x' = x1 \<and>
              (\<forall>j t. aws_lookup (aws_cache p') j t =
                (if j = profile then if t + refreshMargin < e then Some (json_encode (creds_json creds)) else None
                 else aws_lookup (aws_cache p) j t))))"
proof -
  let ?req = "provider_request ctx r" and ?profile = "profileFromPath (Path (URL r))"
  obtain res st' where get: "aws_Get env ?req (p, x) = (res, st')" by (rule prod.exhaust)
  have st': "st' = (p', x')" and resp: "resp = (case res of
        Inl err \<Rightarrow> writeCredentialError (routeLog h) err ''credential error''
      | Inr injection \<Rightarrow> if BodyReplace injection \<noteq> [] then ok_response ''application/json'' (BodyReplace injection)
          else http_Error ''no upstream configured for route'' 502)"
    using aws_serve [OF assms(1), of ctx r "(p, x)" res st' tr] assms(2) get by (simp_all add: aws_Provider_def)
  have perm: "aws_permitted p ?req \<longleftrightarrow>
      (\<exists>profiles. map_of (aws_allowed p) (ctx_tokenID ctx) = Some profiles \<and> allowKey ?profile \<in> set profiles)"
    by (simp add: aws_permitted_def)
  show ?thesis
  proof (cases "aws_permitted p ?req")
    case False
    then show ?thesis
      using aws_refused [OF False, of env x] perm get st' resp by (auto simp: Let_def writeCredentialError_def)
  next
    case True
    note g = aws_Get_permitted [OF True, of env x]
    show ?thesis
    proof (cases "aws_lookup (aws_cache p) ?profile (aws_now env x)")
      case (Some body)
      with True g get st' resp perm show ?thesis by (auto simp: Let_def)
    next
      case None
      then have fetch: "aws_fetch env ?profile (p, x) = (res, (p', x'))" using g get st' by simp
      have "StatusCode resp = 502" if "res = Inl e" for e
        using resp that by (auto simp: writeCredentialError_def http_Error_def split: option.splits)
      then show ?thesis using aws_fetch_outcome [OF fetch] True None perm resp
        by (auto simp: Let_def creds_json_def split: sum.splits)
    qed
  qed
qed

text \<open>
  What happens to a provider whose aws command could export every profile that was allowed and
  asked for: requests on its route, allowlists set by container launches or by the embedding
  program, and changes of the world outside.
\<close>

definition exports :: "'x aws_env \<Rightarrow> string \<Rightarrow> 'x \<Rightarrow> bool" where
  "exports env profile x \<longleftrightarrow> (\<exists>v x'. exportCredentials env profile x = (Inr v, x'))"

inductive aws_step :: "'x aws_env \<Rightarrow> 'x aws_state \<Rightarrow> 'x aws_state \<Rightarrow> bool" for env where
  aws_request: "\<lbrakk>handlerCfg h \<in> set (aws_Routes env); serveHTTP tr h ctx r (p, x) = (resp, evs, st');
     aws_permitted p (provider_request ctx r) \<longrightarrow> exports env (profileFromPath (Path (URL r))) x\<rbrakk> \<Longrightarrow> aws_step env (p, x) st'"
| aws_launch: "aws_ContainerSpec host cfg projectPath st = (res, st') \<Longrightarrow> aws_step env st st'"
| aws_allow: "aws_step env (p, x) (SetAllowedProfiles projectID profiles p, x)"
| aws_outside: "aws_step env (p, x) (p, x')"

text \<open>The body is what the aws command exported for the profile in some state of the run, good at time t.\<close>

definition exported_in_run :: "'x aws_env \<Rightarrow> 'x \<Rightarrow> string \<Rightarrow> instant \<Rightarrow> bytes \<Rightarrow> bool" where
  "exported_in_run env x0 profile t body \<longleftrightarrow>
     (\<exists>q y creds e y'. (aws_step env)\<^sup>*\<^sup>* (aws_New, x0) (q, y) \<and> exportCredentials env profile y = (Inr (creds, e), y') \<and>
        body = json_encode (creds_json creds) \<and> t + refreshMargin < e)"

lemma exports_obtain: "exports env profile x \<Longrightarrow> obtainCredentials env profile x = exportCredentials env profile x"
  by (auto simp: exports_def obtainCredentials_def)

lemma aws_ContainerSpec_cache: "aws_ContainerSpec host cfg projectPath (p, x) = (res, (p', x')) \<Longrightarrow> aws_cache p' = aws_cache p"
  by (auto simp: aws_ContainerSpec_def SetAllowedProfiles_def Let_def split: if_splits sum.splits prod.splits option.splits)

lemma aws_serve_answers:
  assumes "handlerCfg h \<in> set (aws_Routes env)" "serveHTTP tr h ctx r st = (resp, evs, st')"
  shows "resp \<noteq> None"
  using aws_serve [OF assms(1), of ctx r st "fst (ProviderGet (aws_Provider env) (provider_request ctx r) st)"
      "snd (ProviderGet (aws_Provider env) (provider_request ctx r) st)" tr] assms(2) by simp

lemma aws_reachable_cache:
  assumes "(aws_step env)\<^sup>*\<^sup>* (aws_New, x0) st" "aws_lookup (aws_cache (fst st)) j t = Some body"
  shows "exported_in_run env x0 j t body"
  using assms
proof (induction arbitrary: j t body rule: rtranclp_induct)
  case base
  then show ?case by (simp add: aws_New_def aws_lookup_def)
next
  case (step y z)
  from step.hyps(2) show ?case
  proof (cases rule: aws_step.cases)
    case (aws_request h tr ctx r p x resp evs)
    obtain answer where a: "resp = Some answer" using aws_serve_answers [OF aws_request(2,3)] by auto
    obtain p' x' where z: "z = (p', x')" by force
    let ?profile = "profileFromPath (Path (URL r))"
    have run: "serveHTTP tr h ctx r (p, x) = (Some answer, evs, (p', x'))" using aws_request(3) a z by simp
    note ans = aws_route_answer [OF aws_request(2) run, unfolded Let_def]
    have perm: "aws_permitted p (provider_request ctx r) \<longleftrightarrow>
        (\<exists>profiles. map_of (aws_allowed p) (ctx_tokenID ctx) = Some profiles \<and> allowKey ?profile \<in> set profiles)"
      by (simp add: aws_permitted_def)
    show ?thesis
    proof (cases "aws_cache p' = aws_cache p")
      case True
      with step aws_request(1) z show ?thesis by auto
    next
      case False
      then have fetched: "aws_permitted p (provider_request ctx r)" "aws_lookup (aws_cache p) ?profile (aws_now env x) = None"
        using ans perm by (auto split: if_splits option.splits)
      then have ex: "exports env ?profile x" using aws_request(4) by blast
      obtain creds e x1 where c: "exportCredentials env ?profile x = (Inr (creds, e), x1)" using ex by (auto simp: exports_def)
      have nn: "\<not> \<not> (\<exists>profiles. map_of (aws_allowed p) (ctx_tokenID ctx) = Some profiles \<and> allowKey ?profile \<in> set profiles)"
        using fetched(1) perm by simp
      have look: "aws_lookup (aws_cache p') j t =
          (if j = ?profile then if t + refreshMargin < e then Some (json_encode (creds_json creds)) else None else aws_lookup (aws_cache p) j t)" for j t
        using conjunct2 [OF ans, unfolded if_not_P [OF nn] fetched(2) option.case] exports_obtain [OF ex] c by simp
      show ?thesis
      proof (cases "j = ?profile")
        case True
        then have "t + refreshMargin < e" "body = json_encode (creds_json creds)"
          using step.prems z look [of j t] by (auto split: if_splits)
        moreover have "(aws_step env)\<^sup>*\<^sup>* (aws_New, x0) (p, x)" using step.hyps(1) aws_request(1) by simp
        ultimately show ?thesis using c True unfolding exported_in_run_def by blast
      next
        case False
        then show ?thesis using step look [of j t] z aws_request(1) by simp
      qed
    qed
  next
    case (aws_launch host cfg projectPath res)
    then have "aws_cache (fst z) = aws_cache (fst y)"
      using aws_ContainerSpec_cache [of host cfg projectPath "fst y" "snd y" res "fst z" "snd z"] by simp
    with step show ?thesis by simp
  next
    case (aws_allow p x projectID profiles)
    with step show ?thesis by (simp add: SetAllowedProfiles_def)
  next
    case (aws_outside p x x')
    with step show ?thesis by simp
  qed
qed

text \<open>
  C33 (safety). Profiles are isolated by project, on a host where the aws command exports the
  profiles that are asked for: for a profile outside the allowlist of the caller's own project the
  AWS route answers 502, runs no aws command and changes nothing; for an allowed profile it
  answers with the credentials that the aws command exported for exactly this profile, in this
  request or, while they live longer than the 60 seconds of margin, in an earlier state of the run
  out of the cache. New credentials replace the profile's cached ones and no others, and no request
  changes an allowlist.
\<close>

theorem aws_route_isolation:
  assumes "(aws_step env)\<^sup>*\<^sup>* (aws_New, x0) (p, x)" and "handlerCfg h \<in> set (aws_Routes env)"
    and "serveHTTP tr h ctx r (p, x) = (Some resp, evs, (p', x'))"
  defines "profile \<equiv> profileFromPath (Path (URL r))"
  shows "aws_allowed p' = aws_allowed p \<and>
    (if \<not> (\<exists>profiles. map_of (aws_allowed p) (ctx_tokenID ctx) = Some profiles \<and> allowKey profile \<in> set profiles)
     then resp = http_Error ''credential error'' 502 \<and> p' = p \<and> x' = x
     else exports env profile x \<longrightarrow>
       (\<exists>body. resp = ok_response ''application/json'' body \<and> exported_in_run env x0 profile (aws_now env x) body \<and> p' = p \<and> x' = x) \<or>
       (\<exists>creds e. exportCredentials env profile x = (Inr (creds, e), x') \<and> resp = ok_response ''application/json'' (json_encode (creds_json creds)) \<and>
          (\<forall>j t. aws_lookup (aws_cache p') j t =
             (if j = profile then if t + refreshMargin < e then Some (json_encode (creds_json creds)) else None
              else aws_lookup (aws_cache p) j t))))"
proof -
  note ans = aws_route_answer [OF assms(2,3), folded profile_def, unfolded Let_def]
  let ?ok = "\<exists>profiles. map_of (aws_allowed p) (ctx_tokenID ctx) = Some profiles \<and> allowKey profile \<in> set profiles"
  show ?thesis
  proof (cases "?ok \<and> exports env profile x")
    case False
    then show ?thesis using ans by auto
  next
    case True
    then obtain creds e x1 where c: "exportCredentials env profile x = (Inr (creds, e), x1)" by (auto simp: exports_def)
    show ?thesis
    proof (cases "aws_lookup (aws_cache p) profile (aws_now env x)")
      case (Some body)
      then have ex: "exported_in_run env x0 profile (aws_now env x) body" using aws_reachable_cache [OF assms(1)] by simp
      then have "body \<noteq> []" by (auto simp: exported_in_run_def creds_json_def)
      with True Some ans ex show ?thesis by auto
    next
      case None
      then show ?thesis using True ans c exports_obtain [of env profile x] by auto
    qed
  qed
qed

definition demo_export :: "nat aws_env" where
  "demo_export = demo_aws\<lparr>run_aws := (\<lambda>args n. (if last args = ''dev'' then Inr ''{\"AccessKeyId\":\"A\"}'' else Inl (PlainError ''exit status 255''), Suc n))\<rparr>"

definition demo_export_handler :: "nat aws_state routeHandler" where
  "demo_export_handler = \<lparr>handlerCfg = hd (aws_Routes demo_export), routeLog = ''aws-credentials'', proxyTarget = None\<rparr>"

theorem aws_route_isolation_witness:
  "(\<exists>creds e evs p. exportCredentials demo_export ''dev'' 0 = (Inr (creds, e), 1) \<and>
      serveHTTP (\<lambda>_ w. (Inl (PlainError ''unreachable''), w)) demo_export_handler demo_ctx (demo_request\<lparr>URL := demo_url\<lparr>Path := ''/dev''\<rparr>\<rparr>)
        (SetAllowedProfiles ''ci'' [''dev''] aws_New, 0) = (Some (ok_response ''application/json'' (json_encode (creds_json creds))), evs, (p, 1))) \<and>
   (\<exists>evs. serveHTTP (\<lambda>_ w. (Inl (PlainError ''unreachable''), w)) demo_export_handler demo_ctx (demo_request\<lparr>URL := demo_url\<lparr>Path := ''/prod''\<rparr>\<rparr>)
        (SetAllowedProfiles ''ci'' [''dev''] aws_New, 0) =
      (Some (http_Error ''credential error'' 502), evs, (SetAllowedProfiles ''ci'' [''dev''] aws_New, 0)))"
proof -
  let ?p = "SetAllowedProfiles ''ci'' [''dev''] aws_New" and ?tr = "\<lambda>_ w. (Inl (PlainError ''unreachable''), w)"
  have h: "handlerCfg demo_export_handler \<in> set (aws_Routes demo_export)" by (simp add: demo_export_handler_def aws_Routes_def)
  have reach: "(aws_step demo_export)\<^sup>*\<^sup>* (aws_New, 0) (?p, 0)" by (blast intro: aws_allow)
  have run: "\<exists>resp evs p x. serveHTTP ?tr demo_export_handler demo_ctx r (?p, 0) = (Some resp, evs, (p, x))" for r
  proof -
    obtain res st where "ProviderGet (aws_Provider demo_export) (provider_request demo_ctx r) (?p, 0) = (res, st)" by (rule prod.exhaust)
    from aws_serve [OF h this] show ?thesis by (cases st) auto
  qed
  have i: "ctx_tokenID demo_ctx = ''ci''" "profileFromPath ''/dev'' = ''dev''" "profileFromPath ''/prod'' = ''prod''"
    "map_of (aws_allowed ?p) ''ci'' = Some [''dev'']" "allowKey ''dev'' = ''dev''" "allowKey ''prod'' = ''prod''"
    "aws_lookup (aws_cache ?p) ''dev'' t = None" for t
    by code_simp+
  have "(case decode_strings [''AccessKeyId'', ''SecretAccessKey'', ''SessionToken'', ''Expiration''] ''{\"AccessKeyId\":\"A\"}'' of
      Inl err \<Rightarrow> False | Inr raw \<Rightarrow> meta_get raw ''AccessKeyId'' = ''A'')" by code_simp
  then obtain creds e where ex: "exportCredentials demo_export ''dev'' 0 = (Inr (creds, e), 1)"
    by (auto simp: exportCredentials_def export_args_def demo_export_def split: sum.splits)
  let ?r = "\<lambda>path. demo_request\<lparr>URL := demo_url\<lparr>Path := path\<rparr>\<rparr>"
  obtain r1 e1 p1 x1 where one: "serveHTTP ?tr demo_export_handler demo_ctx (?r ''/dev'') (?p, 0) = (Some r1, e1, (p1, x1))"
    using run by blast
  obtain r2 e2 p2 x2 where two: "serveHTTP ?tr demo_export_handler demo_ctx (?r ''/prod'') (?p, 0) = (Some r2, e2, (p2, x2))"
    using run by blast
  have "r1 = ok_response ''application/json'' (json_encode (creds_json creds)) \<and> x1 = 1"
    using aws_route_isolation [OF reach h one] aws_route_answer [OF h one] i ex by (simp add: Let_def exports_def obtainCredentials_def)
  moreover have "r2 = http_Error ''credential error'' 502 \<and> p2 = ?p \<and> x2 = 0"
    using aws_route_isolation [OF reach h two] i by simp
  ultimately show ?thesis using one two ex by auto
qed

text \<open>
  The allowlist of a project follows its container launches: a launch with some
  profiles replaces the project's list by exactly those, even when it fails later on, and leaves
  the lists of projects with another run hash alone. A launch without profiles does not touch the
  list, so a project that lost its last profile keeps the access it had.
\<close>

theorem ContainerSpec_allowlist:
  assumes "aws_ContainerSpec host cfg projectPath (p, x) = (res, (p', x'))"
  shows "aws_cache p' = aws_cache p \<and>
    (\<forall>j. j \<noteq> ProjectRunHash (sha256 host) projectPath \<longrightarrow> map_of (aws_allowed p') j = map_of (aws_allowed p) j) \<and>
    (if profilesFor host projectPath = []
     then res = Inr \<lparr>SpecEnv = [], Mounts = [], BridgeSpecs = []\<rparr> \<and> p' = p
     else \<exists>set'. map_of (aws_allowed p') (ProjectRunHash (sha256 host) projectPath) = Some set' \<and>
       set set' = allowKey ` set (profilesFor host projectPath))"
proof (cases "profilesFor host projectPath = []")
  case True
  then show ?thesis using assms by (simp add: aws_ContainerSpec_def)
next
  case False
  then have "p' = SetAllowedProfiles (ProjectRunHash (sha256 host) projectPath) (profilesFor host projectPath) p"
    using assms by (auto simp: aws_ContainerSpec_def Let_def split: sum.splits prod.splits option.splits)
  with False show ?thesis by (simp add: SetAllowedProfiles_def)
qed

theorem ContainerSpec_allowlist_witness:
  "\<exists>host res p x. aws_ContainerSpec host \<lparr>HostRunBase = ''/r'', HostSockPath = ''/s'', ContainerRunDir = ''/c'', ContainerSockPath = ''/c/s''\<rparr>
       ''/proj'' (demo_sso\<lparr>aws_allowed := [(ProjectRunHash (sha256 host) ''/proj'', [''dev''])]\<rparr>, 0::nat) = (res, (p, x)) \<and>
     profilesFor host ''/proj'' = [] \<and> map_of (aws_allowed p) (ProjectRunHash (sha256 host) ''/proj'') = Some [''dev'']"
  (is "\<exists>host res p x. aws_ContainerSpec host ?cfg _ _ = _ \<and> _")
proof -
  let ?host = "\<lparr>tokenFor = (\<lambda>_ n. (Inr [], n)), profilesFor = (\<lambda>_. []), os_MkdirAll = (\<lambda>_ n. (None, n)),
     os_WriteFile = (\<lambda>_ _ _ n. (None, n)), sha256 = (\<lambda>b. b)\<rparr> :: nat aws_host"
  let ?p = "demo_sso\<lparr>aws_allowed := [(ProjectRunHash (sha256 ?host) ''/proj'', [''dev''])]\<rparr>"
  obtain res p x where run: "aws_ContainerSpec ?host ?cfg ''/proj'' (?p, 0) = (res, (p, x))" by (metis surj_pair)
  have e: "p = ?p" using ContainerSpec_allowlist [OF run] by simp
  show ?thesis
    by (rule exI [of _ ?host], rule exI [of _ res], rule exI [of _ p], rule exI [of _ x]) (use run e in simp)
qed

text \<open>
  The AWS configuration a container gets is what was meant: when RenderConfig
  succeeds, a reader of the file finds exactly one section per profile, in order, each with the
  one setting that calls the helper with the profile's name, whatever characters the names have.
\<close>

theorem RenderConfig_roundtrip:
  assumes "RenderConfig profiles scriptPath = (None, out)" and "CHR 0x0A \<notin> set scriptPath"
  shows "ini_sections (Split out (CHR 0x0A)) =
     map (\<lambda>n. (section_of n, [''credential_process = '' @ scriptPath @ '' '' @ n])) profiles"
  using ini_sections_render [OF assms] .

theorem RenderConfig_roundtrip_witness:
  "\<exists>out. RenderConfig [''default'', ''dev''] ''/c/aws-creds.sh'' = (None, out) \<and>
     ini_sections (Split out (CHR 0x0A)) =
       [(''default'', [''credential_process = /c/aws-creds.sh default'']), (''profile dev'', [''credential_process = /c/aws-creds.sh dev''])]"
proof -
  have v: "validateProfileName ''default'' = None" "validateProfileName ''dev'' = None" by code_simp+
  obtain out where out: "RenderConfig [''default'', ''dev''] ''/c/aws-creds.sh'' = (None, out)" using v by simp
  from RenderConfig_roundtrip [OF out] out show ?thesis by (simp add: section_of_def)
qed

text \<open>
  Where credentials come from: those of the profile, if the aws command exports
  them; otherwise those of the first usable SSO session, which are the same for every profile that
  cannot be exported. The expiration that such a session's document carries denotes the cache's
  expiry, cut to the second.
\<close>

theorem aws_credential_source:
  assumes "exportCredentials env profile x = (Inl err, x1)" and "obtainCredentials env profile x = (Inr (creds, e), x2)"
    and "0 \<le> year_of (e div 1000000000 div 86400 + unix_days)" and "year_of (e div 1000000000 div 86400 + unix_days) \<le> 9999"
  shows "ssoCredentials env x1 = (Inr (creds, e), x2) \<and>
    (\<forall>profile' err'. exportCredentials env profile' x = (Inl err', x1) \<longrightarrow> obtainCredentials env profile' x = (Inr (creds, e), x2)) \<and>
    (if pc_Expiration creds = [] then e = zeroTime else parseExpiration (pc_Expiration creds) = e div 1000000000 * 1000000000)"
proof -
  have sso: "ssoCredentials env x1 = (Inr (creds, e), x2)" using assms(1,2) by (simp add: obtainCredentials_def)
  then obtain now es where loop: "sso_loop env now es x1 = (Inr (creds, e), x2)"
    by (auto simp: ssoCredentials_def split: sum.splits)
  have "pc_Expiration creds = (if e = zeroTime \<and> pc_Expiration creds = [] then [] else Format_RFC3339 e)"
    using sso_loop_expiration [OF loop] by auto
  moreover have "Format_RFC3339 e \<noteq> []" by (simp add: Format_RFC3339_def Let_def split: prod.splits)
  ultimately show ?thesis
    using sso assms Parse_Format [OF assms(3,4)] by (auto simp: obtainCredentials_def parseExpiration_def split: if_splits)
qed

theorem aws_credential_source_witness:
  "\<exists>creds x. obtainCredentials demo_sso_env ''dev'' 0 = (Inr (creds, 1700000000500000000), x) \<and>
     obtainCredentials demo_sso_env ''prod'' 0 = (Inr (creds, 1700000000500000000), x)"
proof -
  have e: "exportCredentials demo_sso_env p 0 = (Inl (PlainError ''exit status 255''), 1)" for p
    by (simp add: exportCredentials_def export_args_def demo_sso_env_def)
  obtain creds x where o: "obtainCredentials demo_sso_env ''dev'' 0 = (Inr (creds, 1700000000500000000), x)"
    using demo_sso_obtain by blast
  have y: "year_of (1700000000500000000 div 1000000000 div 86400 + unix_days) = 2023" by code_simp
  from aws_credential_source [OF e o] y e o show ?thesis by auto
qed

end
