(* ===== verification/Gcloud_Cli.thy ===== *)
theory Gcloud_Cli
  imports Aws_Sso Proxy_Server
begin

text \<open>
  The gcloud provider, providers/gcloudcli: the configuration directory it writes (config.go), the
  metadata server it emulates per project (metadata.go) and the spec builder with its token
  targets (spec.go). The gcloud command, the file system, the listener and SHA-256 are parameters.
  Error messages carry names as they are, without the quoting of the verb %q.
\<close>

section \<open>config.go\<close>

datatype stat_result = NotExist | StatError go_error | StatMode bool

text \<open>What the provider asks the system. StatMode says whether the file is a socket.\<close>

record 'x gcloud_env =
  run_gcloud :: "string list \<Rightarrow> 'x \<Rightarrow> (go_error + bytes) \<times> 'x"
  gc_MkdirAll :: "string \<Rightarrow> nat \<Rightarrow> 'x \<Rightarrow> go_error option \<times> 'x"
  gc_WriteFile :: "string \<Rightarrow> bytes \<Rightarrow> nat \<Rightarrow> 'x \<Rightarrow> go_error option \<times> 'x"
  gc_Stat :: "string \<Rightarrow> 'x \<Rightarrow> stat_result"
  gc_Remove :: "string \<Rightarrow> 'x \<Rightarrow> go_error option \<times> 'x"
  gc_Listen :: "string \<Rightarrow> 'x \<Rightarrow> go_error option \<times> 'x"
  gc_sha256 :: "bytes \<Rightarrow> bytes"

definition metadataListenAddr :: string where
  "metadataListenAddr = ''127.0.0.1:8181''"

definition ConfigDirEnv :: string where
  "ConfigDirEnv = ''CLOUDSDK_CONFIG''"

definition MetadataHostEnv :: string where
  "MetadataHostEnv = ''GCE_METADATA_HOST''"

definition MetadataIPEnv :: string where
  "MetadataIPEnv = ''GCE_METADATA_IP''"

definition globalProperties :: bytes where
  "globalProperties =
     ''[core]'' @ [CHR 0x0A] @ ''disable_usage_reporting = true'' @ [CHR 0x0A, CHR 0x0A] @
     ''[component_manager]'' @ [CHR 0x0A] @ ''disable_update_check = true'' @ [CHR 0x0A]"

definition validateProjectID :: "string \<Rightarrow> go_error option" where
  "validateProjectID i =
     (if i = [] then Some (PlainError ''empty project id'')
      else (case find (\<lambda>c. \<not> is_lower c \<and> \<not> is_digit c \<and> c \<noteq> CHR ''-'' \<and> c \<noteq> CHR ''_'' \<and> c \<noteq> CHR '':'') i of
              Some c \<Rightarrow> Some (PlainError (''invalid character '' @ [c] @ '' (project ids contain lowercase letters, digits, hyphens, underscores)''))
            | None \<Rightarrow> None))"

definition config_file :: "string \<Rightarrow> string \<Rightarrow> string \<Rightarrow> bytes" where
  "config_file account project tokenContainerPath =
     (if tokenContainerPath \<noteq> [] then ''[auth]'' @ [CHR 0x0A] @ ''access_token_file = '' @ tokenContainerPath @ [CHR 0x0A, CHR 0x0A] else []) @
     ''[core]'' @ [CHR 0x0A] @
     (if account \<noteq> [] then ''account = '' @ account @ [CHR 0x0A] else []) @
     (if project \<noteq> [] then ''project = '' @ project @ [CHR 0x0A] else [])"

definition writeConfigFile :: "'x gcloud_env \<Rightarrow> string \<Rightarrow> string \<Rightarrow> string \<Rightarrow> string \<Rightarrow> 'x \<Rightarrow> go_error option \<times> 'x" where
  "writeConfigFile env path account project tokenContainerPath x =
     gc_WriteFile env path (config_file account project tokenContainerPath) 420 x"

fun write_configs ::
  "'x gcloud_env \<Rightarrow> string \<Rightarrow> string \<Rightarrow> string list \<Rightarrow> string \<Rightarrow> 'x \<Rightarrow> go_error option \<times> 'x" where
  "write_configs env configsDir account [] tokenContainerPath x = (None, x)"
| "write_configs env configsDir account (proj # projects) tokenContainerPath x =
     (case validateProjectID proj of
        Some err \<Rightarrow> (Some (WrapError (''gcloudcli: invalid project id '' @ proj) err), x)
      | None \<Rightarrow>
          (case writeConfigFile env (filepath_Join configsDir (''config_'' @ proj)) account proj tokenContainerPath x of
             (Some err, x') \<Rightarrow> (Some err, x')
           | (None, x') \<Rightarrow> write_configs env configsDir account projects tokenContainerPath x'))"

definition WriteConfigDir ::
  "'x gcloud_env \<Rightarrow> string \<Rightarrow> string \<Rightarrow> string \<Rightarrow> string list \<Rightarrow> string \<Rightarrow> 'x \<Rightarrow> go_error option \<times> 'x" where
  "WriteConfigDir env dir account active projects tokenContainerPath x =
     (let configsDir = filepath_Join dir ''configurations'' in
      (case gc_MkdirAll env configsDir 493 x of
         (Some err, x1) \<Rightarrow> (Some (WrapError ''gcloudcli: mkdir configurations'' err), x1)
       | (None, x1) \<Rightarrow>
      (case gc_WriteFile env (filepath_Join dir ''properties'') globalProperties 420 x1 of
         (Some err, x2) \<Rightarrow> (Some (WrapError ''gcloudcli: write properties'' err), x2)
       | (None, x2) \<Rightarrow>
      (case write_configs env configsDir account projects tokenContainerPath x2 of
         (Some err, x3) \<Rightarrow> (Some err, x3)
       | (None, x3) \<Rightarrow>
      (case gc_WriteFile env (filepath_Join dir ''active_config'') active 420 x3 of
         (Some err, x4) \<Rightarrow> (Some (WrapError ''gcloudcli: write active_config'' err), x4)
       | (None, x4) \<Rightarrow> (None, x4))))))"

definition gcloud_ContainerEnv :: "string \<Rightarrow> string_map" where
  "gcloud_ContainerEnv configContainerPath =
     [(ConfigDirEnv, configContainerPath), (MetadataHostEnv, metadataListenAddr), (MetadataIPEnv, metadataListenAddr)]"

section \<open>metadata.go\<close>

definition metadataSABase :: string where
  "metadataSABase = ''/computeMetadata/v1/instance/service-accounts/''"

definition metadataProjectPath :: string where
  "metadataProjectPath = ''/computeMetadata/v1/project/project-id''"

definition metadataSADefault :: string where
  "metadataSADefault = ''default''"

definition metadataCloudPlatform :: string where
  "metadataCloudPlatform = ''https://www.googleapis.com/auth/cloud-platform''"

definition metadataFlavor :: string where
  "metadataFlavor = ''Google''"

definition cmp_Or :: "string \<Rightarrow> string \<Rightarrow> string" where
  "cmp_Or a b = (if a \<noteq> [] then a else b)"

definition buildPrintAccessTokenArgs :: "string \<Rightarrow> string \<Rightarrow> string list" where
  "buildPrintAccessTokenArgs account serviceAccount =
     (if serviceAccount \<noteq> []
      then [''auth'', ''print-access-token''] @ (if account \<noteq> [] then [''--account='' @ account] else []) @
           [''--impersonate-service-account='' @ serviceAccount]
      else [''auth'', ''application-default'', ''print-access-token''])"

definition gcpPrintAccessToken :: "'x gcloud_env \<Rightarrow> string \<Rightarrow> string \<Rightarrow> 'x \<Rightarrow> (go_error + string) \<times> 'x" where
  "gcpPrintAccessToken env account serviceAccount x =
     (case run_gcloud env (buildPrintAccessTokenArgs account serviceAccount) x of
        (Inl err, x') \<Rightarrow> (Inl err, x')
      | (Inr out, x') \<Rightarrow> (Inr (TrimSpace out), x'))"

definition saSegments :: "string \<Rightarrow> string list" where
  "saSegments prin =
     (if prin = metadataSADefault \<or> prin = [] then [metadataSADefault] else [metadataSADefault, prin])"

text \<open>The handlers of the mux, and its registrations in order. None is a panic of HandleFunc.\<close>

datatype meta_endpoint = MetaDir string bytes | MetaInfo string | MetaToken | MetaEmail | MetaScopes | MetaProject

definition sa_endpoints :: "string \<Rightarrow> (string \<times> meta_endpoint) list" where
  "sa_endpoints seg =
     [(metadataSABase @ seg @ ''/'', MetaInfo (metadataSABase @ seg @ ''/'')),
      (metadataSABase @ seg @ ''/token'', MetaToken),
      (metadataSABase @ seg @ ''/email'', MetaEmail),
      (metadataSABase @ seg @ ''/scopes'', MetaScopes)]"

definition meta_patterns :: "string \<Rightarrow> (string \<times> meta_endpoint) list" where
  "meta_patterns prin =
     [(''/'', MetaDir ''/'' (''0.1/'' @ [CHR 0x0A] @ ''computeMetadata/'' @ [CHR 0x0A])),
      (''/computeMetadata/'', MetaDir ''/computeMetadata/'' (''v1/'' @ [CHR 0x0A])),
      (''/computeMetadata/v1/'', MetaDir ''/computeMetadata/v1/'' (''instance/'' @ [CHR 0x0A] @ ''project/'' @ [CHR 0x0A]))] @
     concat (map sa_endpoints (saSegments prin)) @ [(metadataProjectPath, MetaProject)]"

fun mux_HandleAll :: "(string \<times> 'h) list \<Rightarrow> (string \<times> 'h) list \<Rightarrow> (string \<times> 'h) list option" where
  "mux_HandleAll m [] = Some m"
| "mux_HandleAll m ((pat, h) # ps) = (case mux_Handle m pat h of None \<Rightarrow> None | Some m' \<Rightarrow> mux_HandleAll m' ps)"

definition metadata_mux :: "string \<Rightarrow> (string \<times> meta_endpoint) list option" where
  "metadata_mux prin = mux_HandleAll [] (meta_patterns prin)"

text \<open>Responses written after checkFlavor has set the Metadata-Flavor header.\<close>

definition flavored :: "http_response \<Rightarrow> http_response" where
  "flavored resp = resp\<lparr>RespHeader := Header_Set (RespHeader resp) ''Metadata-Flavor'' metadataFlavor\<rparr>"

definition checkFlavor :: "http_request \<Rightarrow> bool" where
  "checkFlavor r \<longleftrightarrow> Header_Get (ReqHeader r) ''Metadata-Flavor'' = metadataFlavor"

definition flavor_refused :: http_response where
  "flavor_refused = http_Error ''Missing or invalid Metadata-Flavor header'' 403"

definition tokenResponse :: "string \<Rightarrow> json" where
  "tokenResponse token = JObj [(''access_token'', JStr token), (''expires_in'', JNum ''1800''), (''token_type'', JStr ''Bearer'')]"

definition serviceAccountInfo :: "string \<Rightarrow> json" where
  "serviceAccountInfo prin =
     JObj [(''aliases'', JArr [JStr metadataSADefault]), (''email'', JStr prin), (''scopes'', JArr [JStr metadataCloudPlatform])]"

record meta_server =
  ms_account :: string
  ms_sa :: string
  ms_project :: string

abbreviation ms_principal :: "meta_server \<Rightarrow> string" where
  "ms_principal s \<equiv> cmp_Or (ms_sa s) (ms_account s)"

text \<open>One handler: its response, whether it starts the asynchronous materialize, the system.\<close>

definition serve_endpoint :: "'x gcloud_env \<Rightarrow> meta_server \<Rightarrow> meta_endpoint \<Rightarrow> http_request \<Rightarrow> 'x \<Rightarrow> http_response \<times> bool \<times> 'x" where
  "serve_endpoint env s e r x =
     (let text = (\<lambda>ctype body. flavored (ok_response ctype body)) in
      case e of
        MetaDir path body \<Rightarrow>
          (if Path (URL r) \<noteq> path then http_NotFound
           else if \<not> checkFlavor r then flavor_refused
           else text ''application/text'' body, False, x)
      | MetaInfo path \<Rightarrow>
          (if Path (URL r) \<noteq> path then http_NotFound
           else if \<not> checkFlavor r then flavor_refused
           else text ''application/json'' (json_encode (serviceAccountInfo (ms_principal s)) @ [CHR 0x0A]), False, x)
      | MetaToken \<Rightarrow>
          if \<not> checkFlavor r then (flavor_refused, False, x)
          else (case gcpPrintAccessToken env (ms_account s) (ms_sa s) x of
                  (Inl err, x') \<Rightarrow> (flavored (http_Error ''token fetch failed'' 500), False, x')
                | (Inr token, x') \<Rightarrow> (text ''application/json'' (json_encode (tokenResponse token) @ [CHR 0x0A]), True, x'))
      | MetaEmail \<Rightarrow> (if \<not> checkFlavor r then flavor_refused else text ''text/plain'' (ms_principal s), False, x)
      | MetaScopes \<Rightarrow> (if \<not> checkFlavor r then flavor_refused else text ''text/plain'' metadataCloudPlatform, False, x)
      | MetaProject \<Rightarrow> (if \<not> checkFlavor r then flavor_refused else text ''text/plain'' (ms_project s), False, x))"

definition metadataHandler ::
  "'x gcloud_env \<Rightarrow> meta_server \<Rightarrow> (string \<times> meta_endpoint) list \<Rightarrow> http_request \<Rightarrow> 'x \<Rightarrow> reply \<times> bool \<times> 'x" where
  "metadataHandler env s m r x =
     (case mux_dispatch m r of
        MuxRedirect path query \<Rightarrow> (Redirected path query, False, x)
      | MuxNotFound \<Rightarrow> (Replied (Some http_NotFound), False, x)
      | MuxHandler pat e \<Rightarrow> (case serve_endpoint env s e r x of (resp, spawn, x') \<Rightarrow> (Replied (Some resp), spawn, x')))"

section \<open>spec.go\<close>

record GCPConfig =
  gcp_Account :: string
  gcp_ServiceAccount :: string
  gcp_Active :: string
  gcp_Projects :: "string list"

record gcloud_config =
  gc_RunBase :: string
  gc_ContainerRunDir :: string

record tokenTarget =
  tt_account :: string
  tt_sa :: string
  tt_tokenFilePath :: string

text \<open>
  The builder: its token targets and the metadata servers its goroutines serve, by project path.
\<close>

record gcloud_builder =
  tokenTargets :: "(string \<times> tokenTarget) list"
  metaServers :: "(string \<times> meta_server \<times> (string \<times> meta_endpoint) list) list"

type_synonym 'x gcloud_state = "gcloud_builder \<times> 'x"

definition gcloud_NewSpecBuilder :: gcloud_builder where
  "gcloud_NewSpecBuilder = \<lparr>tokenTargets = [], metaServers = []\<rparr>"

definition gcloud_Init :: "'x gcloud_env \<Rightarrow> gcloud_config \<Rightarrow> 'x \<Rightarrow> go_error option \<times> 'x" where
  "gcloud_Init env cfg x =
     (case gc_MkdirAll env (gc_RunBase cfg) 448 x of
        (Some err, x') \<Rightarrow> (Some (WrapError ''gcloudcli: mkdir runBase'' err), x')
      | (None, x') \<Rightarrow> (None, x'))"

definition writeTokenFile :: "'x gcloud_env \<Rightarrow> tokenTarget \<Rightarrow> 'x \<Rightarrow> go_error option \<times> 'x" where
  "writeTokenFile env t x =
     (case gcpPrintAccessToken env (tt_account t) (tt_sa t) x of
        (Inl err, x') \<Rightarrow> (Some err, x')
      | (Inr token, x') \<Rightarrow> gc_WriteFile env (tt_tokenFilePath t) token 384 x')"

definition gcloud_Materialize :: "'x gcloud_env \<Rightarrow> string \<Rightarrow> 'x gcloud_state \<Rightarrow> go_error option \<times> 'x gcloud_state" where
  "gcloud_Materialize env projectPath st =
     (case st of (b, x) \<Rightarrow>
        (case map_of (tokenTargets b) projectPath of
           None \<Rightarrow> (None, st)
         | Some target \<Rightarrow> (case writeTokenFile env target x of (err, x') \<Rightarrow> (err, (b, x')))))"

text \<open>refreshAllTokens: the sweep over the projects in the order of one range loop; it returns nil.\<close>

fun refresh_sweep :: "'x gcloud_env \<Rightarrow> string list \<Rightarrow> 'x gcloud_state \<Rightarrow> 'x gcloud_state" where
  "refresh_sweep env [] st = st"
| "refresh_sweep env (p # ps) st = refresh_sweep env ps (snd (gcloud_Materialize env p st))"

definition refreshAllTokens :: "'x gcloud_env \<Rightarrow> 'x gcloud_state \<Rightarrow> go_error option \<times> 'x gcloud_state" where
  "refreshAllTokens env st = (None, refresh_sweep env (map fst (tokenTargets (fst st))) st)"

definition removeExistingSocket :: "'x gcloud_env \<Rightarrow> string \<Rightarrow> 'x \<Rightarrow> go_error option \<times> 'x" where
  "removeExistingSocket env path x =
     (case gc_Stat env path x of
        NotExist \<Rightarrow> (None, x)
      | StatError err \<Rightarrow> (Some err, x)
      | StatMode isSocket \<Rightarrow>
          if \<not> isSocket then (Some (PlainError (''gcloudcli: '' @ path @ '' exists and is not a socket'')), x)
          else gc_Remove env path x)"

definition metadataListen :: "'x gcloud_env \<Rightarrow> string \<Rightarrow> 'x \<Rightarrow> go_error option \<times> 'x" where
  "metadataListen env sockPath x =
     (case removeExistingSocket env sockPath x of
        (Some err, x1) \<Rightarrow> (Some err, x1)
      | (None, x1) \<Rightarrow>
          (case gc_Listen env sockPath x1 of
             (Some err, x2) \<Rightarrow> (Some (WrapError ''gcloudcli: listen metadata sock'' err), x2)
           | (None, x2) \<Rightarrow> (None, x2)))"

text \<open>None is a panic while the mux is built, with the target already registered and the mutex held.\<close>

definition ensureMetadataServer ::
  "'x gcloud_env \<Rightarrow> string \<Rightarrow> string \<Rightarrow> string \<Rightarrow> string \<Rightarrow> string \<Rightarrow> string \<Rightarrow> 'x gcloud_state \<Rightarrow> (go_error option \<times> 'x gcloud_state) option" where
  "ensureMetadataServer env projectPath account sa project sockPath tokenFilePath st =
     (case st of (b, x) \<Rightarrow>
        if map_of (tokenTargets b) projectPath \<noteq> None then Some (None, st)
        else (case metadataListen env sockPath x of
                (Some err, x') \<Rightarrow> Some (Some err, (b, x'))
              | (None, x') \<Rightarrow>
                  (case metadata_mux (cmp_Or sa account) of
                     None \<Rightarrow> None
                   | Some m \<Rightarrow>
                       Some (None,
                         (b\<lparr>tokenTargets := map_put (tokenTargets b) projectPath
                              \<lparr>tt_account = account, tt_sa = sa, tt_tokenFilePath = tokenFilePath\<rparr>,
                            metaServers := map_put (metaServers b) projectPath
                              (\<lparr>ms_account = account, ms_sa = sa, ms_project = project\<rparr>, m)\<rparr>, x')))))"

definition empty_spec :: Spec where
  "empty_spec = \<lparr>SpecEnv = [], Mounts = [], BridgeSpecs = []\<rparr>"

text \<open>The part of ContainerSpec after the checks of the configuration; None is the panic above.\<close>

definition gcloud_wiring ::
  "'x gcloud_env \<Rightarrow> gcloud_config \<Rightarrow> string \<Rightarrow> GCPConfig \<Rightarrow> string list \<Rightarrow> 'x gcloud_state \<Rightarrow> ((go_error + Spec) \<times> 'x gcloud_state) option" where
  "gcloud_wiring env cfg projectPath gcp projects st =
     (case st of (b, x) \<Rightarrow>
        let account = gcp_Account gcp; sa = gcp_ServiceAccount gcp; active = gcp_Active gcp;
            projectRunDir = filepath_Join (gc_RunBase cfg) (ProjectRunHash (gc_sha256 env) projectPath);
            tokenHostPath = filepath_Join projectRunDir ''gcloud-token'';
            tokenContainerPath = gc_ContainerRunDir cfg @ ''/gcloud-token'';
            metaSockHost = filepath_Join projectRunDir ''gcp-metadata.sock'';
            configContainerPath = gc_ContainerRunDir cfg @ ''/gcloud-config'';
            configDir = filepath_Join projectRunDir ''gcloud-config''
        in (case gc_MkdirAll env projectRunDir 448 x of
              (Some err, x1) \<Rightarrow> Some (Inl (WrapError ''gcloudcli: mkdir run dir'' err), (b, x1))
            | (None, x1) \<Rightarrow>
                (case ensureMetadataServer env projectPath (cmp_Or sa account) sa active metaSockHost tokenHostPath (b, x1) of
                   None \<Rightarrow> None
                 | Some (ignored, (b', x2)) \<Rightarrow>
                     (case gc_MkdirAll env configDir 493 x2 of
                        (Some err, x3) \<Rightarrow> Some (Inl (WrapError ''gcloudcli: mkdir config dir'' err), (b', x3))
                      | (None, x3) \<Rightarrow>
                          (case WriteConfigDir env configDir (cmp_Or sa account) active projects tokenContainerPath x3 of
                             (Some err, x4) \<Rightarrow> Some (Inl (WrapError ''gcloudcli: write config dir'' err), (b', x4))
                           | (None, x4) \<Rightarrow>
                               Some (Inr \<lparr>SpecEnv = gcloud_ContainerEnv configContainerPath, Mounts = [],
                                      BridgeSpecs = [\<lparr>ListenAddr = metadataListenAddr,
                                        ContainerSocketPath = gc_ContainerRunDir cfg @ ''/gcp-metadata.sock''\<rparr>]\<rparr>, (b', x4)))))))"

definition gcloud_ContainerSpec ::
  "'x gcloud_env \<Rightarrow> (string \<Rightarrow> GCPConfig) \<Rightarrow> gcloud_config \<Rightarrow> string \<Rightarrow> 'x gcloud_state \<Rightarrow> ((go_error + Spec) \<times> 'x gcloud_state) option" where
  "gcloud_ContainerSpec env gcpFor cfg projectPath st =
     (let gcp = gcpFor projectPath; account = gcp_Account gcp; sa = gcp_ServiceAccount gcp; active = gcp_Active gcp in
      if account = [] \<and> active = [] \<and> sa = [] \<and> length (gcp_Projects gcp) = 0 then Some (Inr empty_spec, st)
      else if account = [] then Some (Inl (PlainError ''gcloudcli: account is required''), st)
      else if active = [] then Some (Inl (PlainError ''gcloudcli: active is required''), st)
      else if sa \<noteq> [] then
        (if length (gcp_Projects gcp) = 0
         then Some (Inl (PlainError ''gcloudcli: projects must be set when service_account is configured''), st)
         else gcloud_wiring env cfg projectPath gcp (gcp_Projects gcp) st)
      else gcloud_wiring env cfg projectPath gcp [active] st)"

text \<open>A request on a project's socket, and the asynchronous materialize that it may start.\<close>

definition metadata_request ::
  "'x gcloud_env \<Rightarrow> string \<Rightarrow> http_request \<Rightarrow> 'x gcloud_state \<Rightarrow> (reply \<times> bool \<times> 'x gcloud_state) option" where
  "metadata_request env projectPath r st =
     (case st of (b, x) \<Rightarrow>
        (case map_of (metaServers b) projectPath of
           None \<Rightarrow> None
         | Some (s, m) \<Rightarrow> (case metadataHandler env s m r x of (rep, spawn, x') \<Rightarrow> Some (rep, spawn, (b, x')))))"

section \<open>The metadata server\<close>

lemma mux_HandleAll_Some:
  assumes "mux_HandleAll m ps = Some m'"
  shows "m' = m @ ps \<and> (distinct (map fst m) \<longrightarrow> distinct (map fst m')) \<and> (\<forall>(pat, h) \<in> set ps. literal_pattern pat)"
  using assms
proof (induction ps arbitrary: m)
  case (Cons ph ps)
  obtain pat h where ph: "ph = (pat, h)" by (rule prod.exhaust)
  with Cons.prems have p: "literal_pattern pat" "pat \<notin> set (map fst m)" "mux_HandleAll (m @ [(pat, h)]) ps = Some m'"
    by (auto simp: mux_Handle_def split: if_splits option.splits)
  note IH = Cons.IH [OF p(3)]
  then have d: "distinct (map fst (m @ [(pat, h)])) \<longrightarrow> distinct (map fst m')" by blast
  show ?case
  proof (intro conjI)
    show "distinct (map fst m) \<longrightarrow> distinct (map fst m')" using d p(2) by simp
  qed (use IH p(1) ph in simp_all)
qed simp

lemma metadata_mux_Some:
  assumes "metadata_mux prin = Some m"
  shows "m = meta_patterns prin \<and> distinct (map fst m)"
  using mux_HandleAll_Some [OF assms [unfolded metadata_mux_def]] by (simp only: list.map distinct.simps append_Nil) blast

lemma meta_patterns_rooted: "(pat, h) \<in> set (meta_patterns prin) \<Longrightarrow> HasPrefix pat ''/''"
  by (auto simp: meta_patterns_def sa_endpoints_def metadataSABase_def metadataProjectPath_def)

lemma meta_token_only:
  assumes "(pat, MetaToken) \<in> set (meta_patterns prin)"
  shows "\<exists>seg \<in> {''default'', prin}. pat = metadataSABase @ seg @ ''/token''"
  using assms by (auto simp: meta_patterns_def sa_endpoints_def saSegments_def metadataSADefault_def split: if_splits)

lemma serve_endpoint_unflavored:
  "\<not> checkFlavor r \<Longrightarrow> serve_endpoint env s e r x = (resp, spawn, x') \<Longrightarrow> resp \<in> {http_NotFound, flavor_refused} \<and> \<not> spawn \<and> x' = x"
  by (cases e) (auto simp: serve_endpoint_def Let_def split: if_splits)

lemma serve_endpoint_spawn:
  "serve_endpoint env s e r x = (resp, True, x') \<Longrightarrow>
     e = MetaToken \<and> checkFlavor r \<and> (\<exists>token. gcpPrintAccessToken env (ms_account s) (ms_sa s) x = (Inr token, x'))"
  by (cases e) (auto simp: serve_endpoint_def Let_def split: if_splits prod.splits sum.splits)

lemma serve_endpoint_other: "e \<noteq> MetaToken \<Longrightarrow> serve_endpoint env s e r x = (resp, spawn, x') \<Longrightarrow> \<not> spawn \<and> x' = x"
  by (cases e) (auto simp: serve_endpoint_def Let_def)

section \<open>Reachable builders\<close>

definition run_dir :: "'x gcloud_env \<Rightarrow> gcloud_config \<Rightarrow> string \<Rightarrow> string" where
  "run_dir env cfg projectPath = filepath_Join (gc_RunBase cfg) (ProjectRunHash (gc_sha256 env) projectPath)"

text \<open>
  What happens to a builder: calls of ContainerSpec, under configurations that may change,
  materializing one project or all, and requests to the metadata servers.
\<close>

inductive gcloud_step :: "'x gcloud_env \<Rightarrow> gcloud_config \<Rightarrow> 'x gcloud_state \<Rightarrow> 'x gcloud_state \<Rightarrow> bool" for env cfg where
  spec: "gcloud_ContainerSpec env gcpFor cfg p st = Some (r, st') \<Longrightarrow> gcloud_step env cfg st st'"
| materialize: "gcloud_Materialize env p st = (e, st') \<Longrightarrow> gcloud_step env cfg st st'"
| sweep: "refreshAllTokens env st = (e, st') \<Longrightarrow> gcloud_step env cfg st st'"
| request: "metadata_request env p r st = Some (rep, spawn, st') \<Longrightarrow> gcloud_step env cfg st st'"
| outside: "gcloud_step env cfg (b, x) (b, x')"

inductive_cases gcloud_stepE: "gcloud_step env cfg st st'"

text \<open>A target with the metadata server of its project.\<close>

definition target_ok :: "'x gcloud_env \<Rightarrow> gcloud_config \<Rightarrow> gcloud_builder \<Rightarrow> string \<Rightarrow> tokenTarget \<Rightarrow> bool" where
  "target_ok env cfg b p t \<longleftrightarrow>
     tt_tokenFilePath t = filepath_Join (run_dir env cfg p) ''gcloud-token'' \<and>
     tt_account t \<noteq> [] \<and> (tt_sa t \<noteq> [] \<longrightarrow> tt_account t = tt_sa t) \<and>
     (\<exists>project. map_of (metaServers b) p =
        Some (\<lparr>ms_account = tt_account t, ms_sa = tt_sa t, ms_project = project\<rparr>, meta_patterns (tt_account t))) \<and>
     distinct (map fst (meta_patterns (tt_account t)))"

definition builder_ok :: "'x gcloud_env \<Rightarrow> gcloud_config \<Rightarrow> gcloud_builder \<Rightarrow> bool" where
  "builder_ok env cfg b \<longleftrightarrow>
     (\<forall>p t. map_of (tokenTargets b) p = Some t \<longrightarrow> target_ok env cfg b p t) \<and>
     (\<forall>p. map_of (tokenTargets b) p = None \<longrightarrow> map_of (metaServers b) p = None)"

lemma ensureMetadataServer_ok:
  assumes "ensureMetadataServer env p account sa project sock (filepath_Join (run_dir env cfg p) ''gcloud-token'') (b, x) = Some (e, (b', x'))"
    and "builder_ok env cfg b" and "account \<noteq> []" and "sa \<noteq> [] \<longrightarrow> account = sa"
  shows "builder_ok env cfg b' \<and> (\<forall>q t. map_of (tokenTargets b) q = Some t \<longrightarrow> map_of (tokenTargets b') q = Some t)"
proof (cases "b' = b")
  case True
  with assms(2) show ?thesis by simp
next
  case False
  have "cmp_Or sa account = account" using assms(3,4) by (auto simp: cmp_Or_def)
  with False assms(1) obtain m where m: "metadata_mux account = Some m" and fresh: "map_of (tokenTargets b) p = None"
    and b': "b' = b\<lparr>tokenTargets := map_put (tokenTargets b) p \<lparr>tt_account = account, tt_sa = sa, tt_tokenFilePath = filepath_Join (run_dir env cfg p) ''gcloud-token''\<rparr>,
        metaServers := map_put (metaServers b) p (\<lparr>ms_account = account, ms_sa = sa, ms_project = project\<rparr>, m)\<rparr>"
    by (auto simp: ensureMetadataServer_def split: if_splits prod.splits option.splits)
  from metadata_mux_Some [OF m] fresh assms(2-4) show ?thesis
    unfolding b' by (auto simp: builder_ok_def target_ok_def)
qed

lemma gcloud_Materialize_builder: "fst (snd (gcloud_Materialize env p st)) = fst st"
  by (auto simp: gcloud_Materialize_def split: prod.splits option.splits)

lemma refresh_sweep_builder: "fst (refresh_sweep env ps st) = fst st"
  by (induction ps arbitrary: st) (simp_all add: gcloud_Materialize_builder)

lemma metadata_request_builder: "metadata_request env p r st = Some (rep, spawn, st') \<Longrightarrow> fst st' = fst st"
  by (auto simp: metadata_request_def split: prod.splits option.splits)

definition keeps_targets :: "gcloud_builder \<Rightarrow> gcloud_builder \<Rightarrow> bool" where
  "keeps_targets b b' \<longleftrightarrow> (\<forall>q t. map_of (tokenTargets b) q = Some t \<longrightarrow> map_of (tokenTargets b') q = Some t)"

lemma gcloud_wiring_ok:
  assumes "gcloud_wiring env cfg p gcp projects (b, x) = Some (r, (b', x'))" "builder_ok env cfg b" "gcp_Account gcp \<noteq> []"
  shows "builder_ok env cfg b' \<and> keeps_targets b b'"
proof -
  let ?prin = "cmp_Or (gcp_ServiceAccount gcp) (gcp_Account gcp)"
  have prin: "?prin \<noteq> []" "gcp_ServiceAccount gcp \<noteq> [] \<longrightarrow> ?prin = gcp_ServiceAccount gcp"
    using assms(3) by (auto simp: cmp_Or_def)
  have ens: "builder_ok env cfg c \<and> keeps_targets b c"
    if "ensureMetadataServer env p ?prin (gcp_ServiceAccount gcp) project sock (filepath_Join (run_dir env cfg p) ''gcloud-token'') (b, y) = Some (e, (c, y'))"
    for project sock y e c y'
    unfolding keeps_targets_def by (rule ensureMetadataServer_ok [OF that assms(2) prin])
  have refl: "builder_ok env cfg b \<and> keeps_targets b b" using assms(2) by (simp add: keeps_targets_def)
  show ?thesis
    using assms(1) ens refl
    by (auto simp: gcloud_wiring_def run_dir_def [symmetric] Let_def split: prod.splits option.splits)
qed

lemma gcloud_ContainerSpec_ok:
  assumes "gcloud_ContainerSpec env gcpFor cfg p (b, x) = Some (r, (b', x'))" "builder_ok env cfg b"
  shows "builder_ok env cfg b' \<and> keeps_targets b b'"
proof -
  have refl: "builder_ok env cfg b \<and> keeps_targets b b" using assms(2) by (simp add: keeps_targets_def)
  show ?thesis
    using assms(1) refl gcloud_wiring_ok [OF _ assms(2)]
    by (auto simp: gcloud_ContainerSpec_def Let_def split: if_splits)
qed

lemma gcloud_step_ok:
  assumes "gcloud_step env cfg st st'" "builder_ok env cfg (fst st)"
  shows "builder_ok env cfg (fst st') \<and> keeps_targets (fst st) (fst st')"
  using assms(1)
proof (cases rule: gcloud_step.cases)
  case (spec gcpFor p r)
  then show ?thesis using gcloud_ContainerSpec_ok [of env gcpFor cfg p "fst st" "snd st" r "fst st'" "snd st'"] assms(2) by simp
next
  case (materialize p e)
  then have "fst st' = fst st" using gcloud_Materialize_builder [of env p st] by simp
  then show ?thesis using assms(2) by (simp add: keeps_targets_def)
next
  case (sweep e)
  then have "fst st' = fst st" by (auto simp: refreshAllTokens_def refresh_sweep_builder)
  then show ?thesis using assms(2) by (simp add: keeps_targets_def)
next
  case (request p r rep spawn)
  then have "fst st' = fst st" by (rule metadata_request_builder)
  then show ?thesis using assms(2) by (simp add: keeps_targets_def)
next
  case (outside b x x')
  then show ?thesis using assms(2) by (simp add: keeps_targets_def)
qed

lemma gcloud_steps_ok:
  assumes "(gcloud_step env cfg)\<^sup>*\<^sup>* st st'" "builder_ok env cfg (fst st)"
  shows "builder_ok env cfg (fst st') \<and> keeps_targets (fst st) (fst st')"
  using assms(1)
proof (induction rule: rtranclp_induct)
  case base
  then show ?case using assms(2) by (simp add: keeps_targets_def)
next
  case (step y z)
  then show ?case using gcloud_step_ok [OF step.hyps(2)] by (auto simp: keeps_targets_def)
qed

lemma reachable_builder_ok:
  "(gcloud_step env cfg)\<^sup>*\<^sup>* (gcloud_NewSpecBuilder, x0) (b, x) \<Longrightarrow> builder_ok env cfg b"
  using gcloud_steps_ok [of env cfg "(gcloud_NewSpecBuilder, x0)" "(b, x)"]
  by (simp add: gcloud_NewSpecBuilder_def builder_ok_def)

section \<open>Properties\<close>

text \<open>The arguments of the gcloud command that a target leads to.\<close>

definition target_args :: "tokenTarget \<Rightarrow> string list" where
  "target_args t =
     (if tt_sa t = [] then [''auth'', ''application-default'', ''print-access-token'']
      else [''auth'', ''print-access-token'', ''--account='' @ tt_sa t, ''--impersonate-service-account='' @ tt_sa t])"

lemma target_args_eq: "target_ok env cfg b p t \<Longrightarrow> buildPrintAccessTokenArgs (tt_account t) (tt_sa t) = target_args t"
  by (auto simp: target_ok_def target_args_def buildPrintAccessTokenArgs_def)

text \<open>A builder under a configuration that gives every project the same answer throughout.\<close>

inductive stable_step :: "'x gcloud_env \<Rightarrow> gcloud_config \<Rightarrow> (string \<Rightarrow> GCPConfig) \<Rightarrow> 'x gcloud_state \<Rightarrow> 'x gcloud_state \<Rightarrow> bool"
  for env cfg gcpFor where
  stable_spec: "gcloud_ContainerSpec env gcpFor cfg p st = Some (r, st') \<Longrightarrow> stable_step env cfg gcpFor st st'"
| stable_materialize: "gcloud_Materialize env p st = (e, st') \<Longrightarrow> stable_step env cfg gcpFor st st'"
| stable_sweep: "refreshAllTokens env st = (e, st') \<Longrightarrow> stable_step env cfg gcpFor st st'"
| stable_request: "metadata_request env p r st = Some (rep, spawn, st') \<Longrightarrow> stable_step env cfg gcpFor st st'"
| stable_outside: "stable_step env cfg gcpFor (b, x) (b, x')"

lemma stable_step_gcloud: "stable_step env cfg gcpFor st st' \<Longrightarrow> gcloud_step env cfg st st'"
  by (induction rule: stable_step.induct) (auto intro: gcloud_step.intros)

lemma stable_steps_gcloud: "(stable_step env cfg gcpFor)\<^sup>*\<^sup>* st st' \<Longrightarrow> (gcloud_step env cfg)\<^sup>*\<^sup>* st st'"
  by (induction rule: rtranclp_induct) (auto intro: rtranclp.rtrancl_into_rtrancl stable_step_gcloud)

definition registered_as :: "(string \<Rightarrow> GCPConfig) \<Rightarrow> gcloud_builder \<Rightarrow> bool" where
  "registered_as gcpFor b \<longleftrightarrow>
     (\<forall>p t. map_of (tokenTargets b) p = Some t \<longrightarrow>
        tt_sa t = gcp_ServiceAccount (gcpFor p) \<and> tt_account t = cmp_Or (gcp_ServiceAccount (gcpFor p)) (gcp_Account (gcpFor p)))"

lemma ensureMetadataServer_targets:
  "ensureMetadataServer env p account sa project sock file (b, x) = Some (e, (b', x')) \<Longrightarrow>
     tokenTargets b' = tokenTargets b \<or>
     tokenTargets b' = map_put (tokenTargets b) p \<lparr>tt_account = account, tt_sa = sa, tt_tokenFilePath = file\<rparr>"
  by (auto simp: ensureMetadataServer_def split: if_splits prod.splits option.splits)

lemma gcloud_wiring_targets:
  assumes "gcloud_wiring env cfg p gcp projects (b, x) = Some (r, (b', x'))"
  shows "tokenTargets b' = tokenTargets b \<or>
    (\<exists>file. tokenTargets b' = map_put (tokenTargets b) p
       \<lparr>tt_account = cmp_Or (gcp_ServiceAccount gcp) (gcp_Account gcp), tt_sa = gcp_ServiceAccount gcp, tt_tokenFilePath = file\<rparr>)"
  using assms
  by (auto simp: gcloud_wiring_def Let_def split: prod.splits option.splits dest!: ensureMetadataServer_targets)

lemma stable_step_registered:
  assumes "stable_step env cfg gcpFor st st'" "registered_as gcpFor (fst st)"
  shows "registered_as gcpFor (fst st')"
  using assms(1)
proof (cases rule: stable_step.cases)
  case (stable_spec p r)
  obtain b x b' x' where st: "st = (b, x)" "st' = (b', x')" by (cases st; cases st') auto
  have "tokenTargets b' = tokenTargets b \<or> (\<exists>file. tokenTargets b' = map_put (tokenTargets b) p
       \<lparr>tt_account = cmp_Or (gcp_ServiceAccount (gcpFor p)) (gcp_Account (gcpFor p)), tt_sa = gcp_ServiceAccount (gcpFor p), tt_tokenFilePath = file\<rparr>)"
    using stable_spec gcloud_wiring_targets [of env cfg p "gcpFor p" _ b x r b' x'] unfolding st
    by (auto simp: gcloud_ContainerSpec_def Let_def split: if_splits)
  with assms(2) show ?thesis unfolding st by (auto simp: registered_as_def split: if_splits)
next
  case (stable_materialize p e)
  then have "fst st' = fst st" using gcloud_Materialize_builder [of env p st] by simp
  then show ?thesis using assms(2) by simp
next
  case (stable_sweep e)
  then have "fst st' = fst st" by (auto simp: refreshAllTokens_def refresh_sweep_builder)
  then show ?thesis using assms(2) by simp
next
  case (stable_request p r rep spawn)
  then have "fst st' = fst st" by (rule metadata_request_builder)
  then show ?thesis using assms(2) by simp
next
  case (stable_outside b x x')
  then show ?thesis using assms(2) by simp
qed

lemma stable_registered:
  "(stable_step env cfg gcpFor)\<^sup>*\<^sup>* (gcloud_NewSpecBuilder, x0) st \<Longrightarrow> registered_as gcpFor (fst st)"
proof (induction rule: rtranclp_induct)
  case base
  then show ?case by (simp add: registered_as_def gcloud_NewSpecBuilder_def)
qed (rule stable_step_registered)

lemma materialize_run:
  assumes "(gcloud_step env cfg)\<^sup>*\<^sup>* (gcloud_NewSpecBuilder, x0) (b, x)" "map_of (tokenTargets b) p = Some t"
    and "gcloud_Materialize env p (b, x) = (e, (b', x'))"
  shows "b' = b \<and>
    (case run_gcloud env (target_args t) x of
       (Inl err, z) \<Rightarrow> e = Some err \<and> x' = z
     | (Inr out, z) \<Rightarrow> gc_WriteFile env (filepath_Join (run_dir env cfg p) ''gcloud-token'') (TrimSpace out) 384 z = (e, x'))"
proof -
  have k: "target_ok env cfg b p t" using reachable_builder_ok [OF assms(1)] assms(2) by (simp add: builder_ok_def)
  from assms(2,3) target_args_eq [OF k] k show ?thesis
    by (auto simp: gcloud_Materialize_def writeTokenFile_def gcpPrintAccessToken_def target_ok_def split: prod.splits sum.splits)
qed

text \<open>
  C25 (invariant). Under a configuration that stays the same, Materialize of a registered project
  touches only the project's own token: it runs gcloud once, for the application default
  credentials if the project has no service account and otherwise impersonating exactly the
  service account that the configuration gives this project, and writes the trimmed output to the
  token file in the run directory of the project's own path, with mode 0600; or it reports
  gcloud's error and writes nothing. (Which account the flag --account names is left open.)
\<close>

theorem materialize_own_token:
  assumes "(stable_step env cfg gcpFor)\<^sup>*\<^sup>* (gcloud_NewSpecBuilder, x0) (b, x)" "p \<in> fst ` set (tokenTargets b)"
    and "gcloud_Materialize env p (b, x) = (e, (b', x'))"
  shows "b' = b \<and>
    (\<exists>account. case run_gcloud env
         (if gcp_ServiceAccount (gcpFor p) = [] then [''auth'', ''application-default'', ''print-access-token'']
          else [''auth'', ''print-access-token'', ''--account='' @ account,
                ''--impersonate-service-account='' @ gcp_ServiceAccount (gcpFor p)]) x of
       (Inl err, z) \<Rightarrow> e = Some err \<and> x' = z
     | (Inr out, z) \<Rightarrow>
         gc_WriteFile env (filepath_Join (filepath_Join (gc_RunBase cfg) (ProjectRunHash (gc_sha256 env) p)) ''gcloud-token'')
           (TrimSpace out) 384 z = (e, x'))"
proof -
  obtain t where t: "map_of (tokenTargets b) p = Some t"
    using assms(2) by (cases "map_of (tokenTargets b) p") (auto simp: map_of_eq_None_iff)
  have sa: "tt_sa t = gcp_ServiceAccount (gcpFor p)" using stable_registered [OF assms(1)] t by (simp add: registered_as_def)
  note run = materialize_run [OF stable_steps_gcloud [OF assms(1)] t assms(3), unfolded target_args_def run_dir_def sa]
  show ?thesis by (rule conjI [OF conjunct1 [OF run]], rule exI) (rule conjunct2 [OF run])
qed

text \<open>
  A registration never changes afterwards, whatever the configuration says later, and a service
  account's own address is what is passed as the account.
\<close>

theorem registration_kept:
  assumes "(gcloud_step env cfg)\<^sup>*\<^sup>* (gcloud_NewSpecBuilder, x0) (b, x)" "map_of (tokenTargets b) p = Some t"
    and "(gcloud_step env cfg)\<^sup>*\<^sup>* (b, x) (c, y)"
  shows "map_of (tokenTargets c) p = Some t"
  using gcloud_steps_ok [OF assms(3)] reachable_builder_ok [OF assms(1)] assms(2) by (simp add: keeps_targets_def)

theorem service_account_as_account:
  assumes "(gcloud_step env cfg)\<^sup>*\<^sup>* (gcloud_NewSpecBuilder, x0) (b, x)" "map_of (tokenTargets b) p = Some t" "tt_sa t \<noteq> []"
  shows "tt_account t = tt_sa t \<and> target_args t =
    [''auth'', ''print-access-token'', ''--account='' @ tt_sa t, ''--impersonate-service-account='' @ tt_sa t]"
  using reachable_builder_ok [OF assms(1)] assms(2,3) by (auto simp: builder_ok_def target_ok_def target_args_def)

text \<open>
  C24 (safety). The metadata server obeys the flavor protocol: a request without the header
  Metadata-Flavor: Google starts no gcloud process and no write of a token file, and is answered
  with a redirect, 404 or 403. With the header, only a token path of the project's own principal
  starts gcloud.
\<close>

theorem metadata_requires_flavor:
  assumes "(gcloud_step env cfg)\<^sup>*\<^sup>* (gcloud_NewSpecBuilder, x0) (b, x)" "metadata_request env p r (b, x) = Some (rep, spawn, (b', x'))"
  shows "b' = b \<and>
    (\<not> checkFlavor r \<longrightarrow> \<not> spawn \<and> x' = x \<and> (\<forall>resp. rep = Replied resp \<longrightarrow> resp \<in> {Some http_NotFound, Some flavor_refused})) \<and>
    (spawn \<or> x' \<noteq> x \<longrightarrow>
      (\<exists>t pat seg. map_of (tokenTargets b) p = Some t \<and> mux_dispatch (meta_patterns (tt_account t)) r = MuxHandler pat MetaToken \<and>
         seg \<in> {''default'', tt_account t} \<and> pat = metadataSABase @ seg @ ''/token''))"
proof -
  from assms(2) obtain s m where s: "map_of (metaServers b) p = Some (s, m)" "metadataHandler env s m r x = (rep, spawn, x')" "b' = b"
    by (auto simp: metadata_request_def split: option.splits prod.splits)
  note ok = reachable_builder_ok [OF assms(1)]
  with s(1) obtain t where t: "map_of (tokenTargets b) p = Some t"
    by (cases "map_of (tokenTargets b) p") (auto simp: builder_ok_def)
  with ok have "target_ok env cfg b p t" by (simp add: builder_ok_def)
  with s(1) have m: "m = meta_patterns (tt_account t)" by (auto simp: target_ok_def)
  show ?thesis
  proof (cases "mux_dispatch m r")
    case (MuxHandler pat e)
    obtain resp sp y where e: "serve_endpoint env s e r x = (resp, sp, y)" by (metis prod.exhaust)
    with MuxHandler s(2) have h: "rep = Replied (Some resp)" "spawn = sp" "x' = y" by (auto simp: metadataHandler_def)
    have "\<exists>t pat seg. map_of (tokenTargets b) p = Some t \<and> mux_dispatch (meta_patterns (tt_account t)) r = MuxHandler pat MetaToken \<and>
         seg \<in> {''default'', tt_account t} \<and> pat = metadataSABase @ seg @ ''/token''" if "spawn \<or> x' \<noteq> x"
    proof -
      from that h e serve_endpoint_other have "e = MetaToken" by metis
      with MuxHandler m mux_dispatch_registered have "(pat, MetaToken) \<in> set (meta_patterns (tt_account t))" by metis
      from meta_token_only [OF this] t MuxHandler m \<open>e = MetaToken\<close> show ?thesis by blast
    qed
    then show ?thesis using h s(3) serve_endpoint_unflavored [OF _ e] by auto
  qed (use s(2,3) in \<open>auto simp: metadataHandler_def\<close>)
qed

lemma token_endpoint:
  "checkFlavor r \<Longrightarrow> serve_endpoint env s MetaToken r x =
     (case run_gcloud env (buildPrintAccessTokenArgs (ms_account s) (ms_sa s)) x of
        (Inl err, x') \<Rightarrow> (flavored (http_Error ''token fetch failed'' 500), False, x')
      | (Inr out, x') \<Rightarrow>
          (flavored (ok_response ''application/json'' (json_encode (tokenResponse (TrimSpace out)) @ [CHR 0x0A])), True, x'))"
  by (simp add: serve_endpoint_def gcpPrintAccessToken_def Let_def split: prod.splits sum.splits)

text \<open>
  The token path of a registered project, asked for with the flavor header, runs
  gcloud once with the registration's arguments and answers with the trimmed token as JSON, 1800
  seconds to live, and starts the write of the token file; when gcloud fails it answers 500
  without the error's text and starts nothing.
\<close>

theorem metadata_token_response:
  assumes "(gcloud_step env cfg)\<^sup>*\<^sup>* (gcloud_NewSpecBuilder, x0) (b, x)" "map_of (tokenTargets b) p = Some t"
    and "Path (URL r) = metadataSABase @ ''default/token''" "RawPath (URL r) = []" "checkFlavor r"
  shows "metadata_request env p r (b, x) =
    Some (case run_gcloud env (target_args t) x of
       (Inl err, x') \<Rightarrow> (Replied (Some (flavored (http_Error ''token fetch failed'' 500))), False, (b, x'))
     | (Inr out, x') \<Rightarrow>
         (Replied (Some (flavored (ok_response ''application/json'' (json_encode (tokenResponse (TrimSpace out)) @ [CHR 0x0A])))), True, (b, x')))"
proof -
  have ok: "target_ok env cfg b p t"
    using reachable_builder_ok [OF assms(1)] assms(2) by (simp add: builder_ok_def)
  then obtain project where s: "map_of (metaServers b) p =
      Some (\<lparr>ms_account = tt_account t, ms_sa = tt_sa t, ms_project = project\<rparr>, meta_patterns (tt_account t))"
    and dist: "distinct (map fst (meta_patterns (tt_account t)))" by (auto simp: target_ok_def)
  let ?tok = "metadataSABase @ ''default/token''"
  have mem: "(?tok, MetaToken) \<in> set (meta_patterns (tt_account t))"
    by (auto simp: meta_patterns_def sa_endpoints_def saSegments_def metadataSADefault_def)
  have "plain_path ?tok" "cleanPath ?tok = ?tok" by code_simp+
  with mem dist assms(3,4) have "mux_dispatch (meta_patterns (tt_account t)) r = MuxHandler ?tok MetaToken"
    by (intro mux_dispatch_exact) (auto dest: meta_patterns_rooted)
  then show ?thesis
    using s target_args_eq [OF ok]
    by (simp add: metadata_request_def metadataHandler_def token_endpoint [OF assms(5)] split: prod.splits sum.splits)
qed

section \<open>Witnesses\<close>

text \<open>A host whose world is the list of the files written; gcloud prints a token in any mode.\<close>

definition gd_env :: "(string \<times> bytes) list gcloud_env" where
  "gd_env =
     \<lparr>run_gcloud = \<lambda>args x. (Inr '' ya29.tok '', x), gc_MkdirAll = \<lambda>p m x. (None, x), gc_WriteFile = \<lambda>p d m x. (None, x @ [(p, d)]),
      gc_Stat = \<lambda>p x. NotExist, gc_Remove = \<lambda>p x. (None, x), gc_Listen = \<lambda>p x. (None, x), gc_sha256 = \<lambda>s. ''abcdef''\<rparr>"

definition gd_cfg :: gcloud_config where
  "gd_cfg = \<lparr>gc_RunBase = ''/run'', gc_ContainerRunDir = ''/run/credproxy''\<rparr>"

definition gd_gcp :: GCPConfig where
  "gd_gcp = \<lparr>gcp_Account = ''u@example.com'', gcp_ServiceAccount = [], gcp_Active = ''proj'', gcp_Projects = []\<rparr>"

definition gd_target :: tokenTarget where
  "gd_target = \<lparr>tt_account = ''u@example.com'', tt_sa = [], tt_tokenFilePath = ''/run/616263646566/gcloud-token''\<rparr>"

definition gd_state :: "(string \<times> bytes) list gcloud_state" where
  "gd_state = snd (the (gcloud_ContainerSpec gd_env (\<lambda>p. gd_gcp) gd_cfg ''/home/p'' (gcloud_NewSpecBuilder, [])))"

lemma gd_spec: "gcloud_ContainerSpec gd_env (\<lambda>p. gd_gcp) gd_cfg ''/home/p'' (gcloud_NewSpecBuilder, []) \<noteq> None"
  by code_simp

lemma gd_reachable: "(gcloud_step gd_env gd_cfg)\<^sup>*\<^sup>* (gcloud_NewSpecBuilder, []) (fst gd_state, snd gd_state)"
proof -
  obtain r st where "gcloud_ContainerSpec gd_env (\<lambda>p. gd_gcp) gd_cfg ''/home/p'' (gcloud_NewSpecBuilder, []) = Some (r, st)"
    using gd_spec by auto
  then show ?thesis using gcloud_step.spec by (fastforce simp: gd_state_def)
qed

lemma gd_registered: "map_of (tokenTargets (fst gd_state)) ''/home/p'' = Some gd_target"
  by code_simp

definition sa_gcp :: GCPConfig where
  "sa_gcp = \<lparr>gcp_Account = ''u@example.com'', gcp_ServiceAccount = ''sa@example.com'', gcp_Active = ''proj'', gcp_Projects = [''proj'']\<rparr>"

definition sa_state :: "(string \<times> bytes) list gcloud_state" where
  "sa_state = snd (the (gcloud_ContainerSpec gd_env (\<lambda>p. sa_gcp) gd_cfg ''/home/p'' (gcloud_NewSpecBuilder, [])))"

lemma sa_reachable: "(stable_step gd_env gd_cfg (\<lambda>p. sa_gcp))\<^sup>*\<^sup>* (gcloud_NewSpecBuilder, []) (fst sa_state, snd sa_state)"
proof -
  have "gcloud_ContainerSpec gd_env (\<lambda>p. sa_gcp) gd_cfg ''/home/p'' (gcloud_NewSpecBuilder, []) \<noteq> None" by code_simp
  then obtain r st where "gcloud_ContainerSpec gd_env (\<lambda>p. sa_gcp) gd_cfg ''/home/p'' (gcloud_NewSpecBuilder, []) = Some (r, st)" by auto
  then show ?thesis using stable_step.stable_spec by (fastforce simp: sa_state_def)
qed

theorem materialize_own_token_witness:
  "\<exists>account. run_gcloud gd_env [''auth'', ''print-access-token'', ''--account='' @ account, ''--impersonate-service-account=sa@example.com''] (snd sa_state) =
     (Inr '' ya29.tok '', snd sa_state) \<and>
   gc_WriteFile gd_env (filepath_Join (filepath_Join ''/run'' ''616263646566'') ''gcloud-token'') ''ya29.tok'' 384 (snd sa_state) =
     (None, snd sa_state @ [(''/run/616263646566/gcloud-token'', ''ya29.tok'')])"
proof -
  have m: "gcloud_Materialize gd_env ''/home/p'' (fst sa_state, snd sa_state) =
      (None, (fst sa_state, snd sa_state @ [(''/run/616263646566/gcloud-token'', ''ya29.tok'')]))"
    by code_simp
  have r: "''/home/p'' \<in> fst ` set (tokenTargets (fst sa_state))" by code_simp
  have "run_gcloud gd_env a x = (Inr '' ya29.tok '', x)" for a x by (simp add: gd_env_def)
  moreover have "TrimSpace '' ya29.tok '' = ''ya29.tok''" "ProjectRunHash (gc_sha256 gd_env) ''/home/p'' = ''616263646566''"
      "gc_RunBase gd_cfg = ''/run''" by code_simp+
  ultimately show ?thesis
    using materialize_own_token [OF sa_reachable r m] by (simp add: sa_gcp_def)
qed

definition gd_request :: "header \<Rightarrow> http_request" where
  "gd_request h =
     \<lparr>ReqMethod = ''GET'', URL = \<lparr>Scheme = [], UrlHost = [], Path = metadataSABase @ ''default/token'', RawPath = [], RawQuery = []\<rparr>, ReqHost = [], ReqHeader = h,
      Body = \<lparr>stream_data = [], stream_fails = False\<rparr>, ContentLength = 0\<rparr>"

lemma gd_unflavored:
  "metadata_request gd_env ''/home/p'' (gd_request Map.empty) (fst gd_state, snd gd_state) =
     Some (Replied (Some flavor_refused), False, (fst gd_state, snd gd_state))"
proof -
  have "map_option snd (map_of (metaServers (fst gd_state)) ''/home/p'') = Some (meta_patterns ''u@example.com'')" by code_simp
  then obtain s where "map_of (metaServers (fst gd_state)) ''/home/p'' = Some (s, meta_patterns ''u@example.com'')" by auto
  moreover have "mux_dispatch (meta_patterns ''u@example.com'') (gd_request Map.empty) = MuxHandler (metadataSABase @ ''default/token'') MetaToken"
    by code_simp
  moreover have "\<not> checkFlavor (gd_request Map.empty)"
    by (simp add: checkFlavor_def gd_request_def Header_Get_def Header_Values_def metadataFlavor_def)
  ultimately show ?thesis by (simp add: metadata_request_def metadataHandler_def serve_endpoint_def case_prod_beta)
qed

theorem metadata_requires_flavor_witness:
  "\<exists>spawn x'. metadata_request gd_env ''/home/p'' (gd_request Map.empty) (fst gd_state, snd gd_state) =
     Some (Replied (Some flavor_refused), spawn, (fst gd_state, x')) \<and> \<not> spawn \<and> x' = snd gd_state"
proof -
  have no: "\<not> checkFlavor (gd_request Map.empty)"
    by (simp add: checkFlavor_def gd_request_def Header_Get_def Header_Values_def metadataFlavor_def)
  obtain spawn x' where run: "metadata_request gd_env ''/home/p'' (gd_request Map.empty) (fst gd_state, snd gd_state) =
     Some (Replied (Some flavor_refused), spawn, (fst gd_state, x'))" using gd_unflavored by blast
  from metadata_requires_flavor [OF gd_reachable run] no have "\<not> spawn \<and> x' = snd gd_state" by blast
  with run show ?thesis by blast
qed

theorem metadata_token_response_witness:
  "metadata_request gd_env ''/home/p'' (gd_request (Header_Set Map.empty ''Metadata-Flavor'' ''Google'')) (fst gd_state, snd gd_state) =
     Some (Replied (Some (flavored (ok_response ''application/json'' (json_encode (tokenResponse ''ya29.tok'') @ [CHR 0x0A])))), True,
       (fst gd_state, snd gd_state))"
proof -
  let ?r = "gd_request (Header_Set Map.empty ''Metadata-Flavor'' ''Google'')"
  have f: "checkFlavor ?r"
    by (simp add: checkFlavor_def gd_request_def Header_Get_def Header_Values_def Header_Set_def metadataFlavor_def)
  have p: "Path (URL ?r) = metadataSABase @ ''default/token''" "RawPath (URL ?r) = []" by (simp_all add: gd_request_def)
  have "run_gcloud gd_env a x = (Inr '' ya29.tok '', x)" for a x by (simp add: gd_env_def)
  moreover have "TrimSpace '' ya29.tok '' = ''ya29.tok''" by code_simp
  ultimately show ?thesis using metadata_token_response [OF gd_reachable gd_registered p f] by simp
qed

end
