(* ===== verification/Ssh_Agent.thy ===== *)
theory Ssh_Agent
  imports Aws_Sso
begin

text \<open>
  The SSH agent provider, providers/sshagent/provider.go: one ssh-agent process per project, started
  on the project's first launch, awaited on its socket and loaded with the project's keys. Processes,
  the file system, the clock and SHA-256 are parameters. The mutex makes a call of keysSpec or
  watchShutdown one step. Time passes in every call, reading the clock included.
\<close>

section \<open>Duration.String\<close>

definition frac_string :: "nat \<Rightarrow> nat \<Rightarrow> string" where
  "frac_string prec v =
     (let digits = rev (dropWhile (\<lambda>c. c = CHR ''0'') (rev (pad prec (v mod 10 ^ prec))))
      in if digits = [] then [] else CHR ''.'' # digits)"

definition duration_magnitude :: "nat \<Rightarrow> string" where
  "duration_magnitude u =
     (if u = 0 then ''0s''
      else if u < 1000 then decimal u @ ''ns''
      else if u < 1000000 then decimal (u div 1000) @ frac_string 3 u @ [CHR 0xC2, CHR 0xB5] @ ''s''
      else if u < 1000000000 then decimal (u div 1000000) @ frac_string 6 u @ ''ms''
      else
        let s = u div 1000000000; m = s div 60; h = m div 60 in
        (if 0 < h then decimal h @ ''h'' else []) @ (if 0 < m then decimal (m mod 60) @ ''m'' else []) @
        decimal (s mod 60) @ frac_string 9 u @ ''s'')"

definition duration_String :: "duration \<Rightarrow> string" where
  "duration_String d =
     (if sint d < 0 then CHR ''-'' # duration_magnitude (nat (- sint d)) else duration_magnitude (nat (sint d)))"

section \<open>The provider\<close>

definition agentReadyTimeout :: duration where
  "agentReadyTimeout = 5 * second"

definition agentReadyPoll :: duration where
  "agentReadyPoll = 50000000"

record ssh_config =
  ssh_RunBase :: string
  ssh_ContainerRunDir :: string

text \<open>
  What the provider asks the system. ssh_Dial dials, and closes a connection it got again;
  ssh_Start runs ssh-agent -D -a with the socket path; ssh_Add runs ssh-add with SSH_AUTH_SOCK set
  to the socket; ssh_Home is empty when the home directory is unknown. keysFor, the callback of the
  embedding program, answers as the world is at the call.
\<close>

record ('p, 'x) ssh_env =
  keysFor :: "string \<Rightarrow> 'x \<Rightarrow> string list"
  ssh_Home :: string
  ssh_sha256 :: "bytes \<Rightarrow> bytes"
  ssh_MkdirAll :: "string \<Rightarrow> nat \<Rightarrow> 'x \<Rightarrow> go_error option \<times> 'x"
  ssh_Remove :: "string \<Rightarrow> 'x \<Rightarrow> go_error option \<times> 'x"
  ssh_Start :: "string \<Rightarrow> 'x \<Rightarrow> (go_error + 'p) \<times> 'x"
  ssh_Kill :: "'p \<Rightarrow> 'x \<Rightarrow> go_error option \<times> 'x"
  ssh_Now :: "'x \<Rightarrow> instant \<times> 'x"
  ssh_Dial :: "string \<Rightarrow> duration \<Rightarrow> 'x \<Rightarrow> go_error option \<times> 'x"
  ssh_Sleep :: "duration \<Rightarrow> 'x \<Rightarrow> 'x"
  ssh_Stat :: "string \<Rightarrow> 'x \<Rightarrow> go_error option \<times> 'x"
  ssh_Add :: "string \<Rightarrow> string \<Rightarrow> 'x \<Rightarrow> go_error option \<times> 'x"

record 'p ephemeralAgent =
  sockPath :: string
  agent_cmd :: 'p

type_synonym ('p, 'x) ssh_state = "(string \<times> 'p ephemeralAgent) list \<times> 'x"

definition ssh_NewSpecBuilder :: "'x \<Rightarrow> ('p, 'x) ssh_state" where
  "ssh_NewSpecBuilder x = ([], x)"

definition ssh_Init :: "('p, 'x) ssh_env \<Rightarrow> ssh_config \<Rightarrow> 'x \<Rightarrow> go_error option \<times> 'x" where
  "ssh_Init env cfg x = ssh_MkdirAll env (ssh_RunBase cfg) 448 x"

definition ssh_Materialize :: "string \<Rightarrow> ('p, 'x) ssh_state \<Rightarrow> go_error option \<times> ('p, 'x) ssh_state" where
  "ssh_Materialize projectPath st = (None, st)"

definition expandHome :: "('p, 'x) ssh_env \<Rightarrow> string \<Rightarrow> string" where
  "expandHome env path = (if HasPrefix path ''~/'' then filepath_Join (ssh_Home env) (drop 2 path) else path)"

text \<open>The loop of waitForSocket: True when a dial succeeded, False when the deadline passed.\<close>

partial_function (option) wait_loop ::
  "('p, 'x) ssh_env \<Rightarrow> string \<Rightarrow> duration \<Rightarrow> instant \<Rightarrow> 'x \<Rightarrow> (bool \<times> 'x) option" where
  "wait_loop env path poll deadline x =
     (case ssh_Now env x of (now, x1) \<Rightarrow>
        if now < deadline then
          (case ssh_Dial env path poll x1 of
             (None, x2) \<Rightarrow> Some (True, x2)
           | (Some err, x2) \<Rightarrow> wait_loop env path poll deadline (ssh_Sleep env poll x2))
        else Some (False, x1))"

declare wait_loop.simps [code]

definition waitForSocket ::
  "('p, 'x) ssh_env \<Rightarrow> string \<Rightarrow> duration \<Rightarrow> duration \<Rightarrow> 'x \<Rightarrow> (go_error option \<times> 'x) option" where
  "waitForSocket env path timeout poll x =
     (case ssh_Now env x of (now, x1) \<Rightarrow>
        (case wait_loop env path poll (time_Add now timeout) x1 of
           None \<Rightarrow> None
         | Some (ready, x2) \<Rightarrow>
             Some (if ready then None else Some (PlainError (''timed out after '' @ duration_String timeout)), x2)))"

fun addKeys :: "('p, 'x) ssh_env \<Rightarrow> string \<Rightarrow> string list \<Rightarrow> 'x \<Rightarrow> 'x" where
  "addKeys env sock [] x = x"
| "addKeys env sock (k # ks) x =
     (case ssh_Stat env k x of
        (Some err, x1) \<Rightarrow> addKeys env sock ks x1
      | (None, x1) \<Rightarrow> addKeys env sock ks (snd (ssh_Add env sock k x1)))"

definition agent_run_dir :: "('p, 'x) ssh_env \<Rightarrow> ssh_config \<Rightarrow> string \<Rightarrow> string" where
  "agent_run_dir env cfg projectPath = filepath_Join (ssh_RunBase cfg) (ProjectRunHash (ssh_sha256 env) projectPath)"

definition agent_sock :: "('p, 'x) ssh_env \<Rightarrow> ssh_config \<Rightarrow> string \<Rightarrow> string" where
  "agent_sock env cfg projectPath = filepath_Join (agent_run_dir env cfg projectPath) ''agent.sock''"

definition spawnAgent ::
  "('p, 'x) ssh_env \<Rightarrow> ssh_config \<Rightarrow> string \<Rightarrow> string list \<Rightarrow> 'x \<Rightarrow> ((go_error + 'p ephemeralAgent) \<times> 'x) option" where
  "spawnAgent env cfg projectPath keys x =
     (let sock = agent_sock env cfg projectPath in
      case ssh_MkdirAll env (agent_run_dir env cfg projectPath) 448 x of
        (Some err, x1) \<Rightarrow> Some (Inl (WrapError ''sshagent: mkdir run dir'' err), x1)
      | (None, x1) \<Rightarrow>
          (case ssh_Start env sock (snd (ssh_Remove env sock x1)) of
             (Inl err, x2) \<Rightarrow> Some (Inl (WrapError ''ssh-agent'' err), x2)
           | (Inr proc, x2) \<Rightarrow>
               (case waitForSocket env sock agentReadyTimeout agentReadyPoll x2 of
                  None \<Rightarrow> None
                | Some (Some err, x3) \<Rightarrow>
                    Some (Inl (WrapError ''ssh-agent socket not ready'' err), snd (ssh_Kill env proc x3))
                | Some (None, x3) \<Rightarrow>
                    Some (Inr \<lparr>sockPath = sock, agent_cmd = proc\<rparr>, addKeys env sock keys x3))))"

definition agent_spec :: "ssh_config \<Rightarrow> Spec" where
  "agent_spec cfg = \<lparr>SpecEnv = [(''SSH_AUTH_SOCK'', ssh_ContainerRunDir cfg @ ''/agent.sock'')], Mounts = [], BridgeSpecs = []\<rparr>"

definition keysSpec ::
  "('p, 'x) ssh_env \<Rightarrow> ssh_config \<Rightarrow> string \<Rightarrow> string list \<Rightarrow> ('p, 'x) ssh_state \<Rightarrow> ((go_error + Spec) \<times> ('p, 'x) ssh_state) option" where
  "keysSpec env cfg projectPath keys st =
     (case st of (agents, x) \<Rightarrow>
        if map_of agents projectPath \<noteq> None then Some (Inr (agent_spec cfg), st)
        else (case spawnAgent env cfg projectPath keys x of
                None \<Rightarrow> None
              | Some (Inl err, x') \<Rightarrow> Some (Inl (WrapError ''sshagent: spawn agent'' err), (agents, x'))
              | Some (Inr a, x') \<Rightarrow> Some (Inr (agent_spec cfg), (map_put agents projectPath a, x'))))"

definition ssh_ContainerSpec ::
  "('p, 'x) ssh_env \<Rightarrow> ssh_config \<Rightarrow> string \<Rightarrow> ('p, 'x) ssh_state \<Rightarrow> ((go_error + Spec) \<times> ('p, 'x) ssh_state) option" where
  "ssh_ContainerSpec env cfg projectPath st =
     (let keys = keysFor env projectPath (snd st) in
      if length keys = 0 then Some (Inr \<lparr>SpecEnv = [], Mounts = [], BridgeSpecs = []\<rparr>, st)
      else keysSpec env cfg projectPath (map (expandHome env) keys) st)"

text \<open>After the context is done: every agent is killed and its socket removed. The map stays.\<close>

fun kill_agents :: "('p, 'x) ssh_env \<Rightarrow> 'p ephemeralAgent list \<Rightarrow> 'x \<Rightarrow> 'x" where
  "kill_agents env [] x = x"
| "kill_agents env (a # as) x =
     kill_agents env as (snd (ssh_Remove env (sockPath a) (snd (ssh_Kill env (agent_cmd a) x))))"

definition watchShutdown :: "('p, 'x) ssh_env \<Rightarrow> ('p, 'x) ssh_state \<Rightarrow> ('p, 'x) ssh_state" where
  "watchShutdown env st = (case st of (agents, x) \<Rightarrow> (agents, kill_agents env (map snd agents) x))"

section \<open>What the provider relies on\<close>

text \<open>
  The clock never runs backwards and a sleep lasts as long as it was asked to. dials counts the
  dials of a world.
\<close>

definition clock_runs :: "('p, 'x) ssh_env \<Rightarrow> ('x \<Rightarrow> instant) \<Rightarrow> ('x \<Rightarrow> nat) \<Rightarrow> bool" where
  "clock_runs env clock dials \<longleftrightarrow>
     (\<forall>x. clock x \<le> fst (ssh_Now env x) \<and> fst (ssh_Now env x) \<le> clock (snd (ssh_Now env x)) \<and> dials (snd (ssh_Now env x)) = dials x) \<and>
     (\<forall>p d x. clock x \<le> clock (snd (ssh_Dial env p d x)) \<and> dials (snd (ssh_Dial env p d x)) = Suc (dials x)) \<and>
     (\<forall>d x. clock x + sint d \<le> clock (ssh_Sleep env d x) \<and> dials (ssh_Sleep env d x) = dials x)"

text \<open>No other call of the system dials.\<close>

definition dials_only_in_dial :: "('p, 'x) ssh_env \<Rightarrow> ('x \<Rightarrow> nat) \<Rightarrow> bool" where
  "dials_only_in_dial env dials \<longleftrightarrow>
     (\<forall>p m x. dials (snd (ssh_MkdirAll env p m x)) = dials x) \<and> (\<forall>p x. dials (snd (ssh_Remove env p x)) = dials x) \<and>
     (\<forall>p x. dials (snd (ssh_Start env p x)) = dials x) \<and> (\<forall>p x. dials (snd (ssh_Kill env p x)) = dials x) \<and>
     (\<forall>k x. dials (snd (ssh_Stat env k x)) = dials x) \<and> (\<forall>p k x. dials (snd (ssh_Add env p k x)) = dials x)"

text \<open>
  loaded x s are the keys that the agent answering at s holds. ssh-add adds the one key to the
  agent at its socket, nothing answers at a path that was removed (os.Remove may fail, and then an
  agent may go on answering there), a new agent holds no key, and nothing else adds a key.
\<close>

definition tracks_keys :: "('p, 'x) ssh_env \<Rightarrow> ('x \<Rightarrow> string \<Rightarrow> string set) \<Rightarrow> bool" where
  "tracks_keys env loaded \<longleftrightarrow>
     (\<forall>p m x s. loaded (snd (ssh_MkdirAll env p m x)) s \<subseteq> loaded x s) \<and>
     (\<forall>p x. (fst (ssh_Remove env p x) = None \<longrightarrow> loaded (snd (ssh_Remove env p x)) p = {}) \<and> (\<forall>s. loaded (snd (ssh_Remove env p x)) s \<subseteq> loaded x s)) \<and>
     (\<forall>p x s. loaded (snd (ssh_Start env p x)) s \<subseteq> loaded x s) \<and>
     (\<forall>p x s. loaded (snd (ssh_Kill env p x)) s \<subseteq> loaded x s) \<and>
     (\<forall>x s. loaded (snd (ssh_Now env x)) s \<subseteq> loaded x s) \<and>
     (\<forall>p d x s. loaded (snd (ssh_Dial env p d x)) s \<subseteq> loaded x s) \<and>
     (\<forall>d x s. loaded (ssh_Sleep env d x) s \<subseteq> loaded x s) \<and>
     (\<forall>k x s. loaded (snd (ssh_Stat env k x)) s \<subseteq> loaded x s) \<and>
     (\<forall>p k x s. loaded (snd (ssh_Add env p k x)) s \<subseteq> loaded x s \<union> (if s = p then {k} else {}))"

lemma tracks_keysD:
  assumes "tracks_keys env loaded"
  shows "loaded (snd (ssh_MkdirAll env p m x)) s \<subseteq> loaded x s"
    and "fst (ssh_Remove env p x) = None \<Longrightarrow> loaded (snd (ssh_Remove env p x)) p = {}"
    and "loaded (snd (ssh_Remove env p x)) s \<subseteq> loaded x s"
    and "loaded (snd (ssh_Start env p x)) s \<subseteq> loaded x s"
    and "loaded (snd (ssh_Kill env proc x)) s \<subseteq> loaded x s"
    and "loaded (snd (ssh_Now env x)) s \<subseteq> loaded x s"
    and "loaded (snd (ssh_Dial env p d x)) s \<subseteq> loaded x s"
    and "loaded (ssh_Sleep env d x) s \<subseteq> loaded x s"
    and "loaded (snd (ssh_Stat env k x)) s \<subseteq> loaded x s"
    and "loaded (snd (ssh_Add env p k x)) s \<subseteq> loaded x s \<union> (if s = p then {k} else {})"
  using assms by (simp_all only: tracks_keys_def)

text \<open>
  The socket is free for the agent that a launch is about to start: the removal of what is there
  succeeds, or no agent answers there.
\<close>

definition clean_start :: "('p, 'x) ssh_env \<Rightarrow> ssh_config \<Rightarrow> ('x \<Rightarrow> string \<Rightarrow> string set) \<Rightarrow> string \<Rightarrow> 'x \<Rightarrow> bool" where
  "clean_start env cfg loaded p x \<longleftrightarrow>
     (let x1 = snd (ssh_MkdirAll env (agent_run_dir env cfg p) 448 x); sock = agent_sock env cfg p
      in fst (ssh_Remove env sock x1) = None \<or> loaded x1 sock = {})"

text \<open>
  The life of a builder that is asked for the projects in P: launches that find the socket free
  when they start an agent, the shutdown, and what others do to the world meanwhile, such as
  changing the keys of a project.
\<close>

inductive ssh_step :: "('p, 'x) ssh_env \<Rightarrow> ssh_config \<Rightarrow> ('x \<Rightarrow> string \<Rightarrow> string set) \<Rightarrow> ('x \<Rightarrow> 'x \<Rightarrow> bool) \<Rightarrow> string set
    \<Rightarrow> ('p, 'x) ssh_state \<Rightarrow> ('p, 'x) ssh_state \<Rightarrow> bool"
  for env cfg loaded others P where
  launch: "\<lbrakk>p \<in> P; ssh_ContainerSpec env cfg p (agents, x) = Some (r, st'); map_of agents p = None \<Longrightarrow> clean_start env cfg loaded p x\<rbrakk>
     \<Longrightarrow> ssh_step env cfg loaded others P (agents, x) st'"
| shutdown: "ssh_step env cfg loaded others P st (watchShutdown env st)"
| outside: "others x x' \<Longrightarrow> ssh_step env cfg loaded others P (agents, x) (agents, x')"

section \<open>Waiting for the socket\<close>

lemma wait_loop_returns:
  assumes "clock_runs env clock dials" "0 < sint poll"
  shows "clock x + int n * sint poll \<ge> deadline \<Longrightarrow>
    \<exists>ready x'. wait_loop env path poll deadline x = Some (ready, x') \<and> dials x' \<le> dials x + n \<and> (\<not> ready \<longrightarrow> deadline \<le> clock x')"
proof (induction n arbitrary: x)
  case 0
  obtain now x1 where n: "ssh_Now env x = (now, x1)" by (rule prod.exhaust)
  with assms(1) have "clock x \<le> now" "now \<le> clock x1" "dials x1 = dials x" by (auto simp: clock_runs_def dest!: spec [of _ x])
  then show ?case using 0 n by (subst wait_loop.simps) auto
next
  case (Suc n)
  obtain now x1 where n: "ssh_Now env x = (now, x1)" by (rule prod.exhaust)
  obtain e x2 where d: "ssh_Dial env path poll x1 = (e, x2)" by (rule prod.exhaust)
  have c1: "clock x \<le> now" "now \<le> clock x1" "dials x1 = dials x"
    using assms(1) n unfolding clock_runs_def by (metis fst_conv snd_conv)+
  have c2: "clock x1 \<le> clock x2" "dials x2 = Suc (dials x1)"
    using assms(1) d unfolding clock_runs_def by (metis snd_conv)+
  let ?x3 = "ssh_Sleep env poll x2"
  have c3: "clock x2 + sint poll \<le> clock ?x3" "dials ?x3 = dials x2"
    using assms(1) unfolding clock_runs_def by blast+
  have "deadline \<le> clock ?x3 + int n * sint poll" using Suc.prems c1 c2 c3 by (simp add: distrib_right)
  from Suc.IH [OF this] c1 c2 c3 obtain ready x' where
    "wait_loop env path poll deadline ?x3 = Some (ready, x')" "dials x' \<le> dials x + Suc n" "\<not> ready \<longrightarrow> deadline \<le> clock x'"
    by auto
  with n d c1 c2 show ?case by (subst wait_loop.simps) (auto split: option.splits)
qed

lemma ready_poll: "sint agentReadyPoll = 50000000" "sint agentReadyTimeout = 5000000000"
  by code_simp+

lemma waitForSocket_bounded:
  assumes "clock_runs env clock dials"
  shows "\<exists>err x'. waitForSocket env path agentReadyTimeout agentReadyPoll x = Some (err, x') \<and> dials x' \<le> dials x + 100 \<and>
    (err \<noteq> None \<longrightarrow> clock x + 5000000000 \<le> clock x')"
proof -
  obtain now x1 where n: "ssh_Now env x = (now, x1)" by (rule prod.exhaust)
  have c1: "clock x \<le> now" "now \<le> clock x1" "dials x1 = dials x"
    using assms n unfolding clock_runs_def by (metis fst_conv snd_conv)+
  have "time_Add now agentReadyTimeout \<le> clock x1 + int 100 * sint agentReadyPoll" using c1 by (simp add: time_Add_def ready_poll)
  from wait_loop_returns [OF assms _ this, of path] c1 show ?thesis
    by (auto simp: waitForSocket_def n ready_poll time_Add_def)
qed

section \<open>Keys\<close>

lemma wait_loop_keys:
  assumes "wait_loop env path poll deadline x = Some rx" "tracks_keys env loaded"
  shows "loaded (snd rx) s \<subseteq> loaded x s"
proof -
  let ?P = "\<lambda>env path poll deadline x rx. tracks_keys env loaded \<longrightarrow> loaded (snd rx) s \<subseteq> loaded x s"
  have "?P env path poll deadline x rx"
  proof (rule wait_loop.raw_induct [where P = ?P and xa = "((((env, path), poll), deadline), x)", simplified])
    fix loop path poll deadline x rx and env :: "('b, 'a) ssh_env"
    assume IH: "\<And>env path poll deadline x rx. loop env path poll deadline x = Some rx \<Longrightarrow> ?P env path poll deadline x rx"
      and eq: "(case ssh_Now env x of (now, x1) \<Rightarrow>
        if now < deadline then
          (case ssh_Dial env path poll x1 of
             (None, x2) \<Rightarrow> Some (True, x2)
           | (Some err, x2) \<Rightarrow> loop env path poll deadline (ssh_Sleep env poll x2))
        else Some (False, x1)) = Some rx"
    obtain now x1 where n: "ssh_Now env x = (now, x1)" by (rule prod.exhaust)
    obtain e x2 where d: "ssh_Dial env path poll x1 = (e, x2)" by (rule prod.exhaust)
    have l: "loaded x1 s \<subseteq> loaded x s" "loaded x2 s \<subseteq> loaded x s" "loaded (ssh_Sleep env poll x2) s \<subseteq> loaded x s"
      if t: "tracks_keys env loaded"
      using tracks_keysD(6) [OF t, of x s] tracks_keysD(7) [OF t, of path poll x1 s] tracks_keysD(8) [OF t, of poll x2 s] n d
      by auto
    show "?P env path poll deadline x rx"
    proof (cases "now < deadline \<and> e \<noteq> None")
      case True
      then have "loop env path poll deadline (ssh_Sleep env poll x2) = Some rx" using eq n d by auto
      with IH l show ?thesis by blast
    next
      case False
      then show ?thesis using eq n d l by (auto split: if_splits)
    qed
  qed (use assms(1) in simp)
  with assms(2) show ?thesis by simp
qed

lemma waitForSocket_keys:
  assumes "tracks_keys env loaded" "waitForSocket env path timeout poll x = Some (err, x')"
  shows "loaded x' s \<subseteq> loaded x s"
proof -
  obtain now x1 where n: "ssh_Now env x = (now, x1)" by (rule prod.exhaust)
  have "loaded x1 s \<subseteq> loaded x s" using tracks_keysD(6) [OF assms(1), of x s] n by simp
  moreover obtain ready where "wait_loop env path poll (time_Add now timeout) x1 = Some (ready, x')"
    using assms(2) n by (auto simp: waitForSocket_def split: option.splits)
  ultimately show ?thesis using wait_loop_keys [OF _ assms(1)] by fastforce
qed

lemma addKeys_keys:
  "tracks_keys env loaded \<Longrightarrow> loaded (addKeys env sock keys x) s \<subseteq> loaded x s \<union> (if s = sock then set keys else {})"
proof (induction keys arbitrary: x)
  case (Cons k ks)
  obtain e x1 where st: "ssh_Stat env k x = (e, x1)" by (rule prod.exhaust)
  have "loaded x1 s \<subseteq> loaded x s" using tracks_keysD(9) [OF Cons.prems, of k x s] st by simp
  moreover have "loaded (snd (ssh_Add env sock k x1)) s \<subseteq> loaded x1 s \<union> (if s = sock then {k} else {})"
    by (rule tracks_keysD(10) [OF Cons.prems])
  ultimately show ?case using Cons.IH [OF Cons.prems, of x1] Cons.IH [OF Cons.prems, of "snd (ssh_Add env sock k x1)"]
    by (cases e) (auto simp: st split: if_splits)
qed simp

lemma spawnAgent_keys:
  assumes "tracks_keys env loaded" "spawnAgent env cfg p keys x = Some (r, x')" "clean_start env cfg loaded p x"
  shows "\<And>s. s \<noteq> agent_sock env cfg p \<Longrightarrow> loaded x' s \<subseteq> loaded x s"
    and "\<And>a. r = Inr a \<Longrightarrow> sockPath a = agent_sock env cfg p \<and> loaded x' (agent_sock env cfg p) \<subseteq> set keys"
proof -
  let ?sock = "agent_sock env cfg p"
  obtain e x1 where m: "ssh_MkdirAll env (agent_run_dir env cfg p) 448 x = (e, x1)" by (rule prod.exhaust)
  let ?x1 = "snd (ssh_Remove env ?sock x1)"
  obtain q x2 where st: "ssh_Start env ?sock ?x1 = (q, x2)" by (rule prod.exhaust)
  note t = tracks_keysD [OF assms(1)]
  have l1: "loaded x1 s \<subseteq> loaded x s" for s using t(1) [of "agent_run_dir env cfg p" 448 x s] m by simp
  have l2: "loaded x2 s \<subseteq> loaded x s" for s using l1 [of s] t(3) [of ?sock x1 s] t(4) [of ?sock ?x1 s] st by auto
  have z: "loaded x2 ?sock = {}"
    using assms(3) t(2) [of ?sock x1] t(3) [of ?sock x1 ?sock] t(4) [of ?sock ?x1 ?sock] m st by (auto simp: clean_start_def Let_def)
  have w: "loaded x3 s \<subseteq> loaded x2 s" if "waitForSocket env ?sock agentReadyTimeout agentReadyPoll x2 = Some (err, x3)" for err x3 s
    by (rule waitForSocket_keys [OF assms(1) that])
  note add = addKeys_keys [OF assms(1), of ?sock keys] and k = t(5)
  show "loaded x' s \<subseteq> loaded x s" if "s \<noteq> ?sock" for s
    using assms(2) that m st l1 [of s] l2 [of s]
    by (auto simp: spawnAgent_def Let_def split: option.splits sum.splits prod.splits dest!: w [of _ _ s] subsetD [OF add] subsetD [OF k])
  show "sockPath a = ?sock \<and> loaded x' ?sock \<subseteq> set keys" if "r = Inr a" for a
    using assms(2) that m st z
    by (auto simp: spawnAgent_def Let_def split: option.splits sum.splits prod.splits dest!: w [of _ _ ?sock] subsetD [OF add])
qed

lemma kill_agents_keys: "tracks_keys env loaded \<Longrightarrow> loaded (kill_agents env as x) s \<subseteq> loaded x s"
proof (induction as arbitrary: x)
  case (Cons a as)
  note t = tracks_keysD [OF Cons.prems]
  from Cons show ?case using t(3) [of "sockPath a" "snd (ssh_Kill env (agent_cmd a) x)" s] t(5) [of "agent_cmd a" x s] by fastforce
qed simp

text \<open>
  Every registered agent is at its project's own socket, and holds only keys that were listed for
  the project when the launch that started it asked for them.
\<close>

definition started_with ::
  "('p, 'x) ssh_env \<Rightarrow> ssh_config \<Rightarrow> ('x \<Rightarrow> string \<Rightarrow> string set) \<Rightarrow> ('x \<Rightarrow> 'x \<Rightarrow> bool) \<Rightarrow> string set \<Rightarrow> 'x \<Rightarrow> ('p, 'x) ssh_state \<Rightarrow> string \<Rightarrow> 'x \<Rightarrow> bool" where
  "started_with env cfg loaded others P x0 st p y \<longleftrightarrow>
     (\<exists>agents spec st'. (ssh_step env cfg loaded others P)\<^sup>*\<^sup>* (ssh_NewSpecBuilder x0) (agents, y) \<and> map_of agents p = None \<and>
        ssh_ContainerSpec env cfg p (agents, y) = Some (Inr spec, st') \<and> (ssh_step env cfg loaded others P)\<^sup>*\<^sup>* st' st)"

definition agents_ok ::
  "('p, 'x) ssh_env \<Rightarrow> ssh_config \<Rightarrow> ('x \<Rightarrow> string \<Rightarrow> string set) \<Rightarrow> ('x \<Rightarrow> 'x \<Rightarrow> bool) \<Rightarrow> string set \<Rightarrow> 'x \<Rightarrow> ('p, 'x) ssh_state \<Rightarrow> bool" where
  "agents_ok env cfg loaded others P x0 st \<longleftrightarrow>
     (\<forall>p a. map_of (fst st) p = Some a \<longrightarrow> p \<in> P \<and> sockPath a = agent_sock env cfg p \<and>
        (\<exists>y. started_with env cfg loaded others P x0 st p y \<and>
           loaded (snd st) (agent_sock env cfg p) \<subseteq> expandHome env ` set (keysFor env p y)))"

lemma started_with_step:
  "started_with env cfg loaded others P x0 st p y \<Longrightarrow> ssh_step env cfg loaded others P st st' \<Longrightarrow> started_with env cfg loaded others P x0 st' p y"
  unfolding started_with_def by (meson rtranclp.rtrancl_into_rtrancl)

text \<open>A step that registers nothing and adds no key keeps it.\<close>

lemma agents_ok_keep:
  assumes "agents_ok env cfg loaded others P x0 st" "ssh_step env cfg loaded others P st st'" "fst st' = fst st"
    and "\<And>s. s \<in> agent_sock env cfg ` fst ` set (fst st) \<Longrightarrow> loaded (snd st') s \<subseteq> loaded (snd st) s"
  shows "agents_ok env cfg loaded others P x0 st'"
  unfolding agents_ok_def assms(3)
proof (intro allI impI)
  fix p a
  assume p: "map_of (fst st) p = Some a"
  with assms(1) obtain y where y: "p \<in> P" "sockPath a = agent_sock env cfg p" "started_with env cfg loaded others P x0 st p y"
    "loaded (snd st) (agent_sock env cfg p) \<subseteq> expandHome env ` set (keysFor env p y)" unfolding agents_ok_def by blast
  have "agent_sock env cfg p \<in> agent_sock env cfg ` fst ` set (fst st)" using p by (force dest: map_of_SomeD)
  from assms(4) [OF this] y started_with_step [OF y(3) assms(2)]
  show "p \<in> P \<and> sockPath a = agent_sock env cfg p \<and> (\<exists>y. started_with env cfg loaded others P x0 st' p y \<and>
           loaded (snd st') (agent_sock env cfg p) \<subseteq> expandHome env ` set (keysFor env p y))" by blast
qed

lemma agents_ok_spawn:
  assumes ok: "agents_ok env cfg loaded others P x0 (agents, x)" and t: "tracks_keys env loaded" and inj: "inj_on (agent_sock env cfg) P" and p: "p \<in> P"
    and none: "map_of agents p = None" and clean: "clean_start env cfg loaded p x"
    and reach: "(ssh_step env cfg loaded others P)\<^sup>*\<^sup>* (ssh_NewSpecBuilder x0) (agents, x)"
    and spec: "ssh_ContainerSpec env cfg p (agents, x) = Some (r, st')" and changed: "st' \<noteq> (agents, x)"
  shows "agents_ok env cfg loaded others P x0 st'"
proof -
  let ?keys = "map (expandHome env) (keysFor env p x)"
  have step: "ssh_step env cfg loaded others P (agents, x) st'" by (rule ssh_step.launch [OF p spec]) (rule clean)
  obtain q x' where sp: "spawnAgent env cfg p ?keys x = Some (q, x')" "st' = (case q of Inl err \<Rightarrow> agents | Inr a \<Rightarrow> map_put agents p a, x')"
    "\<And>a. q = Inr a \<Longrightarrow> \<exists>s. r = Inr s"
    using spec none changed by (auto simp: ssh_ContainerSpec_def keysSpec_def Let_def split: if_splits option.splits sum.splits)
  note keys = spawnAgent_keys [OF t sp(1) clean]
  have other: "loaded x' (agent_sock env cfg k) \<subseteq> loaded x (agent_sock env cfg k)" if "map_of agents k = Some a" for k a
  proof -
    have "k \<in> P" "k \<noteq> p" using that ok none by (auto simp: agents_ok_def)
    then have "agent_sock env cfg k \<noteq> agent_sock env cfg p" using inj p by (auto dest: inj_onD)
    then show ?thesis by (rule keys(1))
  qed
  have old: "k \<in> P \<and> sockPath a = agent_sock env cfg k \<and> (\<exists>y. started_with env cfg loaded others P x0 st' k y \<and>
      loaded x' (agent_sock env cfg k) \<subseteq> expandHome env ` set (keysFor env k y))" if k: "map_of agents k = Some a" for k a
    using ok other [OF k] k started_with_step [OF _ step] unfolding agents_ok_def fst_conv snd_conv by (meson subset_trans)
  show ?thesis
  proof (cases q)
    case (Inl err)
    then show ?thesis using old sp(2) by (simp add: agents_ok_def)
  next
    case (Inr a)
    obtain sp' where r: "r = Inr sp'" using sp(3) [OF Inr] by blast
    have st': "st' = (map_put agents p a, x')" using sp(2) Inr by simp
    have new: "started_with env cfg loaded others P x0 st' p x" unfolding started_with_def using reach none spec r by blast
    have a: "sockPath a = agent_sock env cfg p" "loaded x' (agent_sock env cfg p) \<subseteq> expandHome env ` set (keysFor env p x)"
      using keys(2) [OF Inr] by simp_all
    show ?thesis using old p a new by (auto simp: agents_ok_def st' split: if_splits)
  qed
qed

lemma ssh_reachable_ok:
  assumes "(ssh_step env cfg loaded others P)\<^sup>*\<^sup>* (ssh_NewSpecBuilder x0) st" "tracks_keys env loaded" "inj_on (agent_sock env cfg) P"
    and quiet: "\<forall>x x' s. others x x' \<longrightarrow> loaded x' s \<subseteq> loaded x s"
  shows "agents_ok env cfg loaded others P x0 st"
  using assms(1)
proof (induction rule: rtranclp_induct)
  case base
  show ?case by (simp add: agents_ok_def ssh_NewSpecBuilder_def)
next
  case (step y z)
  from step.hyps(2) show ?case
  proof (cases rule: ssh_step.cases)
    case (launch p agents x r)
    show ?thesis
    proof (cases "z = y")
      case True
      with step.IH show ?thesis by simp
    next
      case False
      have none: "map_of agents p = None"
        using launch(3) False launch(1) by (auto simp: ssh_ContainerSpec_def keysSpec_def Let_def split: if_splits)
      show ?thesis
        using agents_ok_spawn [OF _ assms(2,3) launch(2) none launch(4) [OF none] _ launch(3)] step launch(1) False by simp
    qed
  next
    case shutdown
    then have "fst z = fst y" "loaded (snd z) s \<subseteq> loaded (snd y) s" for s
      using kill_agents_keys [OF assms(2)] by (auto simp: watchShutdown_def split: prod.splits)
    then show ?thesis by (intro agents_ok_keep [OF step.IH step.hyps(2)])
  next
    case (outside x x' agents)
    then have "fst z = fst y" "loaded (snd z) s \<subseteq> loaded (snd y) s" for s using quiet by auto
    then show ?thesis by (intro agents_ok_keep [OF step.IH step.hyps(2)])
  qed
qed

section \<open>A system for the witnesses\<close>

text \<open>The world is a clock, the number of dials and the keys at each socket; the agent answers after 60 ms.\<close>

definition demo_ssh :: "(unit, int \<times> nat \<times> (string \<times> string) list) ssh_env" where
  "demo_ssh =
     \<lparr>keysFor = (\<lambda>p x. if p = ''/p'' then [''~/.ssh/id''] else []), ssh_Home = ''/home/u'', ssh_sha256 = (\<lambda>_. ''abcdefgh''),
      ssh_MkdirAll = (\<lambda>_ _ x. (None, x)),
      ssh_Remove = (\<lambda>p (t, n, ks). (None, (t, n, filter (\<lambda>(s, k). s \<noteq> p) ks))),
      ssh_Start = (\<lambda>_ x. (Inr (), x)), ssh_Kill = (\<lambda>_ x. (None, x)),
      ssh_Now = (\<lambda>(t, n, ks). (t, (t + 1, n, ks))),
      ssh_Dial = (\<lambda>_ _ (t, n, ks). (if t < 60000000 then Some (PlainError ''refused'') else None, (t + 1, Suc n, ks))),
      ssh_Sleep = (\<lambda>d (t, n, ks). (t + sint d, n, ks)),
      ssh_Stat = (\<lambda>_ x. (None, x)), ssh_Add = (\<lambda>s k (t, n, ks). (None, (t, n, (s, k) # ks)))\<rparr>"

definition demo_ssh_config :: ssh_config where
  "demo_ssh_config = \<lparr>ssh_RunBase = ''/run/c'', ssh_ContainerRunDir = ''/run/credproxy''\<rparr>"

definition demo_agent :: "unit ephemeralAgent" where
  "demo_agent = \<lparr>sockPath = ''/run/c/616263646566/agent.sock'', agent_cmd = ()\<rparr>"

lemma demo_ssh_clock: "clock_runs demo_ssh fst (\<lambda>x. fst (snd x))"
  by (simp add: clock_runs_def demo_ssh_def split: prod.splits)

lemma demo_ssh_dials: "dials_only_in_dial demo_ssh (\<lambda>x. fst (snd x))"
  by (simp add: dials_only_in_dial_def demo_ssh_def split: prod.splits)

lemma demo_ssh_keys: "tracks_keys demo_ssh (\<lambda>x s. {k. (s, k) \<in> set (snd (snd x))})"
  by (auto simp: tracks_keys_def demo_ssh_def split: prod.splits)

lemma demo_ssh_launch: "ssh_ContainerSpec demo_ssh demo_ssh_config ''/p'' (ssh_NewSpecBuilder (0, 0, [])) =
    Some (Inr (agent_spec demo_ssh_config),
      ([(''/p'', demo_agent)], (100000007, 3, [(''/run/c/616263646566/agent.sock'', ''/home/u/.ssh/id'')])))"
  by code_simp

lemma demo_ssh_stale: "\<exists>r x. ssh_ContainerSpec demo_ssh demo_ssh_config ''/p'' ([], (0, 0, [(''/run/c/616263646566/agent.sock'', ''/stale'')])) =
    Some (r, ([(''/p'', demo_agent)], x))"
proof -
  have "(case ssh_ContainerSpec demo_ssh demo_ssh_config ''/p'' ([], (0, 0, [(''/run/c/616263646566/agent.sock'', ''/stale'')])) of
      Some (r, (agents, x)) \<Rightarrow> agents = [(''/p'', demo_agent)] | None \<Rightarrow> False)" by code_simp
  then show ?thesis by (auto split: option.splits prod.splits)
qed

section \<open>Properties\<close>

lemma addKeys_dials: "dials_only_in_dial env dials \<Longrightarrow> dials (addKeys env sock keys x) = dials x"
proof (induction keys arbitrary: x)
  case (Cons k ks)
  obtain e x1 where st: "ssh_Stat env k x = (e, x1)" by (rule prod.exhaust)
  with Cons.prems have "dials x1 = dials x" "dials (snd (ssh_Add env sock k x1)) = dials x1"
    by (auto simp: dials_only_in_dial_def dest!: spec [of _ k] spec [of _ x])
  with Cons st show ?case by (cases e) simp_all
qed simp

lemma spawnAgent_returns:
  assumes "clock_runs env clock dials" "dials_only_in_dial env dials"
  shows "\<exists>r x'. spawnAgent env cfg p keys x = Some (r, x') \<and> dials x' \<le> dials x + 100"
proof -
  let ?sock = "agent_sock env cfg p"
  obtain e x1 where m: "ssh_MkdirAll env (agent_run_dir env cfg p) 448 x = (e, x1)" by (rule prod.exhaust)
  let ?x1 = "snd (ssh_Remove env ?sock x1)"
  obtain q x2 where st: "ssh_Start env ?sock ?x1 = (q, x2)" by (rule prod.exhaust)
  obtain err x3 where w: "waitForSocket env ?sock agentReadyTimeout agentReadyPoll x2 = Some (err, x3)" "dials x3 \<le> dials x2 + 100"
    using waitForSocket_bounded [OF assms(1), of ?sock x2] by blast
  have d: "dials x1 = dials x" "dials ?x1 = dials x1" "dials x2 = dials ?x1"
    using assms(2) m st unfolding dials_only_in_dial_def by (metis snd_conv)+
  have k: "dials (snd (ssh_Kill env proc y)) = dials y" for proc y using assms(2) by (simp add: dials_only_in_dial_def)
  show ?thesis
    using m st w d k addKeys_dials [OF assms(2), of ?sock keys x3]
    by (cases e; cases q; cases err) (simp_all add: spawnAgent_def Let_def)
qed

text \<open>
  C31 (termination). A container launch always gets its answer: with a clock that runs and sleeps
  that last as long as asked, waiting for the agent's socket ends, after at most 100 dials, so
  ContainerSpec returns in every state; it changes no project's agent but its own, and an error
  leaves the agents as they were.
\<close>

theorem ssh_launch_returns:
  assumes "clock_runs env clock dials" "dials_only_in_dial env dials"
  shows "\<exists>r agents' x'. ssh_ContainerSpec env cfg p (agents, x) = Some (r, (agents', x')) \<and> dials x' \<le> dials x + 100 \<and>
    (\<forall>q. q \<noteq> p \<longrightarrow> map_of agents' q = map_of agents q) \<and> (\<forall>err. r = Inl err \<longrightarrow> agents' = agents)"
proof -
  obtain r x' where "spawnAgent env cfg p (map (expandHome env) (keysFor env p x)) x = Some (r, x')" "dials x' \<le> dials x + 100"
    using spawnAgent_returns [OF assms] by blast
  then show ?thesis by (cases r) (simp_all add: ssh_ContainerSpec_def keysSpec_def Let_def)
qed

theorem ssh_launch_returns_witness:
  "\<exists>r agents' x'. ssh_ContainerSpec demo_ssh demo_ssh_config ''/p'' (ssh_NewSpecBuilder (0, 0, [])) = Some (r, (agents', x')) \<and>
     fst (snd x') \<le> 100"
  using ssh_launch_returns [OF demo_ssh_clock demo_ssh_dials, of demo_ssh_config "''/p''" "[]" "(0, 0, [])"]
  by (auto simp: ssh_NewSpecBuilder_def)

text \<open>
  C30 (invariant). An agent holds only keys listed for its project: in every state that launches,
  the shutdown and changes from outside can reach, for projects whose run directories differ, when
  each launch that started an agent had its socket path removed or found no agent there and nobody
  else adds keys, a registered agent is at its own project's socket, and the keys it holds are
  among those that were listed for the project in the launch that started it, with the home
  directory expanded.
\<close>

theorem ssh_agent_keys_confined:
  assumes "tracks_keys env loaded" "inj_on (agent_sock env cfg) P" "\<forall>x x' s. others x x' \<longrightarrow> loaded x' s \<subseteq> loaded x s"
    and "(ssh_step env cfg loaded others P)\<^sup>*\<^sup>* (ssh_NewSpecBuilder x0) (agents, x)" "map_of agents p = Some a"
  shows "sockPath a = agent_sock env cfg p \<and>
    (\<exists>agents0 y spec st. (ssh_step env cfg loaded others P)\<^sup>*\<^sup>* (ssh_NewSpecBuilder x0) (agents0, y) \<and> map_of agents0 p = None \<and>
       ssh_ContainerSpec env cfg p (agents0, y) = Some (Inr spec, st) \<and> (ssh_step env cfg loaded others P)\<^sup>*\<^sup>* st (agents, x) \<and>
       loaded x (sockPath a) \<subseteq> expandHome env ` set (keysFor env p y))"
proof -
  have "agents_ok env cfg loaded others P x0 (agents, x)" by (rule ssh_reachable_ok [OF assms(4,1,2,3)])
  with assms(5) obtain y where "sockPath a = agent_sock env cfg p" "started_with env cfg loaded others P x0 (agents, x) p y"
    "loaded x (agent_sock env cfg p) \<subseteq> expandHome env ` set (keysFor env p y)" unfolding agents_ok_def fst_conv snd_conv by blast
  then show ?thesis unfolding started_with_def by metis
qed

theorem ssh_agent_keys_confined_witness:
  "\<exists>x y. (ssh_step demo_ssh demo_ssh_config (\<lambda>x s. {k. (s, k) \<in> set (snd (snd x))}) (\<lambda>_ _. False) {''/p''})\<^sup>*\<^sup>*
       (ssh_NewSpecBuilder (0, 0, [(''/run/c/616263646566/agent.sock'', ''/stale'')])) ([(''/p'', demo_agent)], x) \<and>
     {k. (sockPath demo_agent, k) \<in> set (snd (snd x))} \<subseteq> expandHome demo_ssh ` set (keysFor demo_ssh ''/p'' y) \<and>
     expandHome demo_ssh ` set (keysFor demo_ssh ''/p'' y) = {''/home/u/.ssh/id''}"
proof -
  let ?l = "\<lambda>x :: int \<times> nat \<times> (string \<times> string) list. \<lambda>s. {k. (s, k) \<in> set (snd (snd x))}"
  let ?x0 = "(0, 0, [(''/run/c/616263646566/agent.sock'', ''/stale'')]) :: int \<times> nat \<times> (string \<times> string) list"
  obtain r x where l: "ssh_ContainerSpec demo_ssh demo_ssh_config ''/p'' ([], ?x0) = Some (r, ([(''/p'', demo_agent)], x))"
    using demo_ssh_stale by blast
  have "clean_start demo_ssh demo_ssh_config ?l ''/p'' ?x0" by (simp add: clean_start_def demo_ssh_def Let_def)
  then have s: "ssh_step demo_ssh demo_ssh_config ?l (\<lambda>_ _. False) {''/p''} ([], ?x0) ([(''/p'', demo_agent)], x)"
    by (intro ssh_step.launch [OF singletonI l])
  have r: "(ssh_step demo_ssh demo_ssh_config ?l (\<lambda>_ _. False) {''/p''})\<^sup>*\<^sup>* (ssh_NewSpecBuilder ?x0) ([(''/p'', demo_agent)], x)"
    using s by (simp add: ssh_NewSpecBuilder_def r_into_rtranclp)
  have e: "expandHome demo_ssh ` set (keysFor demo_ssh ''/p'' y) = {''/home/u/.ssh/id''}" for y
  proof -
    have "expandHome demo_ssh ''~/.ssh/id'' = ''/home/u/.ssh/id''" by code_simp
    then show ?thesis by (simp add: demo_ssh_def)
  qed
  have i: "inj_on (agent_sock demo_ssh demo_ssh_config) {''/p''}" "\<forall>x x' s. False \<longrightarrow> ?l x' s \<subseteq> ?l x s" by simp_all
  have m: "map_of [(''/p'', demo_agent)] ''/p'' = Some demo_agent" by simp
  from ssh_agent_keys_confined [OF demo_ssh_keys i r m] obtain y where
    "?l x (sockPath demo_agent) \<subseteq> expandHome demo_ssh ` set (keysFor demo_ssh ''/p'' y)" by blast
  with r e show ?thesis by blast
qed

text \<open>
  Once registered, an agent is handed out for the life of the builder: each later launch of the
  project with some keys gets the same spec, which has no mount, and nothing is started, asked or
  changed, whatever the keys are by then and even after a shutdown has killed the agent.
\<close>

theorem ssh_agent_kept:
  assumes "map_of agents p = Some a" "keysFor env p x \<noteq> []"
  shows "ssh_ContainerSpec env cfg p (agents, x) =
      Some (Inr \<lparr>SpecEnv = [(''SSH_AUTH_SOCK'', ssh_ContainerRunDir cfg @ ''/agent.sock'')], Mounts = [], BridgeSpecs = []\<rparr>, (agents, x)) \<and>
    map_of (fst (watchShutdown env (agents, x))) p = Some a"
  using assms by (simp add: ssh_ContainerSpec_def keysSpec_def agent_spec_def watchShutdown_def)

text \<open>
  The error of os.Remove is not looked at: when the path cannot be removed and an agent with other
  keys still answers there, the launch succeeds and hands out that agent with the foreign key.
\<close>

theorem stale_agent_reused:
  "ssh_ContainerSpec (demo_ssh\<lparr>ssh_Remove := \<lambda>_ x. (Some (PlainError ''permission denied''), x)\<rparr>) demo_ssh_config ''/p''
       (ssh_NewSpecBuilder (0, 0, [(''/run/c/616263646566/agent.sock'', ''/stale'')])) =
     Some (Inr (agent_spec demo_ssh_config), ([(''/p'', demo_agent)],
       (100000007, 3, [(sockPath demo_agent, ''/home/u/.ssh/id''), (sockPath demo_agent, ''/stale'')])))"
  by code_simp

end
