(* ===== verification/Scheduler.thy ===== *)
theory Scheduler
  imports Proxy_Server
begin

text \<open>
  Server.runScheduler of credproxy/server.go as a step relation: the loop, its timer, the clock and
  the cancellation of the context. A state has the entries, the time, the point the loop has
  reached, the world the jobs act on and a log of the runs, each with the job's position and the
  times at which it began and ended.
\<close>

section \<open>The loop\<close>

datatype sched_phase =
    Planning
  | Arming int
  | Asleep instant
  | Firing nat instant
  | SchedReturned

record 'w sched_state =
  sc_entries :: "'w sched_entry list"
  sc_time :: instant
  sc_ctxDone :: bool
  sc_phase :: sched_phase
  sc_world :: 'w
  sc_log :: "(nat \<times> instant \<times> instant) list"

definition sched_init :: "instant \<Rightarrow> 'w PeriodicJob list \<Rightarrow> 'w \<Rightarrow> 'w sched_state" where
  "sched_init now jobs w =
     \<lparr>sc_entries = sched_start now jobs, sc_time = now, sc_ctxDone = False,
      sc_phase = (if length jobs = 0 then SchedReturned else Planning), sc_world = w, sc_log = []\<rparr>"

text \<open>
  Time passes and the context is cancelled at any moment. The delay is computed at one moment and
  the timer started at a later one. When both the context is done and the timer has fired, the
  select takes either branch. The end of a run is any later time.
\<close>

inductive sched_step :: "'w sched_state \<Rightarrow> 'w sched_state \<Rightarrow> bool" where
  tick: "sc_time s \<le> t \<Longrightarrow> sched_step s (s\<lparr>sc_time := t\<rparr>)"
| cancel: "sched_step s (s\<lparr>sc_ctxDone := True\<rparr>)"
| plan: "sc_phase s = Planning \<Longrightarrow> sched_step s (s\<lparr>sc_phase := Arming (sched_delay (sc_time s) (sc_entries s))\<rparr>)"
| arm: "sc_phase s = Arming delay \<Longrightarrow> sched_step s (s\<lparr>sc_phase := Asleep (sc_time s + delay)\<rparr>)"
| stop: "\<lbrakk>sc_phase s = Asleep d; sc_ctxDone s\<rbrakk> \<Longrightarrow> sched_step s (s\<lparr>sc_phase := SchedReturned\<rparr>)"
| wake: "\<lbrakk>sc_phase s = Asleep d; d \<le> sc_time s\<rbrakk> \<Longrightarrow> sched_step s (s\<lparr>sc_phase := Firing 0 (sc_time s)\<rparr>)"
| skip: "\<lbrakk>sc_phase s = Firing i now; i < length (sc_entries s); now < nextFire (sc_entries s ! i)\<rbrakk> \<Longrightarrow>
     sched_step s (s\<lparr>sc_phase := Firing (Suc i) now\<rparr>)"
| run: "\<lbrakk>sc_phase s = Firing i now; i < length (sc_entries s); nextFire (sc_entries s ! i) \<le> now; sc_time s \<le> t;
      JobRun (entry_job (sc_entries s ! i)) (sc_world s) = (err, w)\<rbrakk> \<Longrightarrow>
     sched_step s (s\<lparr>sc_entries := (sc_entries s)[i := (sc_entries s ! i)\<lparr>nextFire := time_Add t (Every (entry_job (sc_entries s ! i)))\<rparr>],
       sc_time := t, sc_phase := Firing (Suc i) now, sc_world := w, sc_log := sc_log s @ [(i, sc_time s, t)]\<rparr>)"
| again: "\<lbrakk>sc_phase s = Firing i now; i = length (sc_entries s)\<rbrakk> \<Longrightarrow> sched_step s (s\<lparr>sc_phase := Planning\<rparr>)"

section \<open>Invariant\<close>

text \<open>Two runs in this order: the first has ended, and a job waits its interval after its own run.\<close>

definition apart :: "'w PeriodicJob list \<Rightarrow> nat \<times> instant \<times> instant \<Rightarrow> nat \<times> instant \<times> instant \<Rightarrow> bool" where
  "apart jobs r r' \<longleftrightarrow>
     (case (r, r') of ((i, b, e), (i', b', e')) \<Rightarrow> e \<le> b' \<and> (i = i' \<longrightarrow> e + sint (Every (jobs ! i)) \<le> b'))"

definition run_ok :: "instant \<Rightarrow> 'w PeriodicJob list \<Rightarrow> 'w sched_state \<Rightarrow> nat \<times> instant \<times> instant \<Rightarrow> bool" where
  "run_ok t0 jobs s r \<longleftrightarrow>
     (case r of (i, b, e) \<Rightarrow> i < length jobs \<and> t0 + sint (Every (jobs ! i)) \<le> b \<and> b \<le> e \<and> e \<le> sc_time s \<and>
        e + sint (Every (jobs ! i)) \<le> nextFire (sc_entries s ! i))"

definition run_job :: "'w PeriodicJob list \<Rightarrow> nat \<times> instant \<times> instant \<Rightarrow> 'w \<Rightarrow> 'w" where
  "run_job jobs r w = snd (JobRun (jobs ! fst r) w)"

definition sched_inv :: "instant \<Rightarrow> 'w PeriodicJob list \<Rightarrow> 'w \<Rightarrow> 'w sched_state \<Rightarrow> bool" where
  "sched_inv t0 jobs w s \<longleftrightarrow>
     map entry_job (sc_entries s) = jobs \<and> t0 \<le> sc_time s \<and>
     (\<forall>i < length jobs. t0 + sint (Every (jobs ! i)) \<le> nextFire (sc_entries s ! i)) \<and>
     (\<forall>i now. sc_phase s = Firing i now \<longrightarrow> now \<le> sc_time s \<and> i \<le> length jobs) \<and>
     (sc_phase s = SchedReturned \<longrightarrow> jobs = [] \<or> sc_ctxDone s) \<and>
     (\<forall>r \<in> set (sc_log s). run_ok t0 jobs s r) \<and> sorted_wrt (apart jobs) (sc_log s) \<and>
     sc_world s = fold (run_job jobs) (sc_log s) w"

lemma sched_init_inv: "sched_inv t0 jobs w (sched_init t0 jobs w)"
  by (simp add: sched_inv_def sched_init_def sched_start_def comp_def time_Add_def)

lemma run_ok_later: "run_ok t0 jobs s r \<Longrightarrow> sc_time s \<le> t \<Longrightarrow> run_ok t0 jobs (s\<lparr>sc_time := t\<rparr>) r"
  by (auto simp: run_ok_def split: prod.splits)

lemma run_ok_update [simp]:
  "run_ok t0 jobs (s\<lparr>sc_phase := p\<rparr>) = run_ok t0 jobs s" "run_ok t0 jobs (s\<lparr>sc_ctxDone := c\<rparr>) = run_ok t0 jobs s"
  by (simp_all add: fun_eq_iff run_ok_def)

lemma sched_run_inv:
  assumes "sched_inv t0 jobs w0 s" "sc_phase s = Firing i now" "i < length (sc_entries s)" "nextFire (sc_entries s ! i) \<le> now" "sc_time s \<le> t"
    "JobRun (entry_job (sc_entries s ! i)) (sc_world s) = (err, w)"
  shows "sched_inv t0 jobs w0 (s\<lparr>sc_entries := (sc_entries s)[i := (sc_entries s ! i)\<lparr>nextFire := time_Add t (Every (entry_job (sc_entries s ! i)))\<rparr>],
       sc_time := t, sc_phase := Firing (Suc i) now, sc_world := w, sc_log := sc_log s @ [(i, sc_time s, t)]\<rparr>)"
    (is "sched_inv t0 jobs w0 ?s'")
proof -
  have jobs: "jobs = map entry_job (sc_entries s)" and now: "now \<le> sc_time s" and t0: "t0 \<le> sc_time s"
    using assms(1,2) by (auto simp: sched_inv_def)
  have len: "length jobs = length (sc_entries s)" and job: "jobs ! i = entry_job (sc_entries s ! i)" using assms(3) by (simp_all add: jobs)
  have nx: "nextFire (sc_entries ?s' ! k) = (if k = i then t + sint (Every (jobs ! i)) else nextFire (sc_entries s ! k))" for k
    using assms(3) by (simp add: nth_list_update time_Add_def job)
  have first: "t0 + sint (Every (jobs ! k)) \<le> nextFire (sc_entries s ! k)" if "k < length jobs" for k
    using assms(1) that by (simp add: sched_inv_def)
  have old: "run_ok t0 jobs ?s' r \<and> apart jobs r (i, sc_time s, t)" if "r \<in> set (sc_log s)" for r
  proof -
    obtain k b e where r: "r = (k, b, e)" by (rule prod_cases3)
    have "run_ok t0 jobs s (k, b, e)" using assms(1) that by (simp add: sched_inv_def r)
    then show ?thesis using nx [of k] assms(4,5) now by (auto simp: r run_ok_def apart_def simp del: sched_state.simps)
  qed
  have new: "run_ok t0 jobs ?s' (i, sc_time s, t)"
    using first [of i] assms(3-5) now len nx [of i] by (simp add: run_ok_def)
  have "map entry_job (sc_entries ?s') = jobs" using assms(3) by (simp add: jobs map_update) (metis length_map list_update_id nth_map)
  moreover have "\<forall>k < length jobs. t0 + sint (Every (jobs ! k)) \<le> nextFire (sc_entries ?s' ! k)"
    using nx first t0 assms(5) by (smt (verit))
  moreover have "\<forall>r \<in> set (sc_log ?s'). run_ok t0 jobs ?s' r" using old new by auto
  moreover have "sorted_wrt (apart jobs) (sc_log ?s')" using assms(1) old by (simp add: sorted_wrt_append sched_inv_def)
  moreover have "sc_world ?s' = fold (run_job jobs) (sc_log ?s') w0"
    using assms(1,6) by (simp add: sched_inv_def run_job_def job)
  ultimately show ?thesis using t0 now assms(3,5) len by (simp add: sched_inv_def)
qed

lemma sched_step_inv: "sched_step s s' \<Longrightarrow> sched_inv t0 jobs w s \<Longrightarrow> sched_inv t0 jobs w s'"
proof (induction rule: sched_step.induct)
  case (tick s t)
  then show ?case by (auto simp: sched_inv_def intro: run_ok_later)
next
  case (run s i now t err w)
  then show ?case by (intro sched_run_inv)
qed (auto simp: sched_inv_def)

lemma sched_reachable_inv: "sched_step\<^sup>*\<^sup>* (sched_init t0 jobs w) s \<Longrightarrow> sched_inv t0 jobs w s"
  by (induction rule: rtranclp_induct) (auto intro: sched_init_inv sched_step_inv)

section \<open>Every wake-up has work\<close>

text \<open>A delay or a deadline that some entry sets, and a pass that still has a due entry ahead.\<close>

definition sched_work :: "'w sched_state \<Rightarrow> bool" where
  "sched_work s \<longleftrightarrow>
     (case sc_phase s of
        Arming delay \<Rightarrow> \<exists>e \<in> set (sc_entries s). nextFire e \<le> sc_time s + delay
      | Asleep d \<Rightarrow> \<exists>e \<in> set (sc_entries s). nextFire e \<le> d
      | _ \<Rightarrow> True)"

definition due_ahead :: "'w sched_state \<Rightarrow> bool" where
  "due_ahead s \<longleftrightarrow>
     (\<exists>i now k. sc_phase s = Firing i now \<and> i \<le> k \<and> k < length (sc_entries s) \<and> nextFire (sc_entries s ! k) \<le> now)"

lemma sched_delay_reaches:
  assumes "es \<noteq> []"
  shows "\<exists>e \<in> set es. nextFire e \<le> now + sched_delay now es"
proof -
  obtain e es' where es: "es = e # es'" using assms by (cases es) auto
  have "\<exists>e' \<in> set es. next_fire (nextFire e) es' = nextFire e'" using next_fire_least [of "nextFire e" es'] by (auto simp: es)
  then show ?thesis by (force simp: es sched_delay_def)
qed

lemma sched_step_entries: "sched_step s s' \<Longrightarrow> map entry_job (sc_entries s') = map entry_job (sc_entries s)"
  by (induction rule: sched_step.induct) (simp_all add: map_update, metis length_map list_update_id nth_map)

lemma sched_step_work: "sched_step s s' \<Longrightarrow> sc_entries s \<noteq> [] \<Longrightarrow> sched_work s \<Longrightarrow> sched_work s'"
proof (induction rule: sched_step.induct)
  case (tick s t)
  then show ?case by (cases "sc_phase s") (force simp: sched_work_def)+
next
  case (plan s)
  then show ?case using sched_delay_reaches by (auto simp: sched_work_def)
qed (auto simp: sched_work_def split: sched_phase.splits)

lemma sched_reachable_work:
  "sched_step\<^sup>*\<^sup>* (sched_init t0 jobs w) s \<Longrightarrow> jobs \<noteq> [] \<Longrightarrow> map entry_job (sc_entries s) = jobs \<and> sched_work s"
proof (induction rule: rtranclp_induct)
  case base
  then show ?case by (simp add: sched_work_def sched_init_def sched_start_def comp_def)
next
  case (step s s')
  then have "sc_entries s \<noteq> []" by auto
  with step show ?case using sched_step_entries sched_step_work by metis
qed

lemma wake_due: "\<lbrakk>sched_work s; sc_phase s = Asleep d; d \<le> sc_time s\<rbrakk> \<Longrightarrow> due_ahead (s\<lparr>sc_phase := Firing 0 (sc_time s)\<rparr>)"
  by (auto simp: sched_work_def due_ahead_def in_set_conv_nth) (meson order_trans)

text \<open>A pass does not end before the due entry ahead has run.\<close>

lemma pass_step: "sched_step s s' \<Longrightarrow> n < length (sc_log s) \<or> due_ahead s \<and> length (sc_log s) = n \<Longrightarrow>
    n < length (sc_log s') \<or> due_ahead s' \<and> length (sc_log s') = n"
proof (induction rule: sched_step.induct)
  case (skip s i now)
  then show ?case by (auto simp: due_ahead_def) (metis le_eq_less_or_eq not_less not_less_eq_eq)
qed (auto simp: due_ahead_def)

lemma pass_steps: "sched_step\<^sup>*\<^sup>* s s' \<Longrightarrow> due_ahead s \<Longrightarrow> length (sc_log s) < length (sc_log s') \<or> due_ahead s'"
proof -
  assume "sched_step\<^sup>*\<^sup>* s s'" and d: "due_ahead s"
  then have "length (sc_log s) < length (sc_log s') \<or> due_ahead s' \<and> length (sc_log s') = length (sc_log s)"
    by (induction rule: rtranclp_induct) (simp, rule pass_step, assumption+)
  then show ?thesis by blast
qed

section \<open>The pass as a function\<close>

text \<open>The steps of a pass compute sched_pass, for any times at which the runs end.\<close>

lemma sched_pass_steps:
  "\<lbrakk>sched_pass clock now i es w = (fired, es', w'); sc_phase s = Firing i now; sc_entries s = pre @ es; length pre = i; sc_world s = w;
    sc_time s \<le> clock i; \<forall>k l. k \<le> l \<longrightarrow> clock k \<le> clock l\<rbrakk> \<Longrightarrow>
   \<exists>s'. sched_step\<^sup>*\<^sup>* s s' \<and> sc_phase s' = Planning \<and> sc_entries s' = pre @ es' \<and> sc_world s' = w' \<and>
     map fst (sc_log s') = map fst (sc_log s) @ fired"
proof (induction clock now i es w arbitrary: s pre fired es' w' rule: sched_pass.induct)
  case (1 clock now i w)
  then have "sched_step s (s\<lparr>sc_phase := Planning\<rparr>)" by (intro sched_step.again) auto
  with 1 show ?case by (intro exI [of _ "s\<lparr>sc_phase := Planning\<rparr>"]) auto
next
  case (2 clock now i e es w)
  have i: "i < length (sc_entries s)" "sc_entries s ! i = e" using "2.prems"(3,4) by auto
  show ?case
  proof (cases "nextFire e \<le> now")
    case True
    obtain err w1 where j: "JobRun (entry_job e) w = (err, w1)" by (rule prod.exhaust)
    obtain f1 es1 w2 where rec: "sched_pass clock now (Suc i) es w1 = (f1, es1, w2)" by (rule prod_cases3)
    let ?e = "e\<lparr>nextFire := time_Add (clock i) (Every (entry_job e))\<rparr>"
    let ?s = "s\<lparr>sc_entries := (pre @ [?e]) @ es, sc_time := clock i, sc_phase := Firing (Suc i) now, sc_world := w1,
       sc_log := sc_log s @ [(i, sc_time s, clock i)]\<rparr>"
    have "sched_step s ?s"
      using sched_step.run [of s i now "clock i" err w1] i True "2.prems"(2-6) j by (simp add: list_update_append)
    moreover have "\<exists>s'. sched_step\<^sup>*\<^sup>* ?s s' \<and> sc_phase s' = Planning \<and> sc_entries s' = (pre @ [?e]) @ es1 \<and> sc_world s' = w2 \<and>
        map fst (sc_log s') = map fst (sc_log ?s) @ f1"
      by (rule "2.IH"(1) [OF True j [symmetric] rec]) (use "2.prems"(4,7) in auto)
    ultimately show ?thesis using True j rec "2.prems"(1) by (auto intro: converse_rtranclp_into_rtranclp)
  next
    case False
    obtain f1 es1 w2 where rec: "sched_pass clock now (Suc i) es w = (f1, es1, w2)" by (rule prod_cases3)
    have "sched_step s (s\<lparr>sc_phase := Firing (Suc i) now\<rparr>)" using sched_step.skip [of s i now] i False "2.prems"(2) by simp
    moreover have "\<exists>s'. sched_step\<^sup>*\<^sup>* (s\<lparr>sc_phase := Firing (Suc i) now\<rparr>) s' \<and> sc_phase s' = Planning \<and>
        sc_entries s' = (pre @ [e]) @ es1 \<and> sc_world s' = w2 \<and> map fst (sc_log s') = map fst (sc_log (s\<lparr>sc_phase := Firing (Suc i) now\<rparr>)) @ f1"
      by (rule "2.IH"(2) [OF False rec]) (use "2.prems"(3-7) in \<open>auto intro: order_trans\<close>)
    ultimately show ?thesis using False rec "2.prems"(1) by (auto intro: converse_rtranclp_into_rtranclp)
  qed
qed

section \<open>A run for the witnesses\<close>

definition demo_job :: "nat PeriodicJob" where
  "demo_job = \<lparr>JobName = ''a'', Every = 5, JobRun = (\<lambda>w. (None, Suc w))\<rparr>"

definition demo_asleep :: "nat sched_state" where
  "demo_asleep =
     \<lparr>sc_entries = [\<lparr>entry_job = demo_job, nextFire = 5\<rparr>], sc_time = 5, sc_ctxDone = False, sc_phase = Asleep 5, sc_world = 0, sc_log = []\<rparr>"

definition demo_ran :: "nat sched_state" where
  "demo_ran =
     \<lparr>sc_entries = [\<lparr>entry_job = demo_job, nextFire = 12\<rparr>], sc_time = 7, sc_ctxDone = False, sc_phase = Planning, sc_world = 1, sc_log = [(0, 5, 7)]\<rparr>"

lemma demo_sleeps: "sched_step\<^sup>*\<^sup>* (sched_init 0 [demo_job] 0) demo_asleep"
proof -
  let ?s = "\<lambda>t p. \<lparr>sc_entries = [\<lparr>entry_job = demo_job, nextFire = 5\<rparr>], sc_time = t, sc_ctxDone = False, sc_phase = p, sc_world = 0, sc_log = []\<rparr>"
  have i: "sched_init 0 [demo_job] 0 = ?s 0 Planning" by (simp add: sched_init_def sched_start_def demo_job_def time_Add_def)
  have p: "sched_step (?s 0 Planning) (?s 0 (Arming 5))" using sched_step.plan [of "?s 0 Planning"] by (simp add: sched_delay_def)
  have a: "sched_step (?s 0 (Arming 5)) (?s 0 (Asleep 5))" using sched_step.arm [of "?s 0 (Arming 5)"] by simp
  have t: "sched_step (?s 0 (Asleep 5)) (?s 5 (Asleep 5))" using sched_step.tick [of "?s 0 (Asleep 5)" 5] by simp
  show ?thesis unfolding demo_asleep_def i
    by (rule converse_rtranclp_into_rtranclp [OF p converse_rtranclp_into_rtranclp [OF a r_into_rtranclp [of sched_step, OF t]]])
qed

lemma demo_pass: "sched_step\<^sup>*\<^sup>* (demo_asleep\<lparr>sc_phase := Firing 0 5\<rparr>) demo_ran"
proof -
  let ?s = "demo_asleep\<lparr>sc_phase := Firing 0 5\<rparr>"
  have r: "sched_step ?s (demo_ran\<lparr>sc_phase := Firing 1 5\<rparr>)"
    using sched_step.run [of ?s 0 5 7 None 1] by (simp add: demo_asleep_def demo_ran_def demo_job_def time_Add_def)
  have a: "sched_step (demo_ran\<lparr>sc_phase := Firing 1 5\<rparr>) demo_ran"
    using sched_step.again [of "demo_ran\<lparr>sc_phase := Firing 1 5\<rparr>" 1 5] by (simp add: demo_ran_def)
  show ?thesis by (rule converse_rtranclp_into_rtranclp [OF r r_into_rtranclp [of sched_step, OF a]])
qed

lemma demo_scheduled: "sched_step\<^sup>*\<^sup>* (sched_init 0 [demo_job] 0) demo_ran"
proof -
  have "sched_step demo_asleep (demo_asleep\<lparr>sc_phase := Firing 0 5\<rparr>)"
    using sched_step.wake [of demo_asleep 5] by (simp add: demo_asleep_def)
  with demo_sleeps demo_pass show ?thesis by (meson converse_rtranclp_into_rtranclp rtranclp_trans)
qed

section \<open>Properties\<close>

text \<open>
  C16 (safety). Periodic jobs never overlap and never come early: in every run of the scheduler,
  for any clock and any moment of cancellation, each run of a job begins at least the job's
  interval after the start of the scheduler and after the end of the job's previous run, and after
  the end of every earlier run of any job. The world changes only by these runs, in this order, and
  the scheduler returns only when it has no jobs or its context was cancelled.
\<close>

theorem scheduler_spacing:
  assumes "sched_step\<^sup>*\<^sup>* (sched_init t0 jobs w) s"
  shows "sorted_wrt (\<lambda>(i, b, e) (i', b', e'). e \<le> b' \<and> (i = i' \<longrightarrow> e + sint (Every (jobs ! i)) \<le> b')) (sc_log s) \<and>
    (\<forall>(i, b, e) \<in> set (sc_log s). i < length jobs \<and> t0 + sint (Every (jobs ! i)) \<le> b \<and> b \<le> e) \<and>
    sc_world s = fold (\<lambda>(i, b, e) w. snd (JobRun (jobs ! i) w)) (sc_log s) w \<and>
    (sc_phase s = SchedReturned \<longrightarrow> jobs = [] \<or> sc_ctxDone s)"
proof -
  note inv = sched_reachable_inv [OF assms]
  have "sorted_wrt (\<lambda>(i, b, e) (i', b', e'). e \<le> b' \<and> (i = i' \<longrightarrow> e + sint (Every (jobs ! i)) \<le> b')) (sc_log s)"
    by (rule sorted_wrt_mono_rel [of _ "apart jobs"]) (use inv in \<open>auto simp: sched_inv_def apart_def\<close>)
  moreover have "\<forall>(i, b, e) \<in> set (sc_log s). i < length jobs \<and> t0 + sint (Every (jobs ! i)) \<le> b \<and> b \<le> e"
    using inv by (fastforce simp: sched_inv_def run_ok_def)
  moreover have "sc_world s = fold (\<lambda>(i, b, e) w. snd (JobRun (jobs ! i) w)) (sc_log s) w"
    using inv by (auto simp: sched_inv_def run_job_def case_prod_beta intro!: fold_cong)
  moreover have "sc_phase s = SchedReturned \<longrightarrow> jobs = [] \<or> sc_ctxDone s" using inv by (simp add: sched_inv_def)
  ultimately show ?thesis by blast
qed

theorem scheduler_spacing_witness:
  "sched_step\<^sup>*\<^sup>* (sched_init 0 [demo_job] 0) demo_ran \<and> sc_log demo_ran = [(0, 5, 7)] \<and>
   sc_world demo_ran = fold (\<lambda>(i, b, e) w. snd (JobRun ([demo_job] ! i) w)) (sc_log demo_ran) 0"
  using scheduler_spacing [OF demo_scheduled] demo_scheduled by (simp add: demo_ran_def)

text \<open>
  C17 (liveness). The scheduler neither stalls nor spins: unless it has returned, it is asleep
  until a deadline in the future with the context alive, or it can move on; and whenever it wakes
  up, at least one job runs before it computes the next delay. (A job that is run returns.)
\<close>

theorem scheduler_wakes_for_work:
  assumes "sched_step\<^sup>*\<^sup>* (sched_init t0 jobs w) s" "jobs \<noteq> []"
  shows "(sc_phase s \<noteq> SchedReturned \<longrightarrow>
       (\<exists>d. sc_phase s = Asleep d \<and> sc_time s < d \<and> \<not> sc_ctxDone s) \<or> (\<exists>s'. sched_step s s' \<and> sc_phase s' \<noteq> sc_phase s)) \<and>
    (\<forall>d s'. sc_phase s = Asleep d \<and> d \<le> sc_time s \<and> sched_step\<^sup>*\<^sup>* (s\<lparr>sc_phase := Firing 0 (sc_time s)\<rparr>) s' \<and> sc_phase s' = Planning \<longrightarrow>
       length (sc_log s) < length (sc_log s'))"
proof -
  note inv = sched_reachable_inv [OF assms(1)]
  have work: "sched_work s" and len: "length (sc_entries s) = length jobs"
    using sched_reachable_work [OF assms] by auto
  have "(\<exists>d. sc_phase s = Asleep d \<and> sc_time s < d \<and> \<not> sc_ctxDone s) \<or> (\<exists>s'. sched_step s s' \<and> sc_phase s' \<noteq> sc_phase s)"
    if "sc_phase s \<noteq> SchedReturned"
  proof (cases "sc_phase s")
    case Planning
    from sched_step.plan [OF this] Planning show ?thesis by fastforce
  next
    case (Arming delay)
    from sched_step.arm [OF this] Arming show ?thesis by fastforce
  next
    case (Asleep d)
    from sched_step.stop [OF this] sched_step.wake [OF this] Asleep show ?thesis by fastforce
  next
    case (Firing i now)
    then have "i \<le> length (sc_entries s)" using inv len by (simp add: sched_inv_def)
    then consider "i = length (sc_entries s)" | "i < length (sc_entries s)" "now < nextFire (sc_entries s ! i)"
      | "i < length (sc_entries s)" "nextFire (sc_entries s ! i) \<le> now" by linarith
    then show ?thesis
    proof cases
      case 1
      from sched_step.again [OF Firing this] Firing show ?thesis by fastforce
    next
      case 2
      from sched_step.skip [OF Firing this] Firing show ?thesis by fastforce
    next
      case 3
      obtain err w' where "JobRun (entry_job (sc_entries s ! i)) (sc_world s) = (err, w')" by (rule prod.exhaust)
      from sched_step.run [OF Firing 3 order_refl this] Firing show ?thesis by fastforce
    qed
  qed (use that in simp)
  moreover have "length (sc_log s) < length (sc_log s')"
    if "sc_phase s = Asleep d" "d \<le> sc_time s" "sched_step\<^sup>*\<^sup>* (s\<lparr>sc_phase := Firing 0 (sc_time s)\<rparr>) s'" "sc_phase s' = Planning" for d s'
    using pass_steps [OF that(3) wake_due [OF work that(1,2)]] that(4) by (auto simp: due_ahead_def)
  ultimately show ?thesis by blast
qed

theorem scheduler_wakes_for_work_witness:
  "sched_step\<^sup>*\<^sup>* (sched_init 0 [demo_job] 0) demo_asleep \<and> length (sc_log demo_asleep) < length (sc_log demo_ran)"
proof -
  have p: "sc_phase demo_asleep = Asleep 5" "5 \<le> sc_time demo_asleep" "sc_phase demo_ran = Planning" "sc_time demo_asleep = 5"
    by (simp_all add: demo_asleep_def demo_ran_def)
  from scheduler_wakes_for_work [OF demo_sleeps] p demo_pass have "length (sc_log demo_asleep) < length (sc_log demo_ran)" by simp
  with demo_sleeps show ?thesis by blast
qed

end
