(* ===== verification/Container.thy ===== *)
theory Container
  imports Gcloud_Cli Ssh_Agent Scheduler
begin

text \<open>
  container/provider.go: the Provider interface that a container runner drives, with the three
  implementations of providers/awssso, providers/gcloudcli and providers/sshagent as values of it,
  and the periodic token refresh that gcloudcli registers with the server.
\<close>

section \<open>The interface and its implementations\<close>

text \<open>None is a panic, or a wait that does not end.\<close>

record 's container_Provider =
  cp_Name :: string
  cp_Init :: "'s \<Rightarrow> go_error option \<times> 's"
  cp_Routes :: "'s Route list"
  cp_ContainerSpec :: "string \<Rightarrow> 's \<Rightarrow> ((go_error + Spec) \<times> 's) option"
  cp_Materialize :: "string \<Rightarrow> 's \<Rightarrow> go_error option \<times> 's"

text \<open>Init acts on the world only.\<close>

definition on_world :: "('x \<Rightarrow> 'r \<times> 'x) \<Rightarrow> 'b \<times> 'x \<Rightarrow> 'r \<times> 'b \<times> 'x" where
  "on_world f st = (case st of (b, x) \<Rightarrow> (case f x of (r, x') \<Rightarrow> (r, (b, x'))))"

definition aws_Materialize :: "string \<Rightarrow> 'x aws_state \<Rightarrow> go_error option \<times> 'x aws_state" where
  "aws_Materialize projectPath st = (None, st)"

definition aws_SpecBuilder :: "'x aws_host \<Rightarrow> 'x aws_env \<Rightarrow> aws_config \<Rightarrow> 'x aws_state container_Provider" where
  "aws_SpecBuilder host env cfg =
     \<lparr>cp_Name = ''awssso'', cp_Init = on_world (aws_Init host cfg), cp_Routes = aws_Routes env,
      cp_ContainerSpec = (\<lambda>projectPath st. Some (aws_ContainerSpec host cfg projectPath st)), cp_Materialize = aws_Materialize\<rparr>"

definition gcloud_SpecBuilder ::
  "'x gcloud_env \<Rightarrow> (string \<Rightarrow> GCPConfig) \<Rightarrow> gcloud_config \<Rightarrow> 'x gcloud_state container_Provider" where
  "gcloud_SpecBuilder env gcpFor cfg =
     \<lparr>cp_Name = ''gcloudcli'', cp_Init = on_world (gcloud_Init env cfg), cp_Routes = [],
      cp_ContainerSpec = gcloud_ContainerSpec env gcpFor cfg, cp_Materialize = gcloud_Materialize env\<rparr>"

definition ssh_SpecBuilder :: "('p, 'x) ssh_env \<Rightarrow> ssh_config \<Rightarrow> ('p, 'x) ssh_state container_Provider" where
  "ssh_SpecBuilder env cfg =
     \<lparr>cp_Name = ''sshagent'', cp_Init = on_world (ssh_Init env cfg), cp_Routes = [],
      cp_ContainerSpec = ssh_ContainerSpec env cfg, cp_Materialize = ssh_Materialize\<rparr>"

text \<open>A call of the runner for a project.\<close>

inductive provider_call :: "'s container_Provider \<Rightarrow> string \<Rightarrow> 's \<Rightarrow> 's \<Rightarrow> bool" for P projectPath where
  init: "cp_Init P s = (e, s') \<Longrightarrow> provider_call P projectPath s s'"
| spec: "cp_ContainerSpec P projectPath s = Some (r, s') \<Longrightarrow> provider_call P projectPath s s'"
| materialize: "cp_Materialize P projectPath s = (e, s') \<Longrightarrow> provider_call P projectPath s s'"

text \<open>SpecBuilder.RegisterPeriodic of gcloudcli, every 25 minutes.\<close>

definition gcloud_refresh_job :: "'x gcloud_env \<Rightarrow> 'x gcloud_state PeriodicJob" where
  "gcloud_refresh_job env = \<lparr>JobName = ''gcloudcli/token-refresh'', Every = 25 * 60 * second, JobRun = refreshAllTokens env\<rparr>"

definition gcloud_RegisterPeriodic :: "'x gcloud_env \<Rightarrow> 'x gcloud_state Server \<Rightarrow> 'x gcloud_state Server" where
  "gcloud_RegisterPeriodic env srv = RegisterPeriodic srv (gcloud_refresh_job env)"

section \<open>Isolation of projects\<close>

text \<open>
  What a provider keeps for a project it keeps under the project's own key: the calls for a project
  touch no other key, and only ContainerSpec changes what is kept at all.
\<close>

locale project_scoped =
  fixes P :: "'s container_Provider" and key :: "string \<Rightarrow> 'k" and kept :: "'s \<Rightarrow> 'k \<Rightarrow> 'g"
  assumes init_keeps: "cp_Init P s = (e, s') \<Longrightarrow> kept s' = kept s"
    and spec_scoped: "cp_ContainerSpec P projectPath s = Some (r, s') \<Longrightarrow> k \<noteq> key projectPath \<Longrightarrow> kept s' k = kept s k"
    and materialize_keeps: "cp_Materialize P projectPath s = (e', s') \<Longrightarrow> kept s' = kept s"
begin

lemma call_scoped: "provider_call P projectPath s s' \<Longrightarrow> k \<noteq> key projectPath \<Longrightarrow> kept s' k = kept s k"
  by (cases rule: provider_call.cases) (auto dest: init_keeps materialize_keeps intro: spec_scoped)

lemma calls_scoped:
  assumes "(\<lambda>s s'. \<exists>p. key p \<noteq> k \<and> provider_call P p s s')\<^sup>*\<^sup>* s s'"
  shows "kept s' k = kept s k"
  using assms by (induction rule: rtranclp_induct) (auto simp: call_scoped)

end

lemma on_world_fst: "on_world f st = (r, st') \<Longrightarrow> fst st' = fst st"
  by (auto simp: on_world_def split: prod.splits)

lemma aws_spec_scoped:
  "aws_ContainerSpec host cfg p st = (r, st') \<Longrightarrow> k \<noteq> ProjectRunHash (sha256 host) p \<Longrightarrow>
     map_of (aws_allowed (fst st')) k = map_of (aws_allowed (fst st)) k"
  by (auto simp: aws_ContainerSpec_def SetAllowedProfiles_def Let_def split: prod.splits sum.splits option.splits if_splits)

lemma gcloud_server_scoped:
  "ensureMetadataServer env p account sa project sock tok st = Some (e, st') \<Longrightarrow> k \<noteq> p \<Longrightarrow>
     map_of (tokenTargets (fst st')) k = map_of (tokenTargets (fst st)) k \<and> map_of (metaServers (fst st')) k = map_of (metaServers (fst st)) k"
  by (auto simp: ensureMetadataServer_def split: prod.splits option.splits if_splits)

lemma gcloud_wiring_scoped:
  assumes "gcloud_wiring env cfg p gcp projects st = Some (r, st')" "k \<noteq> p"
  shows "map_of (tokenTargets (fst st')) k = map_of (tokenTargets (fst st)) k \<and> map_of (metaServers (fst st')) k = map_of (metaServers (fst st)) k"
proof -
  from assms(1) consider "fst st' = fst st"
    | x1 account sa project sock tok e x2 where "ensureMetadataServer env p account sa project sock tok (fst st, x1) = Some (e, (fst st', x2))"
    by (auto simp: gcloud_wiring_def Let_def split: prod.splits option.splits)
  then show ?thesis using gcloud_server_scoped assms(2) by cases fastforce+
qed

lemma gcloud_spec_scoped:
  assumes "gcloud_ContainerSpec env gcpFor cfg p st = Some (r, st')" "k \<noteq> p"
  shows "map_of (tokenTargets (fst st')) k = map_of (tokenTargets (fst st)) k \<and> map_of (metaServers (fst st')) k = map_of (metaServers (fst st)) k"
proof -
  from assms(1) consider "st' = st" | projects where "gcloud_wiring env cfg p (gcpFor p) projects st = Some (r, st')"
    by (auto simp: gcloud_ContainerSpec_def Let_def split: if_splits)
  then show ?thesis using gcloud_wiring_scoped [OF _ assms(2)] by cases (simp, blast)
qed

lemma ssh_spec_scoped:
  "ssh_ContainerSpec env cfg p st = Some (r, st') \<Longrightarrow> k \<noteq> p \<Longrightarrow> map_of (fst st') k = map_of (fst st) k"
  by (auto simp: ssh_ContainerSpec_def keysSpec_def Let_def split: prod.splits option.splits sum.splits if_splits)

interpretation aws_scoped: project_scoped "aws_SpecBuilder host env cfg" "ProjectRunHash (sha256 host)" "\<lambda>st k. map_of (aws_allowed (fst st)) k"
  by unfold_locales (auto simp: aws_SpecBuilder_def aws_Materialize_def dest: on_world_fst intro: aws_spec_scoped)

interpretation gcloud_scoped: project_scoped "gcloud_SpecBuilder env gcpFor cfg" "\<lambda>p. p"
  "\<lambda>st k. (map_of (tokenTargets (fst st)) k, map_of (metaServers (fst st)) k)"
  by unfold_locales (auto simp: gcloud_SpecBuilder_def gcloud_Materialize_def fun_eq_iff dest: on_world_fst gcloud_spec_scoped split: prod.splits option.splits)

interpretation ssh_scoped: project_scoped "ssh_SpecBuilder env cfg" "\<lambda>p. p" "\<lambda>st k. map_of (fst st) k"
  by unfold_locales (auto simp: ssh_SpecBuilder_def ssh_Materialize_def dest: on_world_fst intro: ssh_spec_scoped)

section \<open>Properties\<close>

text \<open>
  C19 (safety). Launching containers of other projects changes nothing for a project: after any
  sequence of Init, ContainerSpec and Materialize calls for other projects, failed ones included,
  the AWS provider keeps the project's allowlist, the gcloud provider its token target and metadata
  server, and the SSH provider its agent. For AWS, whose key is the project's hash, the other
  projects are those of another hash.
\<close>

theorem container_launch_isolation:
  assumes "(\<lambda>s s'. \<exists>p. ProjectRunHash (sha256 host) p \<noteq> ProjectRunHash (sha256 host) q \<and> provider_call (aws_SpecBuilder host aenv acfg) p s s')\<^sup>*\<^sup>* a a'"
    and "(\<lambda>s s'. \<exists>p. p \<noteq> q \<and> provider_call (gcloud_SpecBuilder genv gcpFor gcfg) p s s')\<^sup>*\<^sup>* g g'"
    and "(\<lambda>s s'. \<exists>p. p \<noteq> q \<and> provider_call (ssh_SpecBuilder senv scfg) p s s')\<^sup>*\<^sup>* s s'"
  shows "map_of (aws_allowed (fst a')) (ProjectRunHash (sha256 host) q) = map_of (aws_allowed (fst a)) (ProjectRunHash (sha256 host) q) \<and>
    map_of (tokenTargets (fst g')) q = map_of (tokenTargets (fst g)) q \<and> map_of (metaServers (fst g')) q = map_of (metaServers (fst g)) q \<and>
    map_of (fst s') q = map_of (fst s) q"
  using aws_scoped.calls_scoped [OF assms(1)] gcloud_scoped.calls_scoped [OF assms(2)] ssh_scoped.calls_scoped [OF assms(3)] by simp

definition demo_aws_host :: "nat aws_host" where
  "demo_aws_host =
     \<lparr>tokenFor = (\<lambda>_ n. (Inr ''t'', n)), profilesFor = (\<lambda>p. [''dev'']), os_MkdirAll = (\<lambda>_ n. (None, n)),
      os_WriteFile = (\<lambda>_ _ _ n. (None, Suc n)), sha256 = (\<lambda>b. b)\<rparr>"

definition demo_aws_config :: aws_config where
  "demo_aws_config = \<lparr>HostRunBase = ''/r'', HostSockPath = ''/s'', ContainerRunDir = ''/c'', ContainerSockPath = ''/c/s''\<rparr>"

lemma single_call: "p \<noteq> q \<Longrightarrow> provider_call P p s s' \<Longrightarrow> (\<lambda>s s'. \<exists>p. p \<noteq> q \<and> provider_call P p s s')\<^sup>*\<^sup>* s s'"
  by (rule r_into_rtranclp) blast

theorem container_launch_isolation_witness:
  "\<exists>a' g' s'. provider_call (aws_SpecBuilder demo_aws_host demo_aws demo_aws_config) ''/p'' (SetAllowedProfiles ''2f71'' [''prod''] aws_New, 0) a' \<and>
     provider_call (gcloud_SpecBuilder gd_env (\<lambda>p. gd_gcp) gd_cfg) ''/home/p'' (gcloud_NewSpecBuilder, []) g' \<and>
     provider_call (ssh_SpecBuilder demo_ssh demo_ssh_config) ''/p'' (ssh_NewSpecBuilder (0, 0, [])) s' \<and>
     map_of (aws_allowed (fst a')) ''2f70'' = Some [''dev''] \<and> map_of (aws_allowed (fst a')) ''2f71'' = Some [''prod''] \<and>
     map_of (tokenTargets (fst g')) ''/home/p'' \<noteq> None \<and> map_of (tokenTargets (fst g')) ''/q'' = None \<and>
     map_of (fst s') ''/p'' \<noteq> None \<and> map_of (fst s') ''/q'' = None"
proof -
  let ?s = "([(''/p'', demo_agent)], (100000007, 3, [(''/run/c/616263646566/agent.sock'', ''/home/u/.ssh/id'')]))"
  let ?A = "aws_SpecBuilder demo_aws_host demo_aws demo_aws_config" and ?a = "(SetAllowedProfiles ''2f71'' [''prod''] aws_New, 0)"
  let ?a' = "snd (aws_ContainerSpec demo_aws_host demo_aws_config ''/p'' ?a)"
  have h: "ProjectRunHash (sha256 demo_aws_host) ''/p'' = ''2f70''" "ProjectRunHash (sha256 demo_aws_host) ''/q'' = ''2f71''"
    "map_of (aws_allowed (fst ?a)) ''2f71'' = Some [''prod'']" "map_of (aws_allowed (fst ?a')) ''2f70'' = Some [''dev'']" by code_simp+
  have a: "provider_call ?A ''/p'' ?a ?a'"
    by (rule provider_call.spec [of _ _ _ "fst (aws_ContainerSpec demo_aws_host demo_aws_config ''/p'' ?a)"]) (simp add: aws_SpecBuilder_def)
  obtain r gs where "gcloud_ContainerSpec gd_env (\<lambda>p. gd_gcp) gd_cfg ''/home/p'' (gcloud_NewSpecBuilder, []) = Some (r, gs)"
    using gd_spec by auto
  then have g: "provider_call (gcloud_SpecBuilder gd_env (\<lambda>p. gd_gcp) gd_cfg) ''/home/p'' (gcloud_NewSpecBuilder, []) gd_state"
    by (intro provider_call.spec [of _ _ _ r]) (simp add: gcloud_SpecBuilder_def gd_state_def)
  have s: "provider_call (ssh_SpecBuilder demo_ssh demo_ssh_config) ''/p'' (ssh_NewSpecBuilder (0, 0, [])) ?s"
    using demo_ssh_launch by (intro provider_call.spec) (simp add: ssh_SpecBuilder_def)
  have "(\<lambda>s s'. \<exists>p. ProjectRunHash (sha256 demo_aws_host) p \<noteq> ProjectRunHash (sha256 demo_aws_host) ''/q'' \<and> provider_call ?A p s s')\<^sup>*\<^sup>* ?a ?a'"
    using a h by (intro r_into_rtranclp) (auto intro!: exI [of _ "''/p''"])
  from container_launch_isolation [OF this single_call [OF _ g] single_call [OF _ s]] a g s h gd_registered show ?thesis
    by (intro exI [of _ ?a'] exI [of _ gd_state] exI [of _ ?s]) (simp add: ssh_NewSpecBuilder_def gcloud_NewSpecBuilder_def)
qed

text \<open>The sweep of the token files runs at most once in 25 minutes.\<close>

lemma gcloud_refresh_cadence:
  assumes "sched_step\<^sup>*\<^sup>* (sched_init t0 (srv_periodicJobs (gcloud_RegisterPeriodic env srv)) w) s"
    and "sc_log s = before @ (length (srv_periodicJobs srv), b, e) # between @ (length (srv_periodicJobs srv), b', e') # rest"
  shows "e + 1500000000000 \<le> b'"
proof -
  let ?jobs = "srv_periodicJobs srv @ [gcloud_refresh_job env]"
  have j: "srv_periodicJobs (gcloud_RegisterPeriodic env srv) = ?jobs" by (simp add: gcloud_RegisterPeriodic_def RegisterPeriodic_def)
  have "sorted_wrt (apart ?jobs) (sc_log s)" using sched_reachable_inv [OF assms(1)] by (simp add: sched_inv_def j)
  then have "apart ?jobs (length (srv_periodicJobs srv), b, e) (length (srv_periodicJobs srv), b', e')"
    by (simp add: assms(2) sorted_wrt_append)
  moreover have "sint (Every (gcloud_refresh_job env)) = 1500000000000" by (simp add: gcloud_refresh_job_def second_def)
  ultimately show ?thesis by (simp add: apart_def nth_append)
qed

end
