(* ===== verification/Spec2Isabelle.thy ===== *)
theory Spec2Isabelle
  imports Credential_Flow Admin_Serve Container
begin

text \<open>
  Verification development of credproxy, a credential-injecting HTTP proxy in Go.

  \<^bold>\<open>The program.\<close> The library package credproxy (src/credproxy) is an HTTP server whose routes ask a
  credential provider for headers, query parameters or a whole body and either answer the client or
  forward the request upstream with the credential added, refreshing it once when the upstream
  rejects it. The daemon (src/cmd/credproxyd) builds such a server from a configuration file, with
  providers that run hook scripts or read a 1Password store, and has an administration socket that
  refreshes the store. The client (src/cmd/credproxy) fetches the environment of routes over the
  daemon's socket and prints it or runs a program with it, asks for a refresh, or resolves secret
  references on the host (src/secretenv). src/providers holds providers that a container runner
  embeds.

  \<^bold>\<open>Theories and sources.\<close> Each component theory gives the definitions first, in the order of the
  code, then lemmas, then the properties with a concrete witness each.

  \<^item> Go_Prelude, Go_Url, Go_Http, Go_Json, Go_Time: what the sources use of Go's standard
    library (strings, errors, durations at 64 bits; URLs and queries; headers, ServeMux,
    ReverseProxy's header rules; encoding/json both ways; RFC 3339 dates), with round trips of the
    encoders. Go_Flag: the flag package with strconv's integers and booleans.
  \<^item> Proxy_Types: credproxy/types.go, errors.go. A Go map is an association list, its order
    the order of one range loop; what a provider acts on is a type parameter, the world.
  \<^item> Proxy_Auth: auth.go, peercred*.go: the gate of every request. Proxy_Inject: inject.go and
    applyPlan. Route_Handler: route.go, the handler with its single retry through
    ReverseProxy.ErrorHandler. Proxy_Server: server.go and pipe_other.go, from New to dispatch,
    route listing, token rotation and one pass of the scheduler. Scheduler: the whole loop of
    runScheduler as a step relation over the clock and the context.
  \<^item> Credential_Cache: the contract of an expiring cache (locales expiring_map and ttl_cache).
    Script_Provider: cmd/credproxyd/providers/script. Onepassword: providers/onepassword/provider.go
    with the per-name locks as a step relation. Aws_Sso: providers/awssso, container. Gcloud_Cli:
    providers/gcloudcli with its metadata server. Ssh_Agent: providers/sshagent. Container:
    container/provider.go, the interface of these three, and gcloudcli's periodic job. File_Store:
    credproxy/store, over a file system of names and inodes.
  \<^item> Daemon_Config: cmd/credproxyd/config and the token part of serve. Daemon_Routes:
    onepassword_routes.go and buildRoutes. Admin: cmd/credproxyd/admin and cmd/credproxy/refresh.go.
    Admin_Serve: the life of the admin server, with what closing its listener does to the socket
    path. Daemon_Serve: serve of cmd/credproxyd/main.go with the platform's reader of the protected
    token file (by path on Unix, through a held handle on Windows) and its admin listener (socket or
    named pipe), Server.Run and the end of a run as a step relation. Daemon_Main: run of main.go and
    logging.go.
  \<^item> Client_Env: cmd/credproxy/env.go, exec.go and helpers of main.go. Secret_Env: secretenv
    and the commands run and resolve. Relay: connect.go, the relay as a step relation. Client_Cli:
    the flags and the dispatch of cmd/credproxy.
  \<^item> Win_Secure_File: internal/winsecurefile, the access policies and the handle discipline of
    protected files. Native_Pipe: internal/nativeipc, named pipes with both sides of the handshake.
  \<^item> Credential_Flow: lemmas that join store, routes, server and client into one path; they
    carry the properties of the whole program at the end of this theory.

  \<^bold>\<open>State and effects.\<close> Structs are records, errors are the type go_error on the left of a sum,
  stateful code passes its state and a world explicitly. Calls of code outside the repository (hook
  processes, the 1Password SDK, the aws command, upstream transport, the operating system, clocks,
  TOML, SHA-256, singleflight groups) are parameters; where a theorem needs a fact about one, it is
  a named hypothesis such as runs_alone, hook_errors_plain or op_alone, and the witness instantiates
  the parameter with a concrete function.

  \<^bold>\<open>Interfaces.\<close> guarded_endpoint (Proxy_Server) is what the gate guarantees to any endpoint,
  interpreted for the routes and for the listing; expiring_map and ttl_cache are interpreted by the
  caches of Secret_Env, Script_Provider and Aws_Sso; secret_store (Onepassword) is what delivery
  routes need of a store, interpreted by the 1Password store; atomic_refresher (Admin) is the admin
  endpoint's view of it; secret_hook (Secret_Env) is the Hook interface, interpreted by the script
  hook; admission_policy (Win_Secure_File) is what opening a protected path needs of a policy,
  interpreted by the secret and the managed image policy; project_scoped (Container) is what a
  container provider keeps per project, interpreted by all three providers.

  \<^bold>\<open>What is shown.\<close> The whole program: a secret of the configuration reaches the program that exec
  starts, verbatim and without a second question to 1Password; after a refresh over the admin socket
  the next program gets the new one; and a request makes the daemon act only through the handler of
  the configured route that its path addresses, for a holder of a token of the token file that this
  route names (this theory). The gate admits exactly the requests it should, and no request that it
  refuses, or whose client a route excludes, causes a provider or upstream call, over all states
  reachable by token rotation (Proxy_Auth, Proxy_Server). The handler makes at most one Get, one
  upstream request, one Refresh and one retry, always answers, and sends the planned headers, query
  and unchanged body (Proxy_Inject, Route_Handler). Failures of Get and of Refresh reach clients as
  fixed texts or short reason tokens. A request is answered by the handler of the longest covering
  path on the rest of the path, and the listing has exactly the routes that the client can use.
  Periodic jobs never overlap, keep their intervals, and every wake-up has work (Scheduler).
  Refreshing several secrets replaces all of them with newly resolved values or none, and its locks
  cannot deadlock; a loaded configuration never fails on an unknown credential. The AWS
  route refuses profiles outside the caller's project and, where the aws command exports an allowed
  profile, answers with the credentials of that very profile. The client's output is a shell program that evaluates to the variables verbatim; discovery, exec and
  refresh are proved end to end against the server definitions; the refresh command is shown to
  refine the store's RefreshMany. The daemon starts fail closed and exits cleanly only on a signal
  (Daemon_Serve). The relay delivers its streams unchanged and ends. Protected files and pipes admit
  only the identities they should, without leaking a handle. A metadata server answers only with the
  token of the principal its project was registered with; an SSH agent of a clean start holds only
  keys its project had when the agent was started, and its start ends; launches of other projects
  change nothing for a project (Container); the admin socket of a server that ended is gone
  (Admin_Serve); a file store is atomic for one writer and keeps mode 0600; the log file is bounded.
  Where the code departs from its documentation, a theorem of the component shows it:
  appended_lines_lost (Proxy_Inject), leftover_mode_kept (File_Store), service_account_as_account
  and registration_kept (Gcloud_Cli), ssh_agent_kept and stale_agent_reused (Ssh_Agent),
  cleanup_removes_foreign_socket (Admin_Serve). Only well-formed command lines have an effect. Round
  trips: command lines, query strings, token files, env-files, AWS configuration, RFC 3339 times.

  \<^bold>\<open>Bounds and fuel.\<close> The JSON decoder recurses on fuel, one more than the length of the text, which
  the round-trip lemmas show is enough; the loops that accept pipe clients and wait for the agent's
  socket are partial functions, with theorems on when they return; the retry of the route handler is
  bounded by its flag, by a measure; all other recursion is structural or by the length of the
  input. Durations are 64-bit words, and the wrap-around of a hook's lifetime is part of a theorem;
  instants are integers of nanoseconds.

  \<^bold>\<open>Not modelled.\<close> Concurrent flights of a singleflight group (calls run one at a time in the
  theorems that say so); timeouts of requests and hooks beyond what is passed to the operating
  system; in ReverseProxy, an upstream body that breaks off while it is copied, trailers and
  upgraded connections; net/http's refusal of control characters in a header value the client sends;
  a change of the file system between the checks of the token file and its read on Unix; log records
  and usage texts; TOML; the path rules of Windows that give the default server executable; console
  windows and process start on Windows; the 1Password SDK. The test helpers internal/testenv and
  fakegcloud are no part of the program.
\<close>

section \<open>Properties of the whole program\<close>

text \<open>
  C1 (functional). A secret reaches the program and nothing is asked twice: when serve has started
  the daemon from a configuration and the client runs exec for an environment route of it whose
  credentials are all pinned, admitted by the gate and the route, the program starts with each of
  the route's variables set exactly once, to what 1Password answered for the credential's reference
  during startup, and every other assignment of the client's environment unchanged. The daemon's
  state does not change, so 1Password is not asked again.
\<close>

theorem secret_reaches_program:
  assumes "serve h cfgPath x o0 = (Inr st, x', o', calls)" "load_config h cfgPath = Inr c"
    and "r \<in> set (cfg_Routes c)" "Delivery r = ''env''" "rt_Path r = CHR ''/'' # ex_route opts" "distinct (map fst (Env r))"
    and "\<forall>(k, n) \<in> set (Env r). \<exists>cr \<in> set (Credentials c). CredName cr = n \<and> Preload cr"
    and "d_op d = run_cache st"
    and "\<forall>(k, n) \<in> set (Env r). ascii k \<and> ascii (op_value (cache_entry (d_op d) n))"
    and "length (env_body (map (\<lambda>(k, n). (k, op_value (cache_entry (d_op d) n))) (Env r))) \<le> maxEnvResponse"
    and "parseExecOptions opts cmdArgs = None" "ex_socket opts \<noteq> []" "readExecToken readFile (ex_tokenFile opts) = Inr token"
    and "authMiddleware (sh_platform h) getuid (srv_cfg (run_server st)) (srv_tokens (run_server st)) (conn_ctx (sh_platform h) conn)
       (ReqHeader (client_request (ex_route opts @ ''/'') token)) = Inr ctx"
    and "rt_AllowedClientIDs r = [] \<or> clientAllowed (rt_AllowedClientIDs r) (ctx_tokenID ctx)"
    and "lookPath (hd cmdArgs) = Inr bin"
  shows "\<exists>environ'. execCmd (\<lambda>_ _. server_broker (sh_platform h) getuid tr (run_server st) conn) readFile lookPath environ opts cmdArgs d =
      (Inr (bin, cmdArgs, environ'), d) \<and>
    (\<forall>(k, n) \<in> set (Env r). \<exists>cr v w w'. cr \<in> set (Credentials c) \<and> CredName cr = n \<and>
       op_Resolve (sh_op h) (SecretRef cr) w = (Inr v, w') \<and> v \<noteq> [] \<and> filter (assigns k) environ' = [k @ ''='' @ v]) \<and>
    (\<forall>k. CHR ''='' \<notin> set k \<and> k \<notin> fst ` set (Env r) \<longrightarrow> filter (assigns k) environ' = filter (assigns k) environ)"
proof -
  obtain specs where store: "open_store h c x = (Inr (specs, run_cache st), x')"
    using started_server [OF assms(1,2)] by auto
  have pins: "\<exists>cr v w w'. cr \<in> set (Credentials c) \<and> CredName cr = n \<and> op_Resolve (sh_op h) (SecretRef cr) w = (Inr v, w') \<and> v \<noteq> [] \<and>
      v = op_value (cache_entry (d_op d) n) \<and> op_valid (cache_entry (d_op d) n)" if kn: "(k, n) \<in> set (Env r)" for k n
  proof -
    from bspec [OF assms(7) kn] obtain cr where cr: "cr \<in> set (Credentials c)" "CredName cr = n" "Preload cr" by auto
    from started_pins [OF store cr(1,3)] obtain ss spec where p: "map_of ss n = Some spec" "op_Ref spec = SecretRef cr"
      "op_valid (cache_entry (run_cache st) n)" "op_value (cache_entry (run_cache st) n) \<noteq> []" "all_answered (sh_op h) ss (run_cache st)"
      using cr(2) by auto
    from cache_answered [OF p(5,3)] p(1,2) obtain w w' where "op_Resolve (sh_op h) (SecretRef cr) w = (Inr (op_value (cache_entry (run_cache st) n)), w')"
      by (auto simp: answered_def)
    with cr(1,2) p(3,4) assms(8) show ?thesis by auto
  qed
  have v: "\<forall>(k, n) \<in> set (Env r). op_valid (cache_entry (d_op d) n)" using pins by fastforce
  obtain environ' where run: "execCmd (\<lambda>_ _. server_broker (sh_platform h) getuid tr (run_server st) conn) readFile lookPath environ opts cmdArgs d =
      (Inr (bin, cmdArgs, environ'), d)"
    "\<forall>k. CHR ''='' \<notin> set k \<longrightarrow> filter (assigns k) environ' =
       (case map_of (Env r) k of Some n \<Rightarrow> [k @ ''='' @ op_value (cache_entry (d_op d) n)] | None \<Rightarrow> filter (assigns k) environ)"
    using exec_started_daemon [where d = d and lookPath = lookPath and cmdArgs = cmdArgs, OF assms(1-7) v assms(9-16)] by blast
  note delivered = route_env_delivered [OF assms(2-4,6) run(2)]
  have "\<exists>cr v w w'. cr \<in> set (Credentials c) \<and> CredName cr = n \<and> op_Resolve (sh_op h) (SecretRef cr) w = (Inr v, w') \<and> v \<noteq> [] \<and>
      filter (assigns k) environ' = [k @ ''='' @ v]" if kn: "(k, n) \<in> set (Env r)" for k n
    using pins [OF kn] delivered(1) [OF kn] by blast
  with run(1) delivered(2) show ?thesis by blast
qed

theorem secret_reaches_program_witness:
  "\<exists>st calls environ'. serve flow_host ''c.toml'' 0 () = (Inr st, 0, (), calls) \<and>
     execCmd (\<lambda>_ _. server_broker (sh_platform flow_host) 1000 (\<lambda>_ w. (Inl (PlainError ''unused''), w)) (run_server st) demo_conn)
       (\<lambda>_. FileData ''s3cret'') Inr [''API_KEY=stale'', ''HOME=/h''] flow_options [''tool''] (flow_daemon ''old'' 7) =
       (Inr (''tool'', [''tool''], environ'), flow_daemon ''old'' 7) \<and>
     (\<exists>v. v \<noteq> [] \<and> filter (assigns ''API_KEY'') environ' = [''API_KEY='' @ v]) \<and> filter (assigns ''HOME'') environ' = [''HOME=/h'']"
proof -
  obtain st calls where st: "serve flow_host ''c.toml'' 0 () = (Inr st, 0, (), calls)" "run_cache st = flow_cache ''old''"
    using flow_serve by blast
  have v: "\<forall>(k, n) \<in> set (Env flow_route). ascii k \<and> ascii (op_value (cache_entry (d_op (flow_daemon ''old'' 7)) n))"
    "length (env_body (map (\<lambda>(k, n). (k, op_value (cache_entry (d_op (flow_daemon ''old'' 7)) n))) (Env flow_route))) \<le> maxEnvResponse"
    using flow_values [OF disjI1 [OF refl]] by (simp_all only: flow_entry)
  have lp: "Inr (hd [''tool'']) = Inr ''tool''" by simp
  have d: "d_op (flow_daemon ''old'' 7) = run_cache st" using st(2) by simp
  note run = secret_reaches_program [where lookPath = Inr and environ = "[''API_KEY=stale'', ''HOME=/h'']" and tr = "\<lambda>_ w. (Inl (PlainError ''unused''), w)",
      OF st(1) flow_load flow_route_ok d v flow_exec_ok flow_gate [OF st(1)] flow_permits lp]
  from run obtain environ' where e: "execCmd (\<lambda>_ _. server_broker (sh_platform flow_host) 1000 (\<lambda>_ w. (Inl (PlainError ''unused''), w)) (run_server st) demo_conn)
       (\<lambda>_. FileData ''s3cret'') Inr [''API_KEY=stale'', ''HOME=/h''] flow_options [''tool''] (flow_daemon ''old'' 7) =
       (Inr (''tool'', [''tool''], environ'), flow_daemon ''old'' 7)"
    "\<forall>(k, n) \<in> set (Env flow_route). \<exists>cr v w w'. cr \<in> set (Credentials flow_config) \<and> CredName cr = n \<and>
       op_Resolve (sh_op flow_host) (SecretRef cr) w = (Inr v, w') \<and> v \<noteq> [] \<and> filter (assigns k) environ' = [k @ ''='' @ v]"
    "\<forall>k. CHR ''='' \<notin> set k \<and> k \<notin> fst ` set (Env flow_route) \<longrightarrow> filter (assigns k) environ' = filter (assigns k) [''API_KEY=stale'', ''HOME=/h'']"
    by blast
  have h: "filter (assigns ''HOME'') [''API_KEY=stale'', ''HOME=/h''] = [''HOME=/h'']" by code_simp
  have "filter (assigns ''HOME'') environ' = [''HOME=/h'']" using e(3) h by (simp add: flow_route_def)
  moreover have "\<exists>v. v \<noteq> [] \<and> filter (assigns ''API_KEY'') environ' = [''API_KEY='' @ v]"
    using e(2) by (auto simp: flow_route_def)
  ultimately show ?thesis using st(1) e(1) by blast
qed

text \<open>
  C2 (functional). A rotated secret reaches the next program without a restart: when
  credproxy refresh --all succeeded against the admin socket of a started daemon, at a moment at
  which 1Password gives the secret sec of each reference, an exec for an environment route of
  pinned credentials starts the program with exactly the new secrets, whatever the cache held
  before, and with every other assignment of the client's environment unchanged.
\<close>

theorem rotated_secret_reaches_program:
  assumes "serve h cfgPath x o0 = (Inr st, x', o', calls)" "load_config h cfgPath = Inr c" "run_specs st = Some ss"
    and "parseRefreshOptions ropts [] = None" "ro_all ropts" "adminTarget host (ro_socket ropts) (ro_serverExecutable ropts) = Inr target"
    and "refreshCmd (admin_endpoint (adminRefresher (sh_op h) ss)) host ropts [] (d_op d, d_ext d) = (None, out, (cache, x2))"
    and "\<forall>ref. op_Resolve (sh_op h) ref (d_ext d) = (Inr (sec ref), d_ext d)"
    and "r \<in> set (cfg_Routes c)" "Delivery r = ''env''" "rt_Path r = CHR ''/'' # ex_route opts" "distinct (map fst (Env r))"
    and "\<forall>(k, n) \<in> set (Env r). \<exists>cr \<in> set (Credentials c). CredName cr = n \<and> Preload cr"
    and "\<forall>(k, n) \<in> set (Env r). ascii k \<and> ascii (op_value (cache_entry cache n))"
    and "length (env_body (map (\<lambda>(k, n). (k, op_value (cache_entry cache n))) (Env r))) \<le> maxEnvResponse"
    and "parseExecOptions opts cmdArgs = None" "ex_socket opts \<noteq> []" "readExecToken readFile (ex_tokenFile opts) = Inr token"
    and "authMiddleware (sh_platform h) getuid (srv_cfg (run_server st)) (srv_tokens (run_server st)) (conn_ctx (sh_platform h) conn)
       (ReqHeader (client_request (ex_route opts @ ''/'') token)) = Inr ctx"
    and "rt_AllowedClientIDs r = [] \<or> clientAllowed (rt_AllowedClientIDs r) (ctx_tokenID ctx)"
    and "lookPath (hd cmdArgs) = Inr bin"
  shows "\<exists>environ'. execCmd (\<lambda>_ _. server_broker (sh_platform h) getuid tr (run_server st) conn) readFile lookPath environ opts cmdArgs
      (d\<lparr>d_op := cache, d_ext := x2\<rparr>) = (Inr (bin, cmdArgs, environ'), d\<lparr>d_op := cache, d_ext := x2\<rparr>) \<and>
    (\<forall>(k, n) \<in> set (Env r). \<exists>cr. cr \<in> set (Credentials c) \<and> CredName cr = n \<and> filter (assigns k) environ' = [k @ ''='' @ sec (SecretRef cr)]) \<and>
    (\<forall>k. CHR ''='' \<notin> set k \<and> k \<notin> fst ` set (Env r) \<longrightarrow> filter (assigns k) environ' = filter (assigns k) environ)"
proof -
  note refreshed = refresh_all_RefreshMany [OF assms(4-7)]
  have now: "\<exists>cr. cr \<in> set (Credentials c) \<and> CredName cr = n \<and> op_valid (cache_entry cache n) \<and> op_value (cache_entry cache n) = sec (SecretRef cr)"
    if kn: "(k, n) \<in> set (Env r)" for k n
  proof -
    from bspec [OF assms(13) kn] obtain cr where cr: "cr \<in> set (Credentials c)" "CredName cr = n" "Preload cr" by auto
    obtain spec where spec: "map_of ss n = Some spec" "op_Preload spec" "op_Ref spec = SecretRef cr"
      using started_server [OF assms(1,2)] started_pins [OF _ cr(1,3)] assms(3) cr(2) by (fastforce simp: Let_def)
    from RefreshMany_now [OF refreshed assms(8) spec(1,2)] spec(3) cr show ?thesis by auto
  qed
  let ?d = "d\<lparr>d_op := cache, d_ext := x2\<rparr>"
  have v: "\<forall>(k, n) \<in> set (Env r). op_valid (cache_entry (d_op ?d) n)" using now by fastforce
  have s: "\<forall>(k, n) \<in> set (Env r). ascii k \<and> ascii (op_value (cache_entry (d_op ?d) n))"
    "length (env_body (map (\<lambda>(k, n). (k, op_value (cache_entry (d_op ?d) n))) (Env r))) \<le> maxEnvResponse"
    using assms(14,15) by simp_all
  obtain environ' where run: "execCmd (\<lambda>_ _. server_broker (sh_platform h) getuid tr (run_server st) conn) readFile lookPath environ opts cmdArgs ?d =
      (Inr (bin, cmdArgs, environ'), ?d)"
    "\<forall>k. CHR ''='' \<notin> set k \<longrightarrow> filter (assigns k) environ' =
       (case map_of (Env r) k of Some n \<Rightarrow> [k @ ''='' @ op_value (cache_entry (d_op ?d) n)] | None \<Rightarrow> filter (assigns k) environ)"
    using exec_started_daemon [where d = ?d and lookPath = lookPath and cmdArgs = cmdArgs, OF assms(1,2,9-13) v s assms(16-21)] by blast
  note delivered = route_env_delivered [OF assms(2,9,10,12) run(2)]
  have "\<exists>cr. cr \<in> set (Credentials c) \<and> CredName cr = n \<and> filter (assigns k) environ' = [k @ ''='' @ sec (SecretRef cr)]"
    if kn: "(k, n) \<in> set (Env r)" for k n
    using now [OF kn] delivered(1) [OF kn] by auto
  with run(1) delivered(2) show ?thesis by blast
qed

theorem rotated_secret_reaches_program_witness:
  "\<exists>st calls out environ'. serve flow_host ''c.toml'' 0 () = (Inr st, 0, (), calls) \<and>
     refreshCmd (admin_endpoint (adminRefresher flow_op flow_specs)) (sh_client flow_host) flow_refresh [] (run_cache st, 7) = (None, out, (flow_cache ''new'', 7)) \<and>
     execCmd (\<lambda>_ _. server_broker (sh_platform flow_host) 1000 (\<lambda>_ w. (Inl (PlainError ''unused''), w)) (run_server st) demo_conn)
       (\<lambda>_. FileData ''s3cret'') Inr [''API_KEY=stale'', ''HOME=/h''] flow_options [''tool''] (flow_daemon ''new'' 7) =
       (Inr (''tool'', [''tool''], environ'), flow_daemon ''new'' 7) \<and>
     filter (assigns ''API_KEY'') environ' = [''API_KEY=new'']"
proof -
  obtain st calls where st: "serve flow_host ''c.toml'' 0 () = (Inr st, 0, (), calls)" "run_specs st = Some flow_specs" "run_cache st = flow_cache ''old''"
    using flow_serve by blast
  have op: "sh_op flow_host = flow_op" by (simp add: flow_host_def)
  have sec: "\<forall>ref. op_Resolve (sh_op flow_host) ref (d_ext (flow_daemon ''old'' 7)) = (Inr ''new'', d_ext (flow_daemon ''old'' 7))"
    by (simp add: flow_op_def op)
  have ref: "refreshCmd (admin_endpoint (adminRefresher (sh_op flow_host) flow_specs)) (sh_client flow_host) flow_refresh []
      (d_op (flow_daemon ''old'' 7), d_ext (flow_daemon ''old'' 7)) = (None, ''credential refreshed'' @ [CHR 0x0A], (flow_cache ''new'', 7))"
    using flow_refreshed op by simp
  have lp: "Inr (hd [''tool'']) = Inr ''tool''" by simp
  have upd: "(flow_daemon ''old'' 7)\<lparr>d_op := flow_cache ''new'', d_ext := 7\<rparr> = flow_daemon ''new'' 7" by (simp add: flow_daemon_def)
  have v: "\<forall>(k, n) \<in> set (Env flow_route). ascii k \<and> ascii (op_value (cache_entry (flow_cache ''new'') n))"
    "length (env_body (map (\<lambda>(k, n). (k, op_value (cache_entry (flow_cache ''new'') n))) (Env flow_route))) \<le> maxEnvResponse"
    using flow_values [OF disjI2 [OF refl]] by blast+
  note run = rotated_secret_reaches_program [where lookPath = Inr and environ = "[''API_KEY=stale'', ''HOME=/h'']" and tr = "\<lambda>_ w. (Inl (PlainError ''unused''), w)"
      and sec = "\<lambda>_. ''new''",
      OF st(1) flow_load st(2) flow_refresh_ok ref sec flow_route_ok v flow_exec_ok flow_gate [OF st(1)] flow_permits lp, unfolded upd]
  from run obtain environ' where e: "execCmd (\<lambda>_ _. server_broker (sh_platform flow_host) 1000 (\<lambda>_ w. (Inl (PlainError ''unused''), w)) (run_server st) demo_conn)
       (\<lambda>_. FileData ''s3cret'') Inr [''API_KEY=stale'', ''HOME=/h''] flow_options [''tool''] (flow_daemon ''new'' 7) =
       (Inr (''tool'', [''tool''], environ'), flow_daemon ''new'' 7)"
    "\<forall>(k, n) \<in> set (Env flow_route). \<exists>cr. cr \<in> set (Credentials flow_config) \<and> CredName cr = n \<and> filter (assigns k) environ' = [k @ ''='' @ ''new'']"
    by blast
  have "filter (assigns ''API_KEY'') environ' = [''API_KEY=new'']" using e(2) by (auto simp: flow_route_def)
  then show ?thesis by (intro exI conjI) (rule st(1), rule ref [unfolded flow_entry op, folded st(3)], rule e(1))
qed

text \<open>
  C3 (safety). Who can make the started daemon act: a request on any of its listeners that makes
  the daemon run a hook, ask 1Password, contact an upstream or change its state passed the peer
  checks of the configuration file and was served by the handler of the route it addresses: of all
  the routes of the configuration whose path the request's path matches, the longest one. When the
  token file has tokens, the request carries the Bearer token of one of them, and if the addressed
  route has an allowlist, it names the client of that very token. Without tokens the addressed
  route has no allowlist.
\<close>

theorem daemon_effects_authorized:
  assumes "serve h cfgPath x o0 = (Inr st, x', o', calls)" "load_config h cfgPath = Inr c" "load_tokens h c = Inr tokens"
    and "server_request (sh_platform h) getuid tr (run_server st) conn req d = (rep, evs, d')" "evs \<noteq> [] \<or> d' \<noteq> d"
  defines "paths \<equiv> map rt_Path (cfg_Routes c)"
    and "routes \<equiv> buildRoutes (sh_hooks h) (sh_op h) (case run_specs st of Some ss \<Rightarrow> ss | None \<Rightarrow> []) 0 (cfg_Routes c)"
  shows "(cfg_RequirePeerSID c \<noteq> [] \<longrightarrow> authorizeSID (ctx_peerSID (conn_ctx (sh_platform h) conn)) True (cfg_RequirePeerSID c)) \<and>
    (\<exists>i hd ctx req' resp. i < length (cfg_Routes c) \<and> addressed paths req (paths ! i) \<and>
       newRouteHandler (sh_parse h) (routes ! i) = Inr hd \<and> StripPrefix (paths ! i) req = Some req' \<and>
       serveHTTP tr hd ctx req' d = (resp, evs, d') \<and> rep = Replied resp) \<and>
    (\<forall>r \<in> set (cfg_Routes c). addressed paths req (rt_Path r) \<longrightarrow>
       (if tokens = [] then rt_AllowedClientIDs r = []
        else \<exists>t \<in> set tokens. extractBearer (Header_Values (ReqHeader req) ''Authorization'') = Some (Token t) \<and>
               (rt_AllowedClientIDs r = [] \<or> ID t \<in> set (rt_AllowedClientIDs r))))"
proof -
  have s: "srv_cfg (run_server st) = serve_config c tokens routes" "srv_tokens (run_server st) = token_entries tokens"
    "reachable_server (sh_platform h) (sh_parse h) (sh_net h) (srv_cfg (run_server st)) (run_server st)"
    using started_server [OF assms(1,2)] assms(3) by (auto simp: Let_def routes_def)
  have cfg: "Routes (srv_cfg (run_server st)) = routes" by (simp add: s(1) serve_config_def)
  have paths: "map RoutePath routes = paths" "length routes = length (cfg_Routes c)"
    by (simp_all add: routes_def paths_def buildRoutes_paths buildRoutes_length)
  have run: "mux_ServeHTTP (sh_platform h) getuid tr (run_server st) (conn_ctx (sh_platform h) conn) req d = (rep, evs, d')"
    using assms(4) by (simp add: server_request_def)
  note effect = mux_ServeHTTP_effect [OF reachable_server_ok [OF s(3)] run assms(5), unfolded cfg paths(1)]
  then obtain ctx rt hd req' resp where gate: "server_gate (sh_platform h) getuid (run_server st) (conn_ctx (sh_platform h) conn) req = Inr ctx"
    and rt: "rt \<in> set routes" "addressed paths req (RoutePath rt)" "\<forall>rt' \<in> set routes. addressed paths req (RoutePath rt') \<longrightarrow> rt' = rt" "route_permits rt ctx"
    and eff: "newRouteHandler (sh_parse h) rt = Inr hd" "StripPrefix (RoutePath rt) req = Some req'" "serveHTTP tr hd ctx req' d = (resp, evs, d')" "rep = Replied resp"
    by blast
  have g: "authMiddleware (sh_platform h) getuid (srv_cfg (run_server st)) (token_entries tokens) (conn_ctx (sh_platform h) conn) (ReqHeader req) = Inr ctx"
    using gate s(2) by simp
  obtain i where i: "i < length (cfg_Routes c)" "routes ! i = rt" using rt(1) paths(2) by (metis in_set_conv_nth)
  have pi: "paths ! i = RoutePath rt" using i paths by (metis nth_map)
  have sid: "cfg_RequirePeerSID c \<noteq> [] \<longrightarrow> authorizeSID (ctx_peerSID (conn_ctx (sh_platform h) conn)) True (cfg_RequirePeerSID c)"
    using g by (auto simp: authMiddleware_def s(1) serve_config_def split: if_splits)
  have some: "\<exists>t \<in> set tokens. extractBearer (Header_Values (ReqHeader req) ''Authorization'') = Some (Token t) \<and> ctx_tokenID ctx = ID t" if "tokens \<noteq> []"
    using authMiddleware_token [OF g] that by (force simp: s(1) token_entries_def)
  have perm: "if tokens = [] then rt_AllowedClientIDs r = []
        else \<exists>t \<in> set tokens. extractBearer (Header_Values (ReqHeader req) ''Authorization'') = Some (Token t) \<and>
               (rt_AllowedClientIDs r = [] \<or> ID t \<in> set (rt_AllowedClientIDs r))"
    if r: "r \<in> set (cfg_Routes c)" "addressed paths req (rt_Path r)" for r
  proof -
    obtain rt' where "rt' \<in> set routes" "RoutePath rt' = rt_Path r" "AllowedClientIDs rt' = rt_AllowedClientIDs r"
      using buildRoutes_allowed [OF r(1)] unfolding routes_def by metis
    then have "AllowedClientIDs rt = rt_AllowedClientIDs r" using rt(3) r(2) by auto
    then have "rt_AllowedClientIDs r = [] \<or> ctx_tokenID ctx \<in> set (rt_AllowedClientIDs r)"
      using rt(4) by (auto simp: route_permits_def clientAllowed_def list_ex_iff split: if_splits)
    then show ?thesis using load_tokens_ids [OF assms(3) r(1)] some by (cases "tokens = []") auto
  qed
  show ?thesis
  proof (intro conjI sid ballI impI)
    show "\<exists>i hd ctx req' resp. i < length (cfg_Routes c) \<and> addressed paths req (paths ! i) \<and>
       newRouteHandler (sh_parse h) (routes ! i) = Inr hd \<and> StripPrefix (paths ! i) req = Some req' \<and>
       serveHTTP tr hd ctx req' d = (resp, evs, d') \<and> rep = Replied resp"
      using i pi rt(2) eff by metis
  qed (rule perm)
qed

theorem daemon_effects_authorized_witness:
  "\<exists>st calls rep evs d'. serve flow_host ''c.toml'' 0 () = (Inr st, 0, (), calls) \<and>
     server_request (sh_platform flow_host) 1000 (\<lambda>_ w. (Inl (PlainError ''unused''), w)) (run_server st) demo_conn
       (client_request ''env/'' ''s3cret'') (flow_daemon ''old'' 7) = (rep, evs, d') \<and> evs \<noteq> [] \<and>
     addressed (map rt_Path (cfg_Routes flow_config)) (client_request ''env/'' ''s3cret'') (rt_Path flow_route) \<and>
     (rt_AllowedClientIDs flow_route = [] \<or> ''ci'' \<in> set (rt_AllowedClientIDs flow_route))"
proof -
  obtain st calls where st: "serve flow_host ''c.toml'' 0 () = (Inr st, 0, (), calls)" using flow_serve by blast
  obtain rep evs d' where run: "server_request (sh_platform flow_host) 1000 (\<lambda>_ w. (Inl (PlainError ''unused''), w)) (run_server st) demo_conn
       (client_request ''env/'' ''s3cret'') (flow_daemon ''old'' 7) = (rep, evs, d')" "evs \<noteq> []"
    using flow_request [OF st] by blast
  have r: "cfg_Routes flow_config = [flow_route]" by (simp add: flow_config_def)
  note main = daemon_effects_authorized [OF st flow_load flow_tokens run(1), unfolded r]
  have a: "addressed (map rt_Path [flow_route]) (client_request ''env/'' ''s3cret'') (rt_Path flow_route)" using main run(2) by auto
  have "rt_AllowedClientIDs flow_route = [] \<or> ''ci'' \<in> set (rt_AllowedClientIDs flow_route)" using main a run(2) by auto
  with st run a r show ?thesis by (metis (no_types, lifting))
qed

end
